(* ===== verification/Prelude.thy ===== *)
theory Prelude
  imports Main "HOL-Library.Word" "HOL-Library.Char_ord" "HOL-Library.List_Lexorder"
begin

text \<open>
  Shared vocabulary of the development: the outcomes of a Go call, the error values of the
  packages, Go's unsigned integers as words, byte strings with the big-endian encodings of
  \<open>encoding/binary\<close>, and the generic lemmas that the components use.

  A Go function with results \<open>(T, error)\<close> is modelled by a value of type \<open>(error + T) go\<close>,
  or with the updated receiver beside it.  A Go \<open>string\<close> and a \<open>[]byte\<close> are both sequences of
  bytes and are modelled by \<open>char list\<close> (a HOL \<open>char\<close> is a byte), so that the conversions
  \<open>[]byte(s)\<close> and \<open>string(b)\<close> are the identity.
\<close>

section \<open>Integers and byte strings\<close>

type_synonym u64 = "64 word"
type_synonym u32 = "32 word"
type_synonym u16 = "16 word"
type_synonym u8 = "8 word"
type_synonym bytes = string

named_theorems be_simps \<open>big-endian encodings\<close>
named_theorems go_simps \<open>outcomes of Go calls\<close>

section \<open>Outcomes and errors\<close>

text \<open>
  A call returns, panics (nil dereference, index out of range, write to a nil map, an explicit
  \<open>panic\<close>), or never returns because the goroutine waits for ever on a lock it holds itself
  or recurses without end.
\<close>

datatype 'a go = Ret 'a | Panic | Block

primrec go_bind :: "'a go \<Rightarrow> ('a \<Rightarrow> 'b go) \<Rightarrow> 'b go" where
  "go_bind (Ret x) f = f x"
| "go_bind Panic f = Panic"
| "go_bind Block f = Block"

definition returns :: "'a go \<Rightarrow> bool" where
  "returns m \<longleftrightarrow> (\<exists>x. m = Ret x)"

text \<open>
  Go compares error values by identity, so each package-level error variable is a constructor
  of its own.  \<open>ErrText\<close> is an error made on the spot by \<open>errors.New\<close> or \<open>fmt.Errorf\<close>, and
  \<open>ErrExt\<close> one that comes from a package outside the repository or from the operating system.
\<close>

datatype error =
    ErrDuplicateID | ErrInvalidID | ErrNotFound
  | ErrDecryptionFailed | ErrDuplicateMailbox
  | ErrDatabaseNotOpen
  | ErrInvalidEmail | ErrGetPubKeySent | ErrAckMissing
  | ErrUnrecognizedAck | ErrNoAckExpected | ErrNoMessageFound | ErrMissingPrivateID
  | ErrUnknownKeyfileVersion | ErrKeyfileDecryptionFailed | ErrDuplicateIdentity | ErrNonexistentIdentity
  | ErrInvalidPrivateID | ErrIdentityNotFound
  | ErrServerStopped | ErrInvalidString | ErrInvalidBoolean | ErrInvalidSymbol | ErrInvalidType
  | ErrInvalidRPCRequest | ErrSuccessCode
  | ErrText string
  | ErrExt string

text \<open>The text of an error, as \<open>Error()\<close> gives it.\<close>

primrec error_text :: "error \<Rightarrow> string" where
  "error_text ErrDuplicateID = ''duplicate ID''"
| "error_text ErrInvalidID = ''invalid ID''"
| "error_text ErrNotFound = ''record not found''"
| "error_text ErrDecryptionFailed = ''invalid passphrase''"
| "error_text ErrDuplicateMailbox = ''duplicate mailbox''"
| "error_text ErrDatabaseNotOpen = ''database not open''"
| "error_text ErrInvalidEmail = ''From address must be of the form ^BM-[123456789abcdefghijkmnopqrstuvwxyzABCDEFGHJKLMNPQRSTUVWXYZ]+@bm'' @ [CHR 0x5C] @ ''.addr$.''"
| "error_text ErrGetPubKeySent = ''GetPubKey request sent''"
| "error_text ErrAckMissing = ''Ack missing''"
| "error_text ErrUnrecognizedAck = ''Unrecognized ack''"
| "error_text ErrNoAckExpected = ''No ack expected''"
| "error_text ErrNoMessageFound = ''No message found''"
| "error_text ErrMissingPrivateID = ''Private id not found''"
| "error_text ErrUnknownKeyfileVersion = ''unknown keyfile version''"
| "error_text ErrKeyfileDecryptionFailed = ''invalid passphrase''"
| "error_text ErrDuplicateIdentity = ''identity already in key manager''"
| "error_text ErrNonexistentIdentity = ''identity doesn'' @ [CHR 0x27] @ ''t exist''"
| "error_text ErrInvalidPrivateID = ''Invalid Private ID''"
| "error_text ErrIdentityNotFound = ''identity not found''"
| "error_text ErrServerStopped = ''Server is not running.''"
| "error_text ErrInvalidString = ''Invalid string pattern. Should be delimited by '' @ [CHR 0x22] @ '' ''"
| "error_text ErrInvalidBoolean = ''Boolean should be '' @ [CHR 0x27] @ ''true'' @ [CHR 0x27] @ '' or '' @ [CHR 0x27] @ ''false'' @ [CHR 0x27]"
| "error_text ErrInvalidSymbol = ''Boolean should be '' @ [CHR 0x27] @ ''true'' @ [CHR 0x27] @ '' or '' @ [CHR 0x27] @ ''false'' @ [CHR 0x27]"
| "error_text ErrInvalidType = ''Cannot read the given type.''"
| "error_text ErrInvalidRPCRequest = ''Invalid rpc request.''"
| "error_text ErrSuccessCode = ''decryption successful''"
| "error_text (ErrText s) = s"
| "error_text (ErrExt s) = s"

lemma returns_Ret [simp]: "returns (Ret x)"
  by (simp add: returns_def)

lemma returns_Panic [simp]: "\<not> returns Panic" and returns_Block [simp]: "\<not> returns Block"
  by (simp_all add: returns_def)

lemma go_bind_Ret_conv: "go_bind m f = Ret y \<longleftrightarrow> (\<exists>x. m = Ret x \<and> f x = Ret y)"
  by (cases m) simp_all

lemma go_bind_assoc: "go_bind (go_bind m f) g = go_bind m (\<lambda>x. go_bind (f x) g)"
  by (cases m) simp_all

text \<open>A call whose error is passed on.\<close>

lemma go_try_Inr [go_simps]:
  "go_bind m (\<lambda>r. case r of Inl e \<Rightarrow> Ret (Inl e) | Inr x \<Rightarrow> f x) = Ret (Inr y) \<longleftrightarrow>
    (\<exists>x. m = Ret (Inr x) \<and> f x = Ret (Inr y))"
proof (cases m)
  case (Ret r)
  then show ?thesis by (cases r) simp_all
qed simp_all

section \<open>Big-endian encodings\<close>

text \<open>
  \<open>be n x\<close> is the \<open>n\<close>-byte big-endian encoding of \<open>x\<close> (modulo \<open>256 ^ n\<close>) and
  \<open>unbe\<close> reads a byte string back.
\<close>

fun be :: "nat \<Rightarrow> nat \<Rightarrow> bytes" where
  "be 0 x = []"
| "be (Suc n) x = char_of (x div 256 ^ n) # be n x"

definition unbe :: "bytes \<Rightarrow> nat" where
  "unbe bs = foldl (\<lambda>a c. a * 256 + of_char c) 0 bs"

definition PutUint64 :: "u64 \<Rightarrow> bytes" where
  "PutUint64 w = be 8 (unat w)"

definition PutUint32 :: "u32 \<Rightarrow> bytes" where
  "PutUint32 w = be 4 (unat w)"

definition Uint64 :: "bytes \<Rightarrow> u64 go" where
  "Uint64 b = (if length b < 8 then Panic else Ret (of_nat (unbe (take 8 b))))"

definition Uint32 :: "bytes \<Rightarrow> u32 go" where
  "Uint32 b = (if length b < 4 then Panic else Ret (of_nat (unbe (take 4 b))))"

lemma length_be [simp]: "length (be n x) = n"
  by (induction n) simp_all

lemma length_PutUint64 [simp]: "length (PutUint64 w) = 8"
  by (simp add: PutUint64_def)

lemma length_PutUint32 [simp]: "length (PutUint32 w) = 4"
  by (simp add: PutUint32_def)

lemma foldl_unbe: "foldl (\<lambda>a c. a * 256 + of_char c) a bs = a * 256 ^ length bs + unbe bs"
proof (induction bs arbitrary: a)
  case Nil
  then show ?case by (simp add: unbe_def)
next
  case (Cons c bs)
  have "unbe (c # bs) = of_char c * 256 ^ length bs + unbe bs"
    using Cons.IH [of "of_char c"] by (simp add: unbe_def)
  with Cons.IH [of "a * 256 + of_char c"] show ?case by (simp add: algebra_simps)
qed

lemma unbe_Nil [simp]: "unbe [] = 0"
  by (simp add: unbe_def)

lemma unbe_Cons: "unbe (c # bs) = of_char c * 256 ^ length bs + unbe bs"
  using foldl_unbe [of "of_char c" bs] by (simp add: unbe_def)

lemma unbe_bound: "unbe bs < 256 ^ length bs"
proof (induction bs)
  case (Cons c bs)
  have "of_char c < (256::nat)" by simp
  then have "of_char c * 256 ^ length bs + 256 ^ length bs \<le> (256::nat) * 256 ^ length bs"
    by (metis (no_types, lifting) Suc_leI add.commute mult_Suc mult_le_mono1)
  moreover have "unbe (c # bs) < of_char c * 256 ^ length bs + 256 ^ length bs"
    using Cons.IH by (simp add: unbe_Cons)
  ultimately show ?case by (simp only: list.size(4) One_nat_def add_Suc_right add_0_right power_Suc)
qed simp

lemma unbe_be: "unbe (be n x) = x mod 256 ^ n"
proof (induction n)
  case (Suc n)
  have "x mod (256 * 256 ^ n) = 256 ^ n * (x div 256 ^ n mod 256) + x mod 256 ^ n"
    by (metis mod_mult2_eq mult.commute)
  with Suc.IH show ?case
    by (simp add: unbe_Cons of_char_of algebra_simps)
qed simp

lemma be_mod: "be n (x mod 256 ^ m) = be n x" if "n \<le> m"
  using that
proof (induction n)
  case (Suc n)
  then have "256 ^ m = 256 ^ n * (256::nat) ^ (m - n)" and dvd: "256 dvd (256::nat) ^ (m - n)"
    by (simp_all flip: power_add)
  then have "x mod 256 ^ m div 256 ^ n mod 256 = x div 256 ^ n mod 256"
    by (simp add: mod_mult2_eq mod_mod_cancel)
  then have "char_of (x mod 256 ^ m div 256 ^ n) = (char_of (x div 256 ^ n) :: char)"
    by (metis char_of_mod_256)
  with Suc show ?case by simp
qed simp

lemma be_add: "be (length bs) (a * 256 ^ length bs + unbe bs) = bs"
proof (induction bs arbitrary: a)
  case (Cons c bs)
  let ?n = "length bs"
  have e: "a * 256 ^ Suc ?n + unbe (c # bs) = (a * 256 + of_char c) * 256 ^ ?n + unbe bs"
    by (simp add: unbe_Cons algebra_simps)
  have "((a * 256 + of_char c) * 256 ^ ?n + unbe bs) div 256 ^ ?n = a * 256 + of_char c"
    using unbe_bound [of bs] by simp
  moreover have "char_of (a * 256 + of_char c) = c"
    by (metis char_of_char char_of_mod_256 mod_mult_self3)
  ultimately show ?case using Cons.IH [of "a * 256 + of_char c"] e by simp
qed simp

lemma be_unbe: "length bs = n \<Longrightarrow> be n (unbe bs) = bs"
  using be_add [of bs 0] by simp

lemma be_inject: "x < 256 ^ n \<Longrightarrow> y < 256 ^ n \<Longrightarrow> be n x = be n y \<longleftrightarrow> x = y"
  by (metis mod_less unbe_be)

lemma be_less: "x < 256 ^ n \<Longrightarrow> y < 256 ^ n \<Longrightarrow> be n x < be n y \<longleftrightarrow> x < y"
proof (induction n arbitrary: x y)
  case (Suc n)
  let ?b = "256 ^ n :: nat"
  have dx: "x div ?b < 256" and dy: "y div ?b < 256"
    using Suc.prems by (simp_all add: less_mult_imp_div_less mult.commute)
  have ch: "(char_of (x div ?b) :: char) < char_of (y div ?b) \<longleftrightarrow> x div ?b < y div ?b"
    and ce: "(char_of (x div ?b) :: char) = char_of (y div ?b) \<longleftrightarrow> x div ?b = y div ?b"
    using dx dy by (simp_all add: less_char_def char_of_eq_iff take_bit_eq_mod)
  have ih: "be n x < be n y \<longleftrightarrow> x mod ?b < y mod ?b"
    using Suc.IH [of "x mod ?b" "y mod ?b"] by (simp add: be_mod)
  have "x < y \<longleftrightarrow> x div ?b < y div ?b \<or> x div ?b = y div ?b \<and> x mod ?b < y mod ?b"
    by (smt (verit) div_le_mono div_mult_mod_eq less_le nat_add_left_cancel_less nle_le not_less)
  with ih ch ce show ?case by simp
qed simp


lemma unat_lt_be8: "unat (w :: u64) < 256 ^ 8"
  using unsigned_less [of w, where 'a = nat] by simp

lemma unat_lt_be4: "unat (w :: u32) < 256 ^ 4"
  using unsigned_less [of w, where 'a = nat] by simp

lemma unat_of_nat_u64: "n < 2 ^ 64 \<Longrightarrow> unat (of_nat n :: u64) = n"
  by (simp add: unsigned_of_nat take_bit_nat_eq_self)

lemma unat_of_nat_u32: "n < 2 ^ 32 \<Longrightarrow> unat (of_nat n :: u32) = n"
  by (simp add: unsigned_of_nat take_bit_nat_eq_self)

lemma unat_plus_one: "x \<noteq> - 1 \<Longrightarrow> unat (x + 1 :: 'a::len word) = Suc (unat x)"
proof -
  assume "x \<noteq> - 1"
  then have "x + 1 \<noteq> 0" by (metis add.commute add_eq_0_iff)
  then show ?thesis by (metis add.commute unatSuc)
qed

lemma word_succ_less:
  assumes "x \<noteq> (- 1 :: 'a::len word)"
  shows "x < x + 1" and "x + 1 \<noteq> 0" and "k < x + 1 \<longleftrightarrow> k \<le> x"
  using unat_plus_one [OF assms] by (auto simp: word_less_nat_alt word_le_nat_alt unat_eq_0 [symmetric])

lemma two_not_le_one_u64 [simp]: "\<not> (2 :: u64) \<le> 1"
  by (simp add: word_le_nat_alt)

lemma PutUint64_inject [be_simps]: "PutUint64 a = PutUint64 b \<longleftrightarrow> a = b"
  by (simp only: PutUint64_def be_inject unat_lt_be8 word_unat_eq_iff)

lemma PutUint64_less [be_simps]: "PutUint64 a < PutUint64 b \<longleftrightarrow> a < b"
  by (simp only: PutUint64_def be_less unat_lt_be8 word_less_nat_alt)

lemma PutUint64_le [be_simps]: "PutUint64 a \<le> PutUint64 b \<longleftrightarrow> a \<le> b"
  by (meson PutUint64_less linorder_not_le)

lemma Uint64_PutUint64 [simp]: "Uint64 (PutUint64 a @ bs) = Ret a"
proof -
  have "unbe (PutUint64 a) = unat a"
    using unat_lt_be8 [of a] by (simp add: PutUint64_def unbe_be)
  then show ?thesis by (simp add: Uint64_def)
qed

lemma Uint64_PutUint64_only [simp]: "Uint64 (PutUint64 a) = Ret a"
  using Uint64_PutUint64 [of a "[]"] by (simp only: append_Nil2)

lemma Uint32_PutUint32 [simp]: "Uint32 (PutUint32 a @ bs) = Ret a"
proof -
  have "unbe (PutUint32 a) = unat a"
    using unat_lt_be4 [of a] by (simp add: PutUint32_def unbe_be)
  then show ?thesis by (simp add: Uint32_def)
qed

section \<open>The byte order on keys\<close>

text \<open>
  Byte strings are compared lexicographically, as \<open>bytes.Compare\<close> does; keys of equal length
  are compared before what follows them.
\<close>

lemma append_less_same_length:
  "length a = length b \<Longrightarrow>
    (a @ c < b @ d) = (a < b \<or> a = b \<and> c < (d :: 'a::linorder list))"
  by (induction a b rule: list_induct2) auto

lemma append_le_same_length:
  "length a = length b \<Longrightarrow>
    (a @ c \<le> b @ d) = (a < b \<or> a = b \<and> c \<le> (d :: 'a::linorder list))"
  by (induction a b rule: list_induct2) auto

lemma le_append_same_length:
  "length a = length b \<Longrightarrow> (a \<le> b @ c) = (a \<le> (b :: 'a::linorder list))"
  by (induction a b rule: list_induct2) auto

lemma longer_le_shorter_append:
  "length d < length a \<Longrightarrow> a \<le> d \<Longrightarrow> a @ c < (d :: 'a::linorder list)"
proof (induction a arbitrary: d)
  case (Cons x a)
  then show ?case by (cases d) auto
qed simp

section \<open>Lists and maps\<close>

lemma map_of_filter_key:
  "map_of (filter (\<lambda>(k, _). P k) es) k = (if P k then map_of es k else None)"
  by (induction es) auto

lemma hd_filter_sorted_least:
  assumes "sorted_wrt (<) (map fst es)" and "filter (\<lambda>(k', _). P k') es = (k, v) # rest"
  shows "map_of es k = Some v \<and> P k \<and> (\<forall>k' v'. (k', v') \<in> set es \<longrightarrow> P k' \<longrightarrow> k \<le> (k' :: 'k::linorder))"
  using assms
proof (induction es)
  case (Cons e es)
  obtain k1 v1 where e: "e = (k1, v1)" by (cases e)
  show ?case
  proof (cases "P k1")
    case True
    with Cons.prems e have "k1 = k" "v1 = v" by auto
    with Cons.prems e True show ?thesis by (auto dest: order.strict_implies_order)
  next
    case False
    with Cons e have ih: "map_of es k = Some v \<and> P k \<and>
        (\<forall>k' v'. (k', v') \<in> set es \<longrightarrow> P k' \<longrightarrow> k \<le> k')"
      by auto
    with False e show ?thesis by auto
  qed
qed simp

lemma sorted_keys_distinct: "sorted_wrt (<) (map fst es) \<Longrightarrow> distinct (map (fst :: _ \<Rightarrow> 'k::linorder) es)"
  by (simp add: strict_sorted_iff)

lemma strict_sorted_map_of_inject:
  assumes "sorted_wrt (<) (map fst xs)" "sorted_wrt (<) (map fst ys)"
    and "map_of xs = map_of (ys :: ('k::linorder \<times> 'v) list)"
  shows "xs = ys"
proof -
  have "set xs = set ys"
    using assms by (metis map_of_inject_set sorted_keys_distinct)
  then have "map fst xs = map fst ys"
    using assms(1,2) by (metis list.set_map strict_sorted_equal)
  then have "length xs = length ys" by (metis length_map)
  moreover have "xs ! i = ys ! i" if "i < length xs" for i
  proof -
    from that \<open>length xs = length ys\<close> have y: "ys ! i \<in> set xs"
      using \<open>set xs = set ys\<close> by simp
    have "fst (xs ! i) = fst (ys ! i)"
      using \<open>map fst xs = map fst ys\<close> that \<open>length xs = length ys\<close> by (metis nth_map)
    with y that show ?thesis
      using assms(1) by (metis eq_key_imp_eq_value nth_mem prod.collapse sorted_keys_distinct)
  qed
  ultimately show ?thesis by (rule nth_equalityI)
qed

lemma distinct_one: "set xs = {x} \<Longrightarrow> distinct xs \<Longrightarrow> xs = [x]"
proof (cases xs)
  case (Cons a as)
  assume "set xs = {x}" "distinct xs"
  with Cons have "a = x" "x \<notin> set as" "set as \<subseteq> {x}" by auto
  with Cons show ?thesis by (cases as) auto
qed simp

end
