(* ===== verification/Float64.thy ===== *)
theory Float64
  imports Prelude "HOL-Library.Log_Nat"
begin

text \<open>
  Go's \<open>float64\<close> on non-negative numbers: a value is a rational, and every operation rounds the exact
  result to the nearest value with a 53-bit significand, ties to even.  The smallest positive value is
  \<open>2 ^ -1074\<close>.  Results that are not finite (division by zero) are \<open>None\<close>.  Overflow does not occur
  below \<open>2 ^ 1024\<close>, far above what the packages compute.
\<close>

section \<open>Rounding\<close>

definition round_even :: "rat \<Rightarrow> int" where
  "round_even x =
     (let f = \<lfloor>x\<rfloor>; d = x - of_int f
      in if d < 1 / 2 then f else if 1 / 2 < d then f + 1 else if even f then f else f + 1)"

text \<open>Rounding of \<open>y = x * 2 ^ 1074\<close>: \<open>quantum y\<close> low bits are dropped.\<close>

definition quantum :: "rat \<Rightarrow> nat" where
  "quantum y = nat (bitlen \<lfloor>y\<rfloor> - 53)"

definition round_scaled :: "rat \<Rightarrow> rat" where
  "round_scaled y = of_int (round_even (y / 2 ^ quantum y)) * 2 ^ quantum y"

definition scale :: rat where "scale = 2 ^ 1074"

definition fl :: "rat \<Rightarrow> rat" where
  "fl x = round_scaled (x * scale) / scale"

section \<open>Operations\<close>

type_synonym float64 = "rat option"

definition float64_of :: "nat \<Rightarrow> float64" where
  "float64_of n = Some (fl (of_nat n))"

definition fdiv :: "float64 \<Rightarrow> float64 \<Rightarrow> float64" where
  "fdiv a b = (case (a, b) of (Some x, Some y) \<Rightarrow> if y = 0 then None else Some (fl (x / y)) | _ \<Rightarrow> None)"

definition fmul :: "float64 \<Rightarrow> float64 \<Rightarrow> float64" where
  "fmul a b = (case (a, b) of (Some x, Some y) \<Rightarrow> Some (fl (x * y)) | _ \<Rightarrow> None)"

definition fadd :: "float64 \<Rightarrow> float64 \<Rightarrow> float64" where
  "fadd a b = (case (a, b) of (Some x, Some y) \<Rightarrow> Some (fl (x + y)) | _ \<Rightarrow> None)"

definition ffloor :: "float64 \<Rightarrow> float64" where
  "ffloor a = map_option (\<lambda>x. of_int \<lfloor>x\<rfloor>) a"

text \<open>
  The conversion \<open>uint32(x)\<close> truncates; the result for a value that is not finite or out of range
  depends on the implementation of Go and is the parameter \<open>impl\<close>.
\<close>

definition uint32_of :: "(float64 \<Rightarrow> u32) \<Rightarrow> float64 \<Rightarrow> u32" where
  "uint32_of impl a =
     (case a of
        None \<Rightarrow> impl None
      | Some x \<Rightarrow> if 0 \<le> x \<and> x < 2 ^ 32 then word_of_int \<lfloor>x\<rfloor> else impl (Some x))"

section \<open>Properties of rounding\<close>

lemma round_even_floor: "\<lfloor>x\<rfloor> \<le> round_even x"
  by (auto simp: round_even_def Let_def)

lemma round_even_error: "\<bar>of_int (round_even x) - x\<bar> \<le> 1 / 2"
proof -
  have "of_int \<lfloor>x\<rfloor> \<le> x" "x < of_int \<lfloor>x\<rfloor> + 1" using floor_correct [of x] by simp_all
  then consider "round_even x = \<lfloor>x\<rfloor>" "x - of_int \<lfloor>x\<rfloor> \<le> 1 / 2" "of_int \<lfloor>x\<rfloor> \<le> x"
    | "round_even x = \<lfloor>x\<rfloor> + 1" "1 / 2 \<le> x - of_int \<lfloor>x\<rfloor>" "x < of_int \<lfloor>x\<rfloor> + 1"
    by (cases "x - of_int \<lfloor>x\<rfloor> < 1 / 2"; cases "1 / 2 < x - of_int \<lfloor>x\<rfloor>"; cases "even \<lfloor>x\<rfloor>")
      (simp_all add: round_even_def Let_def)
  then show ?thesis
  proof cases
    case 1
    then show ?thesis by simp
  next
    case 2
    then show ?thesis by simp
  qed
qed

lemma round_even_int [simp]: "round_even (of_int n) = n"
  by (simp add: round_even_def)

lemma round_even_mono: "x \<le> y \<Longrightarrow> round_even x \<le> round_even y"
proof -
  assume le: "x \<le> y"
  show ?thesis
  proof (cases "\<lfloor>x\<rfloor> = \<lfloor>y\<rfloor>")
    case True
    with le show ?thesis by (auto simp: round_even_def Let_def)
  next
    case False
    then have "\<lfloor>x\<rfloor> + 1 \<le> \<lfloor>y\<rfloor>" using floor_mono [OF le] by simp
    moreover have "round_even x \<le> \<lfloor>x\<rfloor> + 1" by (auto simp: round_even_def Let_def)
    ultimately show ?thesis using round_even_floor [of y] by simp
  qed
qed

lemma round_even_le_int: "x \<le> of_int n \<Longrightarrow> round_even x \<le> n"
  using round_even_mono [of x "of_int n"] by simp

lemma round_even_ge_int: "of_int n \<le> x \<Longrightarrow> n \<le> round_even x"
  using round_even_mono [of "of_int n" x] by simp

lemma quantum_upper: "0 \<le> y \<Longrightarrow> y < 2 ^ (53 + quantum y)"
proof -
  assume y: "0 \<le> y"
  have "\<lfloor>y\<rfloor> < 2 ^ (53 + quantum y)"
  proof (cases "\<lfloor>y\<rfloor> = 0")
    case False
    with y have p: "\<lfloor>y\<rfloor> > 0" by (simp add: order.strict_iff_order)
    have "\<lfloor>y\<rfloor> < 2 ^ nat (bitlen \<lfloor>y\<rfloor>)" using bitlen_bounds [OF p] by simp
    also have "\<dots> \<le> 2 ^ (53 + quantum y)" by (rule power_increasing) (simp_all add: quantum_def)
    finally show ?thesis .
  qed simp
  then have "\<lfloor>y\<rfloor> + 1 \<le> 2 ^ (53 + quantum y)" by simp
  then have "of_int (\<lfloor>y\<rfloor> + 1) \<le> (of_int (2 ^ (53 + quantum y)) :: rat)" by (simp only: of_int_le_iff)
  moreover have "y < of_int (\<lfloor>y\<rfloor> + 1)" using floor_correct [of y] by simp
  ultimately show ?thesis by simp
qed

lemma quantum_lower: "0 < quantum y \<Longrightarrow> 2 ^ (52 + quantum y) \<le> y"
proof -
  assume q: "0 < quantum y"
  have p: "\<lfloor>y\<rfloor> > 0"
  proof (rule ccontr)
    assume "\<not> \<lfloor>y\<rfloor> > 0"
    then have "bitlen \<lfloor>y\<rfloor> = 0" by (cases "\<lfloor>y\<rfloor> = 0") (auto simp: bitlen_def floorlog_def)
    with q show False by (simp add: quantum_def)
  qed
  have "2 ^ (52 + quantum y) = (2 :: int) ^ nat (bitlen \<lfloor>y\<rfloor> - 1)"
    using q by (intro arg_cong [of _ _ "\<lambda>n. 2 ^ n"]) (simp add: quantum_def)
  also have "\<dots> \<le> \<lfloor>y\<rfloor>" using bitlen_bounds [OF p] by simp
  finally have "of_int (2 ^ (52 + quantum y)) \<le> (of_int \<lfloor>y\<rfloor> :: rat)" by (simp only: of_int_le_iff)
  also have "\<dots> \<le> y" by simp
  finally show ?thesis by simp
qed

lemma quantum_mono: "0 \<le> y \<Longrightarrow> y \<le> z \<Longrightarrow> quantum y \<le> quantum z"
proof (rule ccontr)
  assume y: "0 \<le> y" "y \<le> z" and "\<not> quantum y \<le> quantum z"
  then have lt: "quantum z < quantum y" by simp
  have "z < 2 ^ (53 + quantum z)" using quantum_upper y by simp
  also have "\<dots> \<le> 2 ^ (52 + quantum y)" using lt by (intro power_increasing) simp_all
  also have "\<dots> \<le> y" using quantum_lower lt by simp
  finally show False using y by simp
qed

lemma round_scaled_mono:
  assumes "0 \<le> y" "y \<le> z"
  shows "round_scaled y \<le> round_scaled z"
proof (cases "quantum y = quantum z")
  case True
  have "round_even (y / 2 ^ quantum y) \<le> round_even (z / 2 ^ quantum z)"
    using assms True by (intro round_even_mono) (simp add: divide_right_mono)
  with True show ?thesis by (simp add: round_scaled_def)
next
  case False
  let ?p = "quantum y" and ?q = "quantum z"
  have lt: "?p < ?q" using False quantum_mono [OF assms] by simp
  have up: "y < 2 ^ (53 + ?p)" by (rule quantum_upper [OF assms(1)])
  then have "y / 2 ^ ?p \<le> of_int (2 ^ 53)" by (simp add: power_add divide_le_eq)
  then have "round_even (y / 2 ^ ?p) \<le> 2 ^ 53" by (rule round_even_le_int)
  then have "of_int (round_even (y / 2 ^ ?p)) \<le> (of_int (2 ^ 53) :: rat)" by (simp only: of_int_le_iff)
  then have "round_scaled y \<le> 2 ^ 53 * 2 ^ ?p" by (simp add: round_scaled_def)
  also have "\<dots> \<le> 2 ^ 52 * 2 ^ ?q"
  proof -
    have "(2 :: rat) ^ (53 + ?p) \<le> 2 ^ (52 + ?q)" using lt by (intro power_increasing) simp_all
    then show ?thesis by (simp only: power_add)
  qed
  also have "\<dots> \<le> round_scaled z"
  proof -
    have "2 ^ (52 + ?q) \<le> z" using quantum_lower lt by simp
    then have "of_int (2 ^ 52) \<le> z / 2 ^ ?q" by (simp add: power_add le_divide_eq)
    then have "2 ^ 52 \<le> round_even (z / 2 ^ ?q)" by (rule round_even_ge_int)
    then have "(of_int (2 ^ 52) :: rat) \<le> of_int (round_even (z / 2 ^ ?q))" by (simp only: of_int_le_iff)
    then show ?thesis by (simp add: round_scaled_def)
  qed
  finally show ?thesis .
qed

lemma round_scaled_exact:
  assumes "y = of_int m * 2 ^ k" "0 \<le> m" "m < 2 ^ 53"
  shows "round_scaled y = y"
proof -
  have "quantum y \<le> k"
  proof (rule ccontr)
    assume "\<not> quantum y \<le> k"
    then have q: "k < quantum y" by simp
    have "y < 2 ^ 53 * 2 ^ k"
    proof -
      have "(of_int m :: rat) < of_int (2 ^ 53)" using assms(3) by (simp only: of_int_less_iff)
      then show ?thesis using assms(1) by simp
    qed
    also have "\<dots> = 2 ^ (53 + k)" by (simp add: power_add)
    also have "\<dots> \<le> 2 ^ (52 + quantum y)" using q by (intro power_increasing) simp_all
    also have "\<dots> \<le> y" using quantum_lower q by simp
    finally show False by simp
  qed
  then have k: "(2 :: rat) ^ k = 2 ^ (k - quantum y) * 2 ^ quantum y" by (simp flip: power_add)
  define q where "q = quantum y"
  have "y / 2 ^ q = of_int (m * 2 ^ (k - q))"
    using k unfolding assms(1) by (simp flip: q_def [unfolded assms(1)])
  then have "round_even (y / 2 ^ q) = m * 2 ^ (k - q)" by (simp only: round_even_int)
  then have "round_scaled y = of_int (m * 2 ^ (k - q)) * 2 ^ q" unfolding round_scaled_def q_def by simp
  also have "\<dots> = of_int m * 2 ^ k" using k unfolding q_def by simp
  finally show ?thesis using assms(1) by simp
qed

lemma round_scaled_error:
  assumes "2 ^ 52 \<le> y"
  shows "\<bar>round_scaled y - y\<bar> \<le> y / 2 ^ 53"
proof -
  let ?q = "quantum y"
  have "\<bar>of_int (round_even (y / 2 ^ ?q)) - y / 2 ^ ?q\<bar> \<le> 1 / 2" by (rule round_even_error)
  then have "\<bar>of_int (round_even (y / 2 ^ ?q)) - y / 2 ^ ?q\<bar> * 2 ^ ?q \<le> 1 / 2 * 2 ^ ?q"
    by (rule mult_right_mono) simp
  moreover have "\<bar>of_int (round_even (y / 2 ^ ?q)) - y / 2 ^ ?q\<bar> * 2 ^ ?q = \<bar>round_scaled y - y\<bar>"
  proof -
    have "\<bar>a\<bar> * 2 ^ ?q = \<bar>a * 2 ^ ?q\<bar>" for a :: rat by (simp add: abs_mult)
    then show ?thesis by (simp add: round_scaled_def left_diff_distrib)
  qed
  moreover have "1 / 2 * 2 ^ ?q \<le> y / 2 ^ 53"
  proof (cases "?q = 0")
    case True
    with assms show ?thesis by simp
  next
    case False
    then have "2 ^ (52 + ?q) \<le> y" using quantum_lower by simp
    then show ?thesis by (simp add: power_add)
  qed
  ultimately show ?thesis by linarith
qed

text \<open>The three facts that the clients use.\<close>

lemma scale_pos: "0 < scale"
  by (simp add: scale_def)

lemma fl_mono: "0 \<le> x \<Longrightarrow> x \<le> y \<Longrightarrow> fl x \<le> fl y"
  unfolding fl_def using scale_pos by (intro divide_right_mono round_scaled_mono) simp_all

lemma fl_exact: "n < 2 ^ 53 \<Longrightarrow> fl (of_nat n) = of_nat n"
proof -
  assume "n < 2 ^ 53"
  then have "int n < 2 ^ 53" by (metis of_nat_less_iff of_nat_numeral of_nat_power)
  then have "round_scaled (of_nat n * scale) = of_nat n * scale"
    unfolding scale_def by (intro round_scaled_exact [of _ "int n" 1074]) simp_all
  then show ?thesis using scale_pos by (simp add: fl_def)
qed

lemma fl_error:
  assumes "1 / 2 ^ 1022 \<le> x"
  shows "\<bar>fl x - x\<bar> \<le> x / 2 ^ 53"
proof -
  have s: "scale = 2 ^ 52 * 2 ^ 1022" unfolding scale_def by (simp only: power_add [symmetric]) simp
  have "2 ^ 52 \<le> x * scale"
  proof -
    have "1 / 2 ^ 1022 * scale \<le> x * scale" using assms scale_pos by (intro mult_right_mono) simp_all
    then show ?thesis unfolding s by (simp only: times_divide_eq_left) simp
  qed
  from round_scaled_error [OF this]
  have "\<bar>round_scaled (x * scale) - x * scale\<bar> / scale \<le> x * scale / 2 ^ 53 / scale"
    using scale_pos by (intro divide_right_mono) simp_all
  moreover have "\<bar>round_scaled (x * scale) - x * scale\<bar> / scale = \<bar>fl x - x\<bar>"
  proof -
    have "\<bar>a\<bar> / scale = \<bar>a / scale\<bar>" for a using scale_pos by (simp add: abs_divide)
    then have "\<bar>round_scaled (x * scale) - x * scale\<bar> / scale = \<bar>round_scaled (x * scale) / scale - x * scale / scale\<bar>"
      by (simp only: diff_divide_distrib)
    then show ?thesis using scale_pos by (simp add: fl_def)
  qed
  moreover have "x * scale / 2 ^ 53 / scale = x / 2 ^ 53" using scale_pos by simp
  ultimately show ?thesis by simp
qed


lemma quantum_unique:
  assumes "2 ^ (52 + q) \<le> y" "y < 2 ^ (53 + q)"
  shows "quantum y = q"
proof (rule ccontr)
  assume "quantum y \<noteq> q"
  then consider "quantum y < q" | "q < quantum y" by linarith
  then show False
  proof cases
    case 1
    have "0 \<le> y" by (rule order_trans [OF _ assms(1)]) simp
    then have "y < 2 ^ (53 + quantum y)" by (rule quantum_upper)
    also have "\<dots> \<le> 2 ^ (52 + q)" using 1 by (intro power_increasing) simp_all
    finally show False using assms(1) by simp
  next
    case 2
    have "y < 2 ^ (53 + q)" by (rule assms(2))
    also have "\<dots> \<le> 2 ^ (52 + quantum y)" using 2 by (intro power_increasing) simp_all
    also have "\<dots> \<le> y" using quantum_lower 2 by simp
    finally show False by simp
  qed
qed

lemma fl_round:
  assumes "2 ^ (52 + p) \<le> x" "x < 2 ^ (53 + p)"
  shows "fl x = of_int (round_even (x / 2 ^ p)) * 2 ^ p"
proof -
  have "2 ^ (52 + p) * scale \<le> x * scale" "x * scale < 2 ^ (53 + p) * scale"
    using assms scale_pos by simp_all
  then have "quantum (x * scale) = p + 1074"
    unfolding scale_def by (intro quantum_unique) (simp_all only: power_add [symmetric] add.assoc)
  then have "round_scaled (x * scale) = of_int (round_even (x * scale / (2 ^ p * scale))) * (2 ^ p * scale)"
    by (simp only: round_scaled_def power_add scale_def [symmetric])
  then show ?thesis using scale_pos by (simp add: fl_def)
qed

end
