(* ===== verification/Sequence.thy ===== *)
theory Sequence
  imports Float64
begin

text \<open>
  \<open>MessageSequence\<close> of \<open>src/user/mailbox.go\<close>: the sorted uids of a mailbox and the interpolation
  search that turns a uid into a sequence number.  The search computes its probe in \<open>float64\<close>; the
  model rounds each operation separately.  The loop may run for ever, so it is a partial function
  whose value \<open>None\<close> means that it does not return.
\<close>

section \<open>The sequence\<close>

type_synonym MessageSequence = "u64 list"

partial_function (option) seq_loop ::
  "(float64 \<Rightarrow> u32) \<Rightarrow> MessageSequence \<Rightarrow> u64 \<Rightarrow> u32 \<Rightarrow> u32 \<Rightarrow> u64 \<Rightarrow> u64 \<Rightarrow> u32 go option" where
  "seq_loop impl uids uid minIndex maxIndex minUID maxUID =
     (let ratio = fdiv (float64_of (unat (uid - minUID))) (float64_of (unat (maxUID - minUID)));
          checkIndex = uint32_of impl (ffloor (fadd (float64_of (unat minIndex))
            (fmul ratio (float64_of (unat (maxIndex - minIndex))))))
      in if length uids \<le> unat checkIndex then Some Panic
         else let newUID = uids ! unat checkIndex
              in if newUID = uid then Some (Ret (checkIndex + 1))
                 else if uid < newUID
                 then seq_loop impl uids uid minIndex checkIndex minUID newUID
                 else let min2 = checkIndex + 1
                      in if length uids \<le> unat min2 then Some Panic
                         else if uid < uids ! unat min2 then Some (Ret (min2 + 1))
                         else seq_loop impl uids uid min2 maxIndex (uids ! unat min2) maxUID)"

definition GetSequenceNumber :: "(float64 \<Rightarrow> u32) \<Rightarrow> MessageSequence \<Rightarrow> u64 \<Rightarrow> u32 go" where
  "GetSequenceNumber impl uids uid =
     (if uids = [] then Ret 1
      else if uid < uids ! 0 then Ret 1
      else if uids ! (length uids - 1) < uid then Ret (of_nat (length uids + 1))
      else if length uids = 1 then Ret 1
      else let maxIndex = of_nat (length uids - 1) :: u32
           in if length uids \<le> unat maxIndex then Panic
              else case seq_loop impl uids uid 0 maxIndex (uids ! 0) (uids ! unat maxIndex) of
                     None \<Rightarrow> Block
                   | Some r \<Rightarrow> r)"

definition seq_Len :: "MessageSequence \<Rightarrow> nat" where
  "seq_Len uids = length uids"

definition seq_Less :: "MessageSequence \<Rightarrow> nat \<Rightarrow> nat \<Rightarrow> bool go" where
  "seq_Less uids i j =
     (if length uids \<le> i \<or> length uids \<le> j then Panic else Ret (uids ! i < uids ! j))"

definition seq_Swap :: "MessageSequence \<Rightarrow> nat \<Rightarrow> nat \<Rightarrow> MessageSequence go" where
  "seq_Swap uids i j =
     (if length uids \<le> i \<or> length uids \<le> j then Panic
      else let id1 = uids ! i in Ret ((uids[i := uids ! j])[j := id1]))"

section \<open>The probe\<close>

definition probe :: "nat \<Rightarrow> nat \<Rightarrow> nat \<Rightarrow> nat \<Rightarrow> rat" where
  "probe mn w a d = fl (fl (of_nat mn) + fl (fl (fl (of_nat a) / fl (of_nat d)) * fl (of_nat w)))"

lemma fl_0 [simp]: "fl 0 = 0"
  using fl_exact [of 0] by simp

lemma fl_1 [simp]: "fl 1 = 1"
  using fl_exact [of 1] by simp

lemma fl_nonneg: "0 \<le> x \<Longrightarrow> 0 \<le> fl x"
  using fl_mono [of 0 x] by simp

lemma fl_pos_nat: "0 < d \<Longrightarrow> 0 < fl (of_nat d)"
  using fl_mono [of 1 "of_nat d"] by simp

lemma fl_le_error: "1 / 2 \<le> x \<Longrightarrow> fl x \<le> x * (1 + 1 / 2 ^ 53)"
proof -
  assume x: "1 / 2 \<le> x"
  have "(1 :: rat) / 2 ^ 1022 \<le> 1 / 2 ^ 1" by (intro divide_left_mono power_increasing) simp_all
  with x have "1 / 2 ^ 1022 \<le> x" by (simp only: power_one_right)
  from fl_error [OF this] have "fl x \<le> x + x / 2 ^ 53" by linarith
  then show ?thesis by (simp add: ring_distribs)
qed

lemma probe_lower:
  assumes "mn < 2 ^ 53" "0 < d"
  shows "of_nat mn \<le> probe mn w a d"
proof -
  have "0 \<le> fl (fl (fl (of_nat a) / fl (of_nat d)) * fl (of_nat w))"
    by (intro fl_nonneg mult_nonneg_nonneg divide_nonneg_nonneg) simp_all
  then have "fl (of_nat mn) \<le> probe mn w a d"
    unfolding probe_def using assms by (intro fl_mono) (simp_all add: fl_exact)
  with assms show ?thesis by (simp add: fl_exact)
qed

lemma probe_top:
  assumes "mn + w < 2 ^ 53" "0 < d"
  shows "probe mn w d d = of_nat (mn + w)"
  using assms fl_pos_nat [of d] fl_exact [of "mn + w"] by (simp add: probe_def fl_exact)

lemma rounding_bound:
  fixes q e mn w n :: rat
  assumes e: "0 < e" "e < 1 / 8" and q: "(n + 2) * e < q" "q \<le> 1"
    and n: "mn + w + 1 \<le> n" "0 \<le> mn" "1 \<le> w"
  shows "(mn + (1 - q) * (1 + e) * w * (1 + e)) * (1 + e) < mn + w"
proof -
  have "(1 + e) * (1 + e) * (1 + e) \<le> 1 + 4 * e"
  proof -
    have "e * e \<le> 1 / 8 * e" using e by (intro mult_right_mono) simp_all
    moreover have "e * e * e \<le> 1 / 8 * (e * e)" using e by (simp add: mult.commute mult_right_mono)
    ultimately have "3 * (e * e) + e * e * e \<le> e" using e by linarith
    then show ?thesis by (simp add: algebra_simps)
  qed
  then have "(1 - q) * w * ((1 + e) * (1 + e) * (1 + e)) \<le> (1 - q) * w * (1 + 4 * e)"
    using q n by (intro mult_left_mono) simp_all
  also have "\<dots> \<le> w - q * w + 4 * e * w"
  proof -
    have "0 \<le> (n + 2) * e" using e n by (intro mult_nonneg_nonneg) simp_all
    with q have "0 \<le> q" by simp
    then have "0 \<le> 4 * (e * (q * w))" using e n by simp
    then show ?thesis by (simp add: algebra_simps)
  qed
  finally have a: "(1 - q) * w * ((1 + e) * (1 + e) * (1 + e)) \<le> w - q * w + 4 * e * w" .
  have "(mn + 4 * w) * e \<le> (mn + w + 3) * w * e"
  proof -
    have "mn * 1 \<le> mn * w" using n by (intro mult_left_mono) simp_all
    moreover have "1 * w \<le> w * w" using n by (intro mult_right_mono) simp_all
    ultimately have "mn + 4 * w \<le> (mn + w + 3) * w" by (simp add: ring_distribs)
    then show ?thesis using e by (intro mult_right_mono) simp_all
  qed
  also have "\<dots> < q * w"
  proof -
    have "(mn + w + 3) * e \<le> (n + 2) * e" using n e by (intro mult_right_mono) simp_all
    with q have "(mn + w + 3) * e < q" by simp
    then have "(mn + w + 3) * e * w < q * w" using n by (intro mult_strict_right_mono) simp_all
    then show ?thesis by (simp add: mult.commute mult.left_commute)
  qed
  finally have b: "mn * e + 4 * e * w < q * w" by (simp add: algebra_simps)
  have "(mn + (1 - q) * (1 + e) * w * (1 + e)) * (1 + e) =
      mn + mn * e + (1 - q) * w * ((1 + e) * (1 + e) * (1 + e))" by (simp add: algebra_simps)
  with a b show ?thesis by linarith
qed

lemma probe_upper:
  assumes "a < d" "mn + w < n" "0 < w" "(n + 2) * d < 2 ^ 53"
  shows "probe mn w a d < of_nat (mn + w)"
proof (cases "a = 0")
  case True
  have "n + 2 \<le> (n + 2) * d" using assms(1) by (cases d) simp_all
  with assms have "mn < 2 ^ 53" by linarith
  with True assms show ?thesis by (simp add: probe_def fl_exact)
next
  case False
  let ?e = "1 / 2 ^ 53 :: rat" and ?q = "1 / of_nat d :: rat"
  have "n + 2 \<le> (n + 2) * d" "d \<le> (n + 2) * d" using assms(1) by (cases d; simp)+
  with assms have bd: "d < 2 ^ 53" "a < 2 ^ 53" "w < 2 ^ 53" "mn < 2 ^ 53" by linarith+
  have d2: "2 \<le> d" using False assms(1) by simp
  have dq: "(of_nat (d - 1) :: rat) / of_nat d = 1 - ?q" using d2 by (simp add: of_nat_diff diff_divide_distrib)
  have q2: "?q \<le> 1 / 2"
    using d2 of_nat_mono [OF d2, where 'a = rat] by (simp add: divide_le_eq)
  have "of_nat a / of_nat d \<le> (of_nat (d - 1) :: rat) / of_nat d"
    using assms(1) by (intro divide_right_mono of_nat_mono) simp_all
  then have "fl (of_nat a / of_nat d) \<le> fl (1 - ?q)" unfolding dq by (intro fl_mono) simp_all
  also have "\<dots> \<le> (1 - ?q) * (1 + ?e)" using q2 by (intro fl_le_error) simp
  finally have r: "fl (of_nat a / of_nat d) \<le> (1 - ?q) * (1 + ?e)" .
  have h: "1 / 2 \<le> (1 - ?q) * (1 + ?e)"
    using mult_mono [of "1 / 2" "1 - ?q" 1 "1 + ?e"] q2 by simp
  have w1: "1 \<le> (of_nat w :: rat)" using assms(3) by simp
  have "fl (fl (of_nat a / of_nat d) * of_nat w) \<le> fl ((1 - ?q) * (1 + ?e) * of_nat w)"
    using r by (intro fl_mono mult_right_mono mult_nonneg_nonneg fl_nonneg) simp_all
  also have "\<dots> \<le> (1 - ?q) * (1 + ?e) * of_nat w * (1 + ?e)"
    using mult_mono [OF h w1] h by (intro fl_le_error) simp
  finally have p: "fl (fl (of_nat a / of_nat d) * of_nat w) \<le> (1 - ?q) * (1 + ?e) * of_nat w * (1 + ?e)" .
  have h2: "1 / 2 \<le> (1 - ?q) * (1 + ?e) * of_nat w * (1 + ?e)"
    using mult_mono [OF mult_mono [OF h w1], of 1 "1 + ?e"] h by simp
  have "probe mn w a d = fl (of_nat mn + fl (fl (of_nat a / of_nat d) * of_nat w))"
    using bd by (simp add: probe_def fl_exact)
  also have "\<dots> \<le> fl (of_nat mn + (1 - ?q) * (1 + ?e) * of_nat w * (1 + ?e))"
    using p by (intro fl_mono add_left_mono add_nonneg_nonneg mult_nonneg_nonneg fl_nonneg) simp_all
  also have "\<dots> \<le> (of_nat mn + (1 - ?q) * (1 + ?e) * of_nat w * (1 + ?e)) * (1 + ?e)"
    by (intro fl_le_error add_increasing [OF _ h2]) simp
  also have "\<dots> < of_nat mn + of_nat w"
  proof (rule rounding_bound [where n = "of_nat n"])
    have "(of_nat ((n + 2) * d) :: rat) < of_nat (2 ^ 53)" using assms(4) by (simp only: of_nat_less_iff)
    then show "(of_nat n + 2) * ?e < ?q" using d2 by (simp add: field_simps)
    have "mn + w + 1 \<le> n" using assms(2) by simp
    then show "of_nat mn + of_nat w + 1 \<le> (of_nat n :: rat)" by (metis of_nat_1 of_nat_add of_nat_mono)
  qed (use q2 w1 in simp_all)
  finally show ?thesis by simp
qed


section \<open>The search\<close>

definition check_index :: "(float64 \<Rightarrow> u32) \<Rightarrow> u64 \<Rightarrow> u32 \<Rightarrow> u32 \<Rightarrow> u64 \<Rightarrow> u64 \<Rightarrow> u32" where
  "check_index impl uid minIndex maxIndex minUID maxUID =
     uint32_of impl (ffloor (fadd (float64_of (unat minIndex))
       (fmul (fdiv (float64_of (unat (uid - minUID))) (float64_of (unat (maxUID - minUID))))
         (float64_of (unat (maxIndex - minIndex))))))"

lemma u32_of_floor:
  assumes "of_nat m \<le> x" "x < of_nat k" "k \<le> 2 ^ 32"
  shows "m \<le> unat (uint32_of impl (ffloor (Some x)))" and "unat (uint32_of impl (ffloor (Some x))) < k"
proof -
  have x0: "0 \<le> x" by (rule order_trans [OF _ assms(1)]) simp
  have "int m \<le> \<lfloor>x\<rfloor>" using assms(1) by (simp add: le_floor_iff)
  moreover have lt: "\<lfloor>x\<rfloor> < int k" using assms(2) by (simp add: floor_less_iff)
  moreover have "uint32_of impl (ffloor (Some x)) = word_of_int \<lfloor>x\<rfloor>"
  proof -
    have "int k \<le> 2 ^ 32" using assms(3) by simp
    with lt have "\<lfloor>x\<rfloor> < 2 ^ 32" by (rule order_less_le_trans)
    then have "(of_int \<lfloor>x\<rfloor> :: rat) < of_int (2 ^ 32)" by (simp only: of_int_less_iff)
    moreover have "0 \<le> (of_int \<lfloor>x\<rfloor> :: rat)" using x0 by simp
    ultimately show ?thesis unfolding uint32_of_def ffloor_def option.map option.case
      by (simp only: of_int_power of_int_numeral simp_thms if_True floor_of_int)
  qed
  moreover have "unat (word_of_int \<lfloor>x\<rfloor> :: u32) = nat \<lfloor>x\<rfloor>"
  proof -
    have "\<lfloor>x\<rfloor> = int (nat \<lfloor>x\<rfloor>)" "nat \<lfloor>x\<rfloor> < 2 ^ 32" using x0 lt assms(3) by simp_all
    then show ?thesis by (metis of_int_of_nat_eq unat_of_nat_u32)
  qed
  ultimately show "m \<le> unat (uint32_of impl (ffloor (Some x)))" "unat (uint32_of impl (ffloor (Some x))) < k"
    using x0 by simp_all
qed

lemma check_index_bounds:
  assumes c_def: "c = check_index impl uid minIndex maxIndex minUID maxUID"
    and ix: "minIndex < maxIndex" "unat maxIndex < n" "n < 2 ^ 32 - 1"
    and u: "minUID < maxUID" "minUID \<le> uid" "uid \<le> maxUID"
    and small: "(n + 2) * unat (maxUID - minUID) < 2 ^ 53"
  shows "unat minIndex \<le> unat c" and "unat c < n" and "uid < maxUID \<Longrightarrow> unat c < unat maxIndex"
    and "uid = maxUID \<Longrightarrow> c = maxIndex"
proof -
  let ?mn = "unat minIndex" and ?w = "unat (maxIndex - minIndex)"
    and ?a = "unat (uid - minUID)" and ?d = "unat (maxUID - minUID)"
  have w: "?mn + ?w = unat maxIndex" "0 < ?w"
    using ix(1) by (simp_all add: unat_sub word_less_nat_alt word_le_nat_alt)
  have d: "0 < ?d" using u by (simp add: unat_sub word_less_nat_alt word_le_nat_alt)
  have c: "c = uint32_of impl (ffloor (Some (probe ?mn ?w ?a ?d)))"
    using fl_pos_nat [OF d]
    by (simp add: c_def check_index_def fdiv_def fmul_def fadd_def float64_of_def probe_def)
  have lo: "of_nat ?mn \<le> probe ?mn ?w ?a ?d" using ix w d by (intro probe_lower) simp_all
  {
    assume "uid < maxUID"
    then have a: "?a < ?d" using u by (simp add: unat_sub word_less_nat_alt word_le_nat_alt)
    have "probe ?mn ?w ?a ?d < of_nat (?mn + ?w)" by (rule probe_upper [OF a _ w(2) small]) (use w ix in simp)
    from u32_of_floor [OF lo this] have "?mn \<le> unat c" "unat c < unat maxIndex" using c w ix by simp_all
  }
  note lt = this
  {
    assume e: "uid = maxUID"
    have "probe ?mn ?w ?a ?d = of_nat (unat maxIndex)"
      unfolding e using probe_top [of ?mn ?w ?d] d w ix by simp
    with u32_of_floor [of "unat maxIndex" "probe ?mn ?w ?a ?d" "unat maxIndex + 1" impl]
    have "unat c = unat maxIndex" using c ix by simp
    then have "c = maxIndex" by (simp add: word_unat_eq_iff)
  }
  note eq = this
  show "unat minIndex \<le> unat c" "unat c < n"
    using lt eq u(3) ix w by (cases "uid = maxUID"; force)+
  show "uid < maxUID \<Longrightarrow> unat c < unat maxIndex" "uid = maxUID \<Longrightarrow> c = maxIndex" using lt eq by simp_all
qed

lemma count_less:
  assumes "sorted_wrt (<) (uids :: MessageSequence)" "i \<le> length uids"
    and "0 < i \<Longrightarrow> uids ! (i - 1) < uid" and "i < length uids \<Longrightarrow> uid \<le> uids ! i"
  shows "length (filter (\<lambda>u. u < uid) uids) = i"
proof -
  have "u < uid" if "u \<in> set (take i uids)" for u
  proof -
    from that obtain j where j: "j < i" "j < length uids" "u = uids ! j"
      by (auto simp: in_set_conv_nth)
    with assms have "u \<le> uids ! (i - 1)"
      by (cases "j = i - 1") (auto simp: sorted_wrt_iff_nth_less intro: less_imp_le)
    with assms(3) j show ?thesis by simp
  qed
  then have "filter (\<lambda>u. u < uid) (take i uids) = take i uids" by simp
  moreover have "\<not> u < uid" if "u \<in> set (drop i uids)" for u
  proof -
    from that obtain j where "j < length uids - i" "u = uids ! (i + j)"
      by (auto simp: in_set_conv_nth)
    then have j: "i + j < length uids" "u = uids ! (i + j)" by simp_all
    with assms have "uids ! i \<le> u"
      by (cases "j = 0") (auto simp: sorted_wrt_iff_nth_less intro: less_imp_le)
    with assms(4) j show ?thesis by simp
  qed
  then have "filter (\<lambda>u. u < uid) (drop i uids) = []" by (simp add: filter_empty_conv)
  ultimately show ?thesis
    using assms(2) by (metis append_Nil2 append_take_drop_id filter_append length_take min.absorb2)
qed

definition seq_small :: "MessageSequence \<Rightarrow> bool" where
  "seq_small uids \<longleftrightarrow> length uids < 2 ^ 32 - 1 \<and>
     (uids \<noteq> [] \<longrightarrow> (length uids + 2) * unat (last uids - hd uids) < 2 ^ 53)"

lemma uid_spread:
  assumes "sorted_wrt (<) uids" "i < j" "j < length (uids :: MessageSequence)"
  shows "uids ! i < uids ! j" and "unat (uids ! j - uids ! i) \<le> unat (last uids - hd uids)"
proof -
  show lt: "uids ! i < uids ! j" using assms by (simp add: sorted_wrt_iff_nth_less)
  have l: "last uids = uids ! (length uids - 1)" and h: "hd uids = uids ! 0"
    using assms(3) by (cases uids; simp add: last_conv_nth hd_conv_nth)+
  have "uids ! j \<le> last uids" unfolding l
    using assms by (cases "j = length uids - 1") (auto simp: sorted_wrt_iff_nth_less intro: less_imp_le)
  moreover have "hd uids \<le> uids ! i" unfolding h
    using assms by (cases "i = 0") (auto simp: sorted_wrt_iff_nth_less intro: less_imp_le)
  ultimately show "unat (uids ! j - uids ! i) \<le> unat (last uids - hd uids)"
    using lt by (simp add: unat_sub word_less_nat_alt word_le_nat_alt)
qed

lemma seq_loop_correct:
  assumes "sorted_wrt (<) uids" "seq_small uids"
    and "minIndex < maxIndex" "unat maxIndex < length uids"
    and "uids ! unat minIndex \<le> uid" "uid \<le> uids ! unat maxIndex"
  shows "\<exists>r. seq_loop impl uids uid minIndex maxIndex (uids ! unat minIndex) (uids ! unat maxIndex) =
      Some (Ret r) \<and> unat r = 1 + length (filter (\<lambda>u. u < uid) uids)"
  using assms(3-)
proof (induction "unat maxIndex - unat minIndex" arbitrary: minIndex maxIndex rule: less_induct)
  case less
  let ?n = "length uids"
  define c where "c = check_index impl uid minIndex maxIndex (uids ! unat minIndex) (uids ! unat maxIndex)"
  have n: "?n < 2 ^ 32 - 1" using assms(2) by (simp add: seq_small_def)
  have ij: "unat minIndex < unat maxIndex" using less.prems(1) by (simp add: word_less_nat_alt)
  note sp = uid_spread [OF assms(1) ij less.prems(2)]
  have small: "(?n + 2) * unat (uids ! unat maxIndex - uids ! unat minIndex) < 2 ^ 53"
    using assms(2) less.prems(2) mult_left_mono [OF sp(2), of "?n + 2"]
    by (cases uids) (auto simp: seq_small_def)
  note cb = check_index_bounds [OF c_def less.prems(1,2) n sp(1) less.prems(3,4) small]
  have suc: "unat (c + 1) = unat c + 1" if "unat c < ?n"
    using that n by (intro trans [OF unat_plus_one]) (auto simp: unsigned_minus_1_eq_mask mask_eq_exp_minus_1)
  have step: "seq_loop impl uids uid minIndex maxIndex (uids ! unat minIndex) (uids ! unat maxIndex) =
      (if uids ! unat c = uid then Some (Ret (c + 1))
       else if uid < uids ! unat c
       then seq_loop impl uids uid minIndex c (uids ! unat minIndex) (uids ! unat c)
       else if ?n \<le> unat (c + 1) then Some Panic
       else if uid < uids ! unat (c + 1) then Some (Ret (c + 1 + 1))
       else seq_loop impl uids uid (c + 1) maxIndex (uids ! unat (c + 1)) (uids ! unat maxIndex))"
    using cb(2) by (subst seq_loop.simps) (simp add: Let_def c_def check_index_def)
  consider "uids ! unat c = uid" | "uid < uids ! unat c" | "uids ! unat c < uid" by fastforce
  then show ?case
  proof cases
    case 1
    then have "length (filter (\<lambda>u. u < uid) uids) = unat c"
      using assms(1) cb(2) by (intro count_less) (auto simp: sorted_wrt_iff_nth_less)
    with 1 show ?thesis using step suc [OF cb(2)] by simp
  next
    case 2
    have "minIndex \<noteq> c" using 2 less.prems(3) by auto
    then have lt: "minIndex < c" using cb(1) by (simp add: word_less_nat_alt word_unat_eq_iff)
    have "uid \<noteq> uids ! unat maxIndex" using 2 cb(4) by auto
    then have cm: "unat c < unat maxIndex" using cb(3) less.prems(4) by simp
    have "unat c - unat minIndex < unat maxIndex - unat minIndex" using cm lt by (simp add: word_less_nat_alt)
    from less.hyps [OF this lt cb(2) less.prems(3)] 2 show ?thesis using step by auto
  next
    case 3
    have "uid \<noteq> uids ! unat maxIndex" using 3 cb(4) by auto
    then have cm: "unat c < unat maxIndex" and um: "uid < uids ! unat maxIndex"
      using cb(3) less.prems(4) by simp_all
    have s: "unat (c + 1) = unat c + 1" using suc cb(2) by simp
    have bound: "\<not> ?n \<le> unat (c + 1)" using cm s less.prems(2) by simp
    show ?thesis
    proof (cases "uid < uids ! unat (c + 1)")
      case True
      have "length (filter (\<lambda>u. u < uid) uids) = unat c + 1"
        using assms(1) bound 3 True s by (intro count_less) auto
      moreover have "unat (c + 1 + 1) = unat c + 2"
      proof -
        have "unat (c + 1) \<noteq> unat (- 1 :: u32)" using bound n by (simp add: unsigned_minus_1_eq_mask mask_eq_exp_minus_1)
        then have "c + 1 \<noteq> - 1" by metis
        from unat_plus_one [OF this] s show ?thesis by simp
      qed
      ultimately show ?thesis using step 3 bound True by auto
    next
      case False
      then have "unat (c + 1) \<noteq> unat maxIndex" using um by auto
      then have lt: "c + 1 < maxIndex" using s cm by (simp add: word_less_nat_alt)
      have "unat maxIndex - unat (c + 1) < unat maxIndex - unat minIndex" using s cm cb(1) by simp
      from less.hyps [OF this lt less.prems(2)] False less.prems(4) 3 bound show ?thesis using step by auto
    qed
  qed
qed

lemma GetSequenceNumber_spec:
  assumes "sorted_wrt (<) uids" "seq_small uids"
  shows "\<exists>r. GetSequenceNumber impl uids uid = Ret r \<and> unat r = 1 + length (filter (\<lambda>u. u < uid) uids)"
proof -
  let ?n = "length uids"
  have n: "?n < 2 ^ 32 - 1" using assms(2) by (simp add: seq_small_def)
  consider "uids = []" | "uids \<noteq> []" "uid < uids ! 0" | "uids \<noteq> []" "uids ! (?n - 1) < uid" "\<not> uid < uids ! 0"
    | "?n = 1" "uids ! 0 = uid"
    | "1 < ?n" "uids ! 0 \<le> uid" "uid \<le> uids ! (?n - 1)"
    by (cases "?n = 1") (fastforce simp: not_less neq_Nil_conv)+
  then show ?thesis
  proof cases
    case 1
    then show ?thesis by (simp add: GetSequenceNumber_def)
  next
    case 2
    moreover have "length (filter (\<lambda>u. u < uid) uids) = 0"
      using assms(1) 2 by (intro count_less) auto
    ultimately show ?thesis by (simp add: GetSequenceNumber_def)
  next
    case 3
    moreover have "length (filter (\<lambda>u. u < uid) uids) = ?n"
      using assms(1) 3 by (intro count_less) auto
    moreover have "unat (of_nat (?n + 1) :: u32) = ?n + 1" using n by (intro unat_of_nat_u32) simp
    ultimately show ?thesis by (simp add: GetSequenceNumber_def)
  next
    case 4
    moreover have "length (filter (\<lambda>u. u < uid) uids) = 0"
      using assms(1) 4 by (intro count_less) auto
    ultimately show ?thesis by (auto simp: GetSequenceNumber_def)
  next
    case 5
    have m: "unat (of_nat (?n - 1) :: u32) = ?n - 1" using n by (intro unat_of_nat_u32) simp
    have "\<exists>r. seq_loop impl uids uid 0 (of_nat (?n - 1)) (uids ! unat (0 :: u32)) (uids ! unat (of_nat (?n - 1) :: u32)) =
        Some (Ret r) \<and> unat r = 1 + length (filter (\<lambda>u. u < uid) uids)"
      using assms 5 m by (intro seq_loop_correct) (simp_all add: word_less_nat_alt)
    then show ?thesis using 5 m by (auto simp: GetSequenceNumber_def Let_def not_less)
  qed
qed

text \<open>
  C11.  The interpolation search of \<open>MessageSequence.GetSequenceNumber\<close> returns, on uids in increasing
  order, the sequence number of the first uid that is not below the given one, which is one more than
  the number of smaller uids, provided that the mailbox has fewer than \<open>2 ^ 32 - 1\<close> messages and the
  product of its size (plus two) and the spread of its uids is below \<open>2 ^ 53\<close>, so that the rounding
  of the \<open>float64\<close> probe cannot leave the current interval.
\<close>

theorem GetSequenceNumber_correct:
  assumes "sorted_wrt (<) uids" "seq_small uids"
  shows "\<exists>r. GetSequenceNumber impl uids uid = Ret r \<and> unat r = 1 + length (filter (\<lambda>u. u < uid) uids)"
  using assms by (rule GetSequenceNumber_spec)

theorem GetSequenceNumber_correct_witness:
  "\<exists>r. GetSequenceNumber (\<lambda>_. 0) [3, 5, 900] 7 = Ret r \<and> unat r = 3"
  using GetSequenceNumber_correct [of "[3, 5, 900]" "\<lambda>_. 0" 7] by (simp add: seq_small_def numeral_3_eq_3)


text \<open>The state in which the search on the uids \<open>1\<close> and \<open>2 ^ 63\<close> stays for ever.\<close>

definition stuck :: "(float64 \<Rightarrow> u32) \<Rightarrow> MessageSequence \<Rightarrow> u64 \<Rightarrow> u32 \<Rightarrow> u32 \<Rightarrow> u64 \<Rightarrow> u64 \<Rightarrow> bool" where
  "stuck im uids uid a b u v \<longleftrightarrow>
     uids = [1, 2 ^ 63] \<and> uid = 2 ^ 63 - 1 \<and> a = 0 \<and> b = 1 \<and> u = 1 \<and> v = 2 ^ 63"

lemma fl_near_2_63: "fl 9223372036854775806 = 2 ^ 63" "fl 9223372036854775807 = 2 ^ 63"
proof -
  have "\<lfloor>9223372036854775806 / 1024 :: rat\<rfloor> = 9007199254740991"
    "\<lfloor>9223372036854775807 / 1024 :: rat\<rfloor> = 9007199254740991" by (simp_all add: floor_eq_iff)
  then have "round_even (9223372036854775806 / 1024) = 2 ^ 53" "round_even (9223372036854775807 / 1024) = 2 ^ 53"
    unfolding round_even_def Let_def by (simp_all only:) simp_all
  then show "fl 9223372036854775806 = 2 ^ 63" "fl 9223372036854775807 = 2 ^ 63"
    using fl_round [of 10 9223372036854775806] fl_round [of 10 9223372036854775807] by simp_all
qed

lemma stuck_check: "check_index impl (2 ^ 63 - 1) 0 1 1 (2 ^ 63) = 1"
  by (simp add: check_index_def float64_of_def fdiv_def fmul_def fadd_def ffloor_def uint32_of_def fl_near_2_63)

lemma stuck_diverges: "seq_loop im uids uid a b u v = Some r \<Longrightarrow> \<not> stuck im uids uid a b u v"
proof (rule seq_loop.raw_induct [where P = "\<lambda>im uids uid a b u v r. \<not> stuck im uids uid a b u v"])
  fix f :: "(float64 \<Rightarrow> u32) \<Rightarrow> u64 list \<Rightarrow> u64 \<Rightarrow> u32 \<Rightarrow> u32 \<Rightarrow> u64 \<Rightarrow> u64 \<Rightarrow> u32 go option"
    and im uids uid a b u v r
  assume ih: "\<And>im uids uid a b u v r. f im uids uid a b u v = Some r \<Longrightarrow> \<not> stuck im uids uid a b u v"
  assume body: "(let ratio = fdiv (float64_of (unat (uid - u))) (float64_of (unat (v - u)));
        checkIndex = uint32_of im (ffloor (fadd (float64_of (unat a)) (fmul ratio (float64_of (unat (b - a))))))
    in if length uids \<le> unat checkIndex then Some Panic
       else let newUID = uids ! unat checkIndex
            in if newUID = uid then Some (Ret (checkIndex + 1))
               else if uid < newUID
               then f im uids uid a checkIndex u newUID
               else let min2 = checkIndex + 1
                    in if length uids \<le> unat min2 then Some Panic
                       else if uid < uids ! unat min2 then Some (Ret (min2 + 1))
                       else f im uids uid min2 b (uids ! unat min2) v) = Some r"
  show "\<not> stuck im uids uid a b u v"
  proof
    assume st: "stuck im uids uid a b u v"
    then have e: "uids = [1, 2 ^ 63]" "uid = 2 ^ 63 - 1" "a = 0" "b = 1" "u = 1" "v = 2 ^ 63"
      by (simp_all add: stuck_def)
    from body have "f im uids uid a b u v = Some r"
      unfolding e Let_def stuck_check [of im, unfolded check_index_def] by simp
    from ih [OF this] st show False by simp
  qed
qed

text \<open>
  Above that bound the search can run for ever: on the uids \<open>1\<close> and \<open>2 ^ 63\<close> it does not return for
  the uid \<open>2 ^ 63 - 1\<close>, because both differences round to \<open>2 ^ 63\<close>, the ratio is one, and the probe is
  the upper end of the interval in every round.
\<close>

theorem GetSequenceNumber_diverges: "GetSequenceNumber impl [1, 2 ^ 63] (2 ^ 63 - 1) = Block"
proof -
  have "seq_loop impl [1, 2 ^ 63] (2 ^ 63 - 1) 0 1 1 (2 ^ 63) \<noteq> Some r" for r
    using stuck_diverges [of impl "[1, 2 ^ 63]" "2 ^ 63 - 1" 0 1 1 "2 ^ 63" r] unfolding stuck_def by blast
  then have "seq_loop impl [1, 2 ^ 63] (2 ^ 63 - 1) 0 1 1 (2 ^ 63) = None" by (meson not_Some_eq)
  then show ?thesis by (simp add: GetSequenceNumber_def)
qed

end
