(* ===== verification/Golib.thy ===== *)
theory Golib
  imports Prelude
begin

text \<open>
  What the packages use of the Go standard library and of the machine: the binary form of
  \<open>time.Time\<close>, the clock, the entropy source behind \<open>crypto/rand\<close>, and the order in which the
  runtime visits the keys of a map (\<open>range\<close> over a map has no fixed order).
\<close>

section \<open>Printing numbers\<close>

text \<open>\<open>fmt\<close>'s verb \<open>%d\<close> on an unsigned number.\<close>

fun fmt_d :: "nat \<Rightarrow> string" where
  "fmt_d n = (if n < 10 then [char_of (48 + n)] else fmt_d (n div 10) @ [char_of (48 + n mod 10)])"

declare fmt_d.simps [simp del]

section \<open>Reading numbers\<close>

text \<open>\<open>strconv.Atoi\<close>: an optional sign and decimal digits, within 64 bits.\<close>

definition digit :: "char \<Rightarrow> nat option" where
  "digit c = (if CHR ''0'' \<le> c \<and> c \<le> CHR ''9'' then Some (of_char c - 48) else None)"

fun digits :: "string \<Rightarrow> nat \<Rightarrow> nat option" where
  "digits [] n = Some n"
| "digits (c # s) n = (case digit c of None \<Rightarrow> None | Some d \<Rightarrow> digits s (10 * n + d))"

definition Atoi :: "string \<Rightarrow> error + int" where
  "Atoi s =
     (let (neg, ds) = (case s of [] \<Rightarrow> (False, s) | c # t \<Rightarrow>
            if c = CHR ''-'' then (True, t) else if c = CHR ''+'' then (False, t) else (False, s))
      in if ds = [] then Inl (ErrExt ''strconv: invalid syntax'')
         else case digits ds 0 of
           None \<Rightarrow> Inl (ErrExt ''strconv: invalid syntax'')
         | Some n \<Rightarrow>
             let i = (if neg then - int n else int n)
             in if - (2 ^ 63) \<le> i \<and> i < 2 ^ 63 then Inr i else Inl (ErrExt ''strconv: value out of range''))"

text \<open>\<open>strconv.ParseUint\<close> in base 10 for 64 bits.\<close>

definition ParseUint :: "string \<Rightarrow> error + u64" where
  "ParseUint s =
     (if s = [] then Inl (ErrExt ''strconv: invalid syntax'')
      else case digits s 0 of
        None \<Rightarrow> Inl (ErrExt ''strconv: invalid syntax'')
      | Some n \<Rightarrow> if n < 2 ^ 64 then Inr (of_nat n) else Inl (ErrExt ''strconv: value out of range''))"

lemma digits_append: "digits (s @ t) n = Option.bind (digits s n) (digits t)"
  by (induction s arbitrary: n) (auto split: option.splits)

lemma digit_char: "d < 10 \<Longrightarrow> digit (char_of (48 + d)) = Some d"
  by (simp add: digit_def less_eq_char_def of_char_of)

lemma digits_fmt_d: "digits (fmt_d n) 0 = Some n"
proof (induction n rule: fmt_d.induct)
  case (1 n)
  show ?case
  proof (cases "n < 10")
    case True
    then show ?thesis by (subst fmt_d.simps) (simp add: digit_char)
  next
    case False
    with 1 have "digits (fmt_d n) 0 = digits [char_of (48 + n mod 10)] (n div 10)"
      by (subst fmt_d.simps) (simp add: digits_append)
    also have "\<dots> = Some (10 * (n div 10) + n mod 10)" using digit_char [of "n mod 10"] by simp
    finally show ?thesis by simp
  qed
qed

lemma fmt_d_head: "\<exists>c s. fmt_d n = c # s \<and> c \<noteq> CHR ''-'' \<and> c \<noteq> CHR ''+''"
proof -
  obtain c s where c: "fmt_d n = c # s"
    by (cases "fmt_d n") (auto simp: fmt_d.simps [of n] split: if_splits)
  then have "digit c \<noteq> None" using digits_fmt_d [of n] by (auto split: option.splits)
  with c show ?thesis by (auto simp: digit_def less_eq_char_def)
qed

lemma Atoi_fmt_d: "Atoi (fmt_d n) = (if n < 2 ^ 63 then Inr (int n) else Inl (ErrExt ''strconv: value out of range''))"
proof -
  obtain c s where c: "fmt_d n = c # s" "c \<noteq> CHR ''-''" "c \<noteq> CHR ''+''" using fmt_d_head by blast
  have "int n < 2 ^ 63 \<longleftrightarrow> n < 2 ^ 63" by (metis of_nat_less_iff of_nat_numeral of_nat_power)
  with c digits_fmt_d [of n] show ?thesis by (simp add: Atoi_def)
qed

lemma Atoi_neg: "Atoi (CHR ''-'' # fmt_d n) = (if n \<le> 2 ^ 63 then Inr (- int n) else Inl (ErrExt ''strconv: value out of range''))"
proof -
  have "fmt_d n \<noteq> []" using fmt_d_head [of n] by auto
  moreover have "- (2 ^ 63) \<le> - int n \<longleftrightarrow> n \<le> 2 ^ 63"
    by (metis neg_le_iff_le of_nat_le_iff of_nat_numeral of_nat_power)
  moreover have "- int n < 2 ^ 63" by (rule le_less_trans [of _ 0]) simp_all
  ultimately show ?thesis by (simp add: Atoi_def digits_fmt_d)
qed

section \<open>Points in time\<close>

text \<open>
  \<open>time.Time\<close>: seconds since year 1 (two's complement), nanoseconds, and the zone, which is UTC
  (\<open>None\<close>) or an offset in seconds east of UTC.
\<close>

record gotime =
  t_sec :: u64
  t_nsec :: u32
  t_zone :: "int option"

definition int16_bytes :: "int \<Rightarrow> bytes" where
  "int16_bytes i = be 2 (unat (word_of_int i :: u16))"

text \<open>\<open>time.Time.MarshalBinary\<close>: version 1, seconds, nanoseconds, zone offset in minutes (-1 is UTC).\<close>

definition MarshalBinary :: "gotime \<Rightarrow> error + bytes" where
  "MarshalBinary t =
     (let enc = (\<lambda>m. CHR 0x01 # PutUint64 (t_sec t) @ PutUint32 (t_nsec t) @ int16_bytes m)
      in case t_zone t of
           None \<Rightarrow> Inr (enc (-1))
         | Some z \<Rightarrow>
             if z mod 60 \<noteq> 0
             then Inl (ErrText ''Time.MarshalBinary: zone offset has fractional minute'')
             else let m = z div 60
                  in if m < -32768 \<or> m = -1 \<or> 32767 < m
                     then Inl (ErrText ''Time.MarshalBinary: unexpected zone offset'')
                     else Inr (enc m))"

text \<open>\<open>time.Time.UnmarshalBinary\<close>.\<close>

definition UnmarshalBinary :: "bytes \<Rightarrow> error + gotime" where
  "UnmarshalBinary d =
     (case d of
        [] \<Rightarrow> Inl (ErrText ''Time.UnmarshalBinary: no data'')
      | v # b \<Rightarrow>
          if v \<noteq> CHR 0x01 then Inl (ErrText ''Time.UnmarshalBinary: unsupported version'')
          else if length d \<noteq> 15 then Inl (ErrText ''Time.UnmarshalBinary: invalid length'')
          else let m = sint (of_nat (unbe (drop 12 b)) :: u16)
               in Inr \<lparr>t_sec = of_nat (unbe (take 8 b)),
                       t_nsec = of_nat (unbe (take 4 (drop 8 b))),
                       t_zone = (if m = -1 then None else Some (m * 60))\<rparr>)"

lemma length_int16_bytes [simp]: "length (int16_bytes m) = 2"
  by (simp add: int16_bytes_def)

lemma unbe_PutUint64: "of_nat (unbe (PutUint64 w)) = w"
  using unat_lt_be8 [of w] by (simp add: PutUint64_def unbe_be)

lemma unbe_PutUint32: "of_nat (unbe (PutUint32 w)) = w"
  using unat_lt_be4 [of w] by (simp add: PutUint32_def unbe_be)

lemma int16_bytes_value:
  assumes "-32768 \<le> m" and "m \<le> 32767"
  shows "sint (of_nat (unbe (int16_bytes m)) :: u16) = m"
proof -
  have "unat (word_of_int m :: u16) < 256 ^ 2"
    using unsigned_less [of "word_of_int m :: u16", where 'a = nat] by simp
  then have "(of_nat (unbe (int16_bytes m)) :: u16) = word_of_int m"
    by (simp add: int16_bytes_def unbe_be)
  moreover have "sint (word_of_int m :: u16) = m"
    using assms by (simp add: signed_of_int signed_take_bit_int_eq_self)
  ultimately show ?thesis by simp
qed

lemma Marshal_enc:
  assumes "-32768 \<le> m" and "m \<le> 32767"
  shows "UnmarshalBinary (CHR 0x01 # PutUint64 s @ PutUint32 n @ int16_bytes m) =
    Inr \<lparr>t_sec = s, t_nsec = n, t_zone = (if m = -1 then None else Some (m * 60))\<rparr>"
  using assms
  by (simp add: UnmarshalBinary_def int16_bytes_value unbe_PutUint64 unbe_PutUint32 Let_def)

lemma MarshalBinary_roundtrip: "MarshalBinary t = Inr b \<Longrightarrow> UnmarshalBinary b = Inr t"
  by (cases t; cases "t_zone t")
     (auto simp: MarshalBinary_def Marshal_enc Let_def split: if_splits)

lemma MarshalBinary_length: "MarshalBinary t = Inr b \<Longrightarrow> length b = 15"
  by (auto simp: MarshalBinary_def Let_def split: option.splits if_splits)

section \<open>The environment\<close>

text \<open>
  The \<open>i\<close>-th read of the environment: \<open>rnd_src i n\<close> is what \<open>rand.Read\<close> puts into a buffer of
  \<open>n\<close> bytes (or its error), \<open>clock i\<close> what \<open>time.Now\<close> returns, and \<open>key_order i K\<close> and
  \<open>name_order i K\<close> the order in which a \<open>range\<close> loop visits the keys \<open>K\<close> of a map, for integer
  and for string keys.  \<open>tick\<close> counts the reads made so far.
\<close>

record env =
  tick :: nat
  rnd_src :: "nat \<Rightarrow> nat \<Rightarrow> error + bytes"
  clock :: "nat \<Rightarrow> gotime"
  key_order :: "nat \<Rightarrow> u64 set \<Rightarrow> u64 list"
  name_order :: "nat \<Rightarrow> string set \<Rightarrow> string list"

definition rand_Read :: "'a env_scheme \<Rightarrow> nat \<Rightarrow> 'a env_scheme \<times> (error + bytes)" where
  "rand_Read w n = (w\<lparr>tick := Suc (tick w)\<rparr>, rnd_src w (tick w) n)"

definition time_Now :: "'a env_scheme \<Rightarrow> 'a env_scheme \<times> gotime" where
  "time_Now w = (w\<lparr>tick := Suc (tick w)\<rparr>, clock w (tick w))"

definition range_keys :: "'a env_scheme \<Rightarrow> u64 set \<Rightarrow> 'a env_scheme \<times> u64 list" where
  "range_keys w K = (w\<lparr>tick := Suc (tick w)\<rparr>, key_order w (tick w) K)"

definition range_names :: "'a env_scheme \<Rightarrow> string set \<Rightarrow> 'a env_scheme \<times> string list" where
  "range_names w K = (w\<lparr>tick := Suc (tick w)\<rparr>, name_order w (tick w) K)"

text \<open>
  What the packages rely on: \<open>rand.Read\<close> fills the whole buffer when it does not fail, and a
  \<open>range\<close> loop visits every key of a (finite) map once.
\<close>

definition env_ok :: "'a env_scheme \<Rightarrow> bool" where
  "env_ok w \<longleftrightarrow>
     (\<forall>i n b. rnd_src w i n = Inr b \<longrightarrow> length b = n) \<and>
     (\<forall>i K. finite K \<longrightarrow> set (key_order w i K) = K \<and> distinct (key_order w i K)) \<and>
     (\<forall>i K. finite K \<longrightarrow> set (name_order w i K) = K \<and> distinct (name_order w i K))"

text \<open>A random source that does not fail.\<close>

definition rnd_live :: "'a env_scheme \<Rightarrow> bool" where
  "rnd_live w \<longleftrightarrow> (\<forall>i n. \<exists>b. rnd_src w i n = Inr b)"

lemma rnd_live_tick [simp]: "rnd_live (w\<lparr>tick := n\<rparr>) = rnd_live w"
  by (simp add: rnd_live_def)

lemma env_ok_tick [simp]: "env_ok (w\<lparr>tick := n\<rparr>) = env_ok w"
  by (simp add: env_ok_def)

lemma env_ok_rnd: "env_ok w \<Longrightarrow> rnd_src w i n = Inr b \<Longrightarrow> length b = n"
  by (auto simp: env_ok_def)

lemma env_ok_order:
  "env_ok w \<Longrightarrow> finite K \<Longrightarrow> set (key_order w i K) = K \<and> distinct (key_order w i K)"
  by (simp add: env_ok_def)

lemma env_ok_names:
  "env_ok w \<Longrightarrow> finite K \<Longrightarrow> set (name_order w i K) = K \<and> distinct (name_order w i K)"
  by (simp add: env_ok_def)

lemma rand_Read_live:
  assumes "env_ok w" "rnd_live w"
  shows "\<exists>b. rand_Read w n = (w\<lparr>tick := Suc (tick w)\<rparr>, Inr b) \<and> length b = n"
proof -
  obtain b where "rnd_src w (tick w) n = Inr b" using assms(2) by (auto simp: rnd_live_def)
  with assms(1) show ?thesis by (auto simp: rand_Read_def env_ok_rnd)
qed

end
