(* ===== verification/Content_Type.thy ===== *)
theory Content_Type
  imports Golib
begin

text \<open>
  \<open>src/user/email/content.go\<close>: the regular expression for the header Content-Type, as the deterministic
  parser it denotes, \<open>GetContentType\<close>, and the choice of the body of an e-mail.

  A header is a Go map and is modelled by the association list of its keys and values.  \<open>ParseMIMEBody\<close>
  of the package mailhog is a parameter.
\<close>

section \<open>Headers and content\<close>

type_synonym Headers = "(string \<times> string list) list"

record Content =
  Headers :: Headers
  Body :: string
  Size :: nat

text \<open>\<open>xs[0]\<close>: indexing an empty slice panics.\<close>

primrec first :: "'a list \<Rightarrow> 'a go" where
  "first [] = Panic"
| "first (x # xs) = Ret x"

section \<open>The regular expression\<close>

definition is_space :: "char \<Rightarrow> bool" where
  "is_space c \<longleftrightarrow> c \<in> {CHR 0x09, CHR 0x0A, CHR 0x0C, CHR 0x0D, CHR 0x20}"

definition is_cntrl :: "char \<Rightarrow> bool" where
  "is_cntrl c \<longleftrightarrow> of_char c < (32 :: nat) \<or> c = CHR 0x7F"

text \<open>The class \<open>contentTypeToken\<close>.\<close>

definition token_char :: "char \<Rightarrow> bool" where
  "token_char c \<longleftrightarrow> \<not> is_cntrl c \<and>
     c \<notin> {CHR '' '', CHR ''('', CHR '')'', CHR ''<'', CHR ''>'', CHR ''@'', CHR '','', CHR '';'', CHR '':'',
       CHR 0x5C, CHR 0x22, CHR ''/'', CHR ''['', CHR '']'', CHR ''?'', CHR ''.'', CHR ''=''}"

text \<open>\<open>\s?\<close>: at most one blank.\<close>

fun skip_space :: "string \<Rightarrow> string" where
  "skip_space (c # s) = (if is_space c then s else c # s)"
| "skip_space [] = []"

definition take_char :: "char \<Rightarrow> string \<Rightarrow> string option" where
  "take_char c s = (case s of d # t \<Rightarrow> if d = c then Some t else None | [] \<Rightarrow> None)"

definition take_token :: "string \<Rightarrow> (string \<times> string) option" where
  "take_token s = (if takeWhile token_char s = [] then None else Some (takeWhile token_char s, dropWhile token_char s))"

definition media_types :: "string list" where
  "media_types = [''application'', ''audio'', ''image'', ''message'', ''multipart'', ''text'', ''video'']"

text \<open>
  \<open>contentTypeType\<close>: the characters of the seven media types and of \<open>x-\<close> are token characters and the
  type is followed by a blank or a slash, so it is the longest token.
\<close>

definition contentTypeType :: "string \<Rightarrow> (string \<times> string) option" where
  "contentTypeType s =
     (case take_token s of
        Some (t, r) \<Rightarrow>
          if t \<in> set media_types \<or> take 2 t = ''x-'' \<and> 2 < length t then Some (t, r) else None
      | None \<Rightarrow> None)"

text \<open>\<open>contentTypeValue\<close>: a quoted string or a token.\<close>

definition contentTypeValue :: "string \<Rightarrow> (string \<times> string) option" where
  "contentTypeValue s =
     (case take_char (CHR 0x22) s of
        Some r \<Rightarrow>
          (case take_char (CHR 0x22) (dropWhile (\<lambda>c. c \<noteq> CHR 0x22) r) of
             Some r2 \<Rightarrow> Some (CHR 0x22 # takeWhile (\<lambda>c. c \<noteq> CHR 0x22) r @ [CHR 0x22], r2)
           | None \<Rightarrow> None)
      | None \<Rightarrow> take_token s)"

text \<open>One parameter \<open>\s?;\s?(attribute)=(value)\<close>.\<close>

definition take_param :: "string \<Rightarrow> ((string \<times> string) \<times> string) option" where
  "take_param s =
     Option.bind (take_char CHR '';'' (skip_space s)) (\<lambda>s1.
     Option.bind (take_token (skip_space s1)) (\<lambda>(a, s2).
     Option.bind (take_char CHR ''='' s2) (\<lambda>s3.
     Option.bind (contentTypeValue s3) (\<lambda>(v, s4). Some ((a, v), s4)))))"

lemma skip_space_length: "length (skip_space s) \<le> length s"
  by (cases s) simp_all

lemma take_char_Some: "take_char c s = Some t \<longleftrightarrow> s = c # t"
  by (auto simp: take_char_def split: list.splits)

lemma take_token_length: "take_token s = Some (t, r) \<Longrightarrow> length r < length s"
  by (cases s) (auto simp: take_token_def length_dropWhile_le le_imp_less_Suc split: if_splits)

lemma contentTypeValue_length: "contentTypeValue s = Some (v, r) \<Longrightarrow> length r < length s"
proof -
  assume v: "contentTypeValue s = Some (v, r)"
  show ?thesis
  proof (cases "take_char (CHR 0x22) s")
    case None
    with v show ?thesis by (simp add: contentTypeValue_def take_token_length)
  next
    case (Some q)
    with v have "dropWhile (\<lambda>c. c \<noteq> CHR 0x22) q = CHR 0x22 # r"
      by (auto simp: contentTypeValue_def take_char_Some split: option.splits)
    then have "length r < length q" by (metis Suc_le_eq length_Cons length_dropWhile_le)
    with Some show ?thesis by (auto simp: take_char_Some)
  qed
qed

lemma take_param_length: "take_param s = Some (p, r) \<Longrightarrow> length r < length s"
proof -
  assume "take_param s = Some (p, r)"
  then obtain s1 a s2 s3 v where *: "skip_space s = CHR '';'' # s1" "take_token (skip_space s1) = Some (a, s2)"
      "s2 = CHR ''='' # s3" "contentTypeValue s3 = Some (v, r)"
    by (auto simp: take_param_def take_char_Some bind_eq_Some_conv)
  show ?thesis
    using skip_space_length [of s] skip_space_length [of s1] *(1,3) take_token_length [OF *(2)]
      contentTypeValue_length [OF *(4)]
    by simp
qed

text \<open>The parameters, and the rest after the last one.\<close>

function take_params :: "string \<Rightarrow> (string \<times> string) list \<times> string" where
  "take_params s =
     (case take_param s of
        None \<Rightarrow> ([], s)
      | Some (p, r) \<Rightarrow> (case take_params r of (ps, t) \<Rightarrow> (p # ps, t)))"
  by pat_completeness auto
termination by (relation "measure length") (auto dest: take_param_length)

declare take_params.simps [simp del]

text \<open>
  The whole expression.  A group inside a repetition keeps its last match, and is the empty string
  when the repetition is empty.
\<close>

definition contentTypeParse :: "string \<Rightarrow> (string \<times> string \<times> (string \<times> string) list) option" where
  "contentTypeParse s =
     Option.bind (contentTypeType (skip_space s)) (\<lambda>(t, s1).
     Option.bind (take_char CHR ''/'' (skip_space s1)) (\<lambda>s2.
     Option.bind (take_token (skip_space s2)) (\<lambda>(u, s3).
     (case take_params s3 of (ps, r) \<Rightarrow> if skip_space r = [] then Some (t, u, ps) else None))))"

definition FindStringSubmatch :: "string \<Rightarrow> string list" where
  "FindStringSubmatch s =
     (case contentTypeParse s of
        None \<Rightarrow> []
      | Some (t, u, ps) \<Rightarrow>
          (let p = (if ps = [] then ('''', '''') else last ps) in [s, t, u, fst p, snd p]))"

section \<open>Operations\<close>

fun pair_up :: "string list \<Rightarrow> (string \<rightharpoonup> string) \<Rightarrow> (string \<rightharpoonup> string)" where
  "pair_up (k # v # xs) m = pair_up xs (m(k \<mapsto> v))"
| "pair_up _ m = m"

definition GetContentType :: "string \<Rightarrow> (error + string \<times> string \<times> (string \<rightharpoonup> string)) go" where
  "GetContentType contentType =
     (let matches = FindStringSubmatch contentType
      in if length matches < 2 then Ret (Inl (ErrText ''Cannot parse''))
         else let param = pair_up (drop 3 matches) Map.empty
              in if length matches \<le> 2 then Panic else Ret (Inr (matches ! 1, matches ! 2, param)))"

definition getPlainBody :: "Content \<Rightarrow> (error + string) go" where
  "getPlainBody email =
     (case map_of (Headers email) ''Content-Type'' of
        None \<Rightarrow> Ret (Inl (ErrText ''Unrecognized MIME version''))
      | Some contentType \<Rightarrow>
          go_bind (first contentType) (\<lambda>ct. go_bind (GetContentType ct) (\<lambda>r. Ret (case r of
            Inl e \<Rightarrow> Inl e
          | Inr (content, subtype, _) \<Rightarrow>
              if content = ''text'' \<and> subtype = ''plain'' then Inr (Body email) else Inr ''''))))"

fun first_plain :: "Content list \<Rightarrow> (error + string) go" where
  "first_plain [] = Ret (Inl (ErrText (''Couldn'' @ [CHR 0x27] @ ''t find a text/plain MIME part'')))"
| "first_plain (part # parts) =
     go_bind (getPlainBody part) (\<lambda>r.
       let body = (case r of Inl _ \<Rightarrow> '''' | Inr b \<Rightarrow> b)
       in if body \<noteq> '''' then Ret (Inr body) else first_plain parts)"

definition GetSMTPBody :: "(Content \<Rightarrow> Content list) \<Rightarrow> Content \<Rightarrow> (error + string) go" where
  "GetSMTPBody ParseMIMEBody email =
     (case map_of (Headers email) ''MIME-Version'' of
        None \<Rightarrow> Ret (Inr (Body email))
      | Some version \<Rightarrow> go_bind (first version) (\<lambda>v.
          if v \<noteq> ''1.0'' then Ret (Inl (ErrText ''Unrecognized MIME version''))
          else (case map_of (Headers email) ''Content-Type'' of
            None \<Rightarrow> Ret (Inl (ErrText ''Unrecognized MIME version''))
          | Some contentType \<Rightarrow>
              go_bind (first contentType) (\<lambda>ct. go_bind (GetContentType ct) (\<lambda>r. case r of
                Inl e \<Rightarrow> Ret (Inl e)
              | Inr (content, subtype, _) \<Rightarrow>
                  if content = ''text'' \<and> subtype = ''plain'' then Ret (Inr (Body email))
                  else if content = ''multipart'' \<and> subtype = ''alternative''
                  then first_plain (ParseMIMEBody email)
                  else Ret (Inl (ErrText (''Unsupported Content-Type: '' @ ct @ ''; use text/plain instead''))))))))"


section \<open>Reading a printed header\<close>

definition is_token :: "string \<Rightarrow> bool" where
  "is_token s \<longleftrightarrow> s \<noteq> [] \<and> (\<forall>c \<in> set s. token_char c)"

definition is_value :: "string \<Rightarrow> bool" where
  "is_value v \<longleftrightarrow> is_token v \<or>
     2 \<le> length v \<and> hd v = CHR 0x22 \<and> last v = CHR 0x22 \<and> (\<forall>c \<in> set (butlast (tl v)). c \<noteq> CHR 0x22)"

definition is_media_type :: "string \<Rightarrow> bool" where
  "is_media_type t \<longleftrightarrow> t \<in> set media_types \<or> is_token t \<and> take 2 t = ''x-'' \<and> 2 < length t"

definition print_params :: "(string \<times> string) list \<Rightarrow> string" where
  "print_params ps = concat (map (\<lambda>(a, v). ''; '' @ a @ ''='' @ v) ps)"

definition print_type :: "string \<Rightarrow> string \<Rightarrow> (string \<times> string) list \<Rightarrow> string" where
  "print_type t u ps = t @ ''/'' @ u @ print_params ps"

lemma special_not_token [simp]:
  "\<not> token_char CHR ''/''" "\<not> token_char CHR '';''" "\<not> token_char CHR ''=''" "\<not> token_char (CHR 0x22)"
  by (simp_all add: token_char_def)

lemma take_token_append:
  assumes "is_token a" "r = [] \<or> \<not> token_char (hd r)"
  shows "take_token (a @ r) = Some (a, r)"
proof -
  have "takeWhile token_char r = []" "dropWhile token_char r = r" using assms(2) by (cases r; simp)+
  with assms(1) show ?thesis by (auto simp: is_token_def take_token_def takeWhile_append dropWhile_append)
qed

lemma space_not_token: "is_space c \<Longrightarrow> \<not> token_char c"
  unfolding is_space_def by (elim insertE emptyE; simp add: token_char_def is_cntrl_def)

lemma skip_space_token: "token_char c \<Longrightarrow> skip_space (c # s) = c # s"
  using space_not_token by auto

lemma skip_space_is_token: "is_token a \<Longrightarrow> skip_space (a @ s) = a @ s"
  by (cases a) (auto simp: is_token_def dest: space_not_token)

lemma contentTypeValue_append:
  assumes "is_value v" "r = [] \<or> \<not> token_char (hd r)"
  shows "contentTypeValue (v @ r) = Some (v, r)"
proof (cases "is_token v")
  case True
  then have "take_char (CHR 0x22) (v @ r) = None"
    by (cases v) (auto simp: is_token_def take_char_def)
  with True assms(2) show ?thesis by (simp add: contentTypeValue_def take_token_append)
next
  case False
  with assms(1) obtain b where v: "v = CHR 0x22 # b @ [CHR 0x22]" "\<forall>c \<in> set b. c \<noteq> CHR 0x22"
    by (cases v; cases "tl v" rule: rev_cases) (auto simp: is_value_def)
  then have "dropWhile (\<lambda>c. c \<noteq> CHR 0x22) (b @ CHR 0x22 # r) = CHR 0x22 # r"
      "takeWhile (\<lambda>c. c \<noteq> CHR 0x22) (b @ CHR 0x22 # r) = b"
    by (auto simp: dropWhile_append takeWhile_append)
  with v(1) show ?thesis by (simp add: contentTypeValue_def take_char_def)
qed

lemma print_params_hd: "print_params ps = [] \<or> \<not> token_char (hd (print_params ps))"
  by (cases ps) (auto simp: print_params_def)

lemma take_params_print:
  assumes "\<forall>(a, v) \<in> set ps. is_token a \<and> is_value v"
  shows "take_params (print_params ps) = (ps, [])"
  using assms
proof (induction ps)
  case Nil
  then show ?case by (simp add: print_params_def take_params.simps take_param_def take_char_def)
next
  case (Cons p ps)
  obtain a v where p: "p = (a, v)" by (cases p)
  have a: "is_token a" and v: "is_value v" using Cons.prems p by auto
  have "print_params (p # ps) = CHR '';'' # CHR '' '' # a @ CHR ''='' # v @ print_params ps"
    by (simp add: print_params_def p)
  moreover have "take_param (CHR '';'' # CHR '' '' # a @ CHR ''='' # v @ print_params ps) = Some ((a, v), print_params ps)"
    using take_token_append [OF a, of "CHR ''='' # v @ print_params ps"]
      contentTypeValue_append [OF v print_params_hd]
    by (simp add: take_param_def take_char_def is_space_def)
  ultimately show ?case using Cons p by (simp add: take_params.simps)
qed

lemma media_type_token: "is_media_type t \<Longrightarrow> is_token t"
  by (auto simp: is_media_type_def media_types_def is_token_def token_char_def is_cntrl_def)

lemma contentTypeParse_print:
  assumes "is_media_type t" "is_token u" "\<forall>(a, v) \<in> set ps. is_token a \<and> is_value v"
  shows "contentTypeParse (print_type t u ps) = Some (t, u, ps)"
proof -
  have t: "is_token t" using assms(1) by (rule media_type_token)
  have "contentTypeType (t @ CHR ''/'' # u @ print_params ps) = Some (t, CHR ''/'' # u @ print_params ps)"
    using take_token_append [OF t, of "CHR ''/'' # u @ print_params ps"] assms(1)
    by (auto simp: contentTypeType_def is_media_type_def)
  then show ?thesis
    using take_token_append [OF assms(2) print_params_hd] take_params_print [OF assms(3)]
    by (simp add: contentTypeParse_def print_type_def skip_space_is_token t assms(2) take_char_def is_space_def)
qed

text \<open>
  \<open>GetContentType\<close> reads the type and the subtype of a printed Content-Type header, but of its parameters
  only the last one, because the group of the regular expression is overwritten by each repetition; for
  a header without parameters it reports a parameter with an empty name.
\<close>

theorem GetContentType_printed:
  assumes "is_media_type t" "is_token u" "\<forall>(a, v) \<in> set ps. is_token a \<and> is_value v"
  shows "GetContentType (print_type t u ps) =
    Ret (Inr (t, u, if ps = [] then [[] \<mapsto> []] else [fst (last ps) \<mapsto> snd (last ps)]))"
  using contentTypeParse_print [OF assms]
  by (simp add: GetContentType_def FindStringSubmatch_def Let_def)

theorem GetContentType_printed_witness:
  "GetContentType (print_type ''multipart'' ''alternative'' [(''charset'', ''utf-8''), (''boundary'', ''b1'')]) =
    Ret (Inr (''multipart'', ''alternative'', [''boundary'' \<mapsto> ''b1'']))"
proof -
  have "is_media_type ''multipart''" by (simp add: is_media_type_def media_types_def)
  moreover have "is_token ''alternative''" "is_token ''charset''" "is_token ''utf-8''" "is_token ''boundary''"
      "is_token ''b1''"
    by (simp_all add: is_token_def token_char_def is_cntrl_def)
  ultimately show ?thesis
    by (subst GetContentType_printed) (auto simp: is_value_def)
qed

section \<open>The body\<close>

text \<open>The part that \<open>GetSMTPBody\<close> looks for in a multipart message.\<close>

definition plain_part :: "Content \<Rightarrow> bool" where
  "plain_part p \<longleftrightarrow> (\<exists>b. getPlainBody p = Ret (Inr b) \<and> b \<noteq> [])"

definition header_ok :: "Content \<Rightarrow> bool" where
  "header_ok p \<longleftrightarrow> map_of (Headers p) ''Content-Type'' \<noteq> Some []"

lemma GetContentType_returns: "\<exists>r. GetContentType s = Ret r"
  by (auto simp: GetContentType_def FindStringSubmatch_def Let_def split: option.splits prod.splits)

lemma getPlainBody_returns: "header_ok p \<Longrightarrow> \<exists>r. getPlainBody p = Ret r"
proof -
  assume h: "header_ok p"
  show ?thesis
  proof (cases "map_of (Headers p) ''Content-Type''")
    case None
    then show ?thesis by (simp add: getPlainBody_def)
  next
    case (Some ct)
    with h obtain c cs where "ct = c # cs" by (cases ct) (auto simp: header_ok_def)
    with Some GetContentType_returns [of c] show ?thesis by (auto simp: getPlainBody_def)
  qed
qed

lemma getPlainBody_Inr: "getPlainBody p = Ret (Inr b) \<Longrightarrow> b = Body p \<or> b = []"
proof -
  assume g: "getPlainBody p = Ret (Inr b)"
  then obtain cs c r where "map_of (Headers p) ''Content-Type'' = Some cs" "first cs = Ret c" "GetContentType c = Ret r"
    by (auto simp: getPlainBody_def go_bind_Ret_conv split: option.splits)
  with g show ?thesis
    by (cases r) (auto simp: getPlainBody_def split: if_splits)
qed

lemma first_plain_spec:
  assumes "\<forall>p \<in> set ps. header_ok p"
  shows "first_plain ps = Ret (case filter plain_part ps of
      [] \<Rightarrow> Inl (ErrText (''Couldn'' @ [CHR 0x27] @ ''t find a text/plain MIME part''))
    | p # _ \<Rightarrow> Inr (Body p))"
  using assms
proof (induction ps)
  case (Cons p ps)
  then obtain r where r: "getPlainBody p = Ret r" using getPlainBody_returns by fastforce
  show ?case
  proof (cases "plain_part p")
    case True
    then obtain b where "getPlainBody p = Ret (Inr b)" "b \<noteq> []" by (auto simp: plain_part_def)
    with getPlainBody_Inr [of p b] True show ?thesis by simp
  next
    case False
    with r have "(case r of Inl _ \<Rightarrow> [] | Inr b \<Rightarrow> b) = []"
      by (auto simp: plain_part_def split: sum.splits)
    with r False Cons show ?thesis by simp
  qed
qed simp

text \<open>
  From a \<open>multipart/alternative\<close> message \<open>GetSMTPBody\<close> takes the body of the first part of type
  \<open>text/plain\<close> whose body is not empty, and gives an error when there is none.
\<close>

theorem GetSMTPBody_multipart:
  assumes "map_of (Headers m) ''MIME-Version'' = Some (''1.0'' # vs)"
    and "map_of (Headers m) ''Content-Type'' = Some (print_type ''multipart'' ''alternative'' ps # cs)"
    and "\<forall>(a, v) \<in> set ps. is_token a \<and> is_value v"
    and "\<forall>p \<in> set (ParseMIMEBody m). header_ok p"
  shows "GetSMTPBody ParseMIMEBody m = Ret (case filter plain_part (ParseMIMEBody m) of
      [] \<Rightarrow> Inl (ErrText (''Couldn'' @ [CHR 0x27] @ ''t find a text/plain MIME part''))
    | p # _ \<Rightarrow> Inr (Body p))"
proof -
  have t: "is_media_type ''multipart''" by (simp add: is_media_type_def media_types_def)
  have u: "is_token ''alternative''" by (simp add: is_token_def token_char_def is_cntrl_def)
  have "\<exists>pm. GetContentType (print_type ''multipart'' ''alternative'' ps) = Ret (Inr (''multipart'', ''alternative'', pm))"
    using contentTypeParse_print [OF t u assms(3)]
    by (simp add: GetContentType_def FindStringSubmatch_def Let_def)
  then show ?thesis using assms first_plain_spec [OF assms(4)] by (auto simp: GetSMTPBody_def)
qed

theorem GetSMTPBody_multipart_witness:
  "GetSMTPBody (\<lambda>_. [\<lparr>Headers = [(''Content-Type'', [''text/plain''])], Body = ''hello'', Size = 0\<rparr>])
     \<lparr>Headers = [(''MIME-Version'', [''1.0'']), (''Content-Type'', [''multipart/alternative''])], Body = ''x'', Size = 0\<rparr> =
   Ret (Inr ''hello'')"
proof -
  have p: "print_type ''multipart'' ''alternative'' [] = ''multipart/alternative''"
    by (simp add: print_type_def print_params_def)
  have "print_type ''text'' ''plain'' [] = ''text/plain''" by (simp add: print_type_def print_params_def)
  moreover have "is_media_type ''text''" "is_token ''plain''"
    by (simp_all add: is_media_type_def media_types_def is_token_def token_char_def is_cntrl_def)
  ultimately have "contentTypeParse ''text/plain'' = Some (''text'', ''plain'', [])"
    using contentTypeParse_print [of "''text''" "''plain''" "[]"] by simp
  then have "plain_part \<lparr>Headers = [(''Content-Type'', [''text/plain''])], Body = ''hello'', Size = 0\<rparr>"
    by (simp add: plain_part_def getPlainBody_def GetContentType_def FindStringSubmatch_def Let_def)
  then show ?thesis
    by (subst GetSMTPBody_multipart [where ps = "[]" and vs = "[]" and cs = "[]"]) (simp_all add: header_ok_def p)
qed

end
