(* ===== verification/Bmutil.thy ===== *)
theory Bmutil
  imports Prelude
begin

text \<open>
  The part of package bmutil (outside the repository) that deals with addresses: an address type
  \<open>'a\<close> and the functions the packages call on it.
\<close>

record 'a bmutil =
  DecodeAddress :: "string \<Rightarrow> error + 'a"
  EncodeAddress :: "'a \<Rightarrow> string"
  RipeHash :: "'a \<Rightarrow> bytes"

text \<open>
  Documented behaviour: encoding an address and decoding it gives the address back, and decoding
  fails on the empty string.
\<close>

definition bmutil_ok :: "'a bmutil \<Rightarrow> bool" where
  "bmutil_ok U \<longleftrightarrow>
     (\<forall>a. DecodeAddress U (EncodeAddress U a) = Inr a) \<and>
     (\<forall>s a. DecodeAddress U s = Inr a \<longrightarrow> s \<noteq> [])"

text \<open>An instance for evaluation: addresses are the strings that start with \<open>BM-\<close>.\<close>

definition ref_bmutil :: "string bmutil" where
  "ref_bmutil =
     \<lparr>DecodeAddress = (\<lambda>s. if take 3 s = ''BM-'' then Inr (drop 3 s) else Inl (ErrExt ''invalid address'')),
      EncodeAddress = (\<lambda>a. ''BM-'' @ a),
      RipeHash = (\<lambda>a. a)\<rparr>"

lemma bmutil_ok_ref: "bmutil_ok ref_bmutil"
  by (auto simp: bmutil_ok_def ref_bmutil_def)

end
