(* ===== verification/Email.thy ===== *)
theory Email
  imports Content_Type Bmutil
begin

text \<open>
  Package \<open>email\<close> (src/user/email): addresses, the message type \<open>Bmail\<close>, its conversion to and from
  e-mails, and the methods of \<open>IMAPEmail\<close>.

  The parser of \<open>net/mail\<close>, the layout \<open>DateFormat\<close> of \<open>time\<close>, the flags of the IMAP library and the MIME
  parser of mailhog are the fields of the parameter \<open>mail_lib\<close>; \<open>bmutil.DecodeAddress\<close> is in \<open>bmutil\<close>.
\<close>

section \<open>Libraries\<close>

type_synonym Flags = u8

record mail_lib =
  ParseAddress :: "string \<Rightarrow> error + string"
  FormatDate :: "gotime \<Rightarrow> string"
  ParseDate :: "string \<Rightarrow> error + gotime"
  ParseMIMEBody :: "Content \<Rightarrow> Content list"
  FlagSeen :: Flags
  FlagRecent :: Flags
  FlagDeleted :: Flags
  HasFlags :: "Flags \<Rightarrow> Flags \<Rightarrow> bool"
  SetFlags :: "Flags \<Rightarrow> Flags \<Rightarrow> Flags"
  ResetFlags :: "Flags \<Rightarrow> Flags \<Rightarrow> Flags"

text \<open>A time that survives printing and parsing, up to its nanoseconds.\<close>

definition dated :: "mail_lib \<Rightarrow> gotime \<Rightarrow> bool" where
  "dated L t \<longleftrightarrow> FormatDate L t \<noteq> [] \<and> ParseDate L (FormatDate L t) = Inr (t\<lparr>t_nsec := 0\<rparr>)"

definition zero_time :: gotime where
  "zero_time = \<lparr>t_sec = 0, t_nsec = 0, t_zone = None\<rparr>"

section \<open>Addresses\<close>

definition bm_chars :: string where
  "bm_chars = ''123456789abcdefghijkmnopqrstuvwxyzABCDEFGHJKLMNPQRSTUVWXYZ''"

definition Broadcast :: string where
  "Broadcast = ''broadcast@bm.addr''"

definition BitmessageRegex :: "string \<Rightarrow> bool" where
  "BitmessageRegex s \<longleftrightarrow> take 3 s = ''BM-'' \<and> 3 < length s \<and> (\<forall>c \<in> set (drop 3 s). c \<in> set bm_chars)"

text \<open>A name followed by a fixed domain.\<close>

definition at_domain :: "(string \<Rightarrow> bool) \<Rightarrow> string \<Rightarrow> string \<Rightarrow> bool" where
  "at_domain p d s \<longleftrightarrow> length d < length s \<and> drop (length s - length d) s = d \<and> p (take (length s - length d) s)"

definition emailRegex :: "string \<Rightarrow> bool" where
  "emailRegex s \<longleftrightarrow> at_domain BitmessageRegex ''@bm.addr'' s"

definition CommandRegex :: "string \<Rightarrow> bool" where
  "CommandRegex s \<longleftrightarrow>
     at_domain (\<lambda>n. n \<noteq> [] \<and> (\<forall>c \<in> set n. CHR ''a'' \<le> c \<and> c \<le> CHR ''z'')) ''@bm.agent'' s"

definition BmToEmail :: "string \<Rightarrow> string" where
  "BmToEmail bmAddr = (if bmAddr = '''' then Broadcast else bmAddr @ ''@bm.addr'')"

text \<open>\<open>strings.Split(s, "@")[0]\<close> is the part before the first \<open>@\<close>.\<close>

definition before_at :: "string \<Rightarrow> string" where
  "before_at s = takeWhile (\<lambda>c. c \<noteq> CHR ''@'') s"

definition ToBm :: "mail_lib \<Rightarrow> 'a bmutil \<Rightarrow> string \<Rightarrow> error + string" where
  "ToBm L U emailAddr =
     (case ParseAddress L emailAddr of
        Inl e \<Rightarrow> Inl e
      | Inr addr \<Rightarrow>
          if emailAddr = Broadcast then Inr ''''
          else if \<not> emailRegex addr then Inl ErrInvalidEmail
          else let bm = before_at addr
               in case DecodeAddress U bm of Inl _ \<Rightarrow> Inl ErrInvalidEmail | Inr _ \<Rightarrow> Inr bm)"

definition ValidateEmail :: "mail_lib \<Rightarrow> string \<Rightarrow> bool" where
  "ValidateEmail L to1 =
     (case ParseAddress L to1 of
        Inl _ \<Rightarrow> False
      | Inr addr \<Rightarrow> if emailRegex addr then True else if CommandRegex addr then True else False)"

section \<open>Messages\<close>

text \<open>The mailbox of a message is a pointer; it is modelled by the name of the mailbox.\<close>

record ImapData =
  UID :: u64
  SequenceNumber :: u32
  Flags :: Flags
  TimeReceived :: gotime
  Mailbox :: "string option"

record MessageState =
  PubkeyRequestOutstanding :: bool
  SendTries :: u32
  LastSend :: gotime
  AckExpected :: bool
  AckReceived :: bool
  Received :: bool

definition new_state :: MessageState where
  "new_state = \<lparr>PubkeyRequestOutstanding = False, SendTries = 0, LastSend = zero_time,
     AckExpected = False, AckReceived = False, Received = False\<rparr>"

text \<open>\<open>format.Encoding\<close>: the two encodings the packages build, and any other one by its number.\<close>

datatype Encoding =
    Encoding1 (enc1_body: string)
  | Encoding2 (enc2_subject: string) (enc2_body: string)
  | EncodingOther u64

primrec Encoding_number :: "Encoding \<Rightarrow> u64" where
  "Encoding_number (Encoding1 _) = 1"
| "Encoding_number (Encoding2 _ _) = 2"
| "Encoding_number (EncodingOther n) = n"

record Bmail =
  From :: string
  To :: string
  OfChannel :: bool
  Expiration :: gotime
  Ack :: "bytes option"
  Payload :: "Encoding option"
  Imap :: "ImapData option"
  State :: "MessageState option"

record IMAPEmail =
  ImapSequenceNumber :: u32
  ImapUID :: u64
  ImapFlags :: Flags
  Date :: gotime
  EMailbox :: "string option"
  EContent :: Content

text \<open>
  What \<open>MsgRead\<close> and \<open>BroadcastRead\<close> read from a decrypted object of package cipher: the sender's address,
  the content, the expiration of the object and the ack.
\<close>

record cipher_message =
  sender_address :: string
  object_expiration :: gotime
  message_content :: Encoding
  message_ack :: "bytes option"

definition MsgRead :: "cipher_message \<Rightarrow> string \<Rightarrow> bool \<Rightarrow> error + Bmail" where
  "MsgRead msg toAddress ofChan =
     Inr \<lparr>From = BmToEmail (sender_address msg), To = BmToEmail toAddress, OfChannel = ofChan,
       Expiration = object_expiration msg, Ack = message_ack msg, Payload = Some (message_content msg),
       Imap = None, State = None\<rparr>"

definition BroadcastRead :: "cipher_message \<Rightarrow> error + Bmail" where
  "BroadcastRead msg =
     Inr \<lparr>From = Broadcast, To = BmToEmail (sender_address msg), OfChannel = False,
       Expiration = object_expiration msg, Ack = None, Payload = Some (message_content msg),
       Imap = None, State = None\<rparr>"

text \<open>\<open>fmt.Sprintf("%s", header)\<close> prints a map with its keys in order.\<close>

fun join :: "string \<Rightarrow> string list \<Rightarrow> string" where
  "join sep [] = []"
| "join sep [x] = x"
| "join sep (x # y # xs) = x @ sep @ join sep (y # xs)"

definition sprint_header :: "Headers \<Rightarrow> string" where
  "sprint_header h =
     ''map['' @ join '' '' (map (\<lambda>(k, vs). k @ '':['' @ join '' '' vs @ '']'') (sort_key fst h)) @ '']''"

definition email_headers :: "mail_lib \<Rightarrow> Bmail \<Rightarrow> string \<Rightarrow> gotime \<Rightarrow> Headers" where
  "email_headers L m subject received =
     [(''Subject'', [subject]), (''From'', [From m]), (''To'', [To m]),
      (''Date'', [FormatDate L received]), (''Expires'', [FormatDate L (Expiration m)])] @
     (if OfChannel m then [(''Reply-To'', [To m])] else []) @
     [(''Content-Type'', [''text/plain; charset='' @ [CHR 0x22] @ ''UTF-8'' @ [CHR 0x22]]),
      (''Content-Transfer-Encoding'', [''8bit''])]"

definition ToEmail :: "mail_lib \<Rightarrow> Bmail \<Rightarrow> error + IMAPEmail" where
  "ToEmail L m =
     (case Payload m of
        Some (Encoding2 subject body) \<Rightarrow>
          (case Imap m of
             None \<Rightarrow> Inl (ErrText ''No IMAP data'')
           | Some d \<Rightarrow>
               let headers = email_headers L m subject (TimeReceived d)
               in Inr \<lparr>ImapSequenceNumber = SequenceNumber d, ImapUID = UID d, ImapFlags = Flags d,
                    Date = TimeReceived d, EMailbox = Mailbox d,
                    EContent = \<lparr>Headers = headers, Body = body,
                      Size = length (sprint_header headers) + 2 + length body\<rparr>\<rparr>)
      | _ \<Rightarrow> Inl (ErrText ''Wrong format''))"

text \<open>The value of a header that is read with \<open>[0]\<close>, and the optional headers Expires and Subject.\<close>

definition read_expires :: "mail_lib \<Rightarrow> Headers \<Rightarrow> (error + gotime) go" where
  "read_expires L header =
     (case map_of header ''Expires'' of
        None \<Rightarrow> Ret (Inr zero_time)
      | Some expireStr \<Rightarrow> go_bind (first expireStr) (\<lambda>e. Ret (ParseDate L e)))"

definition read_subject :: "Headers \<Rightarrow> string go" where
  "read_subject header = (case map_of header ''Subject'' of None \<Rightarrow> Ret '''' | Some subj \<Rightarrow> first subj)"

text \<open>A header that is present with at least one value.\<close>

definition header_set :: "Headers \<Rightarrow> string \<Rightarrow> bool" where
  "header_set header k = (case map_of header k of Some (_ # _) \<Rightarrow> True | _ \<Rightarrow> False)"

definition smtp_bmail :: "string \<Rightarrow> string \<Rightarrow> gotime \<Rightarrow> string \<Rightarrow> string \<Rightarrow> MessageState \<Rightarrow> Bmail" where
  "smtp_bmail from1 to1 expiration subject body st =
     \<lparr>From = from1, To = to1, OfChannel = False, Expiration = expiration, Ack = None,
      Payload = Some (Encoding2 subject body), Imap = None, State = Some st\<rparr>"

text \<open>The common end of the two conversions: expiration, subject, body.\<close>

definition read_rest :: "mail_lib \<Rightarrow> Content \<Rightarrow> (gotime \<Rightarrow> string \<Rightarrow> string \<Rightarrow> Bmail) \<Rightarrow> (error + Bmail) go" where
  "read_rest L smtp mk =
     go_bind (read_expires L (Headers smtp)) (\<lambda>x. case x of
       Inl e \<Rightarrow> Ret (Inl e)
     | Inr expiration \<Rightarrow> go_bind (read_subject (Headers smtp)) (\<lambda>subject.
         go_bind (GetSMTPBody (ParseMIMEBody L) smtp) (\<lambda>b. case b of
           Inl e \<Rightarrow> Ret (Inl e)
         | Inr body \<Rightarrow> Ret (Inr (mk expiration subject body)))))"

definition NewBitmessageFromSMTP :: "mail_lib \<Rightarrow> Content \<Rightarrow> (error + Bmail) go" where
  "NewBitmessageFromSMTP L smtp =
     (let header = Headers smtp in
      case map_of header ''To'' of
        None \<Rightarrow> Ret (Inl (ErrText ''Invalid headers: To field is required''))
      | Some toList \<Rightarrow>
      if length toList \<noteq> 1 then Ret (Inl (ErrText ''Invalid headers: only one To field is allowed.''))
      else case map_of header ''From'' of
        None \<Rightarrow> Ret (Inl (ErrText ''Invalid headers: From field is required''))
      | Some fromList \<Rightarrow>
      if length fromList \<noteq> 1 then Ret (Inl (ErrText ''Invalid headers: only one From field is allowed.''))
      else if \<not> (ValidateEmail L (hd fromList) \<or> ValidateEmail L (hd toList)) then Ret (Inl ErrInvalidEmail)
      else (case (ParseAddress L (hd fromList), ParseAddress L (hd toList)) of
        (Inr from1, Inr to1) \<Rightarrow>
          if header_set header ''Cc'' \<or> header_set header ''Bcc''
          then Ret (Inl (ErrText ''Invalid headers: do not use CC or BCC with Bitmessage''))
          else read_rest L smtp (\<lambda>expiration subject body. smtp_bmail from1 to1 expiration subject body new_state)
      | _ \<Rightarrow> Panic))"

definition NewBitmessageDraftFromSMTP :: "mail_lib \<Rightarrow> Content \<Rightarrow> (error + Bmail) go" where
  "NewBitmessageDraftFromSMTP L smtp =
     (let header = Headers smtp;
          to1 = (case map_of header ''To'' of
                   None \<Rightarrow> ''''
                 | Some toList \<Rightarrow> if length toList \<noteq> 1 then ''''
                     else if length toList \<noteq> 1 then hd toList else '''');
          from1 = (case map_of header ''From'' of
                   None \<Rightarrow> ''''
                 | Some fromList \<Rightarrow> if length fromList \<noteq> 1 then '''' else hd fromList)
      in read_rest L smtp (\<lambda>expiration subject body. smtp_bmail from1 to1 expiration subject body
           (new_state\<lparr>AckExpected := to1 \<noteq> ''''\<rparr>)))"

section \<open>Methods of an IMAP e-mail\<close>

definition email_Header :: "IMAPEmail \<Rightarrow> Headers" where
  "email_Header e = Headers (EContent e)"

definition email_UID :: "IMAPEmail \<Rightarrow> u32" where
  "email_UID e = ucast (ImapUID e)"

definition email_SequenceNumber :: "IMAPEmail \<Rightarrow> u32" where
  "email_SequenceNumber e = ImapSequenceNumber e"

definition email_Size :: "IMAPEmail \<Rightarrow> u32" where
  "email_Size e = of_nat (Size (EContent e))"

definition email_InternalDate :: "IMAPEmail \<Rightarrow> gotime" where
  "email_InternalDate e = Date e"

definition email_Body :: "mail_lib \<Rightarrow> IMAPEmail \<Rightarrow> string go" where
  "email_Body L e =
     go_bind (GetSMTPBody (ParseMIMEBody L) (EContent e)) (\<lambda>r. Ret (case r of Inl _ \<Rightarrow> '''' | Inr b \<Rightarrow> b))"

definition email_Keywords :: "IMAPEmail \<Rightarrow> string list" where
  "email_Keywords e = []"

definition email_Flags :: "IMAPEmail \<Rightarrow> Flags" where
  "email_Flags e = ImapFlags e"

definition OverwriteFlags :: "IMAPEmail \<Rightarrow> Flags \<Rightarrow> IMAPEmail" where
  "OverwriteFlags e newFlags = e\<lparr>ImapFlags := newFlags\<rparr>"

definition AddFlags :: "mail_lib \<Rightarrow> IMAPEmail \<Rightarrow> Flags \<Rightarrow> IMAPEmail" where
  "AddFlags L e newFlags = e\<lparr>ImapFlags := SetFlags L (ImapFlags e) newFlags\<rparr>"

definition RemoveFlags :: "mail_lib \<Rightarrow> IMAPEmail \<Rightarrow> Flags \<Rightarrow> IMAPEmail" where
  "RemoveFlags L e newFlags = e\<lparr>ImapFlags := ResetFlags L (ImapFlags e) newFlags\<rparr>"

definition SetBody :: "IMAPEmail \<Rightarrow> string \<Rightarrow> IMAPEmail" where
  "SetBody e body = e\<lparr>EContent := (EContent e)\<lparr>Body := body\<rparr>\<rparr>"

text \<open>\<open>MIMEHeader.Get\<close>: the first value of the key, or the empty string.\<close>

definition header_Get :: "Headers \<Rightarrow> string \<Rightarrow> string" where
  "header_Get h k = (case map_of h k of Some (v # _) \<Rightarrow> v | _ \<Rightarrow> '''')"

definition SetHeaders :: "mail_lib \<Rightarrow> IMAPEmail \<Rightarrow> Headers \<Rightarrow> IMAPEmail" where
  "SetHeaders L e headers =
     (let date = header_Get headers ''Date'';
          e1 = (if date \<noteq> '''' then (case ParseDate L date of Inr d \<Rightarrow> e\<lparr>Date := d\<rparr> | Inl _ \<Rightarrow> e) else e)
      in e1\<lparr>EContent := (EContent e1)\<lparr>Headers := headers\<rparr>\<rparr>)"

section \<open>An instance of the libraries\<close>

definition ref_mail :: mail_lib where
  "ref_mail = \<lparr>ParseAddress = (\<lambda>s. if CHR ''@'' \<in> set s then Inr s else Inl (ErrExt ''mail: missing phrase'')),
     FormatDate = (\<lambda>t. PutUint64 (t_sec t)),
     ParseDate = (\<lambda>s. case Uint64 s of Ret n \<Rightarrow> Inr \<lparr>t_sec = n, t_nsec = 0, t_zone = None\<rparr> | _ \<Rightarrow> Inl (ErrExt ''time'')),
     ParseMIMEBody = (\<lambda>_. []), FlagSeen = 1, FlagRecent = 32, FlagDeleted = 8,
     HasFlags = (\<lambda>f g. and f g = g), SetFlags = or, ResetFlags = (\<lambda>f g. and f (not g))\<rparr>"

lemma dated_ref: "t_zone t = None \<Longrightarrow> dated ref_mail t"
  by (auto simp: dated_def ref_mail_def simp flip: length_0_conv)

section \<open>Addresses\<close>

lemma at_domain_append: "at_domain p d (n @ d) \<longleftrightarrow> n \<noteq> [] \<and> p n"
  by (simp add: at_domain_def)

lemma BitmessageRegex_no_at: "BitmessageRegex a \<Longrightarrow> CHR ''@'' \<notin> set a"
proof
  assume r: "BitmessageRegex a" and "CHR ''@'' \<in> set a"
  then have "CHR ''@'' \<in> set (take 3 a @ drop 3 a)" by simp
  then have "CHR ''@'' \<in> set (take 3 a) \<or> CHR ''@'' \<in> set (drop 3 a)" by (simp only: set_append Un_iff)
  with r show False by (auto simp: BitmessageRegex_def bm_chars_def)
qed

lemma before_at_append: "CHR ''@'' \<notin> set a \<Longrightarrow> before_at (a @ CHR ''@'' # d) = a"
  by (induction a) (auto simp: before_at_def)

text \<open>
  \<open>ToBm\<close> inverts \<open>BmToEmail\<close>: the e-mail form of a Bitmessage address that decodes gives the address back, and
  the e-mail form of the empty address is the broadcast address, which gives the empty address back.
\<close>

theorem ToBm_BmToEmail:
  assumes "a = [] \<or> BitmessageRegex a \<and> DecodeAddress U a = Inr x"
    and "ParseAddress L (BmToEmail a) = Inr (BmToEmail a)"
  shows "ToBm L U (BmToEmail a) = Inr a"
proof (cases "a = []")
  case True
  with assms(2) show ?thesis by (simp add: ToBm_def BmToEmail_def)
next
  case False
  with assms have r: "BitmessageRegex a" and d: "DecodeAddress U a = Inr x"
    and p: "ParseAddress L (a @ ''@bm.addr'') = Inr (a @ ''@bm.addr'')" by (simp_all add: BmToEmail_def)
  have "a @ ''@bm.addr'' \<noteq> Broadcast"
  proof
    assume "a @ ''@bm.addr'' = Broadcast"
    then have "a @ ''@bm.addr'' = ''broadcast'' @ ''@bm.addr''" by (simp add: Broadcast_def)
    then have "a = ''broadcast''" by (simp only: append_same_eq)
    with r show False by (simp add: BitmessageRegex_def)
  qed
  moreover have "emailRegex (a @ ''@bm.addr'')" using r False by (simp only: emailRegex_def at_domain_append) simp
  ultimately show ?thesis
    using p d False before_at_append [OF BitmessageRegex_no_at [OF r], of "''bm.addr''"]
    by (simp add: ToBm_def BmToEmail_def)
qed

theorem ToBm_BmToEmail_witness: "ToBm ref_mail ref_bmutil (BmToEmail ''BM-2cT'') = Inr ''BM-2cT''"
  using ToBm_BmToEmail [of "''BM-2cT''" ref_bmutil "''2cT''" ref_mail]
  by (simp add: BitmessageRegex_def bm_chars_def ref_bmutil_def ref_mail_def BmToEmail_def)

text \<open>
  \<open>ValidateEmail\<close>, which the SMTP server uses to check recipients, refuses the broadcast address although the
  package documentation and the welcome message tell users to send broadcasts there.
\<close>

theorem ValidateEmail_broadcast: "\<not> ValidateEmail (L\<lparr>ParseAddress := Inr\<rparr>) Broadcast"
  by (simp add: ValidateEmail_def emailRegex_def CommandRegex_def at_domain_def BitmessageRegex_def Broadcast_def)

section \<open>Reading an e-mail\<close>

lemma read_rest_Inr: "read_rest L c mk = Ret (Inr m) \<Longrightarrow> \<exists>x s b. m = mk x s b"
proof -
  assume "read_rest L c mk = Ret (Inr m)"
  then obtain x s where
    "go_bind (GetSMTPBody (ParseMIMEBody L) c) (\<lambda>b. case b of Inl e \<Rightarrow> Ret (Inl e) | Inr b \<Rightarrow> Ret (Inr (mk x s b))) = Ret (Inr m)"
    unfolding read_rest_def by (auto simp only: go_simps go_bind_Ret_conv [of "read_subject (Headers c)"])
  then show ?thesis by (auto simp: go_simps)
qed

lemma ToEmail_cases:
  assumes "ToEmail L m = Inr e"
  obtains s b d where "Payload m = Some (Encoding2 s b)" "Imap m = Some d"
    "Headers (EContent e) = email_headers L m s (TimeReceived d)" "Body (EContent e) = b"
    "ImapUID e = UID d" "ImapSequenceNumber e = SequenceNumber d" "ImapFlags e = Flags d" "Date e = TimeReceived d"
    "EMailbox e = Mailbox d"
  using assms by (auto simp: ToEmail_def Let_def split: option.splits Encoding.splits)

lemma email_headers_of [simp]:
  "map_of (email_headers L m s t) ''To'' = Some [To m]"
  "map_of (email_headers L m s t) ''From'' = Some [From m]"
  "map_of (email_headers L m s t) ''Subject'' = Some [s]"
  "map_of (email_headers L m s t) ''Expires'' = Some [FormatDate L (Expiration m)]"
  "map_of (email_headers L m s t) ''Date'' = Some [FormatDate L t]"
  "map_of (email_headers L m s t) ''Cc'' = None"
  "map_of (email_headers L m s t) ''Bcc'' = None"
  "map_of (email_headers L m s t) ''MIME-Version'' = None"
  by (simp_all add: email_headers_def)

text \<open>
  C13.  A Bitmessage that was converted to an e-mail and is read back as one is the same: sender, recipient, subject
  and body are kept, and the expiration up to its nanoseconds, provided that the addresses are plain and one of
  them is valid.
\<close>

theorem email_roundtrip:
  assumes "ToEmail L m = Inr e"
    and "ParseAddress L (From m) = Inr (From m)" "ParseAddress L (To m) = Inr (To m)"
    and "ValidateEmail L (From m) \<or> ValidateEmail L (To m)" "dated L (Expiration m)"
  shows "\<exists>s b. Payload m = Some (Encoding2 s b) \<and>
    NewBitmessageFromSMTP L (EContent e) =
      Ret (Inr (smtp_bmail (From m) (To m) ((Expiration m)\<lparr>t_nsec := 0\<rparr>) s b new_state))"
proof -
  from assms(1) obtain s b d where "Payload m = Some (Encoding2 s b)" "Imap m = Some d"
    "Headers (EContent e) = email_headers L m s (TimeReceived d)" "Body (EContent e) = b"
    by (rule ToEmail_cases)
  moreover from this(3) have "read_expires L (Headers (EContent e)) = Ret (Inr ((Expiration m)\<lparr>t_nsec := 0\<rparr>))"
    using assms(5) by (simp add: read_expires_def dated_def)
  ultimately show ?thesis
    using assms(2-4)
    by (auto simp: NewBitmessageFromSMTP_def read_rest_def read_subject_def GetSMTPBody_def header_set_def)
qed

definition demo_bmail :: Bmail where
  "demo_bmail = \<lparr>From = ''BM-2cT@bm.addr'', To = ''BM-2cU@bm.addr'', OfChannel = False,
     Expiration = \<lparr>t_sec = 7, t_nsec = 9, t_zone = None\<rparr>, Ack = None, Payload = Some (Encoding2 ''hi'' ''text''),
     Imap = Some \<lparr>UID = 1, SequenceNumber = 1, Flags = 0, TimeReceived = zero_time, Mailbox = Some ''Inbox''\<rparr>,
     State = Some new_state\<rparr>"

theorem email_roundtrip_witness:
  "\<exists>e. ToEmail ref_mail demo_bmail = Inr e \<and>
    NewBitmessageFromSMTP ref_mail (EContent e) =
      Ret (Inr (smtp_bmail ''BM-2cT@bm.addr'' ''BM-2cU@bm.addr'' \<lparr>t_sec = 7, t_nsec = 0, t_zone = None\<rparr> ''hi'' ''text'' new_state))"
proof -
  have "\<exists>e. ToEmail ref_mail demo_bmail = Inr e" by (simp add: ToEmail_def demo_bmail_def Let_def)
  then obtain e where e: "ToEmail ref_mail demo_bmail = Inr e" ..
  have "dated ref_mail (Expiration demo_bmail)" by (rule dated_ref) (simp add: demo_bmail_def)
  moreover have "ParseAddress ref_mail (From demo_bmail) = Inr (From demo_bmail)"
      "ParseAddress ref_mail (To demo_bmail) = Inr (To demo_bmail)"
    by (simp_all add: ref_mail_def demo_bmail_def)
  moreover have "ValidateEmail ref_mail (From demo_bmail)"
    by (simp add: ValidateEmail_def ref_mail_def demo_bmail_def emailRegex_def at_domain_def BitmessageRegex_def bm_chars_def)
  ultimately show ?thesis using email_roundtrip [OF e] e by (auto simp: demo_bmail_def)
qed

text \<open>
  C16.  What a strict reading accepts: an accepted e-mail has exactly one To and one From header that both parse, at
  least one of them of the form of a Bitmessage or command address, and no Cc or Bcc.  The other address need
  not be valid, because the check is a disjunction, and when the other address does not even parse, the
  conversion panics on the nil address.
\<close>

theorem NewBitmessageFromSMTP_checks:
  assumes "map_of (Headers c) ''To'' = Some [t]" "map_of (Headers c) ''From'' = Some [f]"
  shows "(\<forall>m. NewBitmessageFromSMTP L c = Ret (Inr m) \<longrightarrow>
      ParseAddress L t = Inr (To m) \<and> ParseAddress L f = Inr (From m) \<and> (ValidateEmail L f \<or> ValidateEmail L t) \<and>
      \<not> header_set (Headers c) ''Cc'' \<and> \<not> header_set (Headers c) ''Bcc'') \<and>
    (\<forall>e. ValidateEmail L f \<longrightarrow> ParseAddress L t = Inl e \<longrightarrow> NewBitmessageFromSMTP L c = Panic) \<and>
    (\<forall>e. ValidateEmail L t \<longrightarrow> ParseAddress L f = Inl e \<longrightarrow> NewBitmessageFromSMTP L c = Panic)"
proof (intro conjI allI impI, goal_cases)
  case (1 m)
  with assms show ?case
    by (auto simp: NewBitmessageFromSMTP_def Let_def smtp_bmail_def dest!: read_rest_Inr split: if_splits sum.split_asm)
next
  case (2 m)
  with assms show ?case
    by (auto simp: NewBitmessageFromSMTP_def Let_def smtp_bmail_def dest!: read_rest_Inr split: if_splits sum.split_asm)
next
  case (3 m)
  with assms show ?case by (auto simp: NewBitmessageFromSMTP_def Let_def split: if_splits)
next
  case (4 m)
  with assms show ?case by (auto simp: NewBitmessageFromSMTP_def Let_def split: if_splits sum.split_asm)
next
  case (5 m)
  with assms show ?case by (auto simp: NewBitmessageFromSMTP_def Let_def split: if_splits sum.split_asm)
qed (use assms in \<open>simp_all add: NewBitmessageFromSMTP_def Let_def split: sum.splits\<close>)

theorem NewBitmessageFromSMTP_checks_witness:
  "NewBitmessageFromSMTP ref_mail
     \<lparr>Headers = [(''To'', [''nobody'']), (''From'', [''BM-2cT@bm.addr''])], Body = ''x'', Size = 0\<rparr> = Panic"
  using NewBitmessageFromSMTP_checks [of "\<lparr>Headers = [(''To'', [''nobody'']), (''From'', [''BM-2cT@bm.addr''])], Body = ''x'', Size = 0\<rparr>"
      "''nobody''" "''BM-2cT@bm.addr''" ref_mail]
  by (simp add: ValidateEmail_def ref_mail_def emailRegex_def at_domain_def BitmessageRegex_def bm_chars_def)

text \<open>
  A draft loses its recipient: whatever the To header says, the message that \<open>NewBitmessageDraftFromSMTP\<close> returns
  has an empty recipient, and so expects no ack.
\<close>

theorem draft_loses_To:
  "NewBitmessageDraftFromSMTP L c = Ret (Inr m) \<Longrightarrow> To m = [] \<and> State m = Some new_state"
  by (auto simp: NewBitmessageDraftFromSMTP_def Let_def smtp_bmail_def new_state_def dest!: read_rest_Inr
      split: option.splits if_splits)

theorem draft_loses_To_witness:
  "\<exists>m. NewBitmessageDraftFromSMTP ref_mail
     \<lparr>Headers = [(''To'', [''BM-2cU@bm.addr'']), (''From'', [''BM-2cT@bm.addr''])], Body = ''x'', Size = 0\<rparr> = Ret (Inr m) \<and>
     To m = []"
proof -
  have "\<exists>m. NewBitmessageDraftFromSMTP ref_mail
     \<lparr>Headers = [(''To'', [''BM-2cU@bm.addr'']), (''From'', [''BM-2cT@bm.addr''])], Body = ''x'', Size = 0\<rparr> = Ret (Inr m)"
    by (simp add: NewBitmessageDraftFromSMTP_def read_rest_def read_expires_def read_subject_def GetSMTPBody_def)
  with draft_loses_To show ?thesis by blast
qed

end
