(* ===== verification/Bmail_Codec.thy ===== *)
theory Bmail_Codec
  imports Email
begin

text \<open>
  \<open>src/user/bmail.go\<close>: the stored form of a message.  The protocol buffer structures of bmutil's package
  \<open>serialize\<close> are records; marshalling them, \<open>ToProtobuf\<close> of an encoding and the wire form of objects
  are the fields of the parameter \<open>codec\<close>.  A byte slice of a structure may be nil (\<open>None\<close>).
\<close>

section \<open>The stored structures\<close>

record pb_ImapData =
  pb_TimeReceived :: string
  pb_Flags :: u32

record pb_Encoding =
  pb_Format :: u64
  pb_Subject :: "bytes option"
  pb_Body :: "bytes option"

record pb_MessageState =
  pb_PubkeyRequested :: bool
  pb_SendTries :: u32
  pb_LastSend :: string
  pb_AckExpected :: bool
  pb_AckReceived :: bool
  pb_Received :: bool

record pb_Message =
  pb_From :: string
  pb_To :: string
  pb_OfChannel :: bool
  pb_Expiration :: string
  pb_Ack :: "bytes option"
  pb_ImapData :: "pb_ImapData option"
  pb_Encoding :: "pb_Encoding option"
  pb_Object :: "bytes option"
  pb_State :: "pb_MessageState option"

record 'o codec =
  Unmarshal :: "bytes \<Rightarrow> error + pb_Message"
  Marshal :: "pb_Message \<Rightarrow> error + bytes"
  ToProtobuf :: "Encoding \<Rightarrow> pb_Encoding"
  ReadObject :: "bytes \<Rightarrow> error + 'o"
  EncodeObject :: "'o \<Rightarrow> bytes"

section \<open>Decoding and encoding\<close>

definition decode_encoding :: "pb_Encoding \<Rightarrow> error + Encoding" where
  "decode_encoding enc =
     (if pb_Format enc = 1 then
        (case pb_Body enc of
           None \<Rightarrow> Inl (ErrText ''Body required in encoding format 1'')
         | Some b \<Rightarrow> Inr (Encoding1 b))
      else if pb_Format enc = 2 then
        (let subject = (case pb_Subject enc of None \<Rightarrow> '''' | Some s \<Rightarrow> s)
         in case pb_Body enc of
              None \<Rightarrow> Inl (ErrText ''Body required in encoding format 2'')
            | Some b \<Rightarrow> Inr (Encoding2 subject b))
      else Inl (ErrText ''Unsupported encoding''))"

definition decode_imap :: "mail_lib \<Rightarrow> pb_ImapData option \<Rightarrow> error + ImapData option" where
  "decode_imap L d =
     (case d of
        None \<Rightarrow> Inr None
      | Some i \<Rightarrow>
          (case ParseDate L (pb_TimeReceived i) of
             Inl e \<Rightarrow> Inl e
           | Inr t \<Rightarrow> Inr (Some \<lparr>UID = 0, SequenceNumber = 0, Flags = ucast (pb_Flags i),
               TimeReceived = t, Mailbox = None\<rparr>)))"

definition decode_state :: "mail_lib \<Rightarrow> pb_MessageState option \<Rightarrow> error + MessageState option" where
  "decode_state L d =
     (case d of
        None \<Rightarrow> Inr None
      | Some s \<Rightarrow>
          (case ParseDate L (pb_LastSend s) of
             Inl e \<Rightarrow> Inl e
           | Inr t \<Rightarrow> Inr (Some \<lparr>PubkeyRequestOutstanding = pb_PubkeyRequested s, SendTries = pb_SendTries s,
               LastSend = t, AckExpected = pb_AckExpected s, AckReceived = pb_AckReceived s,
               Received = pb_Received s\<rparr>)))"

definition decode_object :: "'o codec \<Rightarrow> bytes option \<Rightarrow> error + 'o option" where
  "decode_object P b =
     (case b of
        None \<Rightarrow> Inr None
      | Some b \<Rightarrow> (case ReadObject P b of Inl e \<Rightarrow> Inl e | Inr x \<Rightarrow> Inr (Some x)))"

definition decodeBitmessage :: "mail_lib \<Rightarrow> 'o codec \<Rightarrow> bytes \<Rightarrow> (error + Bmail \<times> 'o option) go" where
  "decodeBitmessage L P dat =
     (case Unmarshal P dat of
        Inl e \<Rightarrow> Ret (Inl e)
      | Inr msg \<Rightarrow>
     (case pb_Encoding msg of
        None \<Rightarrow> Panic
      | Some enc \<Rightarrow>
     (case decode_encoding enc of
        Inl e \<Rightarrow> Ret (Inl e)
      | Inr q \<Rightarrow>
     (let expiration = (if pb_Expiration msg \<noteq> ''''
            then (case ParseDate L (pb_Expiration msg) of Inl _ \<Rightarrow> zero_time | Inr t \<Rightarrow> t) else zero_time)
      in case decode_imap L (pb_ImapData msg) of
        Inl e \<Rightarrow> Ret (Inl e)
      | Inr im \<Rightarrow>
     (case decode_state L (pb_State msg) of
        Inl e \<Rightarrow> Ret (Inl e)
      | Inr st \<Rightarrow>
     (case decode_object P (pb_Object msg) of
        Inl e \<Rightarrow> Ret (Inl e)
      | Inr ob \<Rightarrow>
          Ret (Inr (\<lparr>From = pb_From msg, To = pb_To msg, OfChannel = pb_OfChannel msg,
            Expiration = expiration, Ack = pb_Ack msg, Payload = Some q, Imap = im, State = st\<rparr>, ob))))))))"

definition serializeBitmessage :: "mail_lib \<Rightarrow> 'o codec \<Rightarrow> Bmail \<Rightarrow> 'o option \<Rightarrow> (error + bytes) go" where
  "serializeBitmessage L P m ob =
     (let expr = FormatDate L (Expiration m);
          imapData = map_option (\<lambda>d. \<lparr>pb_TimeReceived = FormatDate L (TimeReceived d), pb_Flags = ucast (Flags d)\<rparr>) (Imap m);
          object = map_option (EncodeObject P) ob;
          state = map_option (\<lambda>s. \<lparr>pb_PubkeyRequested = PubkeyRequestOutstanding s, pb_SendTries = SendTries s,
            pb_LastSend = FormatDate L (LastSend s), pb_AckExpected = AckExpected s,
            pb_AckReceived = AckReceived s, pb_Received = Received s\<rparr>) (State m)
      in case Payload m of
           None \<Rightarrow> Panic
         | Some content \<Rightarrow>
             Ret (Marshal P \<lparr>pb_From = From m, pb_To = To m, pb_OfChannel = OfChannel m, pb_Expiration = expr,
               pb_Ack = Ack m, pb_ImapData = imapData, pb_Encoding = Some (ToProtobuf P content),
               pb_Object = object, pb_State = state\<rparr>))"

section \<open>What the code relies on\<close>

text \<open>
  Documented behaviour of protocol buffers: unmarshalling gives back the structure that was marshalled,
  except that an empty byte slice is not written and comes back as nil.
\<close>

definition nil_if_empty :: "bytes option \<Rightarrow> bytes option" where
  "nil_if_empty b = (if b = Some [] then None else b)"

definition pb_norm :: "pb_Message \<Rightarrow> pb_Message" where
  "pb_norm m = m\<lparr>pb_Ack := nil_if_empty (pb_Ack m), pb_Object := nil_if_empty (pb_Object m),
     pb_Encoding := map_option (\<lambda>e. e\<lparr>pb_Subject := nil_if_empty (pb_Subject e), pb_Body := nil_if_empty (pb_Body e)\<rparr>)
       (pb_Encoding m)\<rparr>"

definition codec_ok :: "'o codec \<Rightarrow> bool" where
  "codec_ok P \<longleftrightarrow>
     (\<forall>m b. Marshal P m = Inr b \<longrightarrow> Unmarshal P b = Inr (pb_norm m)) \<and>
     (\<forall>b. ToProtobuf P (Encoding1 b) = \<lparr>pb_Format = 1, pb_Subject = None, pb_Body = Some b\<rparr>) \<and>
     (\<forall>s b. ToProtobuf P (Encoding2 s b) = \<lparr>pb_Format = 2, pb_Subject = Some s, pb_Body = Some b\<rparr>) \<and>
     (\<forall>x. ReadObject P (EncodeObject P x) = Inr x \<and> EncodeObject P x \<noteq> [])"

section \<open>Round trip\<close>

text \<open>
  What is kept of a message in a folder: not the uid, the sequence number and the mailbox, which the
  mailbox fills in, and not the nanoseconds of its times.
\<close>

definition stored :: "Bmail \<Rightarrow> Bmail" where
  "stored m = m\<lparr>Expiration := (Expiration m)\<lparr>t_nsec := 0\<rparr>, Ack := nil_if_empty (Ack m),
     Imap := map_option (\<lambda>d. d\<lparr>UID := 0, SequenceNumber := 0, Mailbox := None,
       TimeReceived := (TimeReceived d)\<lparr>t_nsec := 0\<rparr>\<rparr>) (Imap m),
     State := map_option (\<lambda>s. s\<lparr>LastSend := (LastSend s)\<lparr>t_nsec := 0\<rparr>\<rparr>) (State m)\<rparr>"

text \<open>The times of a message can be printed.\<close>

definition times_ok :: "mail_lib \<Rightarrow> Bmail \<Rightarrow> bool" where
  "times_ok L m \<longleftrightarrow> dated L (Expiration m) \<and> (case Imap m of None \<Rightarrow> True | Some d \<Rightarrow> dated L (TimeReceived d)) \<and>
     (case State m of None \<Rightarrow> True | Some s \<Rightarrow> dated L (LastSend s))"

text \<open>The body of a message, and whether it can be stored.\<close>

definition has_body :: "Bmail \<Rightarrow> bool" where
  "has_body m = (case Payload m of
     Some (Encoding1 b) \<Rightarrow> b \<noteq> [] | Some (Encoding2 s b) \<Rightarrow> b \<noteq> [] | _ \<Rightarrow> False)"

lemma ucast_flags [simp]: "ucast (ucast (f :: u8) :: u32) = f"
  by (rule bit_word_eqI) (auto simp: bit_simps dest: bit_imp_le_length)

lemma decode_encoding_norm:
  assumes "codec_ok P" "has_body m" "Payload m = Some q"
  shows "decode_encoding ((ToProtobuf P q)\<lparr>pb_Subject := nil_if_empty (pb_Subject (ToProtobuf P q)),
    pb_Body := nil_if_empty (pb_Body (ToProtobuf P q))\<rparr>) = Inr q"
  using assms by (cases q) (auto simp: codec_ok_def has_body_def decode_encoding_def nil_if_empty_def)

lemma decode_imap_format:
  assumes "case d of None \<Rightarrow> True | Some d \<Rightarrow> dated L (TimeReceived d)"
  shows "decode_imap L (map_option (\<lambda>d. \<lparr>pb_TimeReceived = FormatDate L (TimeReceived d), pb_Flags = ucast (Flags d)\<rparr>) d) =
    Inr (map_option (\<lambda>d. d\<lparr>UID := 0, SequenceNumber := 0, Mailbox := None,
       TimeReceived := (TimeReceived d)\<lparr>t_nsec := 0\<rparr>\<rparr>) d)"
  using assms by (cases d) (auto simp: decode_imap_def dated_def)

lemma decode_state_format:
  assumes "case d of None \<Rightarrow> True | Some s \<Rightarrow> dated L (LastSend s)"
  shows "decode_state L (map_option (\<lambda>s. \<lparr>pb_PubkeyRequested = PubkeyRequestOutstanding s, pb_SendTries = SendTries s,
            pb_LastSend = FormatDate L (LastSend s), pb_AckExpected = AckExpected s,
            pb_AckReceived = AckReceived s, pb_Received = Received s\<rparr>) d) =
    Inr (map_option (\<lambda>s. s\<lparr>LastSend := (LastSend s)\<lparr>t_nsec := 0\<rparr>\<rparr>) d)"
  using assms by (cases d) (auto simp: decode_state_def dated_def)

lemma decode_serialized:
  assumes "codec_ok P" "times_ok L m" "has_body m" "serializeBitmessage L P m ob = Ret (Inr d)"
  shows "decodeBitmessage L P d = Ret (Inr (stored m, ob))"
proof -
  obtain q where q: "Payload m = Some q" using assms(3) by (auto simp: has_body_def split: option.splits)
  have "decode_object P (nil_if_empty (map_option (EncodeObject P) ob)) = Inr ob"
    using assms(1) by (cases ob) (auto simp: decode_object_def nil_if_empty_def codec_ok_def)
  moreover have "FormatDate L (Expiration m) \<noteq> []" "ParseDate L (FormatDate L (Expiration m)) = Inr ((Expiration m)\<lparr>t_nsec := 0\<rparr>)"
    using assms(2) by (simp_all add: times_ok_def dated_def)
  moreover have "Unmarshal P d = Inr (pb_norm \<lparr>pb_From = From m, pb_To = To m, pb_OfChannel = OfChannel m,
      pb_Expiration = FormatDate L (Expiration m), pb_Ack = Ack m,
      pb_ImapData = map_option (\<lambda>d. \<lparr>pb_TimeReceived = FormatDate L (TimeReceived d), pb_Flags = ucast (Flags d)\<rparr>) (Imap m),
      pb_Encoding = Some (ToProtobuf P q), pb_Object = map_option (EncodeObject P) ob,
      pb_State = map_option (\<lambda>s. \<lparr>pb_PubkeyRequested = PubkeyRequestOutstanding s, pb_SendTries = SendTries s,
            pb_LastSend = FormatDate L (LastSend s), pb_AckExpected = AckExpected s,
            pb_AckReceived = AckReceived s, pb_Received = Received s\<rparr>) (State m)\<rparr>)"
    using assms(1,4) q by (auto simp: codec_ok_def serializeBitmessage_def Let_def)
  ultimately show ?thesis
    using decode_encoding_norm [OF assms(1,3) q] assms(2) q
    by (simp add: decodeBitmessage_def pb_norm_def times_ok_def decode_imap_format decode_state_format stored_def)
qed

lemma empty_body:
  assumes "codec_ok P" "Payload m = Some q" "q = Encoding1 [] \<or> q = Encoding2 s []" "serializeBitmessage L P m ob = Ret (Inr d)"
  shows "decodeBitmessage L P d = Ret (Inl (ErrText (if q = Encoding1 [] then ''Body required in encoding format 1''
    else ''Body required in encoding format 2'')))"
proof -
  obtain x where x: "Marshal P x = Inr d" "pb_Encoding x = Some (ToProtobuf P q)"
    using assms(2,4) by (auto simp: serializeBitmessage_def Let_def)
  then have "Unmarshal P d = Inr (pb_norm x)" using assms(1) by (simp add: codec_ok_def)
  moreover have "decode_encoding ((ToProtobuf P q)\<lparr>pb_Subject := nil_if_empty (pb_Subject (ToProtobuf P q)),
      pb_Body := nil_if_empty (pb_Body (ToProtobuf P q))\<rparr>) = Inl (ErrText (if q = Encoding1 [] then ''Body required in encoding format 1''
      else ''Body required in encoding format 2''))"
    using assms(1,3) by (auto simp: codec_ok_def decode_encoding_def nil_if_empty_def)
  ultimately show ?thesis using x(2) by (simp add: decodeBitmessage_def pb_norm_def)
qed

text \<open>
  C12.  A message with a body of encoding 1 or 2 that was serialised.  When the body is not empty it is decoded to the same
  message, up to the fields that are not stored and the nanoseconds of its times, together with the object that was stored
  beside it.  When the body is empty the stored data cannot be decoded: the empty body comes back as nil and is refused.
\<close>

theorem decode_serialize:
  assumes "codec_ok P" "times_ok L m" "Payload m = Some q" "q = Encoding1 b \<or> q = Encoding2 s b"
    and "serializeBitmessage L P m ob = Ret (Inr d)"
  shows "decodeBitmessage L P d =
    (if b \<noteq> [] then Ret (Inr (stored m, ob))
     else Ret (Inl (ErrText (if q = Encoding1 b then ''Body required in encoding format 1'' else ''Body required in encoding format 2''))))"
proof (cases "b = []")
  case True
  with empty_body [OF assms(1,3) _ assms(5)] assms(4) show ?thesis by simp
next
  case False
  then have "has_body m" using assms(3,4) by (auto simp: has_body_def)
  from decode_serialized [OF assms(1,2) this assms(5)] False show ?thesis by simp
qed

section \<open>An instance of the codec\<close>

text \<open>A codec for a given table of structures, which writes a structure as its position in the table.\<close>

definition position :: "pb_Message list \<Rightarrow> pb_Message \<Rightarrow> nat" where
  "position ms m = length (takeWhile (\<lambda>x. x \<noteq> m) ms)"

definition table_codec :: "pb_Message list \<Rightarrow> string codec" where
  "table_codec ms =
     \<lparr>Unmarshal = (\<lambda>b. if length b = 4 \<and> unbe b < length ms then Inr (pb_norm (ms ! unbe b)) else Inl (ErrExt ''proto'')),
      Marshal = (\<lambda>m. if m \<in> set ms then Inr (be 4 (position ms m)) else Inl (ErrExt ''proto'')),
      ToProtobuf = (\<lambda>e. case e of
          Encoding1 b \<Rightarrow> \<lparr>pb_Format = 1, pb_Subject = None, pb_Body = Some b\<rparr>
        | Encoding2 s b \<Rightarrow> \<lparr>pb_Format = 2, pb_Subject = Some s, pb_Body = Some b\<rparr>
        | EncodingOther n \<Rightarrow> \<lparr>pb_Format = n, pb_Subject = None, pb_Body = None\<rparr>),
      ReadObject = (\<lambda>b. case b of [] \<Rightarrow> Inl (ErrExt ''EOF'') | c # r \<Rightarrow> Inr r),
      EncodeObject = (\<lambda>x. CHR ''o'' # x)\<rparr>"

lemma position_less: "m \<in> set ms \<Longrightarrow> position ms m < length ms"
  by (induction ms) (auto simp: position_def)

lemma nth_position: "m \<in> set ms \<Longrightarrow> ms ! position ms m = m"
  by (induction ms) (auto simp: position_def)

lemma codec_ok_table: "length ms < 256 \<Longrightarrow> codec_ok (table_codec ms)"
proof -
  assume l: "length ms < 256"
  have "unbe (be 4 (position ms m)) = position ms m" if "m \<in> set ms" for m
    using position_less [OF that] l by (simp add: unbe_be)
  then show ?thesis
    by (auto simp: codec_ok_def table_codec_def position_less nth_position)
qed

definition demo_pb :: pb_Message where
  "demo_pb = \<lparr>pb_From = ''BM-2cT@bm.addr'', pb_To = ''BM-2cU@bm.addr'', pb_OfChannel = False,
     pb_Expiration = PutUint64 7, pb_Ack = None,
     pb_ImapData = Some \<lparr>pb_TimeReceived = PutUint64 0, pb_Flags = 0\<rparr>,
     pb_Encoding = Some \<lparr>pb_Format = 2, pb_Subject = Some ''hi'', pb_Body = Some ''text''\<rparr>,
     pb_Object = None,
     pb_State = Some \<lparr>pb_PubkeyRequested = False, pb_SendTries = 0, pb_LastSend = PutUint64 0, pb_AckExpected = False,
       pb_AckReceived = False, pb_Received = False\<rparr>\<rparr>"

definition demo_codec :: "string codec" where
  "demo_codec = table_codec
     [demo_pb, demo_pb\<lparr>pb_Encoding := Some \<lparr>pb_Format = 2, pb_Subject = Some ''hi'', pb_Body = Some []\<rparr>\<rparr>]"

lemma demo_codec_ok: "codec_ok demo_codec"
  unfolding demo_codec_def by (rule codec_ok_table) simp

lemma demo_serialized: "serializeBitmessage ref_mail demo_codec demo_bmail None = Ret (Inr (be 4 0))"
  by (simp add: serializeBitmessage_def demo_codec_def demo_bmail_def demo_pb_def table_codec_def ref_mail_def
      zero_time_def new_state_def position_def)

theorem decode_serialize_witness:
  "decodeBitmessage ref_mail demo_codec (be 4 0) = Ret (Inr (stored demo_bmail, None)) \<and>
    (\<exists>d. serializeBitmessage ref_mail demo_codec (demo_bmail\<lparr>Payload := Some (Encoding2 ''hi'' [])\<rparr>) None = Ret (Inr d) \<and>
      decodeBitmessage ref_mail demo_codec d = Ret (Inl (ErrText ''Body required in encoding format 2'')))"
proof
  have t: "times_ok ref_mail demo_bmail" "times_ok ref_mail (demo_bmail\<lparr>Payload := Some (Encoding2 ''hi'' [])\<rparr>)"
    by (simp_all add: times_ok_def demo_bmail_def dated_ref zero_time_def new_state_def)
  have "Payload demo_bmail = Some (Encoding2 ''hi'' ''text'')" by (simp add: demo_bmail_def)
  from decode_serialize [OF demo_codec_ok t(1) this _ demo_serialized, of "''text''" "''hi''"]
  show "decodeBitmessage ref_mail demo_codec (be 4 0) = Ret (Inr (stored demo_bmail, None))" by simp
  let ?m = "demo_bmail\<lparr>Payload := Some (Encoding2 ''hi'' [])\<rparr>"
  have "\<exists>d. serializeBitmessage ref_mail demo_codec ?m None = Ret (Inr d)"
    by (simp add: serializeBitmessage_def demo_codec_def demo_bmail_def demo_pb_def table_codec_def ref_mail_def
      zero_time_def new_state_def Let_def)
  then obtain d where d: "serializeBitmessage ref_mail demo_codec ?m None = Ret (Inr d)" ..
  have "Payload ?m = Some (Encoding2 ''hi'' [])" by simp
  from decode_serialize [OF demo_codec_ok t(2) this _ d, of "[]" "''hi''"] d
  show "\<exists>d. serializeBitmessage ref_mail demo_codec ?m None = Ret (Inr d) \<and>
      decodeBitmessage ref_mail demo_codec d = Ret (Inl (ErrText ''Body required in encoding format 2''))" by simp
qed

end
