(* ===== verification/Folder_Spec.thy ===== *)
theory Folder_Spec
  imports Golib
begin

text \<open>
  The interface \<open>data.Folder\<close> (src/store/data/folder.go) as a record of its methods, and its
  contract as locales.  A method takes the world \<open>'w\<close> (what the folder shares with the rest of the
  program: the database, the environment) and the folder object \<open>'h\<close> and returns both updated.

  \<open>ForEachMessage\<close> runs a callback on a sequence of messages and stops at the first error.  The
  record holds the sequence and the outcome after the last message (\<open>Visits\<close>); \<open>ForEachMessage\<close> is
  defined from it for every type of callback state.  The same two types, \<open>store.folder\<close> and
  \<open>data.memFolder\<close>, that implement the Go interface interpret the locales.
\<close>

section \<open>The interface\<close>

type_synonym visit = "u64 \<times> u64 \<times> bytes"

record ('w, 'h) Folder =
  InsertNewMessage :: "'w \<Rightarrow> 'h \<Rightarrow> bytes option \<Rightarrow> u64 \<Rightarrow> ('w \<times> 'h \<times> (error + u64)) go"
  InsertMessage :: "'w \<Rightarrow> 'h \<Rightarrow> u64 \<Rightarrow> bytes option \<Rightarrow> u64 \<Rightarrow> ('w \<times> 'h \<times> error option) go"
  GetMessage :: "'w \<Rightarrow> 'h \<Rightarrow> u64 \<Rightarrow> (error + u64 \<times> bytes) go"
  DeleteMessage :: "'w \<Rightarrow> 'h \<Rightarrow> u64 \<Rightarrow> ('w \<times> 'h \<times> error option) go"
  Visits :: "'w \<Rightarrow> 'h \<Rightarrow> u64 \<Rightarrow> u64 \<Rightarrow> u64 \<Rightarrow> 'w \<times> visit list \<times> error option go"
  NextID :: "'h \<Rightarrow> u64"
  LastID :: "'w \<Rightarrow> 'h \<Rightarrow> ('w \<times> u64 \<times> (u64 \<rightharpoonup> u64)) go"

fun for_each ::
  "('a \<Rightarrow> u64 \<Rightarrow> u64 \<Rightarrow> bytes \<Rightarrow> ('a \<times> error option) go) \<Rightarrow> 'a \<Rightarrow> visit list \<Rightarrow> error option go \<Rightarrow>
    ('a \<times> error option) go" where
  "for_each fn a [] fin = go_bind fin (\<lambda>e. Ret (a, e))"
| "for_each fn a ((i, sfx, msg) # vs) fin =
     go_bind (fn a i sfx msg) (\<lambda>(a', e).
       case e of Some e \<Rightarrow> Ret (a', Some e) | None \<Rightarrow> for_each fn a' vs fin)"

definition ForEachMessage ::
  "('w, 'h) Folder \<Rightarrow> 'w \<Rightarrow> 'h \<Rightarrow> u64 \<Rightarrow> u64 \<Rightarrow> u64 \<Rightarrow>
    ('a \<Rightarrow> u64 \<Rightarrow> u64 \<Rightarrow> bytes \<Rightarrow> ('a \<times> error option) go) \<Rightarrow> 'a \<Rightarrow> ('w \<times> 'a \<times> error option) go" where
  "ForEachMessage F w h lo hi sfx fn a =
     (case Visits F w h lo hi sfx of
        (w', vs, fin) \<Rightarrow> go_bind (for_each fn a vs fin) (\<lambda>(a', e). Ret (w', a', e)))"

section \<open>The contract\<close>

text \<open>
  \<open>inv\<close> holds of a folder in a healthy world (the database is open and does not fail);
  \<open>msgs w h\<close> is the abstract content, a map from ids to suffix and message;
  \<open>fits m\<close> says that the message is not too large to be stored; \<open>apart h h'\<close> that the two
  objects are different folders.
\<close>

definition in_range :: "u64 \<Rightarrow> u64 \<Rightarrow> u64 \<Rightarrow> bool" where
  "in_range lo hi i \<longleftrightarrow> lo \<le> i \<and> (hi = 0 \<or> i \<le> hi)"

definition valid_id :: "u64 \<Rightarrow> u64 \<Rightarrow> bool" where
  "valid_id next i \<longleftrightarrow> i \<noteq> 0 \<and> i < next"

locale folder =
  fixes F :: "('w, 'h) Folder"
    and inv :: "'w \<Rightarrow> 'h \<Rightarrow> bool"
    and msgs :: "'w \<Rightarrow> 'h \<Rightarrow> u64 \<rightharpoonup> u64 \<times> bytes"
    and fits :: "bytes \<Rightarrow> bool"
    and apart :: "'h \<Rightarrow> 'h \<Rightarrow> bool"
  assumes finite_msgs: "inv w h \<Longrightarrow> finite (dom (msgs w h))"
    and msgs_valid: "inv w h \<Longrightarrow> i \<in> dom (msgs w h) \<Longrightarrow> valid_id (NextID F h) i"
    and insert_new: "inv w h \<Longrightarrow> fits m \<Longrightarrow> NextID F h \<noteq> - 1 \<Longrightarrow>
      \<exists>w' h'. InsertNewMessage F w h (Some m) s = Ret (w', h', Inr (NextID F h)) \<and>
        inv w' h' \<and> msgs w' h' = (msgs w h)(NextID F h \<mapsto> (s, m)) \<and>
        NextID F h' = NextID F h + 1 \<and>
        (\<forall>g. apart h g \<longrightarrow> inv w g \<longrightarrow> inv w' g \<and> msgs w' g = msgs w g \<and> apart h' g)"
    and insert: "inv w h \<Longrightarrow> fits m \<Longrightarrow>
      \<exists>w' h'. InsertMessage F w h i (Some m) s = Ret (w', h',
          if \<not> valid_id (NextID F h) i then Some ErrInvalidID
          else if i \<in> dom (msgs w h) then Some ErrDuplicateID else None) \<and>
        inv w' h' \<and> NextID F h' = NextID F h \<and>
        msgs w' h' = (if valid_id (NextID F h) i \<and> i \<notin> dom (msgs w h)
                      then (msgs w h)(i \<mapsto> (s, m)) else msgs w h) \<and>
        (\<forall>g. apart h g \<longrightarrow> inv w g \<longrightarrow> inv w' g \<and> msgs w' g = msgs w g \<and> apart h' g)"
    and get: "inv w h \<Longrightarrow>
      GetMessage F w h i = Ret (case msgs w h i of None \<Rightarrow> Inl ErrNotFound | Some x \<Rightarrow> Inr x)"
    and delete: "inv w h \<Longrightarrow>
      \<exists>w' h'. DeleteMessage F w h i = Ret (w', h',
          if \<not> valid_id (NextID F h) i then Some ErrInvalidID
          else if i \<notin> dom (msgs w h) then Some ErrNotFound else None) \<and>
        inv w' h' \<and> NextID F h' = NextID F h \<and> msgs w' h' = (msgs w h)(i := None) \<and>
        (\<forall>g. apart h g \<longrightarrow> inv w g \<longrightarrow> inv w' g \<and> msgs w' g = msgs w g \<and> apart h' g)"
    and visits: "inv w h \<Longrightarrow> hi = 0 \<or> lo \<le> hi \<Longrightarrow>
      \<exists>w' vs. Visits F w h lo hi s = (w', vs, Ret None) \<and>
        inv w' h \<and> msgs w' h = msgs w h \<and> distinct vs \<and>
        (\<forall>g. inv w g \<longrightarrow> inv w' g \<and> msgs w' g = msgs w g) \<and>
        (\<forall>i t m. (i, t, m) \<in> set vs \<longrightarrow> msgs w h i = Some (t, m) \<and> in_range lo hi i) \<and>
        (\<forall>i t m. msgs w h i = Some (t, m) \<longrightarrow> in_range lo hi i \<longrightarrow> s = 0 \<or> t = s \<longrightarrow>
          (i, t, m) \<in> set vs)"
begin

text \<open>What was inserted is read back under the id that was returned.\<close>

lemma get_inserted:
  assumes "inv w h" "fits m" "NextID F h \<noteq> - 1"
    and "InsertNewMessage F w h (Some m) s = Ret (w', h', Inr i)"
  shows "GetMessage F w' h' i = Ret (Inr (s, m))"
proof -
  from insert_new [OF assms(1-3), of s] assms(4) have "inv w' h'"
      "msgs w' h' = (msgs w h)(i \<mapsto> (s, m))"
    by auto
  then show ?thesis by (simp add: get)
qed

text \<open>The returned id was not in use.\<close>

lemma next_fresh: "inv w h \<Longrightarrow> NextID F h \<notin> dom (msgs w h)"
  using msgs_valid [of w h "NextID F h"] by (auto simp: valid_id_def)

text \<open>A deleted message is gone and the others stay.\<close>

lemma get_deleted:
  assumes "inv w h" "DeleteMessage F w h i = Ret (w', h', r)"
  shows "GetMessage F w' h' i = Ret (Inl ErrNotFound)"
    and "j \<noteq> i \<Longrightarrow> GetMessage F w' h' j = GetMessage F w h j"
proof -
  from delete [OF assms(1), of i] assms(2) have "inv w' h'" and m: "msgs w' h' = (msgs w h)(i := None)"
    by auto
  then show "GetMessage F w' h' i = Ret (Inl ErrNotFound)"
    and "j \<noteq> i \<Longrightarrow> GetMessage F w' h' j = GetMessage F w h j"
    using assms(1) by (auto simp: get)
qed

text \<open>Delete followed by an insert under the same id replaces the message.\<close>

lemma replace:
  assumes iv: "inv w h" and "fits m" and dm: "i \<in> dom (msgs w h)"
  shows "\<exists>w1 h1 w2 h2. DeleteMessage F w h i = Ret (w1, h1, None) \<and>
    GetMessage F w1 h1 i = Ret (Inl ErrNotFound) \<and>
    InsertMessage F w1 h1 i (Some m) s = Ret (w2, h2, None) \<and> inv w2 h2 \<and>
    NextID F h2 = NextID F h \<and> msgs w2 h2 = (msgs w h)(i \<mapsto> (s, m)) \<and>
    (\<forall>g. apart h g \<longrightarrow> inv w g \<longrightarrow> inv w2 g \<and> msgs w2 g = msgs w g \<and> apart h2 g)"
proof -
  have v: "valid_id (NextID F h) i" using msgs_valid [OF iv dm] .
  from delete [OF iv, of i] obtain w1 h1 where
    d: "DeleteMessage F w h i = Ret (w1, h1, None)" "inv w1 h1" "NextID F h1 = NextID F h"
       "msgs w1 h1 = (msgs w h)(i := None)"
       "\<forall>g. apart h g \<longrightarrow> inv w g \<longrightarrow> inv w1 g \<and> msgs w1 g = msgs w g \<and> apart h1 g"
    using v dm by auto
  from insert [OF d(2) assms(2), of i s] obtain w2 h2 where
    n: "InsertMessage F w1 h1 i (Some m) s = Ret (w2, h2, None)" "inv w2 h2"
       "NextID F h2 = NextID F h" "msgs w2 h2 = (msgs w h)(i \<mapsto> (s, m))"
       "\<forall>g. apart h1 g \<longrightarrow> inv w1 g \<longrightarrow> inv w2 g \<and> msgs w2 g = msgs w1 g \<and> apart h2 g"
    using v d(3,4) by auto
  have "GetMessage F w1 h1 i = Ret (Inl ErrNotFound)"
    using d(2,4) by (simp add: get)
  with d n show ?thesis by auto
qed

text \<open>A loop over all messages whose callback never fails reaches the end.\<close>

lemma for_each_total:
  assumes "\<And>a i s m. \<exists>a'. fn a i s m = Ret (a', None)"
  shows "\<exists>a'. for_each fn a vs (Ret None) = Ret (a', None)"
  using assms
proof (induction vs arbitrary: a)
  case (Cons v vs)
  obtain i s m where v: "v = (i, s, m)" by (cases v)
  from Cons.prems obtain a1 where "fn a i s m = Ret (a1, None)" by blast
  with v Cons show ?case by simp
qed simp

end

text \<open>
  The stronger contract of a folder whose iteration is in increasing order of ids and honours the
  suffix, as the documentation of the interface asks.
\<close>

locale ordered_folder = folder +
  assumes visits_sorted: "inv w h \<Longrightarrow> hi = 0 \<or> lo \<le> hi \<Longrightarrow> Visits F w h lo hi s = (w', vs, fin) \<Longrightarrow>
      sorted_wrt (<) (map fst vs)"
    and visits_suffix: "inv w h \<Longrightarrow> hi = 0 \<or> lo \<le> hi \<Longrightarrow> Visits F w h lo hi s = (w', vs, fin) \<Longrightarrow>
      (i, t, m) \<in> set vs \<Longrightarrow> s = 0 \<or> t = s"
    and visits_range: "hi \<noteq> 0 \<Longrightarrow> hi < lo \<Longrightarrow>
      Visits F w h lo hi s = (w', vs, fin) \<Longrightarrow> vs = [] \<and> (\<exists>e. fin = Ret (Some e)) \<and> w' = w"
begin

definition listing where
  "listing w h lo hi s vs \<longleftrightarrow> sorted_wrt (<) (map fst vs) \<and>
     (\<forall>i t m. (i, t, m) \<in> set vs \<longleftrightarrow>
        msgs w h i = Some (t, m) \<and> in_range lo hi i \<and> (s = 0 \<or> t = s))"

lemma visits_listing:
  assumes "inv w h" "hi = 0 \<or> lo \<le> hi"
  shows "\<exists>w' vs. Visits F w h lo hi s = (w', vs, Ret None) \<and> inv w' h \<and> msgs w' h = msgs w h \<and>
    (\<forall>g. inv w g \<longrightarrow> inv w' g \<and> msgs w' g = msgs w g) \<and> listing w h lo hi s vs"
proof -
  from visits [OF assms, of s] obtain w' vs where
    v: "Visits F w h lo hi s = (w', vs, Ret None)" "inv w' h" "msgs w' h = msgs w h"
       "\<forall>g. inv w g \<longrightarrow> inv w' g \<and> msgs w' g = msgs w g"
       "\<forall>i t m. (i, t, m) \<in> set vs \<longrightarrow> msgs w h i = Some (t, m) \<and> in_range lo hi i"
       "\<forall>i t m. msgs w h i = Some (t, m) \<longrightarrow> in_range lo hi i \<longrightarrow> s = 0 \<or> t = s \<longrightarrow>
          (i, t, m) \<in> set vs"
    by blast
  have "listing w h lo hi s vs"
    unfolding listing_def
    using visits_sorted [OF assms v(1)] visits_suffix [OF assms v(1)] v(5,6) by blast
  with v show ?thesis by blast
qed

end

text \<open>The contract of a folder that knows its highest ids.\<close>

definition last_of :: "u64 set \<Rightarrow> u64" where
  "last_of K = (if K = {} then 0 else Max K)"

definition ids_of :: "(u64 \<rightharpoonup> u64 \<times> bytes) \<Rightarrow> u64 \<Rightarrow> u64 set" where
  "ids_of M s = {i. \<exists>m. M i = Some (s, m)}"

definition last_by_suffix :: "(u64 \<rightharpoonup> u64 \<times> bytes) \<Rightarrow> u64 \<rightharpoonup> u64" where
  "last_by_suffix M s = (if ids_of M s = {} then None else Some (last_of (ids_of M s)))"

locale last_folder = folder +
  assumes last_id: "inv w h \<Longrightarrow>
    LastID F w h = Ret (w, last_of (dom (msgs w h)), last_by_suffix (msgs w h))"
begin

lemma last_id_upper:
  "inv w h \<Longrightarrow> LastID F w h = Ret (w', l, by) \<Longrightarrow> i \<in> dom (msgs w h) \<Longrightarrow> i \<le> l"
  using finite_msgs [of w h] by (auto simp: last_id last_of_def intro!: Max_ge)

end

end
