(* ===== verification/Crypt.thy ===== *)
theory Crypt
  imports Golib
begin

text \<open>
  The encryption of records in src/store/db.go and src/idmgr/db.go.  NaCl's secretbox and PBKDF2 are
  not part of the repository: they are a parameter, a record of the three functions that are called,
  with the documented laws in \<open>crypto_ok\<close>.
\<close>

section \<open>The cryptographic functions\<close>

record crypto =
  Seal :: "bytes \<Rightarrow> bytes \<Rightarrow> bytes \<Rightarrow> bytes"  \<comment> \<open>message, nonce, key\<close>
  Open :: "bytes \<Rightarrow> bytes \<Rightarrow> bytes \<Rightarrow> bytes option"  \<comment> \<open>box, nonce, key\<close>
  Pbkdf2 :: "bytes \<Rightarrow> bytes \<Rightarrow> nat \<Rightarrow> nat \<Rightarrow> bytes"  \<comment> \<open>password, salt, iterations, key length; with SHA-256\<close>

definition nonceSize :: nat where "nonceSize = 24"
definition saltLength :: nat where "saltLength = 32"
definition keySize :: nat where "keySize = 32"
definition numIters :: nat where "numIters = 2 ^ 15"
definition Overhead :: nat where "Overhead = 16"

definition crypto_ok :: "crypto \<Rightarrow> bool" where
  "crypto_ok C \<longleftrightarrow>
     (\<forall>m n k. Open C (Seal C m n k) n k = Some m) \<and>
     (\<forall>m n k. length (Seal C m n k) = length m + Overhead) \<and>
     (\<forall>p s i n. length (Pbkdf2 C p s i n) = n)"

section \<open>Model\<close>

text \<open>A Go array of \<open>n\<close> bytes: \<open>copy(a[:], s)\<close> overwrites as much of \<open>a\<close> as \<open>s\<close> covers.\<close>

definition copy_array :: "bytes \<Rightarrow> bytes \<Rightarrow> bytes" where
  "copy_array a s = take (length a) s @ drop (length s) a"

abbreviation zeros :: "nat \<Rightarrow> bytes" where
  "zeros n \<equiv> replicate n (CHR 0x00)"

definition deriveKey :: "crypto \<Rightarrow> bytes \<Rightarrow> bytes \<Rightarrow> bytes" where
  "deriveKey C pass salt = copy_array (zeros keySize) (Pbkdf2 C pass salt numIters keySize)"

definition encryptKey ::
  "crypto \<Rightarrow> 'a env_scheme \<Rightarrow> bytes \<Rightarrow> bytes \<Rightarrow> 'a env_scheme \<times> (error + bytes \<times> bytes)" where
  "encryptKey C w masterKey pass =
     (case rand_Read w nonceSize of
        (w1, Inl e) \<Rightarrow> (w1, Inl e)
      | (w1, Inr nonce) \<Rightarrow>
          (case rand_Read w1 saltLength of
             (w2, Inl e) \<Rightarrow> (w2, Inl e)
           | (w2, Inr salt) \<Rightarrow>
               let key = deriveKey C pass salt
               in (w2, Inr (salt, nonce @ Seal C masterKey nonce key))))"

definition encrypt ::
  "crypto \<Rightarrow> bytes option \<Rightarrow> 'a env_scheme \<Rightarrow> bytes \<Rightarrow> 'a env_scheme \<times> (error + bytes)" where
  "encrypt C masterKey w dat =
     (case masterKey of
        None \<Rightarrow> (w, Inr dat)
      | Some key \<Rightarrow>
          (case rand_Read w nonceSize of
             (w1, Inl e) \<Rightarrow> (w1, Inl e)
           | (w1, Inr nonce) \<Rightarrow> (w1, Inr (nonce @ Seal C dat nonce key))))"

text \<open>The slice expressions \<open>data[:nonceSize]\<close> and \<open>data[nonceSize:]\<close> panic when the data is shorter.\<close>

definition decrypt :: "crypto \<Rightarrow> bytes option \<Rightarrow> bytes \<Rightarrow> bytes option go" where
  "decrypt C masterKey dat =
     (case masterKey of
        None \<Rightarrow> Ret (Some dat)
      | Some key \<Rightarrow>
          if length dat < nonceSize then Panic
          else Ret (Open C (drop nonceSize dat) (take nonceSize dat) key))"

section \<open>Lemmas\<close>

lemma copy_array_full [simp]: "length s = length a \<Longrightarrow> copy_array a s = s"
  by (simp add: copy_array_def)

lemma length_deriveKey [simp]: "crypto_ok C \<Longrightarrow> length (deriveKey C p s) = keySize"
  by (simp add: deriveKey_def crypto_ok_def)

lemma crypto_Open_Seal [simp]: "crypto_ok C \<Longrightarrow> Open C (Seal C m n k) n k = Some m"
  by (simp add: crypto_ok_def)

lemma crypto_length_Seal [simp]: "crypto_ok C \<Longrightarrow> length (Seal C m n k) = length m + Overhead"
  by (simp add: crypto_ok_def)

lemma decrypt_nonce_Seal:
  "crypto_ok C \<Longrightarrow> length n = nonceSize \<Longrightarrow> decrypt C (Some k) (n @ Seal C m n k) = Ret (Some m)"
  by (simp add: decrypt_def)

lemma encrypt_decrypt:
  assumes "crypto_ok C" "env_ok w" "encrypt C k w m = (w', Inr e)"
  shows "decrypt C k e = Ret (Some m)"
proof (cases k)
  case None
  with assms show ?thesis by (simp add: encrypt_def decrypt_def)
next
  case (Some key)
  then obtain n where "rnd_src w (tick w) nonceSize = Inr n" "e = n @ Seal C m n key"
    using assms(3) by (auto simp: encrypt_def rand_Read_def split: sum.splits)
  with assms Some show ?thesis by (simp add: decrypt_nonce_Seal env_ok_rnd)
qed

lemma encrypt_length:
  assumes "crypto_ok C" "env_ok w" "encrypt C k w m = (w', Inr e)"
  shows "length e \<le> length m + nonceSize + Overhead"
  using assms
  by (auto simp: encrypt_def rand_Read_def env_ok_rnd split: option.splits sum.splits)

text \<open>Encrypting reads the random source at most once and changes nothing else.\<close>

lemma encrypt_world:
  "encrypt C k w m = (w', r) \<Longrightarrow> w' = w \<or> w' = w\<lparr>tick := Suc (tick w)\<rparr>"
  by (auto simp: encrypt_def rand_Read_def split: option.splits sum.splits)

lemma encrypt_live:
  assumes "crypto_ok C" "env_ok w" "rnd_live w"
  shows "\<exists>n e. encrypt C k w m = (w\<lparr>tick := n\<rparr>, Inr e) \<and> decrypt C k e = Ret (Some m) \<and>
    length e \<le> length m + nonceSize + Overhead"
proof -
  obtain w' r where e: "encrypt C k w m = (w', r)" by (cases "encrypt C k w m")
  obtain b where "rand_Read w nonceSize = (w\<lparr>tick := Suc (tick w)\<rparr>, Inr b)"
    using rand_Read_live [OF assms(2,3)] by blast
  with e have "\<exists>x. r = Inr x" by (auto simp: encrypt_def split: option.splits)
  then obtain x where x: "r = Inr x" ..
  moreover have "w' = w\<lparr>tick := tick w'\<rparr>" using encrypt_world [OF e] by (auto simp: e)
  ultimately have "encrypt C k w m = (w\<lparr>tick := tick w'\<rparr>, Inr x)" using e by simp
  with encrypt_decrypt [OF assms(1,2)] encrypt_length [OF assms(1,2)] show ?thesis by blast
qed

section \<open>A reference implementation\<close>

text \<open>
  A keyed transformation with the documented laws, to evaluate the model on concrete inputs: the
  box is preceded by the first 16 bytes of the key (padded), which \<open>Open\<close> compares.
\<close>

definition ref_tag :: "bytes \<Rightarrow> bytes" where
  "ref_tag k = take Overhead (k @ zeros Overhead)"

definition ref_crypto :: crypto where
  "ref_crypto =
     \<lparr>Seal = (\<lambda>m n k. ref_tag k @ m),
      Open = (\<lambda>b n k. if take Overhead b = ref_tag k then Some (drop Overhead b) else None),
      Pbkdf2 = (\<lambda>p s i n. take n (p @ s @ zeros n))\<rparr>"

lemma crypto_ok_ref: "crypto_ok ref_crypto"
  by (auto simp: crypto_ok_def ref_crypto_def ref_tag_def min_def)

section \<open>Properties\<close>

text \<open>
  Whatever \<open>encrypt\<close> produced, with a master key or without, \<open>decrypt\<close> with the same master key
  gives the data back; and the stored form is at most 40 bytes longer.
\<close>

theorem encrypt_decrypt_roundtrip:
  assumes "crypto_ok C" "env_ok w" "encrypt C k w m = (w', Inr e)"
  shows "decrypt C k e = Ret (Some m) \<and> length e \<le> length m + 40"
  using encrypt_decrypt [OF assms] encrypt_length [OF assms] by (simp add: nonceSize_def Overhead_def)

definition ref_env :: env where
  "ref_env = \<lparr>tick = 0, rnd_src = (\<lambda>i n. Inr (zeros n)),
     clock = (\<lambda>i. \<lparr>t_sec = 0, t_nsec = 0, t_zone = None\<rparr>),
     key_order = (\<lambda>i K. sorted_list_of_set K), name_order = (\<lambda>i K. sorted_list_of_set K)\<rparr>"

lemma env_ok_ref: "env_ok ref_env" and rnd_live_ref: "rnd_live ref_env"
  by (simp_all add: env_ok_def rnd_live_def ref_env_def)

theorem encrypt_decrypt_roundtrip_witness:
  "\<exists>w' e. encrypt ref_crypto (Some ''key'') ref_env ''hello'' = (w', Inr e) \<and>
     decrypt ref_crypto (Some ''key'') e = Ret (Some ''hello'') \<and> length e \<le> length ''hello'' + 40"
proof -
  obtain w' e where e: "encrypt ref_crypto (Some ''key'') ref_env ''hello'' = (w', Inr e)"
    by (simp add: encrypt_def rand_Read_def ref_env_def)
  from encrypt_decrypt_roundtrip [OF crypto_ok_ref env_ok_ref e] e show ?thesis by blast
qed

end
