(* ===== verification/Bolt.thy ===== *)
theory Bolt
  imports Golib "HOL-Library.Sublist"
begin

text \<open>
  The key/value store underneath package \<open>store\<close> is BoltDB, which is not part of the repository:
  it is a parameter of every definition that uses it, a record of the operations the packages
  call.  A bucket is named by the path of bucket names that leads to it from the root of the
  transaction; a cursor is the list of the entries it still has to visit, with \<open>None\<close> in place
  of the value for a nested bucket (BoltDB returns a nil value there).

  \<open>bolt_ok\<close> collects the documented behaviour the packages rely on, and \<open>ref_bolt\<close> is an
  executable store that has it.
\<close>

section \<open>The interface\<close>

type_synonym path = "bytes list"
type_synonym entry = "bytes \<times> bytes option"

record 'db bolt =
  Begin :: "'db \<Rightarrow> error option"
  Commit :: "'db \<Rightarrow> error + 'db"
  Bucket :: "'db \<Rightarrow> path \<Rightarrow> bool"
  Cursor :: "'db \<Rightarrow> path \<Rightarrow> entry list"
  Seek :: "'db \<Rightarrow> path \<Rightarrow> bytes \<Rightarrow> entry list"
  Get :: "'db \<Rightarrow> path \<Rightarrow> bytes \<Rightarrow> bytes option"
  Put :: "'db \<Rightarrow> path \<Rightarrow> bytes \<Rightarrow> bytes \<Rightarrow> error + 'db"
  Delete :: "'db \<Rightarrow> path \<Rightarrow> bytes \<Rightarrow> error + 'db"
  CreateBucket :: "'db \<Rightarrow> path \<Rightarrow> bytes \<Rightarrow> error + 'db"
  CreateBucketIfNotExists :: "'db \<Rightarrow> path \<Rightarrow> bytes \<Rightarrow> error + 'db"
  DeleteBucket :: "'db \<Rightarrow> path \<Rightarrow> bytes \<Rightarrow> error + 'db"
  CloseFile :: "'db \<Rightarrow> error option"

text \<open>
  A database handle: its committed content, whether a read-write transaction is open, and whether
  the database is open at all.  Only one read-write transaction may be open at a time, so \<open>Update\<close>
  called inside another \<open>Update\<close> waits for ever.
\<close>

record 'db DB =
  content :: 'db
  rwtx :: bool
  opened :: bool

record 'db world = env +
  wdb :: "'db DB"

text \<open>
  A transaction body works on the content and on the variables \<open>'l\<close> its closure captures.
  \<open>Update\<close> commits what the body did when it returns nil and rolls back when it returns an error;
  writes to captured variables stay in both cases.
\<close>

definition Update ::
  "'db bolt \<Rightarrow> 'db DB \<Rightarrow> 'l \<Rightarrow> ('db \<Rightarrow> 'l \<Rightarrow> ('db \<times> 'l \<times> error option) go) \<Rightarrow>
    ('db DB \<times> 'l \<times> error option) go" where
  "Update B d l fn =
     (if rwtx d then Block
      else if \<not> opened d then Ret (d, l, Some ErrDatabaseNotOpen)
      else case Begin B (content d) of
             Some e \<Rightarrow> Ret (d, l, Some e)
           | None \<Rightarrow>
               go_bind (fn (content d) l) (\<lambda>(tx, l', err).
                 case err of
                   Some e \<Rightarrow> Ret (d, l', Some e)
                 | None \<Rightarrow> (case Commit B tx of
                              Inl e \<Rightarrow> Ret (d, l', Some e)
                            | Inr c \<Rightarrow> Ret (d\<lparr>content := c\<rparr>, l', None))))"

definition View ::
  "'db bolt \<Rightarrow> 'db DB \<Rightarrow> 'l \<Rightarrow> ('db \<Rightarrow> 'l \<Rightarrow> ('l \<times> error option) go) \<Rightarrow>
    ('l \<times> error option) go" where
  "View B d l fn =
     (if \<not> opened d then Ret (l, Some ErrDatabaseNotOpen)
      else case Begin B (content d) of Some e \<Rightarrow> Ret (l, Some e) | None \<Rightarrow> fn (content d) l)"

text \<open>
  \<open>db.Update\<close> as the packages call it: the body also reads the environment (clock, random bytes),
  and while it runs the database has an open read-write transaction.
\<close>

definition db_Update ::
  "'db bolt \<Rightarrow> 'db world \<Rightarrow> 'l \<Rightarrow>
    ('db world \<Rightarrow> 'db \<Rightarrow> 'l \<Rightarrow> ('db world \<times> 'db \<times> 'l \<times> error option) go) \<Rightarrow>
    ('db world \<times> 'l \<times> error option) go" where
  "db_Update B w l fn =
     go_bind (Update B (wdb w) (w\<lparr>wdb := (wdb w)\<lparr>rwtx := True\<rparr>\<rparr>, l)
               (\<lambda>tx (w1, l1). go_bind (fn w1 tx l1) (\<lambda>(w2, tx2, l2, e). Ret (tx2, (w2, l2), e))))
       (\<lambda>(d, (w', l'), e). Ret (w'\<lparr>wdb := d\<rparr>, l', e))"

definition db_View ::
  "'db bolt \<Rightarrow> 'db world \<Rightarrow> 'l \<Rightarrow> ('db \<Rightarrow> 'l \<Rightarrow> ('l \<times> error option) go) \<Rightarrow>
    ('l \<times> error option) go" where
  "db_View B w l fn = View B (wdb w) l fn"

text \<open>\<open>db.Close\<close> waits for an open read-write transaction.\<close>

definition db_Close :: "'db bolt \<Rightarrow> 'db world \<Rightarrow> ('db world \<times> error option) go" where
  "db_Close B w =
     (if rwtx (wdb w) then Block
      else Ret (w\<lparr>wdb := (wdb w)\<lparr>opened := False\<rparr>\<rparr>,
                if opened (wdb w) then CloseFile B (content (wdb w)) else None))"

text \<open>A method call on a bucket that does not exist (a nil \<open>*Bucket\<close>) panics.\<close>

definition on_bucket :: "'db bolt \<Rightarrow> 'db \<Rightarrow> path \<Rightarrow> 'a go \<Rightarrow> 'a go" where
  "on_bucket B tx p m = (if Bucket B tx p then m else Panic)"

section \<open>The documented behaviour\<close>

definition MaxKeySize :: nat where "MaxKeySize = 32768"
definition MaxValueSize :: nat where "MaxValueSize = 2 ^ 31 - 2"

text \<open>What can be seen of a bucket: the map from its keys to values, or to \<open>None\<close> for a nested bucket.\<close>

definition obs :: "'db bolt \<Rightarrow> 'db \<Rightarrow> path \<Rightarrow> (bytes \<rightharpoonup> bytes option) option" where
  "obs B db p = (if Bucket B db p then Some (map_of (Cursor B db p)) else None)"

definition bolt_reads :: "'db bolt \<Rightarrow> bool" where
  "bolt_reads B \<longleftrightarrow>
     (\<forall>db p. sorted_wrt (<) (map fst (Cursor B db p))) \<and>
     (\<forall>db p k. Seek B db p k = filter (\<lambda>(k', _). k \<le> k') (Cursor B db p)) \<and>
     (\<forall>db p k. Get B db p k =
        (case map_of (Cursor B db p) k of Some (Some v) \<Rightarrow> Some v | _ \<Rightarrow> None)) \<and>
     (\<forall>db. Bucket B db []) \<and>
     (\<forall>db p n. Bucket B db (p @ [n]) \<longleftrightarrow>
        Bucket B db p \<and> map_of (Cursor B db p) n = Some None)"

definition bolt_put :: "'db bolt \<Rightarrow> bool" where
  "bolt_put B \<longleftrightarrow>
     (\<forall>db p k v db'. Put B db p k v = Inr db' \<longrightarrow>
        (\<exists>m. obs B db p = Some m \<and> m k \<noteq> Some None \<and>
             obs B db' = (obs B db)(p \<mapsto> m(k \<mapsto> Some v)))) \<and>
     (\<forall>db p k v m. obs B db p = Some m \<and> p \<noteq> [] \<and> m k \<noteq> Some None \<and> k \<noteq> [] \<and>
        length k \<le> MaxKeySize \<and> length v \<le> MaxValueSize \<longrightarrow> (\<exists>db'. Put B db p k v = Inr db'))"

definition bolt_delete :: "'db bolt \<Rightarrow> bool" where
  "bolt_delete B \<longleftrightarrow>
     (\<forall>db p k db'. Delete B db p k = Inr db' \<longrightarrow>
        (\<exists>m. obs B db p = Some m \<and> m k \<noteq> Some None \<and>
             obs B db' = (obs B db)(p \<mapsto> m(k := None)))) \<and>
     (\<forall>db p k m. obs B db p = Some m \<and> p \<noteq> [] \<and> m k \<noteq> Some None \<longrightarrow>
        (\<exists>db'. Delete B db p k = Inr db'))"

definition bolt_create :: "'db bolt \<Rightarrow> bool" where
  "bolt_create B \<longleftrightarrow>
     (\<forall>db p n db'. CreateBucket B db p n = Inr db' \<longrightarrow>
        (\<exists>m. obs B db p = Some m \<and> m n = None \<and> n \<noteq> [] \<and>
             obs B db' = (obs B db)(p \<mapsto> m(n \<mapsto> None), p @ [n] \<mapsto> Map.empty))) \<and>
     (\<forall>db p n m. obs B db p = Some m \<and> m n = None \<and> n \<noteq> [] \<and> length n \<le> MaxKeySize \<longrightarrow>
        (\<exists>db'. CreateBucket B db p n = Inr db')) \<and>
     (\<forall>db p n m. obs B db p = Some m \<longrightarrow>
        CreateBucketIfNotExists B db p n =
          (if m n = Some None then Inr db else CreateBucket B db p n))"

definition bolt_drop :: "'db bolt \<Rightarrow> bool" where
  "bolt_drop B \<longleftrightarrow>
     (\<forall>db p n db'. DeleteBucket B db p n = Inr db' \<longrightarrow>
        (\<exists>m. obs B db p = Some m \<and> m n = Some None \<and>
             obs B db' = (\<lambda>q. if prefix (p @ [n]) q then None
                              else if q = p then Some (m(n := None)) else obs B db q))) \<and>
     (\<forall>db p n m. obs B db p = Some m \<and> m n = Some None \<longrightarrow>
        (\<exists>db'. DeleteBucket B db p n = Inr db'))"

definition bolt_ok :: "'db bolt \<Rightarrow> bool" where
  "bolt_ok B \<longleftrightarrow> bolt_reads B \<and> bolt_put B \<and> bolt_delete B \<and> bolt_create B \<and> bolt_drop B \<and>
     (\<forall>tx c. Commit B tx = Inr c \<longrightarrow> c = tx)"

text \<open>A database that is open and whose disk does not fail.\<close>

definition bolt_live :: "'db bolt \<Rightarrow> bool" where
  "bolt_live B \<longleftrightarrow> (\<forall>db. Begin B db = None \<and> Commit B db = Inr db)"

section \<open>Consequences\<close>

lemma bolt_Cursor_sorted: "bolt_ok B \<Longrightarrow> sorted_wrt (<) (map fst (Cursor B db p))"
  by (simp add: bolt_ok_def bolt_reads_def)

lemma bolt_Seek:
  "bolt_ok B \<Longrightarrow> Seek B db p k = filter (\<lambda>(k', _). k \<le> k') (Cursor B db p)"
  by (simp add: bolt_ok_def bolt_reads_def)

lemma bolt_Get:
  "bolt_ok B \<Longrightarrow> obs B db p = Some m \<Longrightarrow>
    Get B db p k = (case m k of Some (Some v) \<Rightarrow> Some v | _ \<Rightarrow> None)"
  by (auto simp: bolt_ok_def bolt_reads_def obs_def split: if_splits)

lemma bolt_root: "bolt_ok B \<Longrightarrow> Bucket B db []"
  by (simp add: bolt_ok_def bolt_reads_def)

lemma bolt_obs_root: "bolt_ok B \<Longrightarrow> \<exists>m. obs B db [] = Some m"
  by (simp add: obs_def bolt_root)

lemma bolt_nested:
  "bolt_ok B \<Longrightarrow> Bucket B db (p @ [n]) \<longleftrightarrow> Bucket B db p \<and> map_of (Cursor B db p) n = Some None"
  by (simp add: bolt_ok_def bolt_reads_def)

lemma bolt_nested_obs:
  "bolt_ok B \<Longrightarrow> obs B db p = Some m \<Longrightarrow> Bucket B db (p @ [n]) \<longleftrightarrow> m n = Some None"
  by (auto simp: bolt_nested obs_def split: if_splits)

lemma obs_Bucket: "obs B db p = Some m \<Longrightarrow> Bucket B db p"
  by (simp add: obs_def split: if_splits)

lemma Bucket_obs: "Bucket B db p \<longleftrightarrow> (\<exists>m. obs B db p = Some m)"
  by (simp add: obs_def)

lemma obs_Cursor: "obs B db p = Some m \<Longrightarrow> map_of (Cursor B db p) = m"
  by (simp add: obs_def split: if_splits)

lemma bolt_Put:
  "bolt_ok B \<Longrightarrow> Put B db p k v = Inr db' \<Longrightarrow> obs B db p = Some m \<Longrightarrow>
    obs B db' = (obs B db)(p \<mapsto> m(k \<mapsto> Some v))"
  unfolding bolt_ok_def bolt_put_def by (metis option.inject)

lemma bolt_Put_ok:
  "bolt_ok B \<Longrightarrow> obs B db p = Some m \<Longrightarrow> p \<noteq> [] \<Longrightarrow> m k \<noteq> Some None \<Longrightarrow> k \<noteq> [] \<Longrightarrow>
    length k \<le> MaxKeySize \<Longrightarrow> length v \<le> MaxValueSize \<Longrightarrow> \<exists>db'. Put B db p k v = Inr db'"
  by (auto simp: bolt_ok_def bolt_put_def)

lemma bolt_Delete:
  "bolt_ok B \<Longrightarrow> Delete B db p k = Inr db' \<Longrightarrow> obs B db p = Some m \<Longrightarrow>
    obs B db' = (obs B db)(p \<mapsto> m(k := None))"
  unfolding bolt_ok_def bolt_delete_def by (metis option.inject)

lemma bolt_Delete_ok:
  "bolt_ok B \<Longrightarrow> obs B db p = Some m \<Longrightarrow> p \<noteq> [] \<Longrightarrow> m k \<noteq> Some None \<Longrightarrow>
    \<exists>db'. Delete B db p k = Inr db'"
  by (auto simp: bolt_ok_def bolt_delete_def)

lemma bolt_CreateBucket:
  assumes "bolt_ok B" and c: "CreateBucket B db p n = Inr db'" and o: "obs B db p = Some m"
  shows "m n = None \<and> n \<noteq> [] \<and>
    obs B db' = (obs B db)(p \<mapsto> m(n \<mapsto> None), p @ [n] \<mapsto> Map.empty)"
proof -
  have "bolt_create B" using assms(1) by (simp add: bolt_ok_def)
  note law = this [unfolded bolt_create_def, THEN conjunct1, rule_format, OF c]
  from law obtain m' where "obs B db p = Some m'" "m' n = None" "n \<noteq> []"
      "obs B db' = (obs B db)(p \<mapsto> m'(n \<mapsto> None), p @ [n] \<mapsto> Map.empty)"
    by blast
  moreover from this o have "m' = m" by simp
  ultimately show ?thesis by blast
qed

lemma bolt_CreateBucket_ok:
  "bolt_ok B \<Longrightarrow> obs B db p = Some m \<Longrightarrow> m n = None \<Longrightarrow> n \<noteq> [] \<Longrightarrow> length n \<le> MaxKeySize \<Longrightarrow>
    \<exists>db'. CreateBucket B db p n = Inr db'"
  by (auto simp: bolt_ok_def bolt_create_def)

lemma bolt_CreateBucketIfNotExists:
  "bolt_ok B \<Longrightarrow> obs B db p = Some m \<Longrightarrow>
    CreateBucketIfNotExists B db p n = (if m n = Some None then Inr db else CreateBucket B db p n)"
  by (auto simp: bolt_ok_def bolt_create_def)

lemma bolt_DeleteBucket:
  assumes "bolt_ok B" and c: "DeleteBucket B db p n = Inr db'" and o: "obs B db p = Some m"
  shows "m n = Some None \<and> obs B db' = (\<lambda>q. if prefix (p @ [n]) q then None
                              else if q = p then Some (m(n := None)) else obs B db q)"
proof -
  have "bolt_drop B" using assms(1) by (simp add: bolt_ok_def)
  note law = this [unfolded bolt_drop_def, THEN conjunct1, rule_format, OF c]
  from law obtain m' where "obs B db p = Some m'" "m' n = Some None"
      "obs B db' = (\<lambda>q. if prefix (p @ [n]) q then None
                              else if q = p then Some (m'(n := None)) else obs B db q)"
    by blast
  moreover from this o have "m' = m" by simp
  ultimately show ?thesis by blast
qed

lemma bolt_DeleteBucket_ok:
  "bolt_ok B \<Longrightarrow> obs B db p = Some m \<Longrightarrow> m n = Some None \<Longrightarrow> \<exists>db'. DeleteBucket B db p n = Inr db'"
  by (auto simp: bolt_ok_def bolt_drop_def)

lemma bolt_Commit: "bolt_ok B \<Longrightarrow> Commit B tx = Inr c \<Longrightarrow> c = tx"
  by (simp add: bolt_ok_def)

lemma db_Update_run:
  "bolt_live B \<Longrightarrow> \<not> rwtx (wdb w) \<Longrightarrow> opened (wdb w) \<Longrightarrow>
    db_Update B w l fn =
      go_bind (fn (w\<lparr>wdb := (wdb w)\<lparr>rwtx := True\<rparr>\<rparr>) (content (wdb w)) l) (\<lambda>(w2, tx, l2, e).
        Ret (w2\<lparr>wdb := (if e = None then (wdb w)\<lparr>content := tx\<rparr> else wdb w)\<rparr>, l2, e))"
  by (cases "fn (w\<lparr>wdb := (wdb w)\<lparr>rwtx := True\<rparr>\<rparr>) (content (wdb w)) l")
     (auto simp: db_Update_def Update_def bolt_live_def split: option.split)

lemma db_Update_total:
  assumes "\<not> rwtx (wdb w)" "\<And>w tx l. \<exists>r. fn w tx l = Ret r"
  shows "\<exists>w' l' e. db_Update B w l fn = Ret (w', l', e) \<and> \<not> rwtx (wdb w')"
proof -
  obtain w1 tx1 l1 e1 where "fn (w\<lparr>wdb := (wdb w)\<lparr>rwtx := True\<rparr>\<rparr>) (content (wdb w)) l = Ret (w1, tx1, l1, e1)"
    using assms(2) by (metis prod.exhaust_sel)
  with assms(1) show ?thesis
    by (auto simp: db_Update_def Update_def split: option.split sum.split)
qed

lemma db_Update_open: "rwtx (wdb w) \<Longrightarrow> db_Update B w l fn = Block"
  by (simp add: db_Update_def Update_def)

lemma db_View_live: "bolt_live B \<Longrightarrow> opened (wdb w) \<Longrightarrow> db_View B w l fn = fn (content (wdb w)) l"
  by (simp add: db_View_def View_def bolt_live_def)

end
