(* ===== verification/Ref_Bolt.thy ===== *)
theory Ref_Bolt
  imports Bolt
begin

text \<open>
  An executable key/value store with the documented behaviour of BoltDB.  It is used to evaluate
  the model on concrete inputs; no definition of the model depends on it.

  The content maps a path to the raw list of the entries written there, newest first; reading
  sorts the list and keeps the newest entry of each key.
\<close>

type_synonym refdb = "path \<Rightarrow> entry list"

fun upd_entry :: "bytes \<Rightarrow> bytes option \<Rightarrow> entry list \<Rightarrow> entry list" where
  "upd_entry k v [] = [(k, v)]"
| "upd_entry k v ((k', v') # es) =
     (if k < k' then (k, v) # (k', v') # es
      else if k = k' then (k, v) # es
      else (k', v') # upd_entry k v es)"

definition norm_entries :: "entry list \<Rightarrow> entry list" where
  "norm_entries es = foldr (\<lambda>(k, v). upd_entry k v) es []"

definition ref_Bucket :: "refdb \<Rightarrow> path \<Rightarrow> bool" where
  "ref_Bucket db p = list_all (\<lambda>i. map_of (db (take i p)) (p ! i) = Some None) [0..<length p]"

definition ref_Get :: "refdb \<Rightarrow> path \<Rightarrow> bytes \<Rightarrow> bytes option" where
  "ref_Get db p k = (case map_of (db p) k of Some (Some v) \<Rightarrow> Some v | _ \<Rightarrow> None)"

definition ref_Put :: "refdb \<Rightarrow> path \<Rightarrow> bytes \<Rightarrow> bytes \<Rightarrow> error + refdb" where
  "ref_Put db p k v =
     (if \<not> ref_Bucket db p then Inl (ErrExt ''bucket not found'')
      else if k = [] then Inl (ErrExt ''key required'')
      else if MaxKeySize < length k then Inl (ErrExt ''key too large'')
      else if MaxValueSize < length v then Inl (ErrExt ''value too large'')
      else if map_of (db p) k = Some None then Inl (ErrExt ''incompatible value'')
      else Inr (db(p := (k, Some v) # db p)))"

definition ref_Delete :: "refdb \<Rightarrow> path \<Rightarrow> bytes \<Rightarrow> error + refdb" where
  "ref_Delete db p k =
     (if \<not> ref_Bucket db p then Inl (ErrExt ''bucket not found'')
      else if map_of (db p) k = Some None then Inl (ErrExt ''incompatible value'')
      else Inr (db(p := filter (\<lambda>(k', _). k' \<noteq> k) (db p))))"

definition ref_CreateBucket :: "refdb \<Rightarrow> path \<Rightarrow> bytes \<Rightarrow> error + refdb" where
  "ref_CreateBucket db p n =
     (if \<not> ref_Bucket db p then Inl (ErrExt ''bucket not found'')
      else if n = [] then Inl (ErrExt ''bucket name required'')
      else if map_of (db p) n \<noteq> None then Inl (ErrExt ''bucket already exists'')
      else Inr (db(p := (n, None) # db p, p @ [n] := [])))"

definition ref_DeleteBucket :: "refdb \<Rightarrow> path \<Rightarrow> bytes \<Rightarrow> error + refdb" where
  "ref_DeleteBucket db p n =
     (if \<not> ref_Bucket db p \<or> map_of (db p) n \<noteq> Some None then Inl (ErrExt ''bucket not found'')
      else Inr (db(p := filter (\<lambda>(k', _). k' \<noteq> n) (db p))))"

definition ref_bolt :: "refdb bolt" where
  "ref_bolt =
     \<lparr>Begin = (\<lambda>_. None), Commit = Inr, Bucket = ref_Bucket,
      Cursor = (\<lambda>db p. norm_entries (db p)),
      Seek = (\<lambda>db p k. filter (\<lambda>(k', _). k \<le> k') (norm_entries (db p))),
      Get = ref_Get, Put = ref_Put, Delete = ref_Delete, CreateBucket = ref_CreateBucket,
      CreateBucketIfNotExists =
        (\<lambda>db p n. if ref_Bucket db p \<and> map_of (db p) n = Some None then Inr db
                   else ref_CreateBucket db p n),
      DeleteBucket = ref_DeleteBucket, CloseFile = (\<lambda>_. None)\<rparr>"

definition ref_empty :: refdb where "ref_empty = (\<lambda>_. [])"

section \<open>It has the documented behaviour\<close>

lemma set_upd_entry: "fst ` set (upd_entry k v es) = insert k (fst ` set es)"
  by (induction k v es rule: upd_entry.induct) (simp_all add: insert_commute)

lemma sorted_upd_entry:
  "sorted_wrt (<) (map fst es) \<Longrightarrow> sorted_wrt (<) (map fst (upd_entry k v es))"
proof (induction es)
  case (Cons e es)
  then show ?case
    using set_upd_entry [of k v es] by (cases e) (auto simp flip: image_set)
qed simp

lemma map_of_upd_entry:
  "sorted_wrt (<) (map fst es) \<Longrightarrow> map_of (upd_entry k v es) = (map_of es)(k \<mapsto> v)"
  by (induction k v es rule: upd_entry.induct) (auto simp: fun_eq_iff)

lemma sorted_norm_entries: "sorted_wrt (<) (map fst (norm_entries es))"
  by (induction es) (auto simp: norm_entries_def intro: sorted_upd_entry)

lemma map_of_norm_entries [simp]: "map_of (norm_entries es) = map_of es"
proof (induction es)
  case (Cons e es)
  then show ?case
    using map_of_upd_entry [OF sorted_norm_entries [of es]]
    by (cases e) (simp add: norm_entries_def)
qed (simp add: norm_entries_def)

lemma ref_Bucket_Nil [simp]: "ref_Bucket db []"
  by (simp add: ref_Bucket_def)

lemma ref_Bucket_snoc:
  "ref_Bucket db (p @ [n]) \<longleftrightarrow> ref_Bucket db p \<and> map_of (db p) n = Some None"
  by (auto simp: ref_Bucket_def list_all_iff nth_append)

lemma obs_ref: "obs ref_bolt db p = (if ref_Bucket db p then Some (map_of (db p)) else None)"
  by (simp add: obs_def ref_bolt_def)

lemma ref_Bucket_cong:
  "(\<And>p n. map_of (db p) n = Some None \<longleftrightarrow> map_of (db' p) n = Some None) \<Longrightarrow>
    ref_Bucket db = ref_Bucket db'"
  by (auto simp: ref_Bucket_def list_all_iff fun_eq_iff)

lemma ref_Bucket_Put:
  assumes "map_of (db p) k \<noteq> Some None"
  shows "ref_Bucket (db(p := (k, Some v) # db p)) = ref_Bucket db"
  using assms by (intro ref_Bucket_cong) auto

lemma ref_Bucket_Delete:
  assumes "map_of (db p) k \<noteq> Some None"
  shows "ref_Bucket (db(p := filter (\<lambda>(k', _). k' \<noteq> k) (db p))) = ref_Bucket db"
  using assms by (intro ref_Bucket_cong) (auto simp: map_of_filter_key)

lemma ref_Bucket_Create:
  assumes "ref_Bucket db p" "map_of (db p) n = None"
  shows "ref_Bucket (db(p := (n, None) # db p, p @ [n] := [])) q \<longleftrightarrow>
    q = p @ [n] \<or> ref_Bucket db q"
proof (induction q rule: rev_induct)
  case (snoc x q)
  have "\<not> ref_Bucket db (p @ [n] @ [x])"
    using assms ref_Bucket_snoc [of db "p @ [n]" x] by (simp add: ref_Bucket_snoc)
  with snoc assms show ?case
    by (auto simp: ref_Bucket_snoc)
qed simp

lemma ref_Bucket_Drop:
  "ref_Bucket (db(p := filter (\<lambda>(k', _). k' \<noteq> n) (db p))) q \<longleftrightarrow>
    ref_Bucket db q \<and> \<not> prefix (p @ [n]) q"
proof (induction q rule: rev_induct)
  case (snoc x q)
  have "prefix (p @ [n]) (q @ [x]) \<longleftrightarrow> prefix (p @ [n]) q \<or> p = q \<and> n = x"
    by auto
  with snoc show ?case by (auto simp: ref_Bucket_snoc map_of_filter_key)
qed simp

lemma ref_Put_obs:
  assumes "ref_Put db p k v = Inr db'"
  shows "ref_Bucket db p \<and> map_of (db p) k \<noteq> Some None \<and>
    obs ref_bolt db' = (obs ref_bolt db)(p \<mapsto> (map_of (db p))(k \<mapsto> Some v))"
proof -
  from assms have "db' = db(p := (k, Some v) # db p)" and "ref_Bucket db p"
      and k: "map_of (db p) k \<noteq> Some None"
    by (auto simp: ref_Put_def split: if_splits)
  then show ?thesis by (auto simp: obs_ref ref_Bucket_Put [of db p k, OF k])
qed

lemma ref_Delete_obs:
  assumes "ref_Delete db p k = Inr db'"
  shows "ref_Bucket db p \<and> map_of (db p) k \<noteq> Some None \<and>
    obs ref_bolt db' = (obs ref_bolt db)(p \<mapsto> (map_of (db p))(k := None))"
proof -
  from assms have "db' = db(p := filter (\<lambda>(k', _). k' \<noteq> k) (db p))" and "ref_Bucket db p"
      and k: "map_of (db p) k \<noteq> Some None"
    by (auto simp: ref_Delete_def split: if_splits)
  moreover have "map_of (filter (\<lambda>(k', _). k' \<noteq> k) (db p)) = (map_of (db p))(k := None)"
    by (simp add: fun_eq_iff map_of_filter_key)
  ultimately show ?thesis by (auto simp: obs_ref ref_Bucket_Delete [of db p k, OF k])
qed

lemma ref_CreateBucket_obs:
  assumes "ref_CreateBucket db p n = Inr db'"
  shows "ref_Bucket db p \<and> map_of (db p) n = None \<and> n \<noteq> [] \<and>
    obs ref_bolt db' =
      (obs ref_bolt db)(p \<mapsto> (map_of (db p))(n \<mapsto> None), p @ [n] \<mapsto> Map.empty)"
proof -
  from assms have db': "db' = db(p := (n, None) # db p, p @ [n] := [])" and p: "ref_Bucket db p"
      and n: "map_of (db p) n = None" and "n \<noteq> []"
    by (auto simp: ref_CreateBucket_def split: if_splits)
  have "obs ref_bolt db' q =
      ((obs ref_bolt db)(p \<mapsto> (map_of (db p))(n \<mapsto> None), p @ [n] \<mapsto> Map.empty)) q" for q
    using p by (simp add: db' obs_ref ref_Bucket_Create [OF p n])
  with p n \<open>n \<noteq> []\<close> show ?thesis by blast
qed

lemma ref_DeleteBucket_obs:
  assumes "ref_DeleteBucket db p n = Inr db'"
  shows "ref_Bucket db p \<and> map_of (db p) n = Some None \<and>
    obs ref_bolt db' = (\<lambda>q. if prefix (p @ [n]) q then None
      else if q = p then Some ((map_of (db p))(n := None)) else obs ref_bolt db q)"
proof -
  from assms have db': "db' = db(p := filter (\<lambda>(k', _). k' \<noteq> n) (db p))" and p: "ref_Bucket db p"
      and n: "map_of (db p) n = Some None"
    by (auto simp: ref_DeleteBucket_def split: if_splits)
  have "map_of (filter (\<lambda>(k', _). k' \<noteq> n) (db p)) = (map_of (db p))(n := None)"
    by (simp add: fun_eq_iff map_of_filter_key)
  then have "obs ref_bolt db' q = (if prefix (p @ [n]) q then None
      else if q = p then Some ((map_of (db p))(n := None)) else obs ref_bolt db q)" for q
    using p by (simp add: db' obs_ref ref_Bucket_Drop)
  with p n show ?thesis by blast
qed

lemma bolt_ok_ref: "bolt_ok ref_bolt"
proof -
  have sel: "Put ref_bolt = ref_Put" "Delete ref_bolt = ref_Delete"
      "CreateBucket ref_bolt = ref_CreateBucket" "DeleteBucket ref_bolt = ref_DeleteBucket"
    by (simp_all add: ref_bolt_def)
  have obsD: "obs ref_bolt db p = Some m \<longleftrightarrow> ref_Bucket db p \<and> m = map_of (db p)" for db p m
    by (auto simp: obs_ref)
  have "bolt_reads ref_bolt"
    by (simp add: bolt_reads_def ref_bolt_def sorted_norm_entries ref_Get_def ref_Bucket_snoc)
  moreover have "bolt_put ref_bolt"
    unfolding bolt_put_def sel obsD using ref_Put_obs by (fastforce simp: ref_Put_def)
  moreover have "bolt_delete ref_bolt"
    unfolding bolt_delete_def sel obsD using ref_Delete_obs by (fastforce simp: ref_Delete_def)
  moreover have "bolt_create ref_bolt"
    unfolding bolt_create_def sel obsD
  proof (intro conjI allI impI)
    fix db p n db' assume "ref_CreateBucket db p n = Inr db'"
    from ref_CreateBucket_obs [OF this]
    show "\<exists>m. (ref_Bucket db p \<and> m = map_of (db p)) \<and> m n = None \<and> n \<noteq> [] \<and>
      obs ref_bolt db' = (obs ref_bolt db)(p \<mapsto> m(n \<mapsto> None), p @ [n] \<mapsto> Map.empty)"
      by blast
  qed (auto simp: ref_CreateBucket_def ref_bolt_def)
  moreover have "bolt_drop ref_bolt"
    unfolding bolt_drop_def sel obsD
  proof (intro conjI allI impI)
    fix db p n db' assume "ref_DeleteBucket db p n = Inr db'"
    from ref_DeleteBucket_obs [OF this]
    show "\<exists>m. (ref_Bucket db p \<and> m = map_of (db p)) \<and> m n = Some None \<and>
      obs ref_bolt db' = (\<lambda>q. if prefix (p @ [n]) q then None
        else if q = p then Some (m(n := None)) else obs ref_bolt db q)"
      by blast
  qed (auto simp: ref_DeleteBucket_def)
  moreover have "\<forall>tx c. Commit ref_bolt tx = Inr c \<longrightarrow> c = tx"
    by (simp add: ref_bolt_def)
  ultimately show ?thesis by (simp add: bolt_ok_def)
qed

lemma bolt_live_ref: "bolt_live ref_bolt"
  by (simp add: bolt_live_def ref_bolt_def)

lemmas ref_simps = ref_bolt_def ref_empty_def ref_Bucket_def ref_Get_def ref_Put_def
  ref_Delete_def ref_CreateBucket_def ref_DeleteBucket_def norm_entries_def
  MaxKeySize_def MaxValueSize_def

end
