(* ===== verification/World.thy ===== *)
theory World
  imports Crypt Ref_Bolt
begin

text \<open>
  What the operations of package \<open>store\<close> work in: the database, the cryptographic functions, the clock
  and the random source, all healthy (\<open>world_ok\<close>); and the steps of a transaction that succeed in it.
\<close>

text \<open>The database is open and healthy, and so are the clock and the random source.\<close>

definition world_ok :: "'db bolt \<Rightarrow> crypto \<Rightarrow> 'db world \<Rightarrow> bool" where
  "world_ok B C w \<longleftrightarrow> bolt_ok B \<and> bolt_live B \<and> crypto_ok C \<and> env_ok w \<and> rnd_live w \<and> \<not> rwtx (wdb w) \<and> opened (wdb w)"

lemma world_ok_tick [simp]: "world_ok B C (w\<lparr>tick := n\<rparr>) = world_ok B C w"
  by (simp add: world_ok_def)

lemma world_ok_update:
  "world_ok B C w \<Longrightarrow> world_ok B C (w\<lparr>tick := n, wdb := (wdb w)\<lparr>content := c\<rparr>\<rparr>)"
  "world_ok B C w \<Longrightarrow> world_ok B C (w\<lparr>wdb := (wdb w)\<lparr>content := c\<rparr>\<rparr>)"
  by (simp_all add: world_ok_def env_ok_def rnd_live_def)

section \<open>Steps of a transaction\<close>

lemma put_step:
  assumes "bolt_ok B" "obs B tx p = Some m" "p \<noteq> []" "m k \<noteq> Some None" "k \<noteq> []"
    "length k \<le> MaxKeySize" "length v \<le> MaxValueSize"
  shows "\<exists>tx'. Put B tx p k v = Inr tx' \<and> obs B tx' = (obs B tx)(p \<mapsto> m(k \<mapsto> Some v))"
proof -
  obtain tx' where t: "Put B tx p k v = Inr tx'" using bolt_Put_ok [OF assms] by blast
  with bolt_Put [OF assms(1) t assms(2)] show ?thesis by blast
qed

lemma delete_step:
  assumes "bolt_ok B" "obs B tx p = Some m" "p \<noteq> []" "m k \<noteq> Some None"
  shows "\<exists>tx'. Delete B tx p k = Inr tx' \<and> obs B tx' = (obs B tx)(p \<mapsto> m(k := None))"
proof -
  obtain tx' where t: "Delete B tx p k = Inr tx'" using bolt_Delete_ok [OF assms] by blast
  with bolt_Delete [OF assms(1) t assms(2)] show ?thesis by blast
qed

lemma create_step:
  assumes "bolt_ok B" "obs B tx p = Some m" "m n = None" "n \<noteq> []" "length n \<le> MaxKeySize"
  shows "\<exists>tx'. CreateBucket B tx p n = Inr tx' \<and>
    obs B tx' = (obs B tx)(p \<mapsto> m(n \<mapsto> None), p @ [n] \<mapsto> Map.empty)"
proof -
  obtain tx' where t: "CreateBucket B tx p n = Inr tx'" using bolt_CreateBucket_ok [OF assms] by blast
  with bolt_CreateBucket [OF assms(1) t assms(2)] show ?thesis by blast
qed

lemma create_if_step:
  assumes "bolt_ok B" "obs B tx p = Some m" "m n = None \<or> m n = Some None" "n \<noteq> []" "length n \<le> MaxKeySize"
  shows "\<exists>tx' mn. CreateBucketIfNotExists B tx p n = Inr tx' \<and>
    obs B tx' = (obs B tx)(p \<mapsto> m(n \<mapsto> None), p @ [n] \<mapsto> mn) \<and>
    obs B tx (p @ [n]) = (if m n = None then None else Some mn) \<and> (m n = None \<longrightarrow> mn = Map.empty)"
proof (cases "m n")
  case None
  then have "\<not> Bucket B tx (p @ [n])" using bolt_nested_obs [OF assms(1,2)] by simp
  then have "obs B tx (p @ [n]) = None" by (simp add: obs_def)
  with None create_step [OF assms(1,2) None assms(4,5)] bolt_CreateBucketIfNotExists [OF assms(1,2), of n]
  show ?thesis by auto
next
  case (Some v)
  with assms(3) have n: "m n = Some None" by simp
  then obtain mn where "obs B tx (p @ [n]) = Some mn"
    using bolt_nested_obs [OF assms(1,2)] Bucket_obs by metis
  moreover have "(obs B tx)(p \<mapsto> m(n \<mapsto> None), p @ [n] \<mapsto> mn) = obs B tx"
    using n assms(2) calculation by (auto simp: fun_eq_iff map_upd_triv)
  ultimately show ?thesis
    using bolt_CreateBucketIfNotExists [OF assms(1,2), of n] n by auto
qed

text \<open>Reading a stored value.\<close>

lemma get_step: "bolt_ok B \<Longrightarrow> obs B db p = Some m \<Longrightarrow> m k = Some (Some v) \<Longrightarrow> Get B db p k = Some v"
  by (simp add: bolt_Get)

lemma get_none: "bolt_ok B \<Longrightarrow> obs B db p = Some m \<Longrightarrow> m k = None \<Longrightarrow> Get B db p k = None"
  by (simp add: bolt_Get)

section \<open>A reference world\<close>

definition ref_world :: "refdb \<Rightarrow> refdb world" where
  "ref_world db = \<lparr>tick = 0, rnd_src = rnd_src ref_env, clock = clock ref_env,
     key_order = key_order ref_env, name_order = name_order ref_env,
     wdb = \<lparr>content = db, rwtx = False, opened = True\<rparr>\<rparr>"

lemma ref_world_ok: "world_ok ref_bolt ref_crypto (ref_world db)"
  using env_ok_ref rnd_live_ref bolt_ok_ref bolt_live_ref crypto_ok_ref
  by (simp add: world_ok_def ref_world_def env_ok_def rnd_live_def)

end
