(* ===== verification/Store_Folder.thy ===== *)
theory Store_Folder
  imports Folder_Spec World
begin

text \<open>
  The type \<open>folder\<close> of src/store/folder.go: a folder of encrypted messages in a bucket of the
  database.  A message with id \<open>i\<close> and suffix \<open>s\<close> is stored under the 16-byte key made of the two
  big-endian numbers, next to the bucket \<open>data\<close> that holds the creation time and the next id.

  The contract \<open>ordered_folder\<close> of the interface \<open>data.Folder\<close> is proved for it.
\<close>

section \<open>Model\<close>

definition foldersBucket :: bytes where "foldersBucket = ''folders''"
definition folderDataBucket :: bytes where "folderDataBucket = ''data''"
definition userPrefix :: bytes where "userPrefix = ''user:''"
definition folderNextIDKey :: bytes where "folderNextIDKey = ''folderNextID''"
definition folderCreatedOnKey :: bytes where "folderCreatedOnKey = ''createdOn''"

record store_folder =
  f_masterKey :: "bytes option"
  f_userID :: bytes
  f_nextID :: u64
  f_name :: string

text \<open>The buckets on the way to the folder, the folder's bucket, and its bucket \<open>data\<close>.\<close>

definition folders_path :: "bytes \<Rightarrow> path" where
  "folders_path uid = [uid, foldersBucket]"

definition folder_path :: "store_folder \<Rightarrow> path" where
  "folder_path f = [f_userID f, foldersBucket, f_name f]"

definition data_path :: "store_folder \<Rightarrow> path" where
  "data_path f = [f_userID f, foldersBucket, f_name f, folderDataBucket]"

definition initialize_tx ::
  "'db bolt \<Rightarrow> string \<Rightarrow> 'db world \<Rightarrow> 'db \<Rightarrow> store_folder \<Rightarrow>
    ('db world \<times> 'db \<times> store_folder \<times> error option) go" where
  "initialize_tx B name w tx f =
     (let uid = f_userID f; P = [uid, foldersBucket, name]; D = [uid, foldersBucket, name, folderDataBucket]
      in on_bucket B tx [uid] (on_bucket B tx (folders_path uid)
       (if \<not> Bucket B tx P then
          (case CreateBucketIfNotExists B tx [uid] foldersBucket of
             Inl e \<Rightarrow> Ret (w, tx, f, Some e)
           | Inr tx1 \<Rightarrow> (case CreateBucket B tx1 (folders_path uid) name of
             Inl e \<Rightarrow> Ret (w, tx1, f, Some e)
           | Inr tx2 \<Rightarrow> (case CreateBucket B tx2 P folderDataBucket of
             Inl e \<Rightarrow> Ret (w, tx2, f, Some e)
           | Inr tx3 \<Rightarrow> (case time_Now w of (w1, t) \<Rightarrow> (case MarshalBinary t of
             Inl e \<Rightarrow> Ret (w1, tx3, f, Some e)
           | Inr now \<Rightarrow> (case Put B tx3 D folderCreatedOnKey now of
             Inl e \<Rightarrow> Ret (w1, tx3, f, Some e)
           | Inr tx4 \<Rightarrow> (case Put B tx4 D folderNextIDKey (PutUint64 1) of
             Inl _ \<Rightarrow> Ret (w1, tx4, f, None)
           | Inr tx5 \<Rightarrow> Ret (w1, tx5, f, None))))))))
        else on_bucket B tx D
          (case Get B tx D folderNextIDKey of
             None \<Rightarrow> Panic
           | Some v \<Rightarrow> go_bind (Uint64 v) (\<lambda>n. Ret (w, tx, f\<lparr>f_nextID := n\<rparr>, None))))))"

definition initialize ::
  "'db bolt \<Rightarrow> 'db world \<Rightarrow> store_folder \<Rightarrow> string \<Rightarrow> ('db world \<times> store_folder \<times> error option) go" where
  "initialize B w f name =
     go_bind (db_Update B w f (initialize_tx B name)) (\<lambda>(w', f', e).
       case e of
         None \<Rightarrow> Ret (w', f', None)
       | Some e \<Rightarrow> Ret (w', f',
           Some (ErrText (''Failed to create/load mailbox '' @ name @ '': '' @ error_text e))))"

text \<open>The flag \<open>db\<close> says whether the pointer to the database is not nil.\<close>

definition newFolder ::
  "'db bolt \<Rightarrow> 'db world \<Rightarrow> bytes option \<Rightarrow> bool \<Rightarrow> string \<Rightarrow> string \<Rightarrow>
    ('db world \<times> (error + store_folder)) go" where
  "newFolder B w masterKey db username name =
     (if \<not> db then Ret (w, Inl (ErrText ''Nil database given.''))
      else if name = [] then Ret (w, Inl (ErrText ''Folder name cannot be empty.''))
      else
        let f = \<lparr>f_masterKey = masterKey, f_userID = userPrefix @ username, f_nextID = 1, f_name = name\<rparr>
        in go_bind (initialize B w f name) (\<lambda>(w', f', e).
             case e of Some e \<Rightarrow> Ret (w', Inl e) | None \<Rightarrow> Ret (w', Inr f')))"

definition store_NextID :: "store_folder \<Rightarrow> u64" where
  "store_NextID f = f_nextID f"

text \<open>The loop of \<open>LastID\<close> over the entries of the cursor.\<close>

fun last_scan :: "entry list \<Rightarrow> u64 \<Rightarrow> (u64 \<rightharpoonup> u64) \<Rightarrow> (u64 \<times> (u64 \<rightharpoonup> u64)) go" where
  "last_scan [] lastID by = Ret (lastID, by)"
| "last_scan ((k, _) # es) lastID by =
     (if length k \<noteq> 16 then last_scan es lastID by
      else go_bind (Uint64 (drop 8 k)) (\<lambda>sfx.
        if (case by sfx of Some v \<Rightarrow> sfx < v | None \<Rightarrow> False) then last_scan es lastID by
        else go_bind (Uint64 (take 8 k)) (\<lambda>i.
          let by' = by(sfx \<mapsto> i)
          in if i < lastID then last_scan es lastID by' else last_scan es i by')))"

definition store_LastID ::
  "'db bolt \<Rightarrow> 'db world \<Rightarrow> store_folder \<Rightarrow> ('db world \<times> u64 \<times> (u64 \<rightharpoonup> u64)) go" where
  "store_LastID B w f =
     go_bind (db_Update B w (0, Map.empty) (\<lambda>w tx _.
         on_bucket B tx [f_userID f] (on_bucket B tx (folders_path (f_userID f))
         (on_bucket B tx (folder_path f)
           (go_bind (last_scan (Cursor B tx (folder_path f)) 0 Map.empty)
             (\<lambda>r. Ret (w, tx, r, None)))))))
       (\<lambda>(w', r, _). Ret (w', fst r, snd r))"

text \<open>\<open>kk != nil && len(kk) >= 8 && bytes.Equal(kk[:8], k[:8])\<close> on the entry the cursor finds.\<close>

definition id_taken :: "entry list \<Rightarrow> bytes \<Rightarrow> bool" where
  "id_taken es k = (case es of [] \<Rightarrow> False | (kk, _) # _ \<Rightarrow> 8 \<le> length kk \<and> take 8 kk = take 8 k)"

definition msg_key :: "u64 \<Rightarrow> u64 \<Rightarrow> bytes" where
  "msg_key i sfx = PutUint64 i @ PutUint64 sfx"

definition store_InsertNewMessage ::
  "'db bolt \<Rightarrow> crypto \<Rightarrow> 'db world \<Rightarrow> store_folder \<Rightarrow> bytes option \<Rightarrow> u64 \<Rightarrow>
    ('db world \<times> store_folder \<times> (error + u64)) go" where
  "store_InsertNewMessage B C w f msg sfx =
     (case msg of
        None \<Rightarrow> Ret (w, f, Inl (ErrText ''Nil message inserted.''))
      | Some m \<Rightarrow> (case encrypt C (f_masterKey f) w m of
          (w1, Inl e) \<Rightarrow> Ret (w1, f, Inl e)
        | (w1, Inr enc) \<Rightarrow>
            go_bind (db_Update B w1 () (\<lambda>w tx _.
              if \<not> Bucket B tx [f_userID f] then Ret (w, tx, (), Some ErrNotFound)
              else on_bucket B tx (folders_path (f_userID f)) (on_bucket B tx (folder_path f)
                (on_bucket B tx (data_path f)
                  (case Put B tx (data_path f) folderNextIDKey (PutUint64 (f_nextID f + 1)) of
                     Inl e \<Rightarrow> Ret (w, tx, (), Some e)
                   | Inr tx1 \<Rightarrow>
                       let k = msg_key (f_nextID f) sfx
                       in if id_taken (Seek B tx1 (folder_path f) (take 8 k)) k
                          then Ret (w, tx1, (), Some ErrDuplicateID)
                          else (case Put B tx1 (folder_path f) k enc of
                                  Inl e \<Rightarrow> Ret (w, tx1, (), Some e)
                                | Inr tx2 \<Rightarrow> Ret (w, tx2, (), None)))))))
            (\<lambda>(w2, _, err). case err of
               Some e \<Rightarrow> Ret (w2, f, Inl e)
             | None \<Rightarrow> Ret (w2, f\<lparr>f_nextID := f_nextID f + 1\<rparr>, Inr (f_nextID f)))))"

definition store_InsertMessage ::
  "'db bolt \<Rightarrow> crypto \<Rightarrow> 'db world \<Rightarrow> store_folder \<Rightarrow> u64 \<Rightarrow> bytes option \<Rightarrow> u64 \<Rightarrow>
    ('db world \<times> store_folder \<times> error option) go" where
  "store_InsertMessage B C w f i msg sfx =
     (if i = 0 \<or> f_nextID f \<le> i then Ret (w, f, Some ErrInvalidID)
      else case msg of
        None \<Rightarrow> Ret (w, f, Some (ErrText ''Nil message inserted.''))
      | Some m \<Rightarrow> (case encrypt C (f_masterKey f) w m of
          (w1, Inl e) \<Rightarrow> Ret (w1, f, Some e)
        | (w1, Inr enc) \<Rightarrow>
            go_bind (db_Update B w1 () (\<lambda>w tx _.
              if \<not> Bucket B tx [f_userID f] then Ret (w, tx, (), Some ErrNotFound)
              else on_bucket B tx (folders_path (f_userID f)) (on_bucket B tx (folder_path f)
                (let k = msg_key i sfx
                 in if id_taken (Seek B tx (folder_path f) (take 8 k)) k
                    then Ret (w, tx, (), Some ErrDuplicateID)
                    else (case Put B tx (folder_path f) k enc of
                            Inl e \<Rightarrow> Ret (w, tx, (), Some e)
                          | Inr tx1 \<Rightarrow> Ret (w, tx1, (), None))))))
            (\<lambda>(w2, _, err). Ret (w2, f, err))))"

definition store_GetMessage ::
  "'db bolt \<Rightarrow> crypto \<Rightarrow> 'db world \<Rightarrow> store_folder \<Rightarrow> u64 \<Rightarrow> (error + u64 \<times> bytes) go" where
  "store_GetMessage B C w f i =
     (let idBytes = PutUint64 i in
      go_bind (db_View B w (0, []) (\<lambda>tx l.
        if \<not> Bucket B tx [f_userID f] then Ret (l, Some ErrNotFound)
        else if \<not> Bucket B tx (folders_path (f_userID f)) then Ret (l, Some ErrNotFound)
        else on_bucket B tx (folder_path f)
          (case Seek B tx (folder_path f) idBytes of
             [] \<Rightarrow> Ret (l, Some ErrNotFound)
           | (k, None) # _ \<Rightarrow> Ret (l, Some ErrNotFound)
           | (k, Some v) # _ \<Rightarrow>
               if length k < 8 then Panic
               else if take 8 k \<noteq> idBytes then Ret (l, Some ErrNotFound)
               else go_bind (Uint64 (drop 8 k)) (\<lambda>sfx.
                 go_bind (decrypt C (f_masterKey f) v) (\<lambda>r.
                   case r of
                     None \<Rightarrow> Ret ((sfx, []), Some ErrDecryptionFailed)
                   | Some msg \<Rightarrow> Ret ((sfx, msg), None))))))
      (\<lambda>(l, err). case err of Some e \<Rightarrow> Ret (Inl e) | None \<Rightarrow> Ret (Inr l)))"

text \<open>
  The loop of \<open>ForEachMessage\<close>: the messages on which the callback is run, in order, and how the loop
  ends after the last of them (\<open>Ret None\<close>: it reached the end or passed \<open>highID\<close>).
\<close>

fun store_visits ::
  "crypto \<Rightarrow> bytes option \<Rightarrow> u64 \<Rightarrow> u64 \<Rightarrow> entry list \<Rightarrow> visit list \<times> error option go" where
  "store_visits C key hi sfx [] = ([], Ret None)"
| "store_visits C key hi sfx ((k, None) # es) = store_visits C key hi sfx es"
| "store_visits C key hi sfx ((k, Some v) # es) =
     (if length k < 8 then ([], Panic)
      else case (Uint64 (take 8 k), Uint64 (drop 8 k)) of
        (Ret i, Ret s) \<Rightarrow>
          if hi \<noteq> 0 \<and> hi < i then ([], Ret None)
          else if sfx \<noteq> 0 \<and> s \<noteq> sfx then store_visits C key hi sfx es
          else (case decrypt C key v of
                  Ret (Some msg) \<Rightarrow>
                    (case store_visits C key hi sfx es of (vs, fin) \<Rightarrow> ((i, s, msg) # vs, fin))
                | Ret None \<Rightarrow> ([], Ret (Some ErrDecryptionFailed))
                | Panic \<Rightarrow> ([], Panic)
                | Block \<Rightarrow> ([], Block))
      | _ \<Rightarrow> ([], Panic))"

definition store_ForEachMessage ::
  "'db bolt \<Rightarrow> crypto \<Rightarrow> 'db world \<Rightarrow> store_folder \<Rightarrow> u64 \<Rightarrow> u64 \<Rightarrow> u64 \<Rightarrow>
    visit list \<times> error option go" where
  "store_ForEachMessage B C w f lo hi sfx =
     (if hi \<noteq> 0 \<and> hi < lo
      then ([], Ret (Some (ErrText ''Nice try, son. But lowID cannot be greater than highID.'')))
      else if \<not> opened (wdb w) then ([], Ret (Some ErrDatabaseNotOpen))
      else case Begin B (content (wdb w)) of
        Some e \<Rightarrow> ([], Ret (Some e))
      | None \<Rightarrow>
          let tx = content (wdb w); bLowID = PutUint64 lo
          in if \<not> Bucket B tx [f_userID f] then ([], Ret (Some ErrNotFound))
             else if \<not> Bucket B tx (folders_path (f_userID f)) \<or> \<not> Bucket B tx (folder_path f)
             then ([], Panic)
             else store_visits C (f_masterKey f) hi sfx (Seek B tx (folder_path f) bLowID))"

definition store_DeleteMessage ::
  "'db bolt \<Rightarrow> 'db world \<Rightarrow> store_folder \<Rightarrow> u64 \<Rightarrow> ('db world \<times> store_folder \<times> error option) go" where
  "store_DeleteMessage B w f i =
     (if i = 0 \<or> f_nextID f \<le> i then Ret (w, f, Some ErrInvalidID)
      else
        let idxBytes = PutUint64 i in
        go_bind (db_Update B w () (\<lambda>w tx _.
          if \<not> Bucket B tx [f_userID f] then Ret (w, tx, (), Some ErrNotFound)
          else on_bucket B tx (folders_path (f_userID f)) (on_bucket B tx (folder_path f)
            (case Seek B tx (folder_path f) idxBytes of
               [] \<Rightarrow> Ret (w, tx, (), Some ErrNotFound)
             | (k, None) # _ \<Rightarrow> Ret (w, tx, (), Some ErrNotFound)
             | (k, Some v) # _ \<Rightarrow>
                 if length k < 8 then Panic
                 else if take 8 k \<noteq> idxBytes then Ret (w, tx, (), Some ErrNotFound)
                 else (case Delete B tx (folder_path f) k of
                         Inl e \<Rightarrow> Ret (w, tx, (), Some e)
                       | Inr tx1 \<Rightarrow> Ret (w, tx1, (), None))))))
        (\<lambda>(w2, _, err). Ret (w2, f, err)))"

text \<open>
  \<open>setName\<close> copies the bucket under the new name, one level of nested buckets included, and
  deletes the old one.  An error of the copying loop ends the loop and is otherwise ignored.
\<close>

fun copy_entries :: "'db bolt \<Rightarrow> path \<Rightarrow> entry list \<Rightarrow> 'db \<Rightarrow> 'db \<times> error option" where
  "copy_entries B q [] tx = (tx, None)"
| "copy_entries B q ((k, v) # es) tx =
     (case Put B tx q k (case v of Some b \<Rightarrow> b | None \<Rightarrow> []) of
        Inl e \<Rightarrow> (tx, Some e)
      | Inr tx1 \<Rightarrow> copy_entries B q es tx1)"

fun copy_folder :: "'db bolt \<Rightarrow> path \<Rightarrow> path \<Rightarrow> entry list \<Rightarrow> 'db \<Rightarrow> 'db \<times> error option" where
  "copy_folder B p q [] tx = (tx, None)"
| "copy_folder B p q ((k, None) # es) tx =
     (case CreateBucket B tx q k of
        Inl e \<Rightarrow> (tx, Some e)
      | Inr tx1 \<Rightarrow>
          (case copy_entries B (q @ [k]) (Cursor B tx1 (p @ [k])) tx1 of
             (tx2, Some e) \<Rightarrow> (tx2, Some e)
           | (tx2, None) \<Rightarrow> copy_folder B p q es tx2))"
| "copy_folder B p q ((k, Some v) # es) tx =
     (case Put B tx q k v of
        Inl e \<Rightarrow> (tx, Some e)
      | Inr tx1 \<Rightarrow> copy_folder B p q es tx1)"

definition setName ::
  "'db bolt \<Rightarrow> 'db world \<Rightarrow> store_folder \<Rightarrow> string \<Rightarrow> ('db world \<times> store_folder \<times> error option) go" where
  "setName B w f name =
     (if name = [] then Ret (w, f, Some (ErrText ''Name cannot be empty.''))
      else
        let Q = folders_path (f_userID f) in
        go_bind (db_Update B w () (\<lambda>w tx _.
          on_bucket B tx [f_userID f] (on_bucket B tx Q
            (if list_ex (\<lambda>(k, _). k = name) (Cursor B tx Q)
             then Ret (w, tx, (), Some ErrDuplicateMailbox)
             else (case CreateBucket B tx Q name of
                     Inl e \<Rightarrow> Ret (w, tx, (), Some e)
                   | Inr tx1 \<Rightarrow> on_bucket B tx1 (folder_path f)
                       (case copy_folder B (folder_path f) (Q @ [name])
                               (Cursor B tx1 (folder_path f)) tx1 of
                          (tx2, _) \<Rightarrow> (case DeleteBucket B tx2 Q (f_name f) of
                                         Inl e \<Rightarrow> Ret (w, tx2, (), Some e)
                                       | Inr tx3 \<Rightarrow> Ret (w, tx3, (), None))))))))
        (\<lambda>(w2, _, err). case err of
           Some e \<Rightarrow> Ret (w2, f, Some e)
         | None \<Rightarrow> Ret (w2, f\<lparr>f_name := name\<rparr>, None)))"

definition store_Folder :: "'db bolt \<Rightarrow> crypto \<Rightarrow> ('db world, store_folder) Folder" where
  "store_Folder B C =
     \<lparr>InsertNewMessage = store_InsertNewMessage B C,
      InsertMessage = store_InsertMessage B C,
      GetMessage = store_GetMessage B C,
      DeleteMessage = store_DeleteMessage B,
      Visits = (\<lambda>w f lo hi s. (w, store_ForEachMessage B C w f lo hi s)),
      NextID = store_NextID,
      LastID = store_LastID B\<rparr>"

section \<open>The stored representation\<close>

text \<open>
  \<open>folder_rep C key m M\<close>: the bucket's content \<open>m\<close> represents the abstract folder \<open>M\<close>.  It holds the
  bucket \<open>data\<close> and, for every message of \<open>M\<close>, one record under its id and suffix that decrypts to
  the message; nothing else.
\<close>

definition folder_rep ::
  "crypto \<Rightarrow> bytes option \<Rightarrow> (bytes \<rightharpoonup> bytes option) \<Rightarrow> (u64 \<rightharpoonup> u64 \<times> bytes) \<Rightarrow> bool" where
  "folder_rep C key m M \<longleftrightarrow>
     m folderDataBucket = Some None \<and>
     (\<forall>i s e. m (msg_key i s) = Some (Some e) \<longrightarrow>
        (\<exists>msg. decrypt C key e = Ret (Some msg) \<and> M i = Some (s, msg))) \<and>
     (\<forall>i s msg. M i = Some (s, msg) \<longrightarrow>
        (\<exists>e. m (msg_key i s) = Some (Some e) \<and> decrypt C key e = Ret (Some msg))) \<and>
     (\<forall>k v. m k = Some v \<longrightarrow> k = folderDataBucket \<or> (\<exists>i s e. k = msg_key i s \<and> v = Some e))"

definition decode_entry :: "crypto \<Rightarrow> bytes option \<Rightarrow> entry \<Rightarrow> visit option" where
  "decode_entry C key kv =
     (case kv of
        (k, None) \<Rightarrow> None
      | (k, Some e) \<Rightarrow>
          (case (Uint64 (take 8 k), Uint64 (drop 8 k), decrypt C key e) of
             (Ret i, Ret s, Ret (Some msg)) \<Rightarrow> Some (i, s, msg)
           | _ \<Rightarrow> None))"

definition folder_list :: "crypto \<Rightarrow> bytes option \<Rightarrow> entry list \<Rightarrow> visit list" where
  "folder_list C key es = List.map_filter (decode_entry C key) es"

definition store_msgs :: "'db bolt \<Rightarrow> crypto \<Rightarrow> 'db world \<Rightarrow> store_folder \<Rightarrow> u64 \<rightharpoonup> u64 \<times> bytes" where
  "store_msgs B C w f =
     map_of (folder_list C (f_masterKey f) (Cursor B (content (wdb w)) (folder_path f)))"

subsection \<open>Keys\<close>

lemma length_msg_key [simp]: "length (msg_key i s) = 16"
  by (simp add: msg_key_def)

lemma take_msg_key [simp]: "take 8 (msg_key i s) = PutUint64 i"
  and drop_msg_key [simp]: "drop 8 (msg_key i s) = PutUint64 s"
  by (simp_all add: msg_key_def)

lemma msg_key_inject [simp]: "msg_key i s = msg_key j t \<longleftrightarrow> i = j \<and> s = t"
  by (simp add: msg_key_def be_simps)

lemma msg_key_less: "msg_key i s < msg_key j t \<longleftrightarrow> i < j \<or> i = j \<and> s < t"
  by (simp add: msg_key_def append_less_same_length be_simps)

lemma msg_key_le: "msg_key i s \<le> msg_key j t \<longleftrightarrow> i < j \<or> i = j \<and> s \<le> t"
  by (simp add: msg_key_def append_le_same_length be_simps)

lemma PutUint64_le_msg_key: "PutUint64 i \<le> msg_key j t \<longleftrightarrow> i \<le> j"
  by (simp add: msg_key_def le_append_same_length be_simps)

lemma msg_key_data [simp]: "msg_key i s \<noteq> folderDataBucket" "folderDataBucket \<noteq> msg_key i s"
proof -
  have "length folderDataBucket \<noteq> length (msg_key i s)" by (simp add: folderDataBucket_def)
  then show "msg_key i s \<noteq> folderDataBucket" "folderDataBucket \<noteq> msg_key i s" by metis+
qed

text \<open>The name of the bucket \<open>data\<close> does not lie between an id and a key with this id.\<close>

lemma data_not_between:
  "PutUint64 i \<le> folderDataBucket \<Longrightarrow> \<not> folderDataBucket \<le> msg_key i s"
  using longer_le_shorter_append [of folderDataBucket "PutUint64 i" "PutUint64 s"]
  by (simp add: folderDataBucket_def msg_key_def)

lemma data_short [simp]: "length folderDataBucket = 4"
  by (simp add: folderDataBucket_def)

lemma decode_msg_key [simp]:
  "decode_entry C key (msg_key i s, Some e) =
     (case decrypt C key e of Ret (Some msg) \<Rightarrow> Some (i, s, msg) | _ \<Rightarrow> None)"
  by (simp add: decode_entry_def)

lemma decode_None [simp]: "decode_entry C key (k, None) = None"
  by (simp add: decode_entry_def)

subsection \<open>The list of messages\<close>

text \<open>The same for the sorted list of entries a cursor visits.\<close>

definition bucket_rep :: "crypto \<Rightarrow> bytes option \<Rightarrow> entry list \<Rightarrow> (u64 \<rightharpoonup> u64 \<times> bytes) \<Rightarrow> bool" where
  "bucket_rep C key es M \<longleftrightarrow> sorted_wrt (<) (map fst es) \<and> folder_rep C key (map_of es) M"

lemma bucket_rep_entry:
  assumes "bucket_rep C key es M"
  shows "(k, v) \<in> set es \<longleftrightarrow> map_of es k = Some v"
  using assms sorted_keys_distinct [of es] by (auto simp: bucket_rep_def map_of_eq_Some_iff)

lemma bucket_rep_cases:
  assumes "bucket_rep C key es M" "(k, v) \<in> set es"
  obtains (data) "k = folderDataBucket" "v = None"
    | (msg) i s e t where "k = msg_key i s" "v = Some e" "decrypt C key e = Ret (Some t)" "M i = Some (s, t)"
proof -
  from assms have m: "map_of es k = Some v" and r: "folder_rep C key (map_of es) M"
    by (simp_all add: bucket_rep_entry) (simp add: bucket_rep_def)
  from r m consider "k = folderDataBucket" | i s e where "k = msg_key i s" "v = Some e"
    unfolding folder_rep_def by metis
  then show ?thesis
  proof cases
    case 1
    with r m show ?thesis by (intro data) (auto simp: folder_rep_def)
  next
    case 2
    with m have "map_of es (msg_key i s) = Some (Some e)" by simp
    then obtain t where "decrypt C key e = Ret (Some t)" "M i = Some (s, t)"
      using r unfolding folder_rep_def by metis
    with 2 show ?thesis by (rule msg)
  qed
qed

lemma bucket_rep_msg:
  assumes "bucket_rep C key es M" "M i = Some (s, t)"
  shows "\<exists>e. (msg_key i s, Some e) \<in> set es \<and> decrypt C key e = Ret (Some t)"
  using assms bucket_rep_entry [OF assms(1)] unfolding bucket_rep_def folder_rep_def by metis

lemma set_folder_list: "set (folder_list C key es) = {x. \<exists>kv \<in> set es. decode_entry C key kv = Some x}"
  by (induction es) (auto simp: folder_list_def List.map_filter_simps split: option.splits)

lemma folder_list_Cons:
  "folder_list C key (kv # es) =
     (case decode_entry C key kv of None \<Rightarrow> folder_list C key es | Some x \<Rightarrow> x # folder_list C key es)"
  by (simp add: folder_list_def List.map_filter_simps split: option.split)

lemma mem_folder_list:
  assumes "bucket_rep C key es M"
  shows "(i, s, t) \<in> set (folder_list C key es) \<longleftrightarrow> M i = Some (s, t)"
proof
  assume "(i, s, t) \<in> set (folder_list C key es)"
  then obtain k v where kv: "(k, v) \<in> set es" "decode_entry C key (k, v) = Some (i, s, t)"
    by (auto simp: set_folder_list)
  from assms kv(1) show "M i = Some (s, t)"
    using kv(2) by (cases rule: bucket_rep_cases) auto
next
  assume "M i = Some (s, t)"
  from bucket_rep_msg [OF assms this] show "(i, s, t) \<in> set (folder_list C key es)"
    by (force simp: set_folder_list)
qed

lemma folder_list_sorted_aux:
  assumes "sorted_wrt (<) (map fst es)"
    and "\<And>k v. (k, v) \<in> set es \<Longrightarrow> decode_entry C key (k, v) = None \<or>
      (\<exists>i s t. k = msg_key i s \<and> decode_entry C key (k, v) = Some (i, s, t) \<and> M i = Some (s, t))"
  shows "sorted_wrt (<) (map fst (folder_list C key es))"
  using assms
proof (induction es)
  case (Cons kv es)
  obtain k v where kv: "kv = (k, v)" by (cases kv)
  have ih: "sorted_wrt (<) (map fst (folder_list C key es))" using Cons by auto
  show ?case
  proof (cases "decode_entry C key (k, v)")
    case None
    with ih kv show ?thesis by (simp add: folder_list_Cons)
  next
    case (Some x)
    then obtain i s t where x: "x = (i, s, t)" "k = msg_key i s" "M i = Some (s, t)"
      using Cons.prems(2) [of k v] kv by auto
    have "i < j" if j: "(j, s', t') \<in> set (folder_list C key es)" for j s' t'
    proof -
      from j obtain k' v' where e: "(k', v') \<in> set es" "decode_entry C key (k', v') = Some (j, s', t')"
        by (auto simp: set_folder_list)
      from Cons.prems(2) [of k' v'] e have "k' = msg_key j s'" "M j = Some (s', t')" by auto
      moreover have "k < k'" using Cons.prems(1) kv e(1) by auto
      ultimately show ?thesis using x by (auto simp: msg_key_less)
    qed
    with ih kv Some x show ?thesis by (auto simp: folder_list_Cons)
  qed
qed (simp add: folder_list_def List.map_filter_simps)

lemma folder_list_sorted:
  assumes "bucket_rep C key es M"
  shows "sorted_wrt (<) (map fst (folder_list C key es))"
proof (rule folder_list_sorted_aux)
  show "sorted_wrt (<) (map fst es)" using assms by (simp add: bucket_rep_def)
  fix k v assume "(k, v) \<in> set es"
  with assms show "decode_entry C key (k, v) = None \<or>
      (\<exists>i s t. k = msg_key i s \<and> decode_entry C key (k, v) = Some (i, s, t) \<and> M i = Some (s, t))"
    by (cases rule: bucket_rep_cases) auto
qed

lemma map_of_folder_list:
  assumes "bucket_rep C key es M"
  shows "map_of (folder_list C key es) = M"
proof
  fix i
  have "distinct (map fst (folder_list C key es))"
    using folder_list_sorted [OF assms] by (rule sorted_keys_distinct)
  then have "map_of (folder_list C key es) i = Some x \<longleftrightarrow> M i = Some x" for x
    using mem_folder_list [OF assms, of i "fst x" "snd x"] by (simp add: map_of_eq_Some_iff)
  then show "map_of (folder_list C key es) i = M i"
    by (metis not_None_eq)
qed

subsection \<open>Looking for an id\<close>

definition seek :: "bytes \<Rightarrow> entry list \<Rightarrow> entry list" where
  "seek k es = filter (\<lambda>(k', _). k \<le> k') es"

lemma seek_least:
  assumes "bucket_rep C key es M" "seek k es = (k', v') # rest"
  shows "(k', v') \<in> set es" and "k \<le> k'" and "(k2, v2) \<in> set es \<Longrightarrow> k \<le> k2 \<Longrightarrow> k' \<le> k2"
  using hd_filter_sorted_least [of es "\<lambda>x. k \<le> x" k' v' rest] assms
  by (auto simp: seek_def bucket_rep_def bucket_rep_entry [OF assms(1)])

lemma seek_found:
  assumes "bucket_rep C key es M" "M i = Some (s, t)"
  shows "\<exists>e rest. seek (PutUint64 i) es = (msg_key i s, Some e) # rest \<and>
    decrypt C key e = Ret (Some t) \<and> map_of es (msg_key i s) = Some (Some e)"
proof -
  obtain e where e: "(msg_key i s, Some e) \<in> set es" "decrypt C key e = Ret (Some t)"
    using bucket_rep_msg [OF assms] by blast
  then have "(msg_key i s, Some e) \<in> set (seek (PutUint64 i) es)"
    by (simp add: seek_def PutUint64_le_msg_key)
  then obtain k v rest where r: "seek (PutUint64 i) es = (k, v) # rest"
    by (cases "seek (PutUint64 i) es") auto
  note l = seek_least [OF assms(1) r]
  have le: "k \<le> msg_key i s" by (rule l(3) [OF e(1)]) (simp add: PutUint64_le_msg_key)
  from assms(1) l(1) have "k = msg_key i s \<and> v = Some e"
  proof (cases rule: bucket_rep_cases)
    case data
    with l(2) le data_not_between [of i s] show ?thesis by simp
  next
    case (msg j u e' t')
    with l(2) le have "j = i" by (auto simp: PutUint64_le_msg_key msg_key_le)
    with msg assms(2) have "k = msg_key i s" by simp
    moreover have "map_of es k = Some v" using l(1) bucket_rep_entry [OF assms(1)] by simp
    moreover have "map_of es (msg_key i s) = Some (Some e)"
      using e(1) bucket_rep_entry [OF assms(1)] by simp
    ultimately show ?thesis by simp
  qed
  with r e bucket_rep_entry [OF assms(1)] show ?thesis by auto
qed

lemma seek_missing:
  assumes "bucket_rep C key es M" "M i = None" "seek (PutUint64 i) es = (k, v) # rest"
  shows "v = None \<and> length k = 4 \<or> v \<noteq> None \<and> length k = 16 \<and> take 8 k \<noteq> PutUint64 i"
  using assms(1) seek_least(1) [OF assms(1,3)]
proof (cases rule: bucket_rep_cases)
  case (msg j u e' t')
  then have "j \<noteq> i" using assms(2) by auto
  with msg show ?thesis by (simp add: be_simps)
qed simp

lemma id_taken_iff:
  assumes "bucket_rep C key es M"
  shows "id_taken (seek (PutUint64 i) es) (msg_key i s) \<longleftrightarrow> i \<in> dom M"
proof (cases "M i")
  case None
  with seek_missing [OF assms None] show ?thesis
    by (auto simp: id_taken_def domIff split: list.split)
next
  case (Some x)
  with seek_found [OF assms, of i "fst x" "snd x"] show ?thesis
    by (auto simp: id_taken_def)
qed

subsection \<open>Iteration\<close>

lemma store_visits_eq:
  assumes "sorted_wrt (<) (map fst es)"
    and "\<And>k v. (k, v) \<in> set es \<Longrightarrow> v = None \<or>
      (\<exists>i s e t. k = msg_key i s \<and> v = Some e \<and> decrypt C key e = Ret (Some t))"
  shows "store_visits C key hi sfx es =
    (filter (\<lambda>(i, t, m). (hi = 0 \<or> i \<le> hi) \<and> (sfx = 0 \<or> t = sfx)) (folder_list C key es), Ret None)"
  using assms
proof (induction es)
  case (Cons kv es)
  obtain k v where kv: "kv = (k, v)" by (cases kv)
  have ih: "store_visits C key hi sfx es =
    (filter (\<lambda>(i, t, m). (hi = 0 \<or> i \<le> hi) \<and> (sfx = 0 \<or> t = sfx)) (folder_list C key es), Ret None)"
    using Cons by auto
  show ?case
  proof (cases v)
    case None
    with ih kv show ?thesis by (simp add: folder_list_Cons)
  next
    case (Some e)
    with Cons.prems(2) [of k v] kv obtain i s t where
      k: "k = msg_key i s" "decrypt C key e = Ret (Some t)"
      by auto
    have later: "i \<le> j" if j: "(j, s', t') \<in> set (folder_list C key es)" for j s' t'
    proof -
      from j obtain k' v' where e: "(k', v') \<in> set es" "decode_entry C key (k', v') = Some (j, s', t')"
        by (auto simp: set_folder_list)
      from Cons.prems(2) [of k' v'] e have "k' = msg_key j s'" by auto
      moreover have "k < k'" using Cons.prems(1) kv e(1) by auto
      ultimately show ?thesis using k by (auto simp: msg_key_less)
    qed
    show ?thesis
    proof (cases "hi \<noteq> 0 \<and> hi < i")
      case True
      then have "filter (\<lambda>(i, t, m). (hi = 0 \<or> i \<le> hi) \<and> (sfx = 0 \<or> t = sfx)) (folder_list C key es) = []"
        using later by (fastforce simp: filter_empty_conv)
      with True kv k Some show ?thesis by (simp add: folder_list_Cons not_le)
    next
      case False
      with ih kv k Some show ?thesis by (auto simp: folder_list_Cons not_less)
    qed
  qed
qed (simp add: folder_list_def List.map_filter_simps)

lemma folder_list_seek:
  assumes "bucket_rep C key es M"
  shows "folder_list C key (seek (PutUint64 lo) es) = filter (\<lambda>(i, _). lo \<le> i) (folder_list C key es)"
proof -
  have "\<forall>kv \<in> set es. decode_entry C key kv = None \<or>
      (\<exists>i s t. fst kv = msg_key i s \<and> decode_entry C key kv = Some (i, s, t))"
  proof
    fix kv assume "kv \<in> set es"
    then have "(fst kv, snd kv) \<in> set es" by simp
    with assms show "decode_entry C key kv = None \<or>
      (\<exists>i s t. fst kv = msg_key i s \<and> decode_entry C key kv = Some (i, s, t))"
      by (cases rule: bucket_rep_cases) (cases kv; auto)+
  qed
  then show ?thesis
  proof (induction es)
    case (Cons kv es)
    then show ?case
      by (cases kv) (auto simp: seek_def folder_list_Cons PutUint64_le_msg_key)
  qed (simp add: seek_def folder_list_def List.map_filter_simps)
qed

lemma store_visits_seek:
  assumes "bucket_rep C key es M"
  shows "store_visits C key hi sfx (seek (PutUint64 lo) es) =
    (filter (\<lambda>(i, t, m). in_range lo hi i \<and> (sfx = 0 \<or> t = sfx)) (folder_list C key es), Ret None)"
proof -
  have "sorted_wrt (<) (map fst (seek (PutUint64 lo) es))"
    using assms by (auto simp: seek_def bucket_rep_def sorted_wrt_map intro: sorted_wrt_filter)
  moreover have "v = None \<or> (\<exists>i s e t. k = msg_key i s \<and> v = Some e \<and> decrypt C key e = Ret (Some t))"
    if "(k, v) \<in> set (seek (PutUint64 lo) es)" for k v
  proof -
    from that have "(k, v) \<in> set es" by (simp add: seek_def)
    with assms show ?thesis by (cases rule: bucket_rep_cases) auto
  qed
  ultimately have "store_visits C key hi sfx (seek (PutUint64 lo) es) =
    (filter (\<lambda>(i, t, m). (hi = 0 \<or> i \<le> hi) \<and> (sfx = 0 \<or> t = sfx))
       (folder_list C key (seek (PutUint64 lo) es)), Ret None)"
    by (rule store_visits_eq)
  then show ?thesis
    by (simp add: folder_list_seek [OF assms] in_range_def conj_assoc case_prod_unfold)
qed

section \<open>The invariant\<close>

text \<open>
  The database holds the folder \<open>f\<close> with the abstract content \<open>M\<close>: its bucket represents \<open>M\<close>, the
  stored next id is the one in memory, and all ids in use are below it.
\<close>

definition content_rep ::
  "'db bolt \<Rightarrow> crypto \<Rightarrow> 'db \<Rightarrow> store_folder \<Rightarrow> (u64 \<rightharpoonup> u64 \<times> bytes) \<Rightarrow> bool" where
  "content_rep B C db f M \<longleftrightarrow> (\<exists>m md.
     obs B db (folder_path f) = Some m \<and> folder_rep C (f_masterKey f) m M \<and>
     obs B db (data_path f) = Some md \<and>
     md folderNextIDKey = Some (Some (PutUint64 (f_nextID f))) \<and>
     f_nextID f \<noteq> 0 \<and> (\<forall>i \<in> dom M. valid_id (f_nextID f) i))"

definition store_inv :: "'db bolt \<Rightarrow> crypto \<Rightarrow> 'db world \<Rightarrow> store_folder \<Rightarrow> bool" where
  "store_inv B C w f \<longleftrightarrow> world_ok B C w \<and> content_rep B C (content (wdb w)) f (store_msgs B C w f)"

definition store_fits :: "bytes \<Rightarrow> bool" where
  "store_fits m \<longleftrightarrow> length m + nonceSize + Overhead \<le> MaxValueSize"

definition store_apart :: "store_folder \<Rightarrow> store_folder \<Rightarrow> bool" where
  "store_apart f g \<longleftrightarrow> folder_path f \<noteq> folder_path g"

lemma folder_path_snoc: "folder_path f = folders_path (f_userID f) @ [f_name f]"
  and folders_path_snoc: "folders_path u = [u] @ [foldersBucket]"
  and data_path_snoc: "data_path f = folder_path f @ [folderDataBucket]"
  by (simp_all add: folder_path_def folders_path_def data_path_def)

lemma folder_data_neq [simp]: "folder_path f \<noteq> data_path g" "data_path g \<noteq> folder_path f"
  by (simp_all add: folder_path_def data_path_def)

lemma paths_nonempty [simp]: "folder_path f \<noteq> []" "data_path f \<noteq> []"
  by (simp_all add: folder_path_def data_path_def)

lemma path_update [simp]:
  "folder_path (f\<lparr>f_nextID := n\<rparr>) = folder_path f" "data_path (f\<lparr>f_nextID := n\<rparr>) = data_path f"
  by (simp_all add: folder_path_def data_path_def)

lemma data_path_inject: "data_path f = data_path g \<longleftrightarrow> folder_path f = folder_path g"
  by (auto simp: folder_path_def data_path_def)

lemma folder_buckets:
  assumes "bolt_ok B" "obs B db (folder_path f) = Some m"
  shows "Bucket B db (folder_path f)" "Bucket B db (folders_path (f_userID f))"
    "Bucket B db [f_userID f]"
proof -
  show p: "Bucket B db (folder_path f)" by (rule obs_Bucket [OF assms(2)])
  then show q: "Bucket B db (folders_path (f_userID f))"
    using bolt_nested [OF assms(1)] by (simp add: folder_path_snoc)
  show "Bucket B db [f_userID f]"
    using q bolt_nested [OF assms(1), of db "[f_userID f]" foldersBucket]
    by (simp only: folders_path_snoc)
qed

lemma content_rep_bucket:
  assumes "bolt_ok B" "content_rep B C db f M"
  shows "bucket_rep C (f_masterKey f) (Cursor B db (folder_path f)) M"
proof -
  from assms(2) obtain m where "obs B db (folder_path f) = Some m" "folder_rep C (f_masterKey f) m M"
    by (auto simp: content_rep_def)
  then show ?thesis
    using bolt_Cursor_sorted [OF assms(1)] by (simp add: bucket_rep_def obs_Cursor [of B])
qed

lemma content_rep_msgs:
  "bolt_ok B \<Longrightarrow> content_rep B C (content (wdb w)) f M \<Longrightarrow> store_msgs B C w f = M"
  using map_of_folder_list [OF content_rep_bucket] by (simp add: store_msgs_def)

lemma store_invI:
  "world_ok B C w \<Longrightarrow> content_rep B C (content (wdb w)) f M \<Longrightarrow>
    store_inv B C w f \<and> store_msgs B C w f = M"
  using content_rep_msgs [of B C w f M] by (simp add: store_inv_def world_ok_def)

lemma store_inv_bucket:
  assumes "store_inv B C w f"
  shows "bucket_rep C (f_masterKey f) (Cursor B (content (wdb w)) (folder_path f)) (store_msgs B C w f)"
  by (rule content_rep_bucket) (use assms in \<open>simp_all add: store_inv_def world_ok_def\<close>)

lemma store_msgs_tick [simp]: "store_msgs B C (w\<lparr>tick := n\<rparr>) f = store_msgs B C w f"
  by (simp add: store_msgs_def)

lemma store_inv_tick [simp]: "store_inv B C (w\<lparr>tick := n\<rparr>) f = store_inv B C w f"
  by (simp add: store_inv_def)

lemma seek_Cursor: "bolt_ok B \<Longrightarrow> Seek B db p k = seek k (Cursor B db p)"
  by (simp add: bolt_Seek seek_def)

text \<open>Writes to the bucket of one folder keep the others.\<close>

lemma content_rep_frame:
  assumes "content_rep B C db g M" "folder_path f \<noteq> folder_path g"
    and "\<And>q. q \<noteq> folder_path f \<Longrightarrow> q \<noteq> data_path f \<Longrightarrow> obs B db' q = obs B db q"
  shows "content_rep B C db' g M"
proof -
  have "obs B db' (folder_path g) = obs B db (folder_path g)"
    and "obs B db' (data_path g) = obs B db (data_path g)"
    using assms(2) by (auto simp: data_path_inject intro!: assms(3))
  with assms(1) show ?thesis by (simp add: content_rep_def)
qed

lemma folder_rep_insert:
  assumes "folder_rep C key m M" "M i = None" "decrypt C key e = Ret (Some t)"
  shows "folder_rep C key (m(msg_key i s \<mapsto> Some e)) (M(i \<mapsto> (s, t)))"
proof -
  have "m (msg_key i u) = None" for u
    using assms(1,2) unfolding folder_rep_def
    by (metis msg_key_data(1) not_None_eq option.distinct(1) msg_key_inject)
  with assms show ?thesis unfolding folder_rep_def by auto
qed

lemma folder_rep_delete:
  assumes "folder_rep C key m M" "M i = Some (s, t)"
  shows "folder_rep C key (m(msg_key i s := None)) (M(i := None))"
proof -
  have "m (msg_key i u) \<noteq> Some (Some e)" if "u \<noteq> s" for u e
    using assms that unfolding folder_rep_def by force
  with assms show ?thesis unfolding folder_rep_def by auto
qed

section \<open>The operations\<close>

lemma key_sizes:
  "folderNextIDKey \<noteq> []" "length folderNextIDKey \<le> MaxKeySize" "length (msg_key i s) \<le> MaxKeySize"
  "8 \<le> MaxValueSize" "msg_key i s \<noteq> []"
  by (simp_all add: folderNextIDKey_def MaxKeySize_def MaxValueSize_def)
     (metis length_msg_key list.size(3) zero_neq_numeral)

text \<open>Writing a message under a fresh id, inside a transaction.\<close>

lemma put_message:
  assumes "bolt_ok B" "obs B tx (folder_path f) = Some m" "folder_rep C key m M" "M i = None"
    and "length e \<le> MaxValueSize"
  shows "\<exists>tx'. Put B tx (folder_path f) (msg_key i s) e = Inr tx' \<and>
    obs B tx' = (obs B tx)(folder_path f \<mapsto> m(msg_key i s \<mapsto> Some e))"
proof -
  have "m (msg_key i s) \<noteq> Some None"
    using assms(3) unfolding folder_rep_def by fastforce
  then obtain tx' where "Put B tx (folder_path f) (msg_key i s) e = Inr tx'"
    using bolt_Put_ok [of B tx "folder_path f" m "msg_key i s" e] assms key_sizes(3,5) paths_nonempty(1)
    by metis
  with bolt_Put [OF assms(1) this assms(2)] show ?thesis by blast
qed

lemma id_taken_obs:
  assumes "bolt_ok B" "obs B tx p = Some m" "folder_rep C key m M"
  shows "id_taken (Seek B tx p (PutUint64 i)) (msg_key i s) \<longleftrightarrow> i \<in> dom M"
proof -
  have "bucket_rep C key (Cursor B tx p) M"
    using assms bolt_Cursor_sorted by (simp add: bucket_rep_def obs_Cursor [of B])
  then show ?thesis using id_taken_iff assms(1) by (simp add: seek_Cursor)
qed

lemma put_next_id:
  assumes "bolt_ok B" "obs B tx (data_path f) = Some md" "md folderNextIDKey \<noteq> Some None"
  shows "\<exists>tx'. Put B tx (data_path f) folderNextIDKey (PutUint64 n) = Inr tx' \<and>
    obs B tx' = (obs B tx)(data_path f \<mapsto> md(folderNextIDKey \<mapsto> Some (PutUint64 n)))"
proof -
  obtain tx' where "Put B tx (data_path f) folderNextIDKey (PutUint64 n) = Inr tx'"
    using bolt_Put_ok [of B tx "data_path f" md folderNextIDKey "PutUint64 n"] assms key_sizes(1,2,4)
    by auto
  with bolt_Put [OF assms(1) this assms(2)] show ?thesis by blast
qed

definition frame :: "'db bolt \<Rightarrow> crypto \<Rightarrow> 'db world \<Rightarrow> store_folder \<Rightarrow> 'db world \<Rightarrow> store_folder \<Rightarrow> bool" where
  "frame B C w f w' f' \<longleftrightarrow> (\<forall>g. store_apart f g \<longrightarrow> store_inv B C w g \<longrightarrow>
     store_inv B C w' g \<and> store_msgs B C w' g = store_msgs B C w g \<and> store_apart f' g)"

lemma frameI:
  assumes "world_ok B C w'" "bolt_ok B" "folder_path f' = folder_path f"
    and "\<And>q. q \<noteq> folder_path f \<Longrightarrow> q \<noteq> data_path f \<Longrightarrow>
      obs B (content (wdb w')) q = obs B (content (wdb w)) q"
  shows "frame B C w f w' f'"
  unfolding frame_def
proof (intro allI impI)
  fix g assume g: "store_apart f g" "store_inv B C w g"
  have "content_rep B C (content (wdb w')) g (store_msgs B C w g)"
    by (rule content_rep_frame [of _ _ "content (wdb w)" _ _ f])
       (use g assms(4) in \<open>auto simp: store_inv_def store_apart_def\<close>)
  from store_invI [OF assms(1) this] g assms(3)
  show "store_inv B C w' g \<and> store_msgs B C w' g = store_msgs B C w g \<and> store_apart f' g"
    by (simp add: store_apart_def)
qed

lemma frame_refl: "world_ok B C (w\<lparr>tick := n\<rparr>) \<Longrightarrow> frame B C w f (w\<lparr>tick := n\<rparr>) f"
  by (simp add: frame_def)

lemma store_invE:
  assumes "store_inv B C w f"
  obtains m md where "world_ok B C w" "bolt_ok B" "bolt_live B" "crypto_ok C" "env_ok w" "rnd_live w"
    "\<not> rwtx (wdb w)" "opened (wdb w)"
    "obs B (content (wdb w)) (folder_path f) = Some m"
    "folder_rep C (f_masterKey f) m (store_msgs B C w f)"
    "obs B (content (wdb w)) (data_path f) = Some md"
    "md folderNextIDKey = Some (Some (PutUint64 (f_nextID f)))"
    "f_nextID f \<noteq> 0" "\<forall>i \<in> dom (store_msgs B C w f). valid_id (f_nextID f) i"
    "Bucket B (content (wdb w)) [f_userID f]" "Bucket B (content (wdb w)) (folders_path (f_userID f))"
    "Bucket B (content (wdb w)) (folder_path f)" "Bucket B (content (wdb w)) (data_path f)"
proof -
  from assms obtain m md where o: "obs B (content (wdb w)) (folder_path f) = Some m"
    "folder_rep C (f_masterKey f) m (store_msgs B C w f)"
    "obs B (content (wdb w)) (data_path f) = Some md"
    "md folderNextIDKey = Some (Some (PutUint64 (f_nextID f)))"
    "f_nextID f \<noteq> 0" "\<forall>i \<in> dom (store_msgs B C w f). valid_id (f_nextID f) i"
    by (auto simp: store_inv_def content_rep_def)
  have ok: "world_ok B C w" "bolt_ok B" "bolt_live B" "crypto_ok C" "env_ok w" "rnd_live w" "\<not> rwtx (wdb w)"
    "opened (wdb w)"
    using assms by (simp_all add: store_inv_def world_ok_def)
  show ?thesis
    by (rule that [OF ok o folder_buckets(3,2,1) [OF ok(2) o(1)] obs_Bucket [OF o(3)]])
qed

lemma store_insert_new:
  assumes inv: "store_inv B C w f" and fits: "store_fits t" and top: "f_nextID f \<noteq> - 1"
  shows "\<exists>w' f'. store_InsertNewMessage B C w f (Some t) s = Ret (w', f', Inr (f_nextID f)) \<and>
    store_inv B C w' f' \<and> store_msgs B C w' f' = (store_msgs B C w f)(f_nextID f \<mapsto> (s, t)) \<and>
    f_nextID f' = f_nextID f + 1 \<and> frame B C w f w' f'"
proof -
  let ?c = "content (wdb w)" and ?P = "folder_path f" and ?D = "data_path f"
  let ?M = "store_msgs B C w f" and ?n = "f_nextID f"
  from inv obtain m md where ok: "world_ok B C w" "bolt_ok B" "bolt_live B" "crypto_ok C" "env_ok w"
      "rnd_live w" "\<not> rwtx (wdb w)" "opened (wdb w)"
    and r: "obs B ?c ?P = Some m" "folder_rep C (f_masterKey f) m ?M" "obs B ?c ?D = Some md"
      "md folderNextIDKey = Some (Some (PutUint64 ?n))" "?n \<noteq> 0" "\<forall>i \<in> dom ?M. valid_id ?n i"
    and b: "Bucket B ?c [f_userID f]" "Bucket B ?c (folders_path (f_userID f))" "Bucket B ?c ?P" "Bucket B ?c ?D"
    by (rule store_invE)
  obtain k e where e: "encrypt C (f_masterKey f) w t = (w\<lparr>tick := k\<rparr>, Inr e)"
      "decrypt C (f_masterKey f) e = Ret (Some t)" "length e \<le> length t + nonceSize + Overhead"
    using encrypt_live [OF ok(4,5,6)] by blast
  have fresh: "?M ?n = None"
    using r(6) by (auto simp: valid_id_def domIff)
  obtain tx1 where tx1: "Put B ?c ?D folderNextIDKey (PutUint64 (?n + 1)) = Inr tx1"
      "obs B tx1 = (obs B ?c)(?D \<mapsto> md(folderNextIDKey \<mapsto> Some (PutUint64 (?n + 1))))"
    using put_next_id [OF ok(2) r(3)] r(4) by auto
  have o1: "obs B tx1 ?P = Some m" using tx1(2) r(1) by simp
  obtain tx2 where tx2: "Put B tx1 ?P (msg_key ?n s) e = Inr tx2"
      "obs B tx2 = (obs B tx1)(?P \<mapsto> m(msg_key ?n s \<mapsto> Some e))"
    using put_message [OF ok(2) o1 r(2) fresh, of e s] e(3) fits by (auto simp: store_fits_def)
  have nt: "\<not> id_taken (Seek B tx1 ?P (PutUint64 ?n)) (msg_key ?n s)"
    using id_taken_obs [OF ok(2) o1 r(2)] fresh by (simp add: domIff)
  let ?w' = "w\<lparr>tick := k, wdb := (wdb w)\<lparr>content := tx2\<rparr>\<rparr>"
  let ?f' = "f\<lparr>f_nextID := ?n + 1\<rparr>"
  have run: "store_InsertNewMessage B C w f (Some t) s = Ret (?w', ?f', Inr ?n)"
    unfolding store_InsertNewMessage_def
    using e(1) ok(3,7,8) b tx1(1) tx2(1) nt by (simp add: db_Update_run on_bucket_def)
  have w': "world_ok B C ?w'" using ok(1) by (rule world_ok_update)
  have "valid_id (?n + 1) i" if "i \<in> dom (?M(?n \<mapsto> (s, t)))" for i
  proof (cases "i = ?n")
    case True
    with r(5) word_succ_less [OF top] show ?thesis by (simp add: valid_id_def)
  next
    case False
    with that r(6) have "i \<noteq> 0" "i < ?n" by (auto simp: valid_id_def)
    with word_succ_less [OF top] show ?thesis by (simp add: valid_id_def order.strict_implies_order)
  qed
  then have "content_rep B C (content (wdb ?w')) ?f' (?M(?n \<mapsto> (s, t)))"
    using folder_rep_insert [OF r(2) fresh e(2), of s] tx1(2) tx2(2) r(3) word_succ_less(2) [OF top]
    by (simp add: content_rep_def)
  from store_invI [OF w' this] run frameI [OF w' ok(2), of ?f' f w] tx1(2) tx2(2)
  show ?thesis by (intro exI [of _ ?w'] exI [of _ ?f']) simp
qed

lemma store_insert:
  assumes inv: "store_inv B C w f" and fits: "store_fits t"
  shows "\<exists>w' f'. store_InsertMessage B C w f i (Some t) s = Ret (w', f',
      if \<not> valid_id (f_nextID f) i then Some ErrInvalidID
      else if i \<in> dom (store_msgs B C w f) then Some ErrDuplicateID else None) \<and>
    store_inv B C w' f' \<and> f_nextID f' = f_nextID f \<and>
    store_msgs B C w' f' = (if valid_id (f_nextID f) i \<and> i \<notin> dom (store_msgs B C w f)
       then (store_msgs B C w f)(i \<mapsto> (s, t)) else store_msgs B C w f) \<and>
    frame B C w f w' f'"
proof -
  let ?c = "content (wdb w)" and ?P = "folder_path f" and ?M = "store_msgs B C w f"
  from inv obtain m md where ok: "world_ok B C w" "bolt_ok B" "bolt_live B" "crypto_ok C" "env_ok w"
      "rnd_live w" "\<not> rwtx (wdb w)" "opened (wdb w)"
    and r: "obs B ?c ?P = Some m" "folder_rep C (f_masterKey f) m ?M" "obs B ?c (data_path f) = Some md"
      "md folderNextIDKey = Some (Some (PutUint64 (f_nextID f)))" "f_nextID f \<noteq> 0"
      "\<forall>i \<in> dom ?M. valid_id (f_nextID f) i"
    and b: "Bucket B ?c [f_userID f]" "Bucket B ?c (folders_path (f_userID f))" "Bucket B ?c ?P"
      "Bucket B ?c (data_path f)"
    by (rule store_invE)
  obtain k e where e: "encrypt C (f_masterKey f) w t = (w\<lparr>tick := k\<rparr>, Inr e)"
      "decrypt C (f_masterKey f) e = Ret (Some t)" "length e \<le> length t + nonceSize + Overhead"
    using encrypt_live [OF ok(4,5,6)] by blast
  note taken = id_taken_obs [OF ok(2) r(1,2), of i s]
  consider (invalid) "\<not> valid_id (f_nextID f) i" | (dup) "valid_id (f_nextID f) i" "i \<in> dom ?M"
    | (ok) "valid_id (f_nextID f) i" "?M i = None" by blast
  then show ?thesis
  proof cases
    case invalid
    then have "store_InsertMessage B C w f i (Some t) s = Ret (w, f, Some ErrInvalidID)"
      by (auto simp: store_InsertMessage_def valid_id_def)
    with invalid inv show ?thesis by (auto simp: frame_def)
  next
    case dup
    then have "store_InsertMessage B C w f i (Some t) s = Ret (w\<lparr>tick := k\<rparr>, f, Some ErrDuplicateID)"
      using e(1) ok(3,7,8) b taken
      by (auto simp: store_InsertMessage_def db_Update_run on_bucket_def valid_id_def)
    with dup inv show ?thesis by (auto simp: frame_def)
  next
    case new: ok
    obtain tx where tx: "Put B ?c ?P (msg_key i s) e = Inr tx"
        "obs B tx = (obs B ?c)(?P \<mapsto> m(msg_key i s \<mapsto> Some e))"
      using put_message [OF ok(2) r(1,2) new(2), of e s] e(3) fits by (auto simp: store_fits_def)
    let ?w' = "w\<lparr>tick := k, wdb := (wdb w)\<lparr>content := tx\<rparr>\<rparr>"
    have run: "store_InsertMessage B C w f i (Some t) s = Ret (?w', f, None)"
      using e(1) ok(3,7,8) b taken new tx(1)
      by (auto simp: store_InsertMessage_def db_Update_run on_bucket_def valid_id_def domIff)
    have w': "world_ok B C ?w'" using ok(1) by (rule world_ok_update)
    have "content_rep B C (content (wdb ?w')) f (?M(i \<mapsto> (s, t)))"
      using folder_rep_insert [OF r(2) new(2) e(2), of s] tx(2) r new(1) by (simp add: content_rep_def)
    from store_invI [OF w' this] run frameI [OF w' ok(2), of f f w] tx(2) new
    show ?thesis by (intro exI [of _ ?w'] exI [of _ f]) (simp add: domIff)
  qed
qed

lemma store_get:
  assumes inv: "store_inv B C w f"
  shows "store_GetMessage B C w f i =
    Ret (case store_msgs B C w f i of None \<Rightarrow> Inl ErrNotFound | Some x \<Rightarrow> Inr x)"
proof -
  let ?c = "content (wdb w)" and ?P = "folder_path f" and ?M = "store_msgs B C w f"
  from inv obtain m md where ok: "bolt_ok B" "bolt_live B" "opened (wdb w)"
    and r: "obs B ?c ?P = Some m" "folder_rep C (f_masterKey f) m ?M"
    and b: "Bucket B ?c [f_userID f]" "Bucket B ?c (folders_path (f_userID f))" "Bucket B ?c ?P"
    by (rule store_invE)
  note rep = store_inv_bucket [OF inv]
  show ?thesis
  proof (cases "?M i")
    case None
    with seek_missing [OF rep None] ok b show ?thesis
      by (auto simp: store_GetMessage_def db_View_live on_bucket_def seek_Cursor Let_def
          split: list.split option.split)
  next
    case (Some x)
    then have "?M i = Some (fst x, snd x)" by simp
    from seek_found [OF rep this] Some ok b show ?thesis
      by (auto simp: store_GetMessage_def db_View_live on_bucket_def seek_Cursor Let_def)
  qed
qed

lemma store_delete:
  assumes inv: "store_inv B C w f"
  shows "\<exists>w' f'. store_DeleteMessage B w f i = Ret (w', f',
      if \<not> valid_id (f_nextID f) i then Some ErrInvalidID
      else if i \<notin> dom (store_msgs B C w f) then Some ErrNotFound else None) \<and>
    store_inv B C w' f' \<and> f_nextID f' = f_nextID f \<and>
    store_msgs B C w' f' = (store_msgs B C w f)(i := None) \<and> frame B C w f w' f'"
proof -
  let ?c = "content (wdb w)" and ?P = "folder_path f" and ?M = "store_msgs B C w f"
  from inv obtain m md where ok: "world_ok B C w" "bolt_ok B" "bolt_live B" "\<not> rwtx (wdb w)" "opened (wdb w)"
    and r: "obs B ?c ?P = Some m" "folder_rep C (f_masterKey f) m ?M" "obs B ?c (data_path f) = Some md"
      "md folderNextIDKey = Some (Some (PutUint64 (f_nextID f)))" "f_nextID f \<noteq> 0"
      "\<forall>i \<in> dom ?M. valid_id (f_nextID f) i"
    and b: "Bucket B ?c [f_userID f]" "Bucket B ?c (folders_path (f_userID f))" "Bucket B ?c ?P"
    by (rule store_invE)
  note rep = store_inv_bucket [OF inv]
  show ?thesis
  proof (cases "?M i")
    case None
    have "store_DeleteMessage B w f i =
        Ret (w, f, if \<not> valid_id (f_nextID f) i then Some ErrInvalidID else Some ErrNotFound)"
      using seek_missing [OF rep None] ok b
      by (auto simp: store_DeleteMessage_def db_Update_run on_bucket_def seek_Cursor Let_def valid_id_def
          split: list.split option.split)
    moreover have "?M(i := None) = ?M" using None by auto
    ultimately show ?thesis using inv None by (auto simp: frame_def)
  next
    case (Some x)
    then obtain s t where x: "?M i = Some (s, t)" by (cases x) simp
    from seek_found [OF rep x] obtain e rest where
      sk: "seek (PutUint64 i) (Cursor B ?c ?P) = (msg_key i s, Some e) # rest"
        "map_of (Cursor B ?c ?P) (msg_key i s) = Some (Some e)" by blast
    then have mk: "m (msg_key i s) = Some (Some e)" using obs_Cursor [OF r(1)] by simp
    have v: "valid_id (f_nextID f) i" using r(6) x by blast
    obtain tx where d: "Delete B ?c ?P (msg_key i s) = Inr tx"
      using bolt_Delete_ok [OF ok(2) r(1), of "msg_key i s"] mk by auto
    note o = bolt_Delete [OF ok(2) d r(1)]
    let ?w' = "w\<lparr>wdb := (wdb w)\<lparr>content := tx\<rparr>\<rparr>"
    have run: "store_DeleteMessage B w f i = Ret (?w', f, None)"
      using ok(2-5) b v sk(1) d
      by (auto simp: store_DeleteMessage_def db_Update_run on_bucket_def seek_Cursor Let_def valid_id_def)
    have w': "world_ok B C ?w'" using ok(1) by (rule world_ok_update)
    have "content_rep B C (content (wdb ?w')) f (?M(i := None))"
      using folder_rep_delete [OF r(2) x] o r by (simp add: content_rep_def)
    from store_invI [OF w' this] run frameI [OF w' ok(2), of f f w] o v x
    show ?thesis by (intro exI [of _ ?w'] exI [of _ f]) (simp add: domIff)
  qed
qed

lemma store_foreach:
  assumes inv: "store_inv B C w f" and "hi = 0 \<or> lo \<le> hi"
  shows "store_ForEachMessage B C w f lo hi sfx =
    (filter (\<lambda>(i, t, m). in_range lo hi i \<and> (sfx = 0 \<or> t = sfx))
       (folder_list C (f_masterKey f) (Cursor B (content (wdb w)) (folder_path f))), Ret None)"
proof -
  let ?c = "content (wdb w)" and ?P = "folder_path f" and ?M = "store_msgs B C w f"
  from inv obtain m md where ok: "bolt_ok B" "bolt_live B" "opened (wdb w)"
    and b: "Bucket B ?c [f_userID f]" "Bucket B ?c (folders_path (f_userID f))" "Bucket B ?c ?P"
    by (rule store_invE)
  have "bucket_rep C (f_masterKey f) (Cursor B ?c ?P) ?M"
    by (rule store_inv_bucket [OF inv])
  from store_visits_seek [OF this] ok b assms(2) show ?thesis
    by (auto simp: store_ForEachMessage_def bolt_live_def seek_Cursor Let_def)
qed

interpretation st: ordered_folder "store_Folder B C" "store_inv B C" "store_msgs B C" store_fits store_apart
  for B :: "'db bolt" and C :: crypto
proof (unfold_locales, goal_cases)
  case (1 w h)
  then show ?case by simp
next
  case (2 w h i)
  from 2(1) show ?case
    by (rule store_invE) (use 2(2) in \<open>simp add: store_Folder_def store_NextID_def\<close>)
next
  case (3 w h m s)
  with store_insert_new [of B C w h m s] show ?case
    by (simp add: store_Folder_def store_NextID_def frame_def)
next
  case (4 w h m i s)
  with store_insert [of B C w h m i s] show ?case
    by (simp add: store_Folder_def store_NextID_def frame_def)
next
  case (5 w h i)
  with store_get [of B C w h i] show ?case by (simp add: store_Folder_def)
next
  case (6 w h i)
  with store_delete [of B C w h i] show ?case
    by (simp add: store_Folder_def store_NextID_def frame_def)
next
  case (7 w h hi lo s)
  have rep: "bucket_rep C (f_masterKey h) (Cursor B (content (wdb w)) (folder_path h)) (store_msgs B C w h)"
    by (rule store_inv_bucket [OF 7(1)])
  have "distinct (folder_list C (f_masterKey h) (Cursor B (content (wdb w)) (folder_path h)))"
    using sorted_keys_distinct [OF folder_list_sorted [OF rep]] by (simp add: distinct_map)
  with 7 store_foreach [of B C w h hi lo s] mem_folder_list [OF rep] show ?case
    by (auto simp: store_Folder_def)
next
  case (8 w h hi lo s w' vs fin)
  have "bucket_rep C (f_masterKey h) (Cursor B (content (wdb w)) (folder_path h)) (store_msgs B C w h)"
    by (rule store_inv_bucket [OF 8(1)])
  from folder_list_sorted [OF this] 8 store_foreach [of B C w h hi lo s] show ?case
    by (auto simp: store_Folder_def sorted_wrt_map intro: sorted_wrt_filter)
next
  case (9 w h hi lo s w' vs fin i t m)
  with store_foreach [of B C w h hi lo s] show ?case by (auto simp: store_Folder_def)
next
  case (10 hi lo w h s w' vs fin)
  then show ?case by (auto simp: store_Folder_def store_ForEachMessage_def)
qed

section \<open>Creating and opening a folder\<close>

lemma initialize_new:
  assumes ok: "world_ok B C w" and u: "obs B (content (wdb w)) [f_userID f] = Some mu"
    and q: "obs B (content (wdb w)) (folders_path (f_userID f)) = Some mq" "mq (f_name f) = None"
    and n: "f_name f \<noteq> []" "length (f_name f) \<le> MaxKeySize" "f_nextID f = 1"
    and t: "MarshalBinary (clock w (tick w)) = Inr now"
  shows "\<exists>tx. initialize B w f (f_name f) =
      Ret (w\<lparr>tick := Suc (tick w), wdb := (wdb w)\<lparr>content := tx\<rparr>\<rparr>, f, None) \<and>
    content_rep B C tx f Map.empty \<and>
    (\<forall>p. p \<noteq> folders_path (f_userID f) \<longrightarrow> p \<noteq> folder_path f \<longrightarrow> p \<noteq> data_path f \<longrightarrow>
       obs B tx p = obs B (content (wdb w)) p) \<and>
    obs B tx (folders_path (f_userID f)) = Some (mq(f_name f \<mapsto> None))"
proof -
  let ?c = "content (wdb w)" and ?Q = "folders_path (f_userID f)" and ?P = "folder_path f" and ?D = "data_path f"
  have B: "bolt_ok B" "bolt_live B" "\<not> rwtx (wdb w)" "opened (wdb w)" using ok by (simp_all add: world_ok_def)
  have PD: "[f_userID f, foldersBucket, f_name f] = ?P"
      "[f_userID f, foldersBucket, f_name f, folderDataBucket] = ?D"
    by (simp_all add: folder_path_def data_path_def)
  have b: "Bucket B ?c [f_userID f]" "Bucket B ?c ?Q" "\<not> Bucket B ?c ?P"
    using u q bolt_nested_obs [OF B(1) q(1)] by (auto simp: obs_Bucket folder_path_snoc)
  have "mu foldersBucket = Some None"
    using bolt_nested_obs [OF B(1) u, of foldersBucket] b(2) by (simp add: folders_path_def)
  then have c0: "CreateBucketIfNotExists B ?c [f_userID f] foldersBucket = Inr ?c"
    using bolt_CreateBucketIfNotExists [OF B(1) u] by simp
  obtain tx2 where c2: "CreateBucket B ?c ?Q (f_name f) = Inr tx2"
    using bolt_CreateBucket_ok [OF B(1) q n(1,2)] by blast
  have o2: "obs B tx2 = (obs B ?c)(?Q \<mapsto> mq(f_name f \<mapsto> None), ?P \<mapsto> Map.empty)"
    using bolt_CreateBucket [OF B(1) c2 q(1)] by (simp add: folder_path_snoc)
  obtain tx3 where c3: "CreateBucket B tx2 ?P folderDataBucket = Inr tx3"
    using bolt_CreateBucket_ok [OF B(1), of tx2 ?P Map.empty folderDataBucket] o2
    by (auto simp: folderDataBucket_def MaxKeySize_def)
  have o3: "obs B tx3 = (obs B tx2)(?P \<mapsto> [folderDataBucket \<mapsto> None], ?D \<mapsto> Map.empty)"
    using bolt_CreateBucket [OF B(1) c3] o2 by (simp add: data_path_snoc)
  have nw: "length now \<le> MaxValueSize" using MarshalBinary_length [OF t] by (simp add: MaxValueSize_def)
  obtain tx4 where c4: "Put B tx3 ?D folderCreatedOnKey now = Inr tx4"
    using bolt_Put_ok [OF B(1), of tx3 ?D Map.empty folderCreatedOnKey now] o3 nw
    by (auto simp: folderCreatedOnKey_def MaxKeySize_def)
  have o4: "obs B tx4 = (obs B tx3)(?D \<mapsto> [folderCreatedOnKey \<mapsto> Some now])"
    using bolt_Put [OF B(1) c4] o3 by simp
  have "[folderCreatedOnKey \<mapsto> Some now] folderNextIDKey = None"
    by (simp add: folderCreatedOnKey_def folderNextIDKey_def)
  then obtain tx5 where c5: "Put B tx4 ?D folderNextIDKey (PutUint64 1) = Inr tx5"
      "obs B tx5 = (obs B tx4)(?D \<mapsto> [folderCreatedOnKey \<mapsto> Some now, folderNextIDKey \<mapsto> Some (PutUint64 1)])"
    using put_next_id [OF B(1), of tx4 f "[folderCreatedOnKey \<mapsto> Some now]" 1] o4 by auto
  have run: "initialize B w f (f_name f) =
      Ret (w\<lparr>tick := Suc (tick w), wdb := (wdb w)\<lparr>content := tx5\<rparr>\<rparr>, f, None)"
    using B b c0 c2 c3 c4 c5(1) t
    by (simp add: initialize_def initialize_tx_def db_Update_run on_bucket_def time_Now_def PD Let_def)
  have "folder_rep C (f_masterKey f) [folderDataBucket \<mapsto> None] Map.empty"
    by (auto simp: folder_rep_def)
  then have "content_rep B C tx5 f Map.empty"
    using c5(2) o4 o3 n(3) by (simp add: content_rep_def)
  moreover have "?Q \<noteq> ?P" "?Q \<noteq> ?D" by (simp_all add: folders_path_def folder_path_def data_path_def)
  ultimately show ?thesis using run c5(2) o4 o3 o2 by auto
qed

lemma newFolder_new:
  assumes ok: "world_ok B C w" and u: "obs B (content (wdb w)) [userPrefix @ username] = Some mu"
    and q: "obs B (content (wdb w)) (folders_path (userPrefix @ username)) = Some mq" "mq name = None"
    and n: "name \<noteq> []" "length name \<le> MaxKeySize"
    and t: "MarshalBinary (clock w (tick w)) = Inr now"
  shows "\<exists>w' f. newFolder B w key True username name = Ret (w', Inr f) \<and>
    f_nextID f = 1 \<and> f_name f = name \<and> f_userID f = userPrefix @ username \<and> f_masterKey f = key \<and>
    store_inv B C w' f \<and> store_msgs B C w' f = Map.empty \<and>
    (\<forall>g. store_apart f g \<longrightarrow> store_inv B C w g \<longrightarrow>
       store_inv B C w' g \<and> store_msgs B C w' g = store_msgs B C w g) \<and>
    clock w' = clock w \<and>
    obs B (content (wdb w')) [userPrefix @ username] = Some mu \<and>
    obs B (content (wdb w')) (folders_path (userPrefix @ username)) = Some (mq(name \<mapsto> None))"
proof -
  let ?f = "\<lparr>f_masterKey = key, f_userID = userPrefix @ username, f_nextID = 1, f_name = name\<rparr>"
  from initialize_new [of B C w ?f mu mq now] assms obtain tx where
    run: "initialize B w ?f name = Ret (w\<lparr>tick := Suc (tick w), wdb := (wdb w)\<lparr>content := tx\<rparr>\<rparr>, ?f, None)"
    and rep: "content_rep B C tx ?f Map.empty"
    and fr: "\<And>p. p \<noteq> folders_path (userPrefix @ username) \<Longrightarrow> p \<noteq> folder_path ?f \<Longrightarrow> p \<noteq> data_path ?f \<Longrightarrow>
       obs B tx p = obs B (content (wdb w)) p"
    and q': "obs B tx (folders_path (userPrefix @ username)) = Some (mq(name \<mapsto> None))"
    by auto
  let ?w' = "w\<lparr>tick := Suc (tick w), wdb := (wdb w)\<lparr>content := tx\<rparr>\<rparr>"
  have w': "world_ok B C ?w'" using ok by (rule world_ok_update)
  have "store_inv B C ?w' g \<and> store_msgs B C ?w' g = store_msgs B C w g"
    if g: "store_apart ?f g" "store_inv B C w g" for g
  proof -
    have "obs B tx (folder_path g) = obs B (content (wdb w)) (folder_path g)"
      and "obs B tx (data_path g) = obs B (content (wdb w)) (data_path g)"
      using g(1) by (auto simp: store_apart_def folders_path_def folder_path_def data_path_def intro!: fr)
    then have "content_rep B C (content (wdb ?w')) g (store_msgs B C w g)"
      using g(2) by (simp add: store_inv_def content_rep_def)
    with store_invI [OF w' this] show ?thesis by simp
  qed
  moreover have "obs B tx [userPrefix @ username] = Some mu"
    using fr [of "[userPrefix @ username]"] u by (simp add: folders_path_def folder_path_def data_path_def)
  ultimately show ?thesis
    using run n(1) store_invI [OF w', of ?f Map.empty] rep q'
    by (intro exI [of _ ?w'] exI [of _ ?f]) (simp add: newFolder_def Let_def)
qed

lemma newFolder_reopen:
  assumes inv: "store_inv B C w f" and "f_userID f = userPrefix @ username" "f_name f \<noteq> []"
  shows "newFolder B w (f_masterKey f) True username (f_name f) = Ret (w, Inr f)"
proof -
  let ?c = "content (wdb w)"
  from inv obtain m md where ok: "bolt_ok B" "bolt_live B" "\<not> rwtx (wdb w)" "opened (wdb w)"
    and r: "obs B ?c (data_path f) = Some md" "md folderNextIDKey = Some (Some (PutUint64 (f_nextID f)))"
    and b: "Bucket B ?c [f_userID f]" "Bucket B ?c (folders_path (f_userID f))" "Bucket B ?c (folder_path f)"
      "Bucket B ?c (data_path f)"
    by (rule store_invE)
  have "Get B ?c (data_path f) folderNextIDKey = Some (PutUint64 (f_nextID f))"
    using bolt_Get [OF ok(1) r(1)] r(2) by simp
  with ok b assms(2,3) show ?thesis
    by (cases f) (simp add: newFolder_def initialize_def initialize_tx_def db_Update_run on_bucket_def
        folder_path_def data_path_def Let_def)
qed

section \<open>The highest ids\<close>

text \<open>
  What the loop of \<open>LastID\<close> computes, on the list of the ids and suffixes in the order of the
  cursor: for every suffix \<open>s\<close> the entry advances until it holds an id greater than \<open>s\<close>.
\<close>

fun last_step :: "u64 \<times> (u64 \<rightharpoonup> u64) \<Rightarrow> u64 \<times> u64 \<Rightarrow> u64 \<times> (u64 \<rightharpoonup> u64)" where
  "last_step (l, by) (i, s) =
     (if (case by s of Some v \<Rightarrow> s < v | None \<Rightarrow> False) then (l, by)
      else (if i < l then l else i, by(s \<mapsto> i)))"

definition stuck_last :: "u64 set \<Rightarrow> u64 \<Rightarrow> u64" where
  "stuck_last K s = (if \<exists>i \<in> K. s < i then Min {i \<in> K. s < i} else last_of K)"

lemma last_scan_foldl:
  assumes "\<And>k v. (k, v) \<in> set es \<Longrightarrow> (k = folderDataBucket \<and> v = None) \<or>
      (\<exists>i s e t. k = msg_key i s \<and> v = Some e \<and> decrypt C key e = Ret (Some t))"
  shows "last_scan es l by =
    Ret (foldl last_step (l, by) (map (\<lambda>(i, s, t). (i, s)) (folder_list C key es)))"
  using assms
proof (induction es arbitrary: l "by")
  case (Cons kv es)
  obtain k v where kv: "kv = (k, v)" by (cases kv)
  have ih: "\<And>l by. last_scan es l by =
      Ret (foldl last_step (l, by) (map (\<lambda>(i, s, t). (i, s)) (folder_list C key es)))"
    using Cons by auto
  from Cons.prems [of k v] kv consider "k = folderDataBucket" "v = None"
    | i s e t where "k = msg_key i s" "v = Some e" "decrypt C key e = Ret (Some t)" by auto
  then show ?case by cases (simp_all add: kv ih folder_list_Cons Let_def split: option.split)
qed (simp add: folder_list_def List.map_filter_simps)

lemma stuck_last_snoc:
  assumes "\<And>k. k \<in> K \<Longrightarrow> k < i" "finite K"
  shows "stuck_last (insert i K) s = (if K \<noteq> {} \<and> s < stuck_last K s then stuck_last K s else i)"
proof (cases "\<exists>k \<in> K. s < k")
  case True
  let ?A = "{k \<in> K. s < k}"
  have A: "?A \<noteq> {}" "finite ?A" using True assms(2) by auto
  have min: "Min ?A \<in> ?A" by (rule Min_in [OF A(2,1)])
  then have "Min ?A < i" using assms(1) by auto
  moreover have "{k. (k = i \<or> k \<in> K) \<and> s < k} = (if s < i then insert i ?A else ?A)" by auto
  ultimately show ?thesis using True A min by (auto simp: stuck_last_def)
next
  case False
  have last: "last_of (insert i K) = i"
    using assms by (cases "K = {}") (auto simp: last_of_def intro!: Max_eqI order.strict_implies_order)
  have "K \<noteq> {} \<Longrightarrow> \<not> s < last_of K"
    using False assms(2) Max_in [of K] by (auto simp: last_of_def)
  moreover have "{k. (k = i \<or> k \<in> K) \<and> s < k} = (if s < i then {i} else {})" using False by auto
  ultimately show ?thesis using False last by (auto simp: stuck_last_def)
qed

definition stuck_map :: "(u64 \<times> u64) list \<Rightarrow> u64 \<rightharpoonup> u64" where
  "stuck_map xs s = (let K = {i. (i, s) \<in> set xs} in if K = {} then None else Some (stuck_last K s))"

lemma stuck_map_snoc:
  assumes "\<And>j t. (j, t) \<in> set xs \<Longrightarrow> j < i"
  shows "stuck_map (xs @ [(i, s)]) =
    (if (case stuck_map xs s of Some v \<Rightarrow> s < v | None \<Rightarrow> False) then stuck_map xs
     else (stuck_map xs)(s \<mapsto> i))"
proof -
  let ?K = "\<lambda>t. {j. (j, t) \<in> set xs}"
  have K': "{j. (j, t) \<in> set (xs @ [(i, s)])} = (if t = s then insert i (?K t) else ?K t)" for t
    by auto
  have "stuck_last (insert i (?K s)) s = (if ?K s \<noteq> {} \<and> s < stuck_last (?K s) s then stuck_last (?K s) s else i)"
    by (rule stuck_last_snoc) (auto dest: assms)
  then show ?thesis
    unfolding fun_eq_iff stuck_map_def Let_def K' by (auto split: if_splits)
qed

lemma stuck_map_bound:
  assumes "\<And>j t. (j, t) \<in> set xs \<Longrightarrow> j < i" "stuck_map xs t = Some v"
  shows "v < i"
proof -
  have "v \<in> {j. (j, t) \<in> set xs}"
    using assms(2) Min_in [of "{j \<in> {j. (j, t) \<in> set xs}. t < j}"] Max_in [of "{j. (j, t) \<in> set xs}"]
    by (auto simp: stuck_map_def stuck_last_def last_of_def Let_def split: if_splits)
  with assms(1) show ?thesis by auto
qed

lemma foldl_last_step:
  "sorted_wrt (<) (map fst xs) \<Longrightarrow>
    foldl last_step (0, Map.empty) xs = (last_of (ran (stuck_map xs)), stuck_map xs)"
proof (induction xs rule: rev_induct)
  case Nil
  then show ?case by (simp add: last_of_def stuck_map_def ran_def)
next
  case (snoc x xs)
  obtain i s where x: "x = (i, s)" by (cases x)
  have lt: "j < i" if "(j, t) \<in> set xs" for j t
    using snoc.prems x that by (force simp: sorted_wrt_append)
  have ran: "v < i" if "v \<in> ran (stuck_map xs)" for v
    using that stuck_map_bound [OF lt] by (auto simp: ran_def)
  have li: "\<not> i < last_of (ran (stuck_map xs))"
  proof (cases "ran (stuck_map xs) = {}")
    case False
    then have "Max (ran (stuck_map xs)) < i" by (intro ran Max_in) simp
    then have "last_of (ran (stuck_map xs)) < i" by (simp add: last_of_def False)
    then show ?thesis by (simp add: not_less order.strict_implies_order)
  qed (simp add: last_of_def)
  have "last_of (ran ((stuck_map xs)(s \<mapsto> i))) = i"
  proof -
    have "Max (ran ((stuck_map xs)(s \<mapsto> i))) = i"
    proof (rule Max_eqI)
      fix y assume "y \<in> ran ((stuck_map xs)(s \<mapsto> i))"
      then have "y = i \<or> y \<in> ran (stuck_map xs)" by (auto simp: ran_def split: if_splits)
      with ran show "y \<le> i" by (auto intro: order.strict_implies_order)
    qed (auto simp: ran_def)
    moreover have "ran ((stuck_map xs)(s \<mapsto> i)) \<noteq> {}" by (auto simp: ran_def)
    ultimately show ?thesis by (simp add: last_of_def)
  qed
  with snoc x li show ?case
    by (simp add: sorted_wrt_append stuck_map_snoc [OF lt] fun_upd_def)
qed

lemma store_last:
  assumes inv: "store_inv B C w f"
  defines "by \<equiv> \<lambda>s. let K = ids_of (store_msgs B C w f) s in if K = {} then None else Some (stuck_last K s)"
  shows "store_LastID B w f = Ret (w, last_of (ran by), by)"
proof -
  let ?c = "content (wdb w)" and ?P = "folder_path f" and ?M = "store_msgs B C w f"
  let ?L = "folder_list C (f_masterKey f) (Cursor B ?c ?P)"
  from inv obtain m md where ok: "bolt_live B" "\<not> rwtx (wdb w)" "opened (wdb w)"
    and b: "Bucket B ?c [f_userID f]" "Bucket B ?c (folders_path (f_userID f))" "Bucket B ?c ?P"
    by (rule store_invE)
  note rep = store_inv_bucket [OF inv]
  have scan: "last_scan (Cursor B ?c ?P) 0 Map.empty =
      Ret (foldl last_step (0, Map.empty) (map (\<lambda>(i, s, t). (i, s)) ?L))"
  proof (rule last_scan_foldl)
    fix k v assume "(k, v) \<in> set (Cursor B ?c ?P)"
    with rep show "(k = folderDataBucket \<and> v = None) \<or>
      (\<exists>i s e t. k = msg_key i s \<and> v = Some e \<and> decrypt C (f_masterKey f) e = Ret (Some t))"
      by (cases rule: bucket_rep_cases) auto
  qed
  have srt: "sorted_wrt (<) (map fst (map (\<lambda>(i, s, t). (i, s)) ?L))"
    using folder_list_sorted [OF rep] by (simp add: sorted_wrt_map case_prod_unfold)
  have "{i. (i, s) \<in> set (map (\<lambda>(i, s, t). (i, s)) ?L)} = ids_of ?M s" for s
    using mem_folder_list [OF rep] by (force simp: ids_of_def)
  then have "stuck_map (map (\<lambda>(i, s, t). (i, s)) ?L) = by"
    unfolding by_def stuck_map_def by simp
  with foldl_last_step [OF srt] scan ok b show ?thesis
    by (simp add: store_LastID_def db_Update_run on_bucket_def)
qed

section \<open>Properties\<close>

text \<open>A small database with one user, to evaluate the operations on.\<close>

definition demo_db :: refdb where
  "demo_db = (\<lambda>p. if p = [] then [(''user:bob'', None)]
     else if p = [''user:bob''] then [(''folders'', None)]
     else if p = [''user:bob'', ''folders''] then [(''Inbox'', None)]
     else if p = [''user:bob'', ''folders'', ''Inbox''] then
       [(''data'', None), (msg_key 1 2, Some ''one''), (msg_key 3 2, Some ''three''), (msg_key 4 2, Some ''four'')]
     else if p = [''user:bob'', ''folders'', ''Inbox'', ''data''] then
       [(''folderNextID'', Some (PutUint64 5))]
     else [])"

abbreviation demo_world :: "refdb world" where
  "demo_world \<equiv> ref_world demo_db"

lemma demo_fits: "length t < 100 \<Longrightarrow> store_fits t"
  by (simp add: store_fits_def nonceSize_def Overhead_def MaxValueSize_def)

definition demo_folder :: store_folder where
  "demo_folder = \<lparr>f_masterKey = None, f_userID = ''user:bob'', f_nextID = 5, f_name = ''Inbox''\<rparr>"

lemma demo_bucket:
  "obs ref_bolt demo_db (folder_path demo_folder) = Some (map_of
     [(''data'', None), (msg_key 1 2, Some ''one''), (msg_key 3 2, Some ''three''), (msg_key 4 2, Some ''four'')])"
  "obs ref_bolt demo_db (data_path demo_folder) = Some [''folderNextID'' \<mapsto> Some (PutUint64 5)]"
  by (simp_all add: obs_ref ref_Bucket_def demo_db_def demo_folder_def folder_path_def data_path_def
      foldersBucket_def folderDataBucket_def upt_rec nth_Cons')

lemma demo_inv:
  "store_inv ref_bolt ref_crypto demo_world demo_folder"
  "store_msgs ref_bolt ref_crypto demo_world demo_folder =
     [1 \<mapsto> (2, ''one''), 3 \<mapsto> (2, ''three''), 4 \<mapsto> (2, ''four'')]"
proof -
  have d: "folderDataBucket = ''data''" by (simp add: folderDataBucket_def)
  have "content_rep ref_bolt ref_crypto demo_db demo_folder
      [1 \<mapsto> (2, ''one''), 3 \<mapsto> (2, ''three''), 4 \<mapsto> (2, ''four'')]"
    unfolding content_rep_def demo_bucket
    using msg_key_data
    by (auto simp: folder_rep_def demo_folder_def decrypt_def folderNextIDKey_def valid_id_def d
        split: if_splits)
  then have "content_rep ref_bolt ref_crypto (content (wdb demo_world)) demo_folder
      [1 \<mapsto> (2, ''one''), 3 \<mapsto> (2, ''three''), 4 \<mapsto> (2, ''four'')]"
    by (simp add: ref_world_def)
  from store_invI [OF ref_world_ok this]
  show "store_inv ref_bolt ref_crypto demo_world demo_folder"
    "store_msgs ref_bolt ref_crypto demo_world demo_folder =
     [1 \<mapsto> (2, ''one''), 3 \<mapsto> (2, ''three''), 4 \<mapsto> (2, ''four'')]"
    by simp_all
qed

text \<open>
  C1. \<open>InsertNewMessage\<close> on a folder of the database stores the message under the next id: the
  call succeeds, the id was not in use, \<open>GetMessage\<close> then returns the suffix and the message, all
  other messages of the folder and all other folders are unchanged, and the next id advances.
\<close>

theorem store_InsertNewMessage_correct:
  assumes "store_inv B C w f" "store_fits t" "f_nextID f \<noteq> - 1"
  shows "\<exists>w' f'. store_InsertNewMessage B C w f (Some t) s = Ret (w', f', Inr (f_nextID f)) \<and>
    store_GetMessage B C w f (f_nextID f) = Ret (Inl ErrNotFound) \<and>
    store_GetMessage B C w' f' (f_nextID f) = Ret (Inr (s, t)) \<and>
    (\<forall>i. i \<noteq> f_nextID f \<longrightarrow> store_GetMessage B C w' f' i = store_GetMessage B C w f i) \<and>
    store_inv B C w' f' \<and> f_nextID f' = f_nextID f + 1 \<and>
    (\<forall>g. store_apart f g \<longrightarrow> store_inv B C w g \<longrightarrow>
       store_inv B C w' g \<and> store_msgs B C w' g = store_msgs B C w g)"
proof -
  have fresh: "store_msgs B C w f (f_nextID f) = None"
    using st.next_fresh [OF assms(1), unfolded domIff not_not] by (simp only: store_Folder_def store_NextID_def Folder.simps)
  from store_insert_new [OF assms, of s] obtain w' f' where
    "store_InsertNewMessage B C w f (Some t) s = Ret (w', f', Inr (f_nextID f))"
    "store_inv B C w' f'" "store_msgs B C w' f' = (store_msgs B C w f)(f_nextID f \<mapsto> (s, t))"
    "f_nextID f' = f_nextID f + 1" "frame B C w f w' f'" by blast
  with fresh assms(1) show ?thesis
    by (intro exI [of _ w'] exI [of _ f']) (simp add: store_get frame_def)
qed

theorem store_InsertNewMessage_correct_witness:
  "\<exists>w' f'. store_InsertNewMessage ref_bolt ref_crypto demo_world demo_folder (Some ''new'') 7 =
      Ret (w', f', Inr 5) \<and>
    store_GetMessage ref_bolt ref_crypto w' f' 5 = Ret (Inr (7, ''new''))"
proof -
  have "store_fits ''new''" "f_nextID demo_folder \<noteq> - 1"
    by (simp_all add: demo_fits demo_folder_def)
  from store_InsertNewMessage_correct [OF demo_inv(1) this, of 7] show ?thesis
    by (auto simp: demo_folder_def)
qed

text \<open>
  C8. \<open>InsertMessage\<close> refuses id 0, an id that was never given out and an id in use, leaving the
  folder as it was, and stores the message under the given id otherwise.
\<close>

theorem store_InsertMessage_cases:
  assumes "store_inv B C w f" "store_fits t"
  shows "\<exists>w' f'. store_InsertMessage B C w f i (Some t) s = Ret (w', f',
      if i = 0 \<or> f_nextID f \<le> i then Some ErrInvalidID
      else if store_msgs B C w f i \<noteq> None then Some ErrDuplicateID else None) \<and>
    store_inv B C w' f' \<and> f_nextID f' = f_nextID f \<and>
    store_msgs B C w' f' = (if i = 0 \<or> f_nextID f \<le> i \<or> store_msgs B C w f i \<noteq> None
       then store_msgs B C w f else (store_msgs B C w f)(i \<mapsto> (s, t)))"
proof -
  have "\<not> valid_id (f_nextID f) i \<longleftrightarrow> i = 0 \<or> f_nextID f \<le> i" by (auto simp: valid_id_def)
  with store_insert [OF assms, of i s] show ?thesis by (auto simp: domIff)
qed

theorem store_InsertMessage_cases_witness:
  "(\<exists>w' f'. store_InsertMessage ref_bolt ref_crypto demo_world demo_folder 2 (Some ''two'') 9 = Ret (w', f', None) \<and>
      store_msgs ref_bolt ref_crypto w' f' 2 = Some (9, ''two'')) \<and>
   (\<exists>w' f'. store_InsertMessage ref_bolt ref_crypto demo_world demo_folder 3 (Some ''two'') 9 =
      Ret (w', f', Some ErrDuplicateID)) \<and>
   (\<exists>w' f'. store_InsertMessage ref_bolt ref_crypto demo_world demo_folder 5 (Some ''two'') 9 =
      Ret (w', f', Some ErrInvalidID))"
proof -
  have n: "f_nextID demo_folder = 5" by (simp add: demo_folder_def)
  note c = store_InsertMessage_cases [OF demo_inv(1) demo_fits, of "''two''" _ 9, unfolded demo_inv(2) n]
  show ?thesis using c [of 2] c [of 3] c [of 5] by auto
qed

text \<open>
  \<open>DeleteMessage\<close> followed by \<open>InsertMessage\<close> under the same id, which is how a stored message is
  rewritten, succeeds for every message of the folder, and leaves exactly the new version.
\<close>

theorem store_replace:
  assumes "store_inv B C w f" "store_fits t" "i \<in> dom (store_msgs B C w f)"
  shows "\<exists>w1 f1 w2 f2. store_DeleteMessage B w f i = Ret (w1, f1, None) \<and>
    store_GetMessage B C w1 f1 i = Ret (Inl ErrNotFound) \<and>
    store_InsertMessage B C w1 f1 i (Some t) s = Ret (w2, f2, None) \<and>
    store_inv B C w2 f2 \<and> store_msgs B C w2 f2 = (store_msgs B C w f)(i \<mapsto> (s, t)) \<and>
    f_nextID f2 = f_nextID f"
  using st.replace [OF assms, of s] by (auto simp: store_Folder_def store_NextID_def)

theorem store_replace_witness:
  "\<exists>w1 f1 w2 f2. store_DeleteMessage ref_bolt demo_world demo_folder 3 = Ret (w1, f1, None) \<and>
    store_InsertMessage ref_bolt ref_crypto w1 f1 3 (Some ''3'') 1 = Ret (w2, f2, None) \<and>
    store_msgs ref_bolt ref_crypto w2 f2 3 = Some (1, ''3'')"
proof -
  have f: "store_fits ''3''" by (simp add: demo_fits)
  have "3 \<in> dom (store_msgs ref_bolt ref_crypto demo_world demo_folder)" by (simp add: demo_inv(2))
  from store_replace [OF demo_inv(1) f this, of 1] show ?thesis by auto
qed

text \<open>
  C3. \<open>ForEachMessage\<close> runs its callback on exactly the messages with an id between the bounds
  (0 is no upper bound) and with the given suffix (0 is any), once each and in increasing order of
  the id, and then ends without an error; with the bounds the wrong way round it only returns an error.
\<close>

theorem store_ForEachMessage_listing:
  assumes "store_inv B C w f" "hi = 0 \<or> lo \<le> hi"
  shows "\<exists>vs. store_ForEachMessage B C w f lo hi s = (vs, Ret None) \<and>
    sorted_wrt (<) (map fst vs) \<and>
    (\<forall>i t m. (i, t, m) \<in> set vs \<longleftrightarrow>
       store_msgs B C w f i = Some (t, m) \<and> lo \<le> i \<and> (hi = 0 \<or> i \<le> hi) \<and> (s = 0 \<or> t = s))"
  using st.visits_listing [OF assms, of s]
  by (auto simp: st.listing_def store_Folder_def in_range_def)

theorem store_ForEachMessage_listing_witness:
  "\<exists>vs. store_ForEachMessage ref_bolt ref_crypto demo_world demo_folder 2 0 2 = (vs, Ret None) \<and>
    (3, 2, ''three'') \<in> set vs \<and> (4, 2, ''four'') \<in> set vs \<and> (\<forall>v. (1, v) \<notin> set vs)"
  using store_ForEachMessage_listing [OF demo_inv(1), of 0 2 2] by (auto simp: demo_inv(2))

text \<open>
  What a folder did survives it: after \<open>InsertNewMessage\<close>, opening the folder again from the
  database (\<open>newFolder\<close>) gives a folder with the same next id and the same messages, and opening
  changes nothing in the database.
\<close>

theorem newFolder_reopens:
  assumes "store_inv B C w f" "store_fits t" "f_nextID f \<noteq> - 1"
    and "f_userID f = userPrefix @ username" "f_name f \<noteq> []"
  shows "\<exists>w' f'. store_InsertNewMessage B C w f (Some t) s = Ret (w', f', Inr (f_nextID f)) \<and>
    newFolder B w' (f_masterKey f) True username (f_name f) = Ret (w', Inr f') \<and>
    f_nextID f' = f_nextID f + 1 \<and>
    store_msgs B C w' f' = (store_msgs B C w f)(f_nextID f \<mapsto> (s, t))"
proof -
  from store_insert_new [OF assms(1-3), of s] obtain w' f' where r:
    "store_InsertNewMessage B C w f (Some t) s = Ret (w', f', Inr (f_nextID f))"
    "store_inv B C w' f'" "store_msgs B C w' f' = (store_msgs B C w f)(f_nextID f \<mapsto> (s, t))"
    "f_nextID f' = f_nextID f + 1" by blast
  have "f' = f\<lparr>f_nextID := f_nextID f + 1\<rparr>"
    using r(1) by (auto simp: store_InsertNewMessage_def go_bind_Ret_conv split: sum.splits prod.splits option.splits)
  with newFolder_reopen [OF r(2), of username] assms(4,5) r show ?thesis by auto
qed

theorem newFolder_reopens_witness:
  "\<exists>w' f'. store_InsertNewMessage ref_bolt ref_crypto demo_world demo_folder (Some ''new'') 7 =
      Ret (w', f', Inr 5) \<and> newFolder ref_bolt w' None True ''bob'' ''Inbox'' = Ret (w', Inr f') \<and> f_nextID f' = 6"
proof -
  have "store_fits ''new''" "f_nextID demo_folder \<noteq> - 1" "f_userID demo_folder = userPrefix @ ''bob''"
      "f_name demo_folder \<noteq> []"
    by (simp_all add: demo_fits demo_folder_def userPrefix_def)
  from newFolder_reopens [OF demo_inv(1) this, of 7] show ?thesis
    by (auto simp: demo_folder_def)
qed

text \<open>
  \<open>LastID\<close> does not return the highest ids.  It compares the id found so far with the suffix
  instead of with the new id, so the entry of a suffix \<open>s\<close> stops at the least id above \<open>s\<close> (or is the
  highest id if none is above \<open>s\<close>), and the total is the maximum of these entries.
\<close>

theorem store_LastID_stuck:
  assumes "store_inv B C w f"
  shows "\<exists>by. store_LastID B w f = Ret (w, last_of (ran by), by) \<and>
    (\<forall>s. by s = (if ids_of (store_msgs B C w f) s = {} then None
       else if \<exists>i \<in> ids_of (store_msgs B C w f) s. s < i
       then Some (Min {i \<in> ids_of (store_msgs B C w f) s. s < i})
       else Some (Max (ids_of (store_msgs B C w f) s))))"
  using store_last [OF assms] by (auto simp: stuck_last_def last_of_def Let_def)

theorem store_LastID_stuck_witness:
  "\<exists>by. store_LastID ref_bolt demo_world demo_folder = Ret (demo_world, last_of (ran by), by) \<and>
    by 2 = Some 3 \<and> store_msgs ref_bolt ref_crypto demo_world demo_folder 4 = Some (2, ''four'')"
proof -
  have ids: "ids_of (store_msgs ref_bolt ref_crypto demo_world demo_folder) 2 = {1, 3, 4}"
    by (auto simp: ids_of_def demo_inv(2))
  have set: "{i \<in> {1, 3, 4 :: u64}. 2 < i} = {3, 4}" by auto
  from store_LastID_stuck [OF demo_inv(1)] obtain "by" where
    b: "store_LastID ref_bolt demo_world demo_folder = Ret (demo_world, last_of (ran by), by)"
    and s: "\<forall>s. by s = (if ids_of (store_msgs ref_bolt ref_crypto demo_world demo_folder) s = {} then None
       else if \<exists>i \<in> ids_of (store_msgs ref_bolt ref_crypto demo_world demo_folder) s. s < i
       then Some (Min {i \<in> ids_of (store_msgs ref_bolt ref_crypto demo_world demo_folder) s. s < i})
       else Some (Max (ids_of (store_msgs ref_bolt ref_crypto demo_world demo_folder) s)))"
    by blast
  have "by 2 = Some 3" using s [rule_format, of 2] unfolding ids set by simp
  with b show ?thesis by (auto simp: demo_inv(2))
qed

end
