(* ===== verification/Mailbox.thy ===== *)
theory Mailbox
  imports Sequence Bmail_Codec Store_Folder
begin

text \<open>
  The type \<open>mailbox\<close> of \<open>src/user/mailbox.go\<close>: a cache of uids and counters over a folder of the interface
  \<open>data.Folder\<close>, as the IMAP server sees it.

  The operations take the libraries and the folder's methods in the record \<open>deps\<close>, the world and the
  mailbox, and return both updated.  The locks are not modelled: the calls are sequential.  A nil
  \<open>*email.Bmail\<close> is \<open>None\<close>; a \<open>Bmail\<close> that a call changes through its pointer is returned.
\<close>

section \<open>Model\<close>

record ('w, 'h, 'o) deps =
  mlib :: mail_lib
  mcodec :: "'o codec"
  mfloat :: "float64 \<Rightarrow> u32"
  mfold :: "('w, 'h) Folder"

record ('h, 'o) mailbox =
  mbox :: 'h
  b_name :: string
  sub :: "(Bmail \<Rightarrow> bool) option"
  objects :: "(u64 \<rightharpoonup> 'o) option"
  addresses :: "string \<rightharpoonup> string"
  drafts :: bool
  uids :: MessageSequence
  numRecent :: u32
  numUnseen :: u32
  nextUID :: u32

text \<open>\<open>types.SequenceNumber\<close> by what its methods return, and a range of a \<open>types.SequenceSet\<close>.\<close>

record SequenceNo =
  sn_Last :: bool
  sn_Nil :: bool
  sn_Value :: "error + u32"

type_synonym SequenceSet = "(SequenceNo \<times> SequenceNo) list"

definition decodeBitmessageForImap ::
  "('w, 'h, 'o) deps \<Rightarrow> ('h, 'o) mailbox \<Rightarrow> u64 \<Rightarrow> u32 \<Rightarrow> bytes \<Rightarrow> (('h, 'o) mailbox \<times> Bmail option) go" where
  "decodeBitmessageForImap D box uid seqno msg =
     go_bind (decodeBitmessage (mlib D) (mcodec D) msg) (\<lambda>r. case r of
       Inl e \<Rightarrow> Ret (box, None)
     | Inr (l, ob) \<Rightarrow>
         go_bind (case ob of
             None \<Rightarrow> Ret box
           | Some x \<Rightarrow> (case objects box of None \<Rightarrow> Panic | Some m \<Rightarrow> Ret (box\<lparr>objects := Some (m(uid \<mapsto> x))\<rparr>)))
           (\<lambda>box. case Imap l of
             None \<Rightarrow> Panic
           | Some d \<Rightarrow> Ret (box, Some (l\<lparr>Imap := Some (d\<lparr>UID := uid, SequenceNumber := seqno, Mailbox := Some (b_name box)\<rparr>)\<rparr>))))"

definition getObject :: "('h, 'o) mailbox \<Rightarrow> Bmail \<Rightarrow> 'o option" where
  "getObject box b =
     (case Imap b of
        None \<Rightarrow> None
      | Some d \<Rightarrow> if UID d = 0 then None
                  else (case objects box of None \<Rightarrow> None | Some m \<Rightarrow> m (UID d)))"

definition box_Name :: "('h, 'o) mailbox \<Rightarrow> string" where
  "box_Name box = b_name box"

definition updateMailboxStats :: "mail_lib \<Rightarrow> ('h, 'o) mailbox \<Rightarrow> Bmail \<Rightarrow> ('h, 'o) mailbox go" where
  "updateMailboxStats L box entry =
     (case Imap entry of
        None \<Rightarrow> Panic
      | Some d \<Rightarrow>
          let box1 = (if HasFlags L (Flags d) (FlagRecent L) then box\<lparr>numRecent := numRecent box + 1\<rparr> else box)
          in Ret (if \<not> HasFlags L (Flags d) (FlagSeen L) then box1\<lparr>numUnseen := numUnseen box1 + 1\<rparr> else box1))"

definition refresh_each ::
  "('w, 'h, 'o) deps \<Rightarrow> ('h, 'o) mailbox \<times> u64 list \<Rightarrow> u64 \<Rightarrow> u64 \<Rightarrow> bytes \<Rightarrow>
    ((('h, 'o) mailbox \<times> u64 list) \<times> error option) go" where
  "refresh_each D a i sfx msg =
     (case a of (box, ids) \<Rightarrow>
        go_bind (decodeBitmessage (mlib D) (mcodec D) msg) (\<lambda>r. case r of
          Inl e \<Rightarrow> Ret ((box, ids), Some (ErrText (''Failed to decode message #'' @ fmt_d (unat i) @ '': '' @ error_text e)))
        | Inr (b, _) \<Rightarrow>
            if (case sub box of None \<Rightarrow> False | Some p \<Rightarrow> \<not> p b) then Ret ((box, ids), None)
            else go_bind (updateMailboxStats (mlib D) box b) (\<lambda>box1. Ret ((box1, ids @ [i]), None))))"

definition refresh ::
  "('w, 'h, 'o) deps \<Rightarrow> 'w \<Rightarrow> ('h, 'o) mailbox \<Rightarrow> ('w \<times> ('h, 'o) mailbox \<times> error option) go" where
  "refresh D w box =
     (let box1 = box\<lparr>nextUID := ucast (NextID (mfold D) (mbox box)), numRecent := 0, numUnseen := 0\<rparr>
      in go_bind (ForEachMessage (mfold D) w (mbox box) 0 0 2 (refresh_each D) (box1, []))
           (\<lambda>(w1, (box2, ids), err). case err of
              Some e \<Rightarrow> Ret (w1, box2, Some e)
            | None \<Rightarrow> Ret (w1, box2\<lparr>uids := sort ids\<rparr>, None)))"

definition box_NextUID :: "('h, 'o) mailbox \<Rightarrow> u32" where
  "box_NextUID box = nextUID box"

definition LastUID :: "('h, 'o) mailbox \<Rightarrow> u32 go" where
  "LastUID box = (if uids box = [] then Panic else Ret (ucast (uids box ! (length (uids box) - 1))))"

definition Recent :: "('h, 'o) mailbox \<Rightarrow> u32" where
  "Recent box = numRecent box"

definition messages :: "('h, 'o) mailbox \<Rightarrow> u32" where
  "messages box = of_nat (length (uids box))"

definition Messages :: "('h, 'o) mailbox \<Rightarrow> u32" where
  "Messages box = messages box"

definition Unseen :: "('h, 'o) mailbox \<Rightarrow> u32" where
  "Unseen box = numUnseen box"

section \<open>Reading messages\<close>

definition bmsgByUID ::
  "('w, 'h, 'o) deps \<Rightarrow> 'w \<Rightarrow> ('h, 'o) mailbox \<Rightarrow> u64 \<Rightarrow> (('h, 'o) mailbox \<times> Bmail option) go" where
  "bmsgByUID D w box uid =
     go_bind (GetSequenceNumber (mfloat D) (uids box) uid) (\<lambda>seqno.
       if of_nat (length (uids box)) < seqno then Ret (box, None)
       else if length (uids box) \<le> unat (seqno - 1) then Panic
       else if uids box ! unat (seqno - 1) \<noteq> uid then Ret (box, None)
       else go_bind (GetMessage (mfold D) w (mbox box) uid) (\<lambda>r. case r of
              Inl e \<Rightarrow> Ret (box, None)
            | Inr (sfx, msg) \<Rightarrow>
                if sfx \<noteq> 2 then Ret (box, None) else decodeBitmessageForImap D box uid seqno msg))"

definition bitmessageBySequenceNumber ::
  "('w, 'h, 'o) deps \<Rightarrow> 'w \<Rightarrow> ('h, 'o) mailbox \<Rightarrow> u32 \<Rightarrow> (('h, 'o) mailbox \<times> Bmail option) go" where
  "bitmessageBySequenceNumber D w box seqno =
     (if seqno < 1 \<or> messages box < seqno then Ret (box, None)
      else if length (uids box) \<le> unat (seqno - 1) then Panic
      else bmsgByUID D w box (uids box ! unat (seqno - 1)))"

definition MessageBySequenceNumber ::
  "('w, 'h, 'o) deps \<Rightarrow> 'w \<Rightarrow> ('h, 'o) mailbox \<Rightarrow> u32 \<Rightarrow> (('h, 'o) mailbox \<times> IMAPEmail option) go" where
  "MessageBySequenceNumber D w box seqno =
     go_bind (bitmessageBySequenceNumber D w box seqno) (\<lambda>(box1, bm). Ret (box1, case bm of
       None \<Rightarrow> None
     | Some b \<Rightarrow> (case ToEmail (mlib D) b of Inl e \<Rightarrow> None | Inr em \<Rightarrow> Some em)))"

definition BitmessageByUID ::
  "('w, 'h, 'o) deps \<Rightarrow> 'w \<Rightarrow> ('h, 'o) mailbox \<Rightarrow> u64 \<Rightarrow> (('h, 'o) mailbox \<times> Bmail option) go" where
  "BitmessageByUID D w box uid = bmsgByUID D w box uid"

text \<open>
  The result of \<open>MessageByUID\<close> is an interface: \<open>None\<close> is the nil interface, and \<open>Some None\<close> an interface that is not nil and
  holds a nil pointer, which is returned when the conversion fails.
\<close>

definition MessageByUID ::
  "('w, 'h, 'o) deps \<Rightarrow> 'w \<Rightarrow> ('h, 'o) mailbox \<Rightarrow> u32 \<Rightarrow> (('h, 'o) mailbox \<times> IMAPEmail option option) go" where
  "MessageByUID D w box uid =
     go_bind (bmsgByUID D w box (ucast uid)) (\<lambda>(box1, letter). Ret (box1, case letter of
       None \<Rightarrow> None
     | Some b \<Rightarrow> Some (case ToEmail (mlib D) b of Inl e \<Rightarrow> None | Inr em \<Rightarrow> Some em)))"

definition lastBitmessage ::
  "('w, 'h, 'o) deps \<Rightarrow> 'w \<Rightarrow> ('h, 'o) mailbox \<Rightarrow> (('h, 'o) mailbox \<times> Bmail option) go" where
  "lastBitmessage D w box =
     (if messages box = 0 then Ret (box, None)
      else if uids box = [] then Panic
      else bmsgByUID D w box (uids box ! (length (uids box) - 1)))"

definition range_each ::
  "('w, 'h, 'o) deps \<Rightarrow> u32 \<Rightarrow> ('h, 'o) mailbox \<times> u32 \<times> Bmail list \<Rightarrow> u64 \<Rightarrow> u64 \<Rightarrow> bytes \<Rightarrow>
    ((('h, 'o) mailbox \<times> u32 \<times> Bmail list) \<times> error option) go" where
  "range_each D startSequence a i sfx msg =
     (case a of (box, k, bms) \<Rightarrow>
        go_bind (decodeBitmessageForImap D box i (startSequence + k) msg) (\<lambda>(box1, bm). case bm of
          None \<Rightarrow> Ret ((box1, k, bms), None)
        | Some b \<Rightarrow>
            if (case sub box1 of None \<Rightarrow> False | Some p \<Rightarrow> \<not> p b) then Ret ((box1, k, bms), None)
            else Ret ((box1, k + 1, bms @ [b]), None)))"

definition getRange ::
  "('w, 'h, 'o) deps \<Rightarrow> 'w \<Rightarrow> ('h, 'o) mailbox \<Rightarrow> u64 \<Rightarrow> u64 \<Rightarrow> u32 \<Rightarrow> u32 \<Rightarrow>
    ('w \<times> ('h, 'o) mailbox \<times> Bmail list option) go" where
  "getRange D w box startUID endUID startSequence endSequence =
     go_bind (ForEachMessage (mfold D) w (mbox box) startUID endUID 2 (range_each D startSequence) (box, 0, []))
       (\<lambda>(w1, (box1, _, bms), err). Ret (w1, box1, case err of Some e \<Rightarrow> None | None \<Rightarrow> Some bms))"

definition getSince ::
  "('w, 'h, 'o) deps \<Rightarrow> 'w \<Rightarrow> ('h, 'o) mailbox \<Rightarrow> u64 \<Rightarrow> u32 \<Rightarrow> ('w \<times> ('h, 'o) mailbox \<times> Bmail list option) go" where
  "getSince D w box startUID startSequence =
     (if uids box = [] then Panic
      else getRange D w box startUID (uids box ! (length (uids box) - 1)) startSequence (messages box))"

definition bitmessagesByUIDRange ::
  "('w, 'h, 'o) deps \<Rightarrow> 'w \<Rightarrow> ('h, 'o) mailbox \<Rightarrow> u64 \<Rightarrow> u64 \<Rightarrow> ('w \<times> ('h, 'o) mailbox \<times> Bmail list option) go" where
  "bitmessagesByUIDRange D w box start end1 =
     go_bind (GetSequenceNumber (mfloat D) (uids box) start) (\<lambda>startSequence.
     go_bind (GetSequenceNumber (mfloat D) (uids box) end1) (\<lambda>endSequence.
       if endSequence < startSequence then Ret (w, box, Some [])
       else getRange D w box start end1 startSequence endSequence))"

definition bitmessagesSinceUID ::
  "('w, 'h, 'o) deps \<Rightarrow> 'w \<Rightarrow> ('h, 'o) mailbox \<Rightarrow> u64 \<Rightarrow> ('w \<times> ('h, 'o) mailbox \<times> Bmail list option) go" where
  "bitmessagesSinceUID D w box start =
     go_bind (GetSequenceNumber (mfloat D) (uids box) start) (\<lambda>startSequence.
       getSince D w box start startSequence)"

definition bitmessagesBySequenceRange ::
  "('w, 'h, 'o) deps \<Rightarrow> 'w \<Rightarrow> ('h, 'o) mailbox \<Rightarrow> u32 \<Rightarrow> u32 \<Rightarrow> ('w \<times> ('h, 'o) mailbox \<times> Bmail list option) go" where
  "bitmessagesBySequenceRange D w box start end1 =
     (if start < 1 \<or> messages box < start \<or> end1 < 1 \<or> messages box < end1 \<or> end1 < start then Ret (w, box, None)
      else if length (uids box) \<le> unat (start - 1) \<or> length (uids box) \<le> unat (end1 - 1) then Panic
      else getRange D w box (uids box ! unat (start - 1)) (uids box ! unat (end1 - 1)) start end1)"

definition bitmessagesSinceSequenceNumber ::
  "('w, 'h, 'o) deps \<Rightarrow> 'w \<Rightarrow> ('h, 'o) mailbox \<Rightarrow> u32 \<Rightarrow> ('w \<times> ('h, 'o) mailbox \<times> Bmail list option) go" where
  "bitmessagesSinceSequenceNumber D w box start =
     (if start < 1 \<or> Messages box < start then Ret (w, box, None)
      else if length (uids box) \<le> unat (start - 1) then Panic
      else getSince D w box (uids box ! unat (start - 1)) start)"

text \<open>\<open>append(msgs, ms...)\<close> with a slice that may be nil.\<close>

definition append_all :: "Bmail option list \<Rightarrow> Bmail list option \<Rightarrow> Bmail option list" where
  "append_all msgs ms = msgs @ (case ms of None \<Rightarrow> [] | Some l \<Rightarrow> map Some l)"

fun uid_ranges ::
  "('w, 'h, 'o) deps \<Rightarrow> 'w \<Rightarrow> ('h, 'o) mailbox \<Rightarrow> SequenceSet \<Rightarrow> Bmail option list \<Rightarrow>
    ('w \<times> ('h, 'o) mailbox \<times> Bmail option list) go" where
  "uid_ranges D w box [] msgs = Ret (w, box, msgs)"
| "uid_ranges D w box ((mn, mx) # set1) msgs =
     (if sn_Last mn then
        go_bind (lastBitmessage D w box) (\<lambda>(box1, b). uid_ranges D w box1 set1 (msgs @ [b]))
      else case sn_Value mn of
        Inl e \<Rightarrow> Ret (w, box, msgs)
      | Inr start \<Rightarrow>
          if sn_Nil mx then
            go_bind (bmsgByUID D w box (ucast start)) (\<lambda>(box1, b). uid_ranges D w box1 set1 (msgs @ [b]))
          else if sn_Last mx then
            go_bind (bitmessagesSinceUID D w box (ucast start)) (\<lambda>(w1, box1, since).
              uid_ranges D w1 box1 set1 (append_all msgs since))
          else case sn_Value mx of
            Inl e \<Rightarrow> Ret (w, box, msgs)
          | Inr end1 \<Rightarrow>
              go_bind (bitmessagesByUIDRange D w box (ucast start) (ucast end1)) (\<lambda>(w1, box1, ms).
                uid_ranges D w1 box1 set1 (append_all msgs ms)))"

definition bitmessageSetByUID ::
  "('w, 'h, 'o) deps \<Rightarrow> 'w \<Rightarrow> ('h, 'o) mailbox \<Rightarrow> SequenceSet \<Rightarrow> ('w \<times> ('h, 'o) mailbox \<times> Bmail option list) go" where
  "bitmessageSetByUID D w box set1 =
     (if messages box = 0 then Ret (w, box, []) else uid_ranges D w box set1 [])"

fun seq_ranges ::
  "('w, 'h, 'o) deps \<Rightarrow> 'w \<Rightarrow> ('h, 'o) mailbox \<Rightarrow> SequenceSet \<Rightarrow> Bmail option list \<Rightarrow>
    ('w \<times> ('h, 'o) mailbox \<times> Bmail option list) go" where
  "seq_ranges D w box [] msgs = Ret (w, box, msgs)"
| "seq_ranges D w box ((mn, mx) # set1) msgs =
     (if sn_Last mn then
        go_bind (lastBitmessage D w box) (\<lambda>(box1, b). seq_ranges D w box1 set1 (msgs @ [b]))
      else case sn_Value mn of
        Inl e \<Rightarrow> Ret (w, box, msgs)
      | Inr startIndex \<Rightarrow>
          if startIndex < 1 \<or> Messages box < startIndex then Ret (w, box, msgs)
          else if length (uids box) \<le> unat (startIndex - 1) then Panic
          else let start = ucast (uids box ! unat (startIndex - 1)) :: u32 in
          if sn_Nil mx then
            go_bind (bitmessageBySequenceNumber D w box start) (\<lambda>(box1, b). seq_ranges D w box1 set1 (msgs @ [b]))
          else if sn_Last mx then
            go_bind (bitmessagesSinceSequenceNumber D w box start) (\<lambda>(w1, box1, ms).
              seq_ranges D w1 box1 set1 (append_all msgs ms))
          else case sn_Value mx of
            Inl e \<Rightarrow> Ret (w, box, msgs)
          | Inr end1 \<Rightarrow>
              go_bind (bitmessagesBySequenceRange D w box start end1) (\<lambda>(w1, box1, ms).
                seq_ranges D w1 box1 set1 (append_all msgs ms)))"

definition bitmessageSetBySequenceNumber ::
  "('w, 'h, 'o) deps \<Rightarrow> 'w \<Rightarrow> ('h, 'o) mailbox \<Rightarrow> SequenceSet \<Rightarrow> ('w \<times> ('h, 'o) mailbox \<times> Bmail option list) go" where
  "bitmessageSetBySequenceNumber D w box set1 =
     (if Messages box = 0 then Ret (w, box, []) else seq_ranges D w box set1 [])"

text \<open>
  The loop that converts the messages of a set; \<open>None\<close> is the nil slice of a failed conversion.  A nil
  message ends in a panic, explicit in one method and by dereferencing in the other.
\<close>

fun to_emails :: "mail_lib \<Rightarrow> Bmail option list \<Rightarrow> IMAPEmail list \<Rightarrow> IMAPEmail list option go" where
  "to_emails L [] em = Ret (Some em)"
| "to_emails L (None # msgs) em = Panic"
| "to_emails L (Some b # msgs) em =
     (case ToEmail L b of
        Inr m \<Rightarrow> to_emails L msgs (em @ [m])
      | Inl e \<Rightarrow> (case Imap b of None \<Rightarrow> Panic | Some _ \<Rightarrow> Ret None))"

definition MessageSetByUID ::
  "('w, 'h, 'o) deps \<Rightarrow> 'w \<Rightarrow> ('h, 'o) mailbox \<Rightarrow> SequenceSet \<Rightarrow> ('w \<times> ('h, 'o) mailbox \<times> IMAPEmail list option) go" where
  "MessageSetByUID D w box set1 =
     go_bind (bitmessageSetByUID D w box set1) (\<lambda>(w1, box1, msgs).
       go_bind (to_emails (mlib D) msgs []) (\<lambda>em. Ret (w1, box1, em)))"

definition MessageSetBySequenceNumber ::
  "('w, 'h, 'o) deps \<Rightarrow> 'w \<Rightarrow> ('h, 'o) mailbox \<Rightarrow> SequenceSet \<Rightarrow> ('w \<times> ('h, 'o) mailbox \<times> IMAPEmail list option) go" where
  "MessageSetBySequenceNumber D w box set1 =
     go_bind (bitmessageSetBySequenceNumber D w box set1) (\<lambda>(w1, box1, msgs).
       go_bind (to_emails (mlib D) msgs []) (\<lambda>em. Ret (w1, box1, em)))"

section \<open>Changing the mailbox\<close>

definition forget_object :: "('h, 'o) mailbox \<Rightarrow> u64 \<Rightarrow> ('h, 'o) mailbox" where
  "forget_object box i = box\<lparr>objects := map_option (\<lambda>m. m(i := None)) (objects box)\<rparr>"

definition saveBitmessage ::
  "('w, 'h, 'o) deps \<Rightarrow> 'w \<Rightarrow> ('h, 'o) mailbox \<Rightarrow> Bmail \<Rightarrow> ('w \<times> ('h, 'o) mailbox \<times> Bmail \<times> error option) go" where
  "saveBitmessage D w box msg =
     go_bind (serializeBitmessage (mlib D) (mcodec D) msg None) (\<lambda>r. case r of
       Inl e \<Rightarrow> Ret (w, box, msg, Some e)
     | Inr encode \<Rightarrow>
     (case (Imap msg, Payload msg) of
       (Some d, Some q) \<Rightarrow>
         if UID d = 0 then
           go_bind (InsertNewMessage (mfold D) w (mbox box) (Some encode) (Encoding_number q)) (\<lambda>(w1, h1, res).
             let box1 = box\<lparr>mbox := h1\<rparr> in
             case res of
               Inl e \<Rightarrow> Ret (w1, box1, msg\<lparr>Imap := Some (d\<lparr>UID := 0\<rparr>)\<rparr>, Some e)
             | Inr i \<Rightarrow>
                 go_bind (refresh D w1 box1) (\<lambda>(w2, box2, e). Ret (w2, box2, msg\<lparr>Imap := Some (d\<lparr>UID := i\<rparr>)\<rparr>, e)))
         else
           go_bind (DeleteMessage (mfold D) w (mbox box) (UID d)) (\<lambda>(w1, h1, err).
             let box1 = box\<lparr>mbox := h1\<rparr> in
             case err of
               Some e \<Rightarrow> Ret (w1, box1, msg, Some e)
             | None \<Rightarrow>
                 let box2 = forget_object box1 (UID d) in
                 go_bind (GetMessage (mfold D) w1 (mbox box2) (UID d)) (\<lambda>g. case g of
                   Inr _ \<Rightarrow> Ret (w1, box2, msg, Some (ErrText ''Unable to save.''))
                 | Inl _ \<Rightarrow>
                     go_bind (InsertMessage (mfold D) w1 (mbox box2) (UID d) (Some encode) (Encoding_number q))
                       (\<lambda>(w2, h2, _).
                         go_bind (refresh D w2 (box2\<lparr>mbox := h2\<rparr>)) (\<lambda>(w3, box3, e). Ret (w3, box3, msg, e)))))
     | _ \<Rightarrow> Panic))"

definition addNew ::
  "('x env_scheme, 'h, 'o) deps \<Rightarrow> 'x env_scheme \<Rightarrow> ('h, 'o) mailbox \<Rightarrow> Bmail \<Rightarrow> Flags \<Rightarrow>
    ('x env_scheme \<times> ('h, 'o) mailbox \<times> Bmail \<times> error option) go" where
  "addNew D w box bmsg flags =
     (let b1 = (case State bmsg of None \<Rightarrow> bmsg\<lparr>State := Some new_state\<rparr> | Some _ \<Rightarrow> bmsg)
      in case time_Now w of (w1, t) \<Rightarrow>
        let b2 = b1\<lparr>Imap := Some \<lparr>UID = 0, SequenceNumber = messages box + 1, Flags = flags, TimeReceived = t,
              Mailbox = Some (b_name box)\<rparr>\<rparr>
        in go_bind (saveBitmessage D w1 box b2) (\<lambda>(w2, box2, b3, _). Ret (w2, box2, b3, None)))"

definition AddNew ::
  "('x env_scheme, 'h, 'o) deps \<Rightarrow> 'x env_scheme \<Rightarrow> ('h, 'o) mailbox \<Rightarrow> Bmail \<Rightarrow> Flags \<Rightarrow>
    ('x env_scheme \<times> ('h, 'o) mailbox \<times> Bmail \<times> error option) go" where
  "AddNew D w box bmsg flags = addNew D w box bmsg flags"

text \<open>The loop of \<open>DeleteBitmessageByUID\<close> removes the first occurrence of the uid.\<close>

definition DeleteBitmessageByUID ::
  "('w, 'h, 'o) deps \<Rightarrow> 'w \<Rightarrow> ('h, 'o) mailbox \<Rightarrow> u64 \<Rightarrow> ('w \<times> ('h, 'o) mailbox \<times> error option) go" where
  "DeleteBitmessageByUID D w box i =
     go_bind (bmsgByUID D w box i) (\<lambda>(box1, bm). case bm of
       None \<Rightarrow> Ret (w, box1, None)
     | Some b \<Rightarrow>
         go_bind (DeleteMessage (mfold D) w (mbox box1) i) (\<lambda>(w1, h1, err).
           let box2 = box1\<lparr>mbox := h1\<rparr> in
           case err of
             Some e \<Rightarrow> Ret (w1, box2, Some e)
           | None \<Rightarrow>
               let box3 = (case Imap b of
                     None \<Rightarrow> box2
                   | Some d \<Rightarrow>
                       let box4 = (if and (Flags d) (FlagRecent (mlib D)) = FlagRecent (mlib D)
                             then box2\<lparr>numRecent := numRecent box2 - 1\<rparr> else box2)
                       in if and (Flags d) (FlagSeen (mlib D)) \<noteq> FlagSeen (mlib D)
                          then box4\<lparr>numUnseen := numUnseen box4 - 1\<rparr> else box4);
                   box5 = forget_object box3 i
               in Ret (w1, box5\<lparr>uids := remove1 i (uids box5)\<rparr>, None)))"

definition box_Save ::
  "('w, 'h, 'o) deps \<Rightarrow> 'w \<Rightarrow> ('h, 'o) mailbox \<Rightarrow> IMAPEmail \<Rightarrow> ('w \<times> ('h, 'o) mailbox \<times> error option) go" where
  "box_Save D w box em =
     go_bind (if drafts box then NewBitmessageDraftFromSMTP (mlib D) (EContent em)
              else NewBitmessageFromSMTP (mlib D) (EContent em)) (\<lambda>r. case r of
       Inl e \<Rightarrow> Ret (w, box, Some e)
     | Inr m \<Rightarrow>
         let msg = m\<lparr>Imap := Some \<lparr>UID = ImapUID em, SequenceNumber = ImapSequenceNumber em, Flags = ImapFlags em,
               TimeReceived = Date em, Mailbox = Some (b_name box)\<rparr>\<rparr>;
             save = (\<lambda>box msg. go_bind (saveBitmessage D w box msg) (\<lambda>(w1, box1, _, e). Ret (w1, box1, e)))
         in if ImapUID em \<noteq> 0 then
              go_bind (BitmessageByUID D w box (ImapUID em)) (\<lambda>(box1, previous). case previous of
                None \<Rightarrow> Ret (w, box1, Some (ErrText ''Invalid sequence number''))
              | Some p \<Rightarrow>
                  (case Imap p of
                     None \<Rightarrow> Panic
                   | Some d \<Rightarrow>
                       if UID d \<noteq> ImapUID em then Ret (w, box1, Some (ErrText ''Invalid uid''))
                       else if TimeReceived d \<noteq> Date em
                       then Ret (w, box1, Some (ErrText ''Cannot change date received''))
                       else save box1 (msg\<lparr>State := State p\<rparr>)))
            else save box msg)"

fun flagged ::
  "('w, 'h, 'o) deps \<Rightarrow> 'w \<Rightarrow> ('h, 'o) mailbox \<Rightarrow> u64 list \<Rightarrow> Bmail list \<Rightarrow> (('h, 'o) mailbox \<times> Bmail list) go" where
  "flagged D w box [] delBMsgs = Ret (box, delBMsgs)"
| "flagged D w box (uid # us) delBMsgs =
     go_bind (bmsgByUID D w box uid) (\<lambda>(box1, l). case l of
       None \<Rightarrow> flagged D w box1 us delBMsgs
     | Some b \<Rightarrow>
         (case Imap b of
            None \<Rightarrow> Panic
          | Some d \<Rightarrow>
              flagged D w box1 us
                (if HasFlags (mlib D) (Flags d) (FlagDeleted (mlib D)) then delBMsgs @ [b] else delBMsgs)))"

fun delete_flagged ::
  "('w, 'h, 'o) deps \<Rightarrow> 'w \<Rightarrow> ('h, 'o) mailbox \<Rightarrow> Bmail list \<Rightarrow> IMAPEmail list \<Rightarrow>
    ('w \<times> ('h, 'o) mailbox \<times> (error + IMAPEmail list)) go" where
  "delete_flagged D w box [] msgs = Ret (w, box, Inr msgs)"
| "delete_flagged D w box (b # bs) msgs =
     (case Imap b of
        None \<Rightarrow> Panic
      | Some d \<Rightarrow>
          let msgs1 = (case ToEmail (mlib D) b of Inl _ \<Rightarrow> msgs | Inr m \<Rightarrow> msgs @ [m])
          in go_bind (DeleteBitmessageByUID D w box (UID d)) (\<lambda>(w1, box1, err). case err of
               Some e \<Rightarrow> Ret (w1, box1, Inl e)
             | None \<Rightarrow> delete_flagged D w1 box1 bs msgs1))"

definition DeleteFlaggedMessages ::
  "('w, 'h, 'o) deps \<Rightarrow> 'w \<Rightarrow> ('h, 'o) mailbox \<Rightarrow> ('w \<times> ('h, 'o) mailbox \<times> (error + IMAPEmail list)) go" where
  "DeleteFlaggedMessages D w box =
     go_bind (flagged D w box (uids box) []) (\<lambda>(box1, delBMsgs). delete_flagged D w box1 delBMsgs [])"

definition NewMessage ::
  "mail_lib \<Rightarrow> 'x env_scheme \<Rightarrow> ('h, 'o) mailbox \<Rightarrow> 'x env_scheme \<times> IMAPEmail" where
  "NewMessage L w box =
     (case time_Now w of (w1, t) \<Rightarrow>
        (w1, \<lparr>ImapSequenceNumber = 0, ImapUID = 0, ImapFlags = FlagRecent L, Date = t,
          EMailbox = Some (b_name box), EContent = \<lparr>Headers = [], Body = '''', Size = 0\<rparr>\<rparr>))"

definition box_of :: "string \<Rightarrow> 'h \<Rightarrow> (string \<rightharpoonup> string) \<Rightarrow> bool \<Rightarrow> ('h, 'o) mailbox" where
  "box_of name h addrs dr =
     \<lparr>mbox = h, b_name = name, sub = None, objects = None, addresses = addrs, drafts = dr,
      uids = [], numRecent = 0, numUnseen = 0, nextUID = 0\<rparr>"

definition newMailbox ::
  "('w, 'h, 'o) deps \<Rightarrow> 'w \<Rightarrow> string \<Rightarrow> 'h option \<Rightarrow> (string \<rightharpoonup> string) \<Rightarrow> ('w \<times> (error + ('h, 'o) mailbox)) go" where
  "newMailbox D w name h addrs =
     (case h of
        None \<Rightarrow> Ret (w, Inl (ErrText ''Nil mailbox.''))
      | Some h \<Rightarrow>
          go_bind (refresh D w (box_of name h addrs False)) (\<lambda>(w1, m, err). Ret (w1, case err of
            Some e \<Rightarrow> Inl e | None \<Rightarrow> Inr m)))"

definition newDrafts ::
  "('w, 'h, 'o) deps \<Rightarrow> 'w \<Rightarrow> string \<Rightarrow> 'h option \<Rightarrow> (string \<rightharpoonup> string) \<Rightarrow> ('w \<times> (error + ('h, 'o) mailbox)) go" where
  "newDrafts D w name h addrs =
     (case h of
        None \<Rightarrow> Ret (w, Inl (ErrText ''Nil mailbox.''))
      | Some h \<Rightarrow>
          go_bind (refresh D w (box_of name h addrs True)) (\<lambda>(w1, m, err). Ret (w1, case err of
            Some e \<Rightarrow> Inl e | None \<Rightarrow> Inr m)))"

text \<open>\<open>IMAPEmail.Save\<close> hands the e-mail to its mailbox.\<close>

definition email_Save ::
  "('w, 'h, 'o) deps \<Rightarrow> 'w \<Rightarrow> ('h, 'o) mailbox \<Rightarrow> IMAPEmail \<Rightarrow> ('w \<times> ('h, 'o) mailbox \<times> IMAPEmail \<times> error option) go" where
  "email_Save D w box e = go_bind (box_Save D w box e) (\<lambda>(w1, box1, err). Ret (w1, box1, e, err))"

end
