(* ===== verification/Mailbox_Correct.thy ===== *)
theory Mailbox_Correct
  imports Mailbox
begin

text \<open>
  Correctness of \<open>mailbox\<close> over any folder that keeps the contract \<open>ordered_folder\<close>: the uids and the
  counters that the mailbox caches are those of the messages with encoding 2 in the folder (\<open>synced\<close>).
  \<open>refresh\<close> establishes this and every operation that changes the mailbox keeps it.
\<close>

section \<open>What a mailbox shows of a folder\<close>

type_synonym folder_map = "u64 \<rightharpoonup> u64 \<times> bytes"

text \<open>A stored message that can be decoded, has IMAP data, and has no object beside it.\<close>

definition mail_of :: "('w, 'h, 'o) deps \<Rightarrow> bytes \<Rightarrow> (Bmail \<times> ImapData) option" where
  "mail_of D m =
     (case decodeBitmessage (mlib D) (mcodec D) m of
        Ret (Inr (b, None)) \<Rightarrow> (case Imap b of None \<Rightarrow> None | Some d \<Rightarrow> Some (b, d))
      | _ \<Rightarrow> None)"

definition readable :: "('w, 'h, 'o) deps \<Rightarrow> folder_map \<Rightarrow> bool" where
  "readable D M \<longleftrightarrow> (\<forall>i m. M i = Some (2, m) \<longrightarrow> mail_of D m \<noteq> None)"

definition flags_of :: "('w, 'h, 'o) deps \<Rightarrow> bytes \<Rightarrow> Flags" where
  "flags_of D m = (case mail_of D m of None \<Rightarrow> 0 | Some (b, d) \<Rightarrow> Flags d)"

definition is_recent :: "('w, 'h, 'o) deps \<Rightarrow> bytes \<Rightarrow> bool" where
  "is_recent D m \<longleftrightarrow> HasFlags (mlib D) (flags_of D m) (FlagRecent (mlib D))"

definition is_unseen :: "('w, 'h, 'o) deps \<Rightarrow> bytes \<Rightarrow> bool" where
  "is_unseen D m \<longleftrightarrow> \<not> HasFlags (mlib D) (flags_of D m) (FlagSeen (mlib D))"

definition matching :: "(bytes \<Rightarrow> bool) \<Rightarrow> folder_map \<Rightarrow> u64 set" where
  "matching p M = {i. \<exists>m. M i = Some (2, m) \<and> p m}"

text \<open>The mailbox with the cache that belongs to the content \<open>M\<close> of the folder.\<close>

definition refreshed :: "('w, 'h, 'o) deps \<Rightarrow> folder_map \<Rightarrow> u32 \<Rightarrow> ('h, 'o) mailbox \<Rightarrow> ('h, 'o) mailbox" where
  "refreshed D M n box = box\<lparr>uids := sorted_list_of_set (ids_of M 2),
     numRecent := of_nat (card (matching (is_recent D) M)),
     numUnseen := of_nat (card (matching (is_unseen D) M)), nextUID := n\<rparr>"

definition synced :: "('w, 'h, 'o) deps \<Rightarrow> folder_map \<Rightarrow> ('h, 'o) mailbox \<Rightarrow> bool" where
  "synced D M box \<longleftrightarrow> sub box = None \<and> refreshed D M (nextUID box) box = box"

text \<open>The message as the mailbox returns it.\<close>

definition shown :: "('w, 'h, 'o) deps \<Rightarrow> string \<Rightarrow> folder_map \<Rightarrow> u64 \<Rightarrow> Bmail option" where
  "shown D name M i =
     (case M i of
        Some (s, m) \<Rightarrow> if s \<noteq> 2 then None else
          map_option (\<lambda>(b, d). b\<lparr>Imap := Some (d\<lparr>UID := i,
            SequenceNumber := of_nat (1 + card {j \<in> ids_of M 2. j < i}), Mailbox := Some name\<rparr>)\<rparr>) (mail_of D m)
      | None \<Rightarrow> None)"

lemma synced_uids: "synced D M box \<Longrightarrow> uids box = sorted_list_of_set (ids_of M 2)"
  by (metis mailbox.select_convs(7) mailbox.surjective mailbox.update_convs(7,8,9,10) refreshed_def synced_def)

lemma synced_counts:
  assumes "synced D M box"
  shows "numRecent box = of_nat (card (matching (is_recent D) M))" "numUnseen box = of_nat (card (matching (is_unseen D) M))"
proof -
  have "refreshed D M (nextUID box) box = box" using assms by (simp add: synced_def)
  then have "numRecent (refreshed D M (nextUID box) box) = numRecent box"
    "numUnseen (refreshed D M (nextUID box) box) = numUnseen box" by simp_all
  then show "numRecent box = of_nat (card (matching (is_recent D) M))"
    "numUnseen box = of_nat (card (matching (is_unseen D) M))" by (simp_all add: refreshed_def)
qed

lemma refreshed_synced: "sub box = None \<Longrightarrow> synced D M (refreshed D M n box)"
  by (simp add: synced_def refreshed_def)

lemma refreshed_fields [simp]:
  "mbox (refreshed D M n box) = mbox box" "sub (refreshed D M n box) = sub box"
  "b_name (refreshed D M n box) = b_name box" "objects (refreshed D M n box) = objects box"
  "uids (refreshed D M n box) = sorted_list_of_set (ids_of M 2)" "nextUID (refreshed D M n box) = n"
  by (simp_all add: refreshed_def)

lemma mail_of_decode:
  "mail_of D m = Some (b, d) \<Longrightarrow> decodeBitmessage (mlib D) (mcodec D) m = Ret (Inr (b, None)) \<and> Imap b = Some d"
  by (auto simp: mail_of_def split: go.splits sum.splits option.splits)

lemma ids_of_upd: "ids_of (M(i := None)) 2 = ids_of M 2 - {i}" "ids_of (M(i \<mapsto> (2, m))) 2 = insert i (ids_of M 2)"
  by (auto simp: ids_of_def)

lemma count_smaller:
  "finite (K :: u64 set) \<Longrightarrow> length (filter (\<lambda>u. u < x) (sorted_list_of_set K)) = card {j \<in> K. j < x}"
  by (metis (no_types, lifting) Collect_cong distinct_card distinct_filter set_filter
      sorted_list_of_set.distinct_sorted_key_list_of_set sorted_list_of_set.set_sorted_key_list_of_set)

section \<open>Refreshing\<close>

definition add_counts :: "('w, 'h, 'o) deps \<Rightarrow> visit list \<Rightarrow> ('h, 'o) mailbox \<Rightarrow> ('h, 'o) mailbox" where
  "add_counts D vs box = box\<lparr>numRecent := numRecent box + of_nat (length (filter (\<lambda>(i, t, m). is_recent D m) vs)),
     numUnseen := numUnseen box + of_nat (length (filter (\<lambda>(i, t, m). is_unseen D m) vs))\<rparr>"

lemma refresh_each_step:
  assumes "mail_of D m \<noteq> None" "sub box = None"
  shows "refresh_each D (box, ids) i t m = Ret ((add_counts D [(i, t, m)] box, ids @ [i]), None)"
proof -
  obtain b d where b: "mail_of D m = Some (b, d)" using assms(1) by auto
  note dec = mail_of_decode [OF b]
  have "flags_of D m = Flags d" using b by (simp add: flags_of_def)
  then show ?thesis
    using dec assms(2)
    by (simp add: refresh_each_def updateMailboxStats_def add_counts_def is_recent_def is_unseen_def Let_def)
qed

lemma for_each_refresh:
  assumes "\<forall>(i, t, m) \<in> set vs. mail_of D m \<noteq> None" "sub box = None"
  shows "for_each (refresh_each D) (box, ids) vs (Ret None) = Ret ((add_counts D vs box, ids @ map fst vs), None)"
  using assms
proof (induction vs arbitrary: box ids)
  case Nil
  then show ?case by (simp add: add_counts_def)
next
  case (Cons v vs)
  obtain i t m where v: "v = (i, t, m)" by (cases v)
  have "add_counts D vs (add_counts D [(i, t, m)] box) = add_counts D (v # vs) box"
    by (simp add: add_counts_def v)
  moreover have "sub (add_counts D [(i, t, m)] box) = None" using Cons.prems by (simp add: add_counts_def)
  ultimately show ?case
    using Cons.IH [of "add_counts D [(i, t, m)] box" "ids @ [i]"] Cons.prems refresh_each_step [of D m box ids i t]
    by (simp add: v)
qed

locale mail_client = ordered_folder F inv msgs fits apart
  for F :: "('x env_scheme, 'h) Folder" and inv msgs fits apart +
  fixes D :: "('x env_scheme, 'h, 'o) deps"
  assumes dF [simp]: "mfold D = F"
    and has_flags: "HasFlags (mlib D) f g \<longleftrightarrow> and f g = g"
    and inv_tick [simp]: "inv (w\<lparr>tick := n\<rparr>) h = inv w h"
    and msgs_tick [simp]: "msgs (w\<lparr>tick := n\<rparr>) h = msgs w h"
begin

lemma visits_counts:
  assumes "listing w h 0 0 2 vs" "distinct (map fst vs)"
  shows "of_nat (length (filter (\<lambda>(i, t, m). p m) vs)) = (of_nat (card (matching p (msgs w h))) :: u32)"
    and "map fst vs = sorted_list_of_set (ids_of (msgs w h) 2)"
proof -
  have e: "(i, t, m) \<in> set vs \<longleftrightarrow> msgs w h i = Some (2, m) \<and> t = 2" for i t m
    using assms(1) by (auto simp: listing_def in_range_def)
  have "set (map fst (filter (\<lambda>(i, t, m). p m) vs)) = matching p (msgs w h)"
    using e by (force simp: matching_def)
  moreover have "distinct (map fst (filter (\<lambda>(i, t, m). p m) vs))"
    using assms(2) by (simp add: distinct_map_filter)
  ultimately show "of_nat (length (filter (\<lambda>(i, t, m). p m) vs)) = (of_nat (card (matching p (msgs w h))) :: u32)"
    by (metis distinct_card length_map)
  have "set (map fst vs) = ids_of (msgs w h) 2"
    using e by (force simp: ids_of_def)
  moreover have "sorted_wrt (<) (map fst vs)" using assms(1) by (simp add: listing_def)
  ultimately show "map fst vs = sorted_list_of_set (ids_of (msgs w h) 2)"
    by (metis finite_set sorted_list_of_set.strict_sorted_key_list_of_set
        sorted_list_of_set.set_sorted_key_list_of_set strict_sorted_equal)
qed

lemma refresh_ok:
  assumes "inv w (mbox box)" "sub box = None" "readable D (msgs w (mbox box))"
  shows "\<exists>w'. refresh D w box =
      Ret (w', refreshed D (msgs w (mbox box)) (ucast (NextID F (mbox box))) box, None) \<and>
    (\<forall>g. inv w g \<longrightarrow> inv w' g \<and> msgs w' g = msgs w g)"
proof -
  let ?h = "mbox box"
  let ?M = "msgs w ?h"
  let ?b = "box\<lparr>nextUID := ucast (NextID F ?h), numRecent := 0, numUnseen := 0\<rparr>"
  obtain w' vs where v: "Visits F w ?h 0 0 2 = (w', vs, Ret None)" "listing w ?h 0 0 2 vs"
      "\<forall>g. inv w g \<longrightarrow> inv w' g \<and> msgs w' g = msgs w g"
    using visits_listing [OF assms(1), of 0 0 2] by auto
  have "\<forall>(i, t, m) \<in> set vs. mail_of D m \<noteq> None"
    using v(2) assms(3) by (fastforce simp: listing_def readable_def)
  then have "for_each (refresh_each D) (?b, []) vs (Ret None) = Ret ((add_counts D vs ?b, map fst vs), None)"
    using for_each_refresh [of vs D ?b "[]"] assms(2) by simp
  moreover have "distinct (map fst vs)" using v(2) by (simp add: listing_def strict_sorted_iff)
  note c = visits_counts [OF v(2) this]
  have "(add_counts D vs ?b)\<lparr>uids := sort (map fst vs)\<rparr> = refreshed D ?M (ucast (NextID F ?h)) box"
    by (simp add: add_counts_def refreshed_def c sorted_sort_id)
  ultimately show ?thesis
    using v(1,3) by (simp add: refresh_def ForEachMessage_def)
qed

end

section \<open>Reading by uid\<close>

lemma nth_count:
  assumes "sorted_wrt (<) (us :: MessageSequence)" "i \<in> set us"
  shows "us ! length (filter (\<lambda>u. u < i) us) = i" "length (filter (\<lambda>u. u < i) us) < length us"
proof -
  obtain k where k: "k < length us" "us ! k = i" using assms(2) by (auto simp: in_set_conv_nth)
  have "length (filter (\<lambda>u. u < i) us) = k"
    using assms(1) k by (intro count_less) (auto simp: sorted_wrt_iff_nth_less)
  with k show "us ! length (filter (\<lambda>u. u < i) us) = i" "length (filter (\<lambda>u. u < i) us) < length us" by simp_all
qed

context mail_client
begin

lemma bmsgByUID_ok:
  assumes "inv w (mbox box)" "synced D (msgs w (mbox box)) box" "readable D (msgs w (mbox box))" "seq_small (uids box)"
  shows "bmsgByUID D w box i = Ret (box, shown D (b_name box) (msgs w (mbox box)) i)"
proof -
  let ?M = "msgs w (mbox box)" and ?us = "uids box"
  let ?K = "ids_of ?M 2"
  have us: "?us = sorted_list_of_set ?K" using assms(2) by (rule synced_uids)
  have srt: "sorted_wrt (<) ?us" unfolding us by simp
  have K: "set ?us = ?K" unfolding us by simp
  have n: "length ?us < 2 ^ 32 - 1" using assms(4) by (simp add: seq_small_def)
  obtain r where r: "GetSequenceNumber (mfloat D) ?us i = Ret r" "unat r = 1 + length (filter (\<lambda>u. u < i) ?us)"
    using GetSequenceNumber_spec [OF srt assms(4)] by blast
  have cnt: "length (filter (\<lambda>u. u < i) ?us) = card {j \<in> ?K. j < i}" unfolding us by (simp add: count_smaller)
  have r1: "unat (r - 1) = unat r - 1" using r(2) by (simp add: unat_sub word_le_nat_alt)
  have le: "of_nat (length ?us) < r \<longleftrightarrow> length ?us < unat r"
    using n by (simp add: word_less_nat_alt unat_of_nat_u32)
  have "of_nat (unat r) = (of_nat (1 + card {j \<in> ?K. j < i}) :: u32)" using r(2) cnt by simp
  then have rr: "1 + of_nat (card {j \<in> ?K. j < i}) = r" by simp
  show ?thesis
  proof (cases "i \<in> ?K")
    case True
    then obtain m where m: "?M i = Some (2, m)" by (auto simp: ids_of_def)
    then have "mail_of D m \<noteq> None" using assms(3) unfolding readable_def by blast
    then obtain b d where b: "mail_of D m = Some (b, d)" by auto
    note dec = mail_of_decode [OF b]
    have "length (filter (\<lambda>u. u < i) ?us) < length ?us" "?us ! length (filter (\<lambda>u. u < i) ?us) = i"
      using nth_count [OF srt] True K by simp_all
    then show ?thesis
      using r r1 le m b dec get [OF assms(1)]
      by (auto simp: bmsgByUID_def shown_def decodeBitmessageForImap_def rr)
  next
    case False
    then have "shown D (b_name box) ?M i = None"
      by (auto simp: shown_def ids_of_def split: option.splits)
    moreover have "?us ! unat (r - 1) \<noteq> i" if "\<not> length ?us < unat r"
      using that False r(2) r1 K nth_mem [of "unat (r - 1)" ?us] by auto
    moreover have "unat (r - 1) < length ?us" if "\<not> length ?us < unat r" using that r(2) r1 by simp
    ultimately show ?thesis using r(1) le by (auto simp: bmsgByUID_def)
  qed
qed

lemma shown_Some: "i \<in> ids_of M 2 \<Longrightarrow> readable D M \<Longrightarrow>
  \<exists>m b d. M i = Some (2, m) \<and> mail_of D m = Some (b, d) \<and>
    shown D name M i = Some (b\<lparr>Imap := Some (d\<lparr>UID := i,
      SequenceNumber := of_nat (1 + card {j \<in> ids_of M 2. j < i}), Mailbox := Some name\<rparr>)\<rparr>)"
  by (fastforce simp: shown_def ids_of_def readable_def)

end

section \<open>Deleting\<close>

lemma matching_delete: "matching p (M(i := None)) = matching p M - {i}"
  by (auto simp: matching_def)

lemma finite_matching: "finite (matching p M)"
  by simp

lemma card_delete:
  "of_nat (card (matching p (M(i := None)))) =
    (if i \<in> matching p M then of_nat (card (matching p M)) - (1 :: u32) else of_nat (card (matching p M)))"
proof (cases "i \<in> matching p M")
  case True
  then have "card (matching p M) = Suc (card (matching p M - {i}))"
    by (rule card.remove [OF finite_matching])
  then have "(of_nat (card (matching p M)) :: u32) = 1 + of_nat (card (matching p M - {i}))" by (simp only: of_nat_Suc)
  with True show ?thesis by (simp add: matching_delete)
qed (simp add: matching_delete)

lemma remove1_sorted_list_of_set: "remove1 i (sorted_list_of_set (K :: u64 set)) = sorted_list_of_set (K - {i})"
  by (simp add: sorted_list_of_set.sorted_key_list_of_set_remove)

context mail_client
begin

lemma readable_delete: "readable D M \<Longrightarrow> readable D (M(i := None))"
  by (auto simp: readable_def)

lemma DeleteBitmessageByUID_ok:
  assumes "inv w (mbox box)" "synced D (msgs w (mbox box)) box" "readable D (msgs w (mbox box))" "seq_small (uids box)"
    and "i \<in> ids_of (msgs w (mbox box)) 2"
  shows "\<exists>w' box'. DeleteBitmessageByUID D w box i = Ret (w', box', None) \<and> inv w' (mbox box') \<and>
    msgs w' (mbox box') = (msgs w (mbox box))(i := None) \<and> synced D (msgs w' (mbox box')) box' \<and>
    b_name box' = b_name box \<and>
    (\<forall>g. apart (mbox box) g \<longrightarrow> inv w g \<longrightarrow> inv w' g \<and> msgs w' g = msgs w g \<and> apart (mbox box') g)"
proof -
  let ?h = "mbox box"
  let ?M = "msgs w ?h"
  from shown_Some [OF assms(5,3), of "b_name box"] obtain m b d where
    s: "?M i = Some (2, m)" "mail_of D m = Some (b, d)"
       "shown D (b_name box) ?M i = Some (b\<lparr>Imap := Some (d\<lparr>UID := i,
          SequenceNumber := of_nat (1 + card {j \<in> ids_of ?M 2. j < i}), Mailbox := Some (b_name box)\<rparr>)\<rparr>)"
    by blast
  have fl: "flags_of D m = Flags d" using s(2) by (simp add: flags_of_def)
  have v: "valid_id (NextID F ?h) i" using msgs_valid [OF assms(1)] s(1) by auto
  obtain w1 h1 where dl: "DeleteMessage F w ?h i = Ret (w1, h1, None)" "inv w1 h1" "msgs w1 h1 = ?M(i := None)"
      "\<forall>g. apart ?h g \<longrightarrow> inv w g \<longrightarrow> inv w1 g \<and> msgs w1 g = msgs w g \<and> apart h1 g"
    using delete [OF assms(1), of i] v domI [of ?M i, OF s(1)] by auto
  define box' where "box' = refreshed D (?M(i := None)) (nextUID box) (forget_object (box\<lparr>mbox := h1\<rparr>) i)"
  have sy: "sub box = None" using assms(2) by (simp add: synced_def)
  note cache = synced_uids [OF assms(2)] synced_counts [OF assms(2)]
  have cr: "i \<in> matching (is_recent D) ?M \<longleftrightarrow> and (Flags d) (FlagRecent (mlib D)) = FlagRecent (mlib D)"
    and cu: "i \<in> matching (is_unseen D) ?M \<longleftrightarrow> and (Flags d) (FlagSeen (mlib D)) \<noteq> FlagSeen (mlib D)"
    using s(1) fl by (simp_all add: matching_def is_recent_def is_unseen_def has_flags)
  have "DeleteBitmessageByUID D w box i = Ret (w1, box', None)"
    unfolding DeleteBitmessageByUID_def bmsgByUID_ok [OF assms(1-4)] s(3) box'_def
    using dl(1) cr cu
    by (auto simp: Let_def forget_object_def refreshed_def cache card_delete remove1_sorted_list_of_set ids_of_upd
        intro!: mailbox.equality)
  moreover have "synced D (?M(i := None)) box'"
    unfolding box'_def by (rule refreshed_synced) (simp add: forget_object_def sy)
  ultimately show ?thesis using dl by (auto simp: box'_def forget_object_def)
qed

end

section \<open>Saving\<close>

text \<open>A message that can be stored: its serialised form fits into the folder.\<close>

definition storable :: "(bytes \<Rightarrow> bool) \<Rightarrow> ('w, 'h, 'o) deps \<Rightarrow> Bmail \<Rightarrow> bytes \<Rightarrow> bool" where
  "storable fits D msg enc \<longleftrightarrow> codec_ok (mcodec D) \<and> times_ok (mlib D) msg \<and> has_body msg \<and>
     (\<exists>s b. Payload msg = Some (Encoding2 s b)) \<and> Imap msg \<noteq> None \<and>
     serializeBitmessage (mlib D) (mcodec D) msg None = Ret (Inr enc) \<and> fits enc"

text \<open>A new message gets its state and IMAP data before it is stored.\<close>

definition prepared :: "'x env_scheme \<Rightarrow> ('h, 'o) mailbox \<Rightarrow> Bmail \<Rightarrow> Flags \<Rightarrow> Bmail" where
  "prepared w box bmsg flags =
     (case State bmsg of None \<Rightarrow> bmsg\<lparr>State := Some new_state\<rparr> | Some _ \<Rightarrow> bmsg)
       \<lparr>Imap := Some \<lparr>UID = 0, SequenceNumber = messages box + 1, Flags = flags, TimeReceived = clock w (tick w),
          Mailbox = Some (b_name box)\<rparr>\<rparr>"

context mail_client
begin

lemma storable_mail:
  assumes "storable fits D msg enc"
  shows "mail_of D enc = Some (stored msg, the (Imap (stored msg)))" "Imap (stored msg) \<noteq> None"
proof -
  show "Imap (stored msg) \<noteq> None" using assms by (simp add: storable_def stored_def)
  moreover have "decodeBitmessage (mlib D) (mcodec D) enc = Ret (Inr (stored msg, None))"
    using assms by (intro decode_serialized) (simp_all add: storable_def)
  ultimately show "mail_of D enc = Some (stored msg, the (Imap (stored msg)))"
    by (auto simp: mail_of_def split: option.splits)
qed

lemma readable_insert: "readable D M \<Longrightarrow> storable fits D msg enc \<Longrightarrow> readable D (M(i \<mapsto> (2, enc)))"
  using storable_mail(1) [of msg enc] by (auto simp: readable_def)

lemma saveBitmessage_new:
  assumes "inv w (mbox box)" "sub box = None" "readable D (msgs w (mbox box))" "storable fits D msg enc"
    and "Imap msg = Some d" "UID d = 0" "NextID F (mbox box) \<noteq> - 1"
  shows "\<exists>w' box'. saveBitmessage D w box msg =
      Ret (w', box', msg\<lparr>Imap := Some (d\<lparr>UID := NextID F (mbox box)\<rparr>)\<rparr>, None) \<and> inv w' (mbox box') \<and>
    msgs w' (mbox box') = (msgs w (mbox box))(NextID F (mbox box) \<mapsto> (2, enc)) \<and>
    synced D (msgs w' (mbox box')) box' \<and> readable D (msgs w' (mbox box')) \<and> b_name box' = b_name box \<and> objects box' = objects box \<and>
    NextID F (mbox box') = NextID F (mbox box) + 1 \<and>
    (\<forall>g. apart (mbox box) g \<longrightarrow> inv w g \<longrightarrow> inv w' g \<and> msgs w' g = msgs w g \<and> apart (mbox box') g)"
proof -
  let ?h = "mbox box"
  let ?M' = "(msgs w ?h)(NextID F ?h \<mapsto> (2, enc))"
  from assms(4) obtain s b where st: "fits enc" "Payload msg = Some (Encoding2 s b)"
      "serializeBitmessage (mlib D) (mcodec D) msg None = Ret (Inr enc)"
    by (auto simp: storable_def)
  obtain w1 h1 where i: "InsertNewMessage F w ?h (Some enc) 2 = Ret (w1, h1, Inr (NextID F ?h))" "inv w1 h1"
      "msgs w1 h1 = ?M'" "\<forall>g. apart ?h g \<longrightarrow> inv w g \<longrightarrow> inv w1 g \<and> msgs w1 g = msgs w g \<and> apart h1 g"
      "NextID F h1 = NextID F ?h + 1"
    using insert_new [OF assms(1) st(1) assms(7), of 2] by auto
  let ?b = "box\<lparr>mbox := h1\<rparr>"
  have r: "readable D ?M'" by (rule readable_insert [OF assms(3,4)])
  obtain w2 where w2: "refresh D w1 ?b = Ret (w2, refreshed D ?M' (ucast (NextID F h1)) ?b, None)"
      "\<forall>g. inv w1 g \<longrightarrow> inv w2 g \<and> msgs w2 g = msgs w1 g"
    using refresh_ok [of w1 ?b] i(2,3) assms(2) r by auto
  have "synced D ?M' (refreshed D ?M' (ucast (NextID F h1)) ?b)"
    by (rule refreshed_synced) (simp add: assms(2))
  moreover have "saveBitmessage D w box msg = Ret (w2, refreshed D ?M' (ucast (NextID F h1)) ?b,
      msg\<lparr>Imap := Some (d\<lparr>UID := NextID F ?h\<rparr>)\<rparr>, None)"
    using st i(1) w2(1) assms(5,6) by (simp add: saveBitmessage_def)
  ultimately show ?thesis using w2(2) i r by auto
qed

lemma saveBitmessage_replace:
  assumes "inv w (mbox box)" "sub box = None" "readable D (msgs w (mbox box))" "storable fits D msg enc"
    and "Imap msg = Some d" "UID d \<in> dom (msgs w (mbox box))"
  shows "\<exists>w' box'. saveBitmessage D w box msg = Ret (w', box', msg, None) \<and> inv w' (mbox box') \<and>
    msgs w' (mbox box') = (msgs w (mbox box))(UID d \<mapsto> (2, enc)) \<and>
    synced D (msgs w' (mbox box')) box' \<and> readable D (msgs w' (mbox box')) \<and> b_name box' = b_name box \<and>
    (\<forall>g. apart (mbox box) g \<longrightarrow> inv w g \<longrightarrow> inv w' g \<and> msgs w' g = msgs w g \<and> apart (mbox box') g)"
proof -
  let ?h = "mbox box"
  let ?M' = "(msgs w ?h)(UID d \<mapsto> (2, enc))"
  from assms(4) obtain s b where st: "fits enc" "Payload msg = Some (Encoding2 s b)"
      "serializeBitmessage (mlib D) (mcodec D) msg None = Ret (Inr enc)"
    by (auto simp: storable_def)
  have u0: "UID d \<noteq> 0" using msgs_valid [OF assms(1,6)] by (simp add: valid_id_def)
  obtain w1 h1 w2 h2 where i: "DeleteMessage F w ?h (UID d) = Ret (w1, h1, None)"
      "GetMessage F w1 h1 (UID d) = Ret (Inl ErrNotFound)"
      "InsertMessage F w1 h1 (UID d) (Some enc) 2 = Ret (w2, h2, None)" "inv w2 h2" "msgs w2 h2 = ?M'"
      "\<forall>g. apart ?h g \<longrightarrow> inv w g \<longrightarrow> inv w2 g \<and> msgs w2 g = msgs w g \<and> apart h2 g"
    using replace [OF assms(1) st(1) assms(6), of 2] by auto
  let ?b = "(forget_object (box\<lparr>mbox := h1\<rparr>) (UID d))\<lparr>mbox := h2\<rparr>"
  have sb: "sub ?b = None" "b_name ?b = b_name box" using assms(2) by (simp_all add: forget_object_def)
  have r: "readable D ?M'" by (rule readable_insert [OF assms(3,4)])
  obtain w3 where w3: "refresh D w2 ?b = Ret (w3, refreshed D ?M' (ucast (NextID F h2)) ?b, None)"
      "\<forall>g. inv w2 g \<longrightarrow> inv w3 g \<and> msgs w3 g = msgs w2 g"
    using refresh_ok [of w2 ?b] i(4,5) sb r by auto
  have "synced D ?M' (refreshed D ?M' (ucast (NextID F h2)) ?b)"
    by (rule refreshed_synced) (rule sb(1))
  moreover have "saveBitmessage D w box msg = Ret (w3, refreshed D ?M' (ucast (NextID F h2)) ?b, msg, None)"
    using st i(1-3) w3(1) assms(5) u0 by (simp add: saveBitmessage_def Let_def forget_object_def)
  ultimately show ?thesis using w3(2) i(4-6) r sb(2) by auto
qed

lemma addNew_ok:
  assumes "inv w (mbox box)" "sub box = None" "readable D (msgs w (mbox box))"
    and "storable fits D (prepared w box bmsg flags) enc" "NextID F (mbox box) \<noteq> - 1"
  shows "\<exists>w' box' b'. addNew D w box bmsg flags = Ret (w', box', b', None) \<and> inv w' (mbox box') \<and>
    msgs w' (mbox box') = (msgs w (mbox box))(NextID F (mbox box) \<mapsto> (2, enc)) \<and>
    synced D (msgs w' (mbox box')) box' \<and> readable D (msgs w' (mbox box')) \<and> b_name box' = b_name box \<and> objects box' = objects box \<and>
    NextID F (mbox box') = NextID F (mbox box) + 1 \<and>
    b' = (prepared w box bmsg flags)\<lparr>Imap := Some \<lparr>UID = NextID F (mbox box), SequenceNumber = messages box + 1, Flags = flags,
      TimeReceived = clock w (tick w), Mailbox = Some (b_name box)\<rparr>\<rparr> \<and>
    (\<forall>g. apart (mbox box) g \<longrightarrow> inv w g \<longrightarrow> inv w' g \<and> msgs w' g = msgs w g \<and> apart (mbox box') g)"
proof -
  let ?w = "w\<lparr>tick := Suc (tick w)\<rparr>" and ?b = "prepared w box bmsg flags"
  have "Imap ?b = Some \<lparr>UID = 0, SequenceNumber = messages box + 1, Flags = flags, TimeReceived = clock w (tick w),
          Mailbox = Some (b_name box)\<rparr>" by (simp add: prepared_def)
  from saveBitmessage_new [of ?w box ?b enc, OF _ assms(2) _ assms(4) this _ assms(5)] assms(1,3)
  obtain w' box' where s: "saveBitmessage D ?w box ?b = Ret (w', box', ?b\<lparr>Imap := Some (\<lparr>UID = NextID F (mbox box),
        SequenceNumber = messages box + 1, Flags = flags, TimeReceived = clock w (tick w), Mailbox = Some (b_name box)\<rparr>)\<rparr>, None)"
      "inv w' (mbox box')" "msgs w' (mbox box') = (msgs w (mbox box))(NextID F (mbox box) \<mapsto> (2, enc))"
      "synced D (msgs w' (mbox box')) box'" "readable D (msgs w' (mbox box'))" "b_name box' = b_name box" "objects box' = objects box"
      "\<forall>g. apart (mbox box) g \<longrightarrow> inv w g \<longrightarrow> inv w' g \<and> msgs w' g = msgs w g \<and> apart (mbox box') g"
      "NextID F (mbox box') = NextID F (mbox box) + 1"
    by auto
  from s(1) have "addNew D w box bmsg flags = Ret (w', box', ?b\<lparr>Imap := Some (\<lparr>UID = NextID F (mbox box),
        SequenceNumber = messages box + 1, Flags = flags, TimeReceived = clock w (tick w), Mailbox = Some (b_name box)\<rparr>)\<rparr>, None)"
    by (simp add: addNew_def time_Now_def prepared_def Let_def)
  with s show ?thesis by auto
qed

end

section \<open>Mailboxes over database folders\<close>

definition store_deps :: "mail_lib \<Rightarrow> 'o codec \<Rightarrow> (float64 \<Rightarrow> u32) \<Rightarrow> 'db bolt \<Rightarrow> crypto \<Rightarrow> ('db world, store_folder, 'o) deps" where
  "store_deps L P impl B C = \<lparr>mlib = L, mcodec = P, mfloat = impl, mfold = store_Folder B C\<rparr>"

text \<open>The IMAP library's test of flags, as documented: all the given flags are set.\<close>

definition flags_ok :: "mail_lib \<Rightarrow> bool" where
  "flags_ok L \<longleftrightarrow> (\<forall>f g. HasFlags L f g \<longleftrightarrow> and f g = g)"

definition and_flags :: "mail_lib \<Rightarrow> mail_lib" where
  "and_flags L = L\<lparr>HasFlags := (\<lambda>f g. and f g = g)\<rparr>"

lemma and_flags_id: "flags_ok L \<Longrightarrow> and_flags L = L"
  by (cases L) (auto simp: and_flags_def flags_ok_def fun_eq_iff)

interpretation mb: mail_client "store_Folder B C" "store_inv B C" "store_msgs B C" store_fits store_apart
    "store_deps (and_flags L) P impl B C"
  for B :: "'db bolt" and C :: crypto and L :: mail_lib and P :: "'o codec" and impl :: "float64 \<Rightarrow> u32"
  by unfold_locales (simp_all add: store_deps_def and_flags_def)

text \<open>A mailbox over a folder of an open, healthy database, whose cache is that of the folder's messages.\<close>

definition mailbox_ok ::
  "mail_lib \<Rightarrow> 'o codec \<Rightarrow> (float64 \<Rightarrow> u32) \<Rightarrow> 'db bolt \<Rightarrow> crypto \<Rightarrow> 'db world \<Rightarrow> (store_folder, 'o) mailbox \<Rightarrow> bool" where
  "mailbox_ok L P impl B C w box \<longleftrightarrow> flags_ok L \<and> store_inv B C w (mbox box) \<and>
     synced (store_deps L P impl B C) (store_msgs B C w (mbox box)) box \<and>
     readable (store_deps L P impl B C) (store_msgs B C w (mbox box))"

lemma mailbox_okD:
  assumes "mailbox_ok L P impl B C w box"
  shows "and_flags L = L" "store_inv B C w (mbox box)" "sub box = None"
    "synced (store_deps L P impl B C) (store_msgs B C w (mbox box)) box"
    "readable (store_deps L P impl B C) (store_msgs B C w (mbox box))"
  using assms and_flags_id by (auto simp: mailbox_ok_def synced_def)

lemma sorted_list_of_set_insert_max:
  assumes "\<forall>j \<in> K. j < (i :: u64)"
  shows "sorted_list_of_set (insert i K) = sorted_list_of_set K @ [i]"
proof -
  have "sorted_wrt (<) (sorted_list_of_set K @ [i])" using assms by (simp add: sorted_wrt_append)
  moreover have "set (sorted_list_of_set K @ [i]) = insert i K" by simp
  ultimately show ?thesis
    by (metis finite sorted_list_of_set.set_sorted_key_list_of_set
        sorted_list_of_set.strict_sorted_key_list_of_set strict_sorted_equal)
qed

lemma AddNew_fetch:
  assumes "mailbox_ok L P impl B C w box" "NextID (store_Folder B C) (mbox box) = i" "i \<noteq> - 1"
    and "storable store_fits (store_deps L P impl B C) (prepared w box bmsg flags) enc"
    and "seq_small (uids box @ [i])"
  shows "\<exists>w' box' b' d. AddNew (store_deps L P impl B C) w box bmsg flags = Ret (w', box', b', None) \<and>
    mailbox_ok L P impl B C w' box' \<and> uids box' = uids box @ [i] \<and>
    Imap (stored (prepared w box bmsg flags)) = Some d \<and>
    BitmessageByUID (store_deps L P impl B C) w' box' i = Ret (box', Some ((stored (prepared w box bmsg flags))
      \<lparr>Imap := Some (d\<lparr>UID := i, SequenceNumber := of_nat (length (uids box) + 1), Mailbox := Some (b_name box)\<rparr>)\<rparr>)) \<and>
    (\<forall>g. store_apart (mbox box) g \<longrightarrow> store_inv B C w g \<longrightarrow> store_inv B C w' g \<and> store_msgs B C w' g = store_msgs B C w g)"
proof -
  let ?D = "store_deps L P impl B C" and ?M = "store_msgs B C w (mbox box)" and ?m = "stored (prepared w box bmsg flags)"
  note ok = mailbox_okD [OF assms(1)]
  note L = mb.addNew_ok [of B C w box L P impl, unfolded ok(1)] mb.bmsgByUID_ok [where L = L and P = P and impl = impl, unfolded ok(1)]
    mb.storable_mail [where L = L and P = P and impl = impl, unfolded ok(1)]
  obtain w' box' b' where a: "addNew ?D w box bmsg flags = Ret (w', box', b', None)" "store_inv B C w' (mbox box')"
      "store_msgs B C w' (mbox box') = ?M(i \<mapsto> (2, enc))" "synced ?D (store_msgs B C w' (mbox box')) box'"
      "readable ?D (store_msgs B C w' (mbox box'))" "b_name box' = b_name box"
      "\<forall>g. store_apart (mbox box) g \<longrightarrow> store_inv B C w g \<longrightarrow> store_inv B C w' g \<and> store_msgs B C w' g = store_msgs B C w g"
    using L(1) [OF ok(2,3,5) assms(4)] assms(2,3) by auto
  have K: "\<forall>j \<in> ids_of ?M 2. j < i"
    using st.msgs_valid [OF ok(2)] assms(2) by (auto simp: ids_of_def valid_id_def)
  have u: "uids box' = uids box @ [i]"
    using synced_uids [OF a(4)] synced_uids [OF ok(4)] sorted_list_of_set_insert_max [OF K] by (simp add: a(3) ids_of_upd)
  have "{j \<in> insert i (ids_of ?M 2). j < i} = ids_of ?M 2" using K by auto
  then have "shown ?D (b_name box') (store_msgs B C w' (mbox box')) i = Some (?m\<lparr>Imap := Some ((the (Imap ?m))\<lparr>UID := i,
      SequenceNumber := of_nat (length (uids box) + 1), Mailbox := Some (b_name box)\<rparr>)\<rparr>)"
    using L(3) [OF assms(4)] synced_uids [OF ok(4)] by (simp add: shown_def a(3,6) ids_of_upd)
  moreover have "seq_small (uids box')" using u assms(5) by simp
  moreover have "mailbox_ok L P impl B C w' box'" using assms(1) a by (simp add: mailbox_ok_def)
  ultimately show ?thesis
    using a u L(2) [OF a(2,4,5)] L(4) [OF assms(4)] by (auto simp: AddNew_def BitmessageByUID_def)
qed

text \<open>
  C9.  A message added to a mailbox over a database folder is stored under the next uid, which becomes the last
  of the mailbox's uids, and is fetched by that uid as the stored message with the next sequence number.  The
  cached counters stay those of the folder, and other folders do not change.
\<close>

theorem mailbox_add_fetch:
  assumes "mailbox_ok L P impl B C w box" "NextID (store_Folder B C) (mbox box) = i" "i \<noteq> - 1"
    and "storable store_fits (store_deps L P impl B C) (prepared w box bmsg flags) enc"
    and "seq_small (uids box @ [i])"
  shows "\<exists>w' box' b' d. AddNew (store_deps L P impl B C) w box bmsg flags = Ret (w', box', b', None) \<and>
    mailbox_ok L P impl B C w' box' \<and> uids box' = uids box @ [i] \<and>
    Imap (stored (prepared w box bmsg flags)) = Some d \<and>
    BitmessageByUID (store_deps L P impl B C) w' box' i = Ret (box', Some ((stored (prepared w box bmsg flags))
      \<lparr>Imap := Some (d\<lparr>UID := i, SequenceNumber := of_nat (length (uids box) + 1), Mailbox := Some (b_name box)\<rparr>)\<rparr>)) \<and>
    (\<forall>g. store_apart (mbox box) g \<longrightarrow> store_inv B C w g \<longrightarrow> store_inv B C w' g \<and> store_msgs B C w' g = store_msgs B C w g)"
  by (rule AddNew_fetch [OF assms])

text \<open>
  C10.  Deleting a message by its uid removes it from the folder and from the mailbox, keeps the cached counters
  those of the folder, and a later fetch of the uid finds nothing; a uid that the mailbox does not have changes nothing.
\<close>

theorem mailbox_delete:
  assumes "mailbox_ok L P impl B C w box" "seq_small (uids box)" "seq_small (remove1 i (uids box))"
  shows "\<exists>w' box'. DeleteBitmessageByUID (store_deps L P impl B C) w box i = Ret (w', box', None) \<and>
    mailbox_ok L P impl B C w' box' \<and> uids box' = remove1 i (uids box) \<and>
    BitmessageByUID (store_deps L P impl B C) w' box' i = Ret (box', None) \<and>
    (i \<notin> set (uids box) \<longrightarrow> w' = w \<and> box' = box)"
proof -
  let ?D = "store_deps L P impl B C" and ?M = "store_msgs B C w (mbox box)"
  note ok = mailbox_okD [OF assms(1)]
  note L = mb.DeleteBitmessageByUID_ok [where L = L and P = P and impl = impl, unfolded ok(1)]
    mb.bmsgByUID_ok [where L = L and P = P and impl = impl, unfolded ok(1)]
    mb.readable_delete [where L = L and P = P and impl = impl, unfolded ok(1)]
  have us: "uids box = sorted_list_of_set (ids_of ?M 2)" by (rule synced_uids [OF ok(4)])
  show ?thesis
  proof (cases "i \<in> ids_of ?M 2")
    case True
    from L(1) [OF ok(2,4,5) assms(2) True] obtain w' box' where
      d: "DeleteBitmessageByUID ?D w box i = Ret (w', box', None)" "store_inv B C w' (mbox box')"
         "store_msgs B C w' (mbox box') = ?M(i := None)" "synced ?D (store_msgs B C w' (mbox box')) box'"
      by blast
    have u: "uids box' = remove1 i (uids box)"
      using synced_uids [OF d(4)] by (simp add: d(3) us ids_of_upd remove1_sorted_list_of_set)
    have r: "readable ?D (store_msgs B C w' (mbox box'))" using L(3) [OF ok(5)] d(3) by simp
    have "shown ?D (b_name box') (store_msgs B C w' (mbox box')) i = None" by (simp add: shown_def d(3))
    then have "BitmessageByUID ?D w' box' i = Ret (box', None)"
      using L(2) [OF d(2,4) r, of i] assms(3) u by (simp add: BitmessageByUID_def)
    moreover have "mailbox_ok L P impl B C w' box'" using assms(1) d r by (simp add: mailbox_ok_def)
    ultimately show ?thesis using d(1) u us True by auto
  next
    case False
    then have "shown ?D (b_name box) ?M i = None" by (auto simp: shown_def ids_of_def split: option.splits)
    then have "bmsgByUID ?D w box i = Ret (box, None)" using L(2) [OF ok(2,4,5) assms(2), of i] by simp
    then show ?thesis
      using assms(1) us False by (auto simp: DeleteBitmessageByUID_def BitmessageByUID_def remove1_idem)
  qed
qed

text \<open>
  Opening a mailbox on a database folder whose messages can be decoded gives a mailbox whose uids are those of
  the folder's messages with encoding 2 in increasing order, whose counters count the recent and the unseen
  messages, and whose next uid is the folder's next id.
\<close>

theorem newMailbox_counts:
  fixes P :: "'o codec"
  assumes "store_inv B C w h" "flags_ok L" "readable (store_deps L P impl B C) (store_msgs B C w h)"
  shows "\<exists>w' box. newMailbox (store_deps L P impl B C) w name (Some h) addrs = Ret (w', Inr box) \<and>
    mailbox_ok L P impl B C w' box \<and> mbox box = h \<and> b_name box = name \<and>
    store_msgs B C w' h = store_msgs B C w h \<and>
    Messages box = of_nat (card (ids_of (store_msgs B C w h) 2)) \<and>
    Recent box = of_nat (card (matching (is_recent (store_deps L P impl B C)) (store_msgs B C w h))) \<and>
    Unseen box = of_nat (card (matching (is_unseen (store_deps L P impl B C)) (store_msgs B C w h))) \<and>
    box_NextUID box = ucast (NextID (store_Folder B C) h)"
proof -
  let ?D = "store_deps L P impl B C" and ?M = "store_msgs B C w h" and ?b = "box_of name h addrs False :: (store_folder, 'o) mailbox"
  have b: "mbox ?b = h" "sub ?b = None" "b_name ?b = name" by (simp_all add: box_of_def)
  note R = mb.refresh_ok [where L = L and P = P and impl = impl, unfolded and_flags_id [OF assms(2)]]
  obtain w' where r: "refresh ?D w ?b = Ret (w', refreshed ?D ?M (ucast (NextID (store_Folder B C) h)) ?b, None)"
      "store_inv B C w' h" "store_msgs B C w' h = ?M"
    using R [of B C w ?b] assms b by auto
  let ?box = "refreshed ?D ?M (ucast (NextID (store_Folder B C) h)) ?b"
  have "synced ?D ?M ?box" by (rule refreshed_synced [OF b(2)])
  then have "mailbox_ok L P impl B C w' ?box" using r assms b by (simp add: mailbox_ok_def)
  moreover have "newMailbox ?D w name (Some h) addrs = Ret (w', Inr ?box)" using r(1) by (simp add: newMailbox_def)
  ultimately show ?thesis
    using r(3) b
    by (auto simp: Messages_def messages_def Recent_def Unseen_def box_NextUID_def refreshed_def)
qed

text \<open>
  Saving a changed message under its uid (as IMAP does when flags change) replaces exactly that message: the
  uids of the mailbox stay the same, the counters follow the new flags, and a fetch returns the new version.
\<close>

theorem mailbox_save_replaces:
  assumes "mailbox_ok L P impl B C w box" "seq_small (uids box)" "i \<in> set (uids box)"
    and "storable store_fits (store_deps L P impl B C) msg enc" "Imap msg = Some d" "UID d = i"
  shows "\<exists>w' box' b. saveBitmessage (store_deps L P impl B C) w box msg = Ret (w', box', msg, None) \<and>
    mailbox_ok L P impl B C w' box' \<and> uids box' = uids box \<and>
    store_msgs B C w' (mbox box') = (store_msgs B C w (mbox box))(i \<mapsto> (2, enc)) \<and>
    BitmessageByUID (store_deps L P impl B C) w' box' i = Ret (box', Some b) \<and> b\<lparr>Imap := None\<rparr> = (stored msg)\<lparr>Imap := None\<rparr> \<and>
    map_option Flags (Imap b) = Some (Flags d)"
proof -
  let ?D = "store_deps L P impl B C" and ?M = "store_msgs B C w (mbox box)"
  note ok = mailbox_okD [OF assms(1)]
  note L = mb.saveBitmessage_replace [where L = L and P = P and impl = impl, unfolded ok(1)]
    mb.bmsgByUID_ok [where L = L and P = P and impl = impl, unfolded ok(1)]
    mb.storable_mail [where L = L and P = P and impl = impl, unfolded ok(1)]
  have i: "i \<in> ids_of ?M 2" using assms(3) synced_uids [OF ok(4)] by simp
  then have "UID d \<in> dom ?M" using assms(6) by (auto simp: ids_of_def)
  from L(1) [OF ok(2,3,5) assms(4,5) this] obtain w' box' where
    s: "saveBitmessage ?D w box msg = Ret (w', box', msg, None)" "store_inv B C w' (mbox box')"
       "store_msgs B C w' (mbox box') = ?M(i \<mapsto> (2, enc))" "synced ?D (store_msgs B C w' (mbox box')) box'"
       "readable ?D (store_msgs B C w' (mbox box'))"
    using assms(6) by blast
  have "insert i (ids_of ?M 2) = ids_of ?M 2" using i by auto
  then have u: "uids box' = uids box" using synced_uids [OF s(4)] synced_uids [OF ok(4)] by (simp add: s(3) ids_of_upd)
  have "mailbox_ok L P impl B C w' box'" using assms(1) s by (simp add: mailbox_ok_def)
  moreover have "\<exists>b. shown ?D (b_name box') (store_msgs B C w' (mbox box')) i = Some b \<and>
      b\<lparr>Imap := None\<rparr> = (stored msg)\<lparr>Imap := None\<rparr> \<and> map_option Flags (Imap b) = Some (Flags d)"
    using L(3) [OF assms(4)] assms(5) by (simp add: shown_def s(3) stored_def)
  moreover have "BitmessageByUID ?D w' box' i = Ret (box', shown ?D (b_name box') (store_msgs B C w' (mbox box')) i)"
    using L(2) [OF s(2,4,5)] u assms(2) by (simp add: BitmessageByUID_def)
  ultimately show ?thesis using s(1,3) u by auto
qed

text \<open>
  \<open>MessageSetBySequenceNumber\<close> takes the uid found at a sequence number as the next sequence number: a request
  for one message whose uid is larger than the number of messages (there was a deletion before it) panics.
\<close>

theorem set_by_sequence_number_panics:
  assumes "\<not> sn_Last mn" "sn_Value mn = Inr n" "sn_Nil mx" "1 \<le> n" "n \<le> messages box"
    and "length (uids box) < 2 ^ 32" "messages box < ucast (uids box ! unat (n - 1))"
  shows "MessageSetBySequenceNumber D w box [(mn, mx)] = Panic"
proof -
  have m: "unat (messages box) = length (uids box)" using assms(6) by (simp add: messages_def unat_of_nat_u32)
  have n: "unat (n - 1) < length (uids box)"
    using assms(4,5) m by (simp add: unat_sub word_le_nat_alt)
  have "messages box \<noteq> 0" using n m by (metis less_nat_zero_code unat_0)
  moreover have "bitmessageBySequenceNumber D w box (ucast (uids box ! unat (n - 1))) = Ret (box, None)"
    using assms(7) by (simp add: bitmessageBySequenceNumber_def)
  ultimately show ?thesis
    using assms n
    by (auto simp: MessageSetBySequenceNumber_def bitmessageSetBySequenceNumber_def Messages_def Let_def
        word_le_nat_alt word_less_nat_alt)
qed

section \<open>Witnesses\<close>

text \<open>A codec of one structure, which decodes every byte string to it.\<close>

definition one_codec :: "pb_Message \<Rightarrow> string codec" where
  "one_codec q = (table_codec [q])\<lparr>Unmarshal := (\<lambda>_. Inr (pb_norm q))\<rparr>"

lemma one_codec_ok: "codec_ok (one_codec q)"
  using codec_ok_table [of "[q]"] by (auto simp: codec_ok_def one_codec_def table_codec_def)

definition recent_pb :: pb_Message where
  "recent_pb = demo_pb\<lparr>pb_ImapData := Some \<lparr>pb_TimeReceived = PutUint64 (t_sec (clock demo_world 0)), pb_Flags = 32\<rparr>\<rparr>"

abbreviation demo_deps :: "(refdb world, store_folder, string) deps" where
  "demo_deps \<equiv> store_deps ref_mail (one_codec recent_pb) (\<lambda>_. 0) ref_bolt ref_crypto"

lemma demo_mail_of: "mail_of demo_deps m \<noteq> None"
  by (auto simp: mail_of_def store_deps_def one_codec_def table_codec_def decodeBitmessage_def recent_pb_def demo_pb_def
      pb_norm_def nil_if_empty_def decode_encoding_def decode_imap_def decode_state_def decode_object_def ref_mail_def Let_def)

lemma demo_readable: "readable demo_deps M"
  using demo_mail_of by (auto simp: readable_def)

lemma ref_flags_ok: "flags_ok ref_mail"
  by (simp add: flags_ok_def ref_mail_def)

abbreviation demo_msgs :: folder_map where
  "demo_msgs \<equiv> store_msgs ref_bolt ref_crypto demo_world demo_folder"

definition demo_box :: "(store_folder, string) mailbox" where
  "demo_box = refreshed demo_deps demo_msgs 5 (box_of ''Inbox'' demo_folder Map.empty False)"

lemma demo_ids: "ids_of demo_msgs 2 = {1, 3, 4}"
  by (auto simp: demo_inv(2) ids_of_def split: if_splits)

lemma demo_box_fields [simp]: "mbox demo_box = demo_folder" "b_name demo_box = ''Inbox''" "uids demo_box = [1, 3, 4]"
  by (simp_all add: demo_box_def box_of_def demo_ids)

lemma demo_box_ok: "mailbox_ok ref_mail (one_codec recent_pb) (\<lambda>_. 0) ref_bolt ref_crypto demo_world demo_box"
proof -
  have "synced demo_deps demo_msgs demo_box"
    unfolding demo_box_def by (rule refreshed_synced) (simp add: box_of_def)
  then show ?thesis by (simp add: mailbox_ok_def demo_inv(1) demo_readable ref_flags_ok)
qed

lemma demo_small: "seq_small [1, 3, 4]" "seq_small [1, 3, 4, 5]" "seq_small [1, 4]"
  by (simp_all add: seq_small_def)

lemma demo_next: "NextID (store_Folder ref_bolt ref_crypto) demo_folder = 5"
  by (simp add: store_Folder_def store_NextID_def demo_folder_def)

text \<open>The demonstration message with the flags and the time that a new message gets.\<close>

definition recent_bmail :: Bmail where
  "recent_bmail = demo_bmail\<lparr>Imap := Some \<lparr>UID = 3, SequenceNumber = 2, Flags = 32, TimeReceived = clock demo_world 0,
     Mailbox = Some ''Inbox''\<rparr>\<rparr>"

lemma recent_storable:
  assumes "b = recent_bmail\<lparr>Imap := Some \<lparr>UID = u, SequenceNumber = n, Flags = 32, TimeReceived = clock demo_world 0, Mailbox = x\<rparr>\<rparr>"
  shows "storable store_fits demo_deps b (be 4 0)"
proof -
  have "store_fits (be 4 0)" by (rule demo_fits) simp
  moreover have "t_zone (clock demo_world 0) = None" by (simp add: ref_world_def ref_env_def)
  then have "times_ok ref_mail b"
    by (simp add: times_ok_def assms recent_bmail_def demo_bmail_def dated_ref zero_time_def new_state_def)
  moreover have "serializeBitmessage ref_mail (one_codec recent_pb) b None = Ret (Inr (be 4 0))"
    by (simp add: assms recent_bmail_def demo_bmail_def
        zero_time_def new_state_def serializeBitmessage_def one_codec_def table_codec_def recent_pb_def demo_pb_def
        position_def ref_mail_def Let_def)
  ultimately show ?thesis
    by (simp add: storable_def store_deps_def one_codec_ok has_body_def assms recent_bmail_def demo_bmail_def)
qed

theorem mailbox_add_fetch_witness:
  "\<exists>w' box' b'. AddNew demo_deps demo_world demo_box demo_bmail 32 = Ret (w', box', b', None) \<and>
    uids box' = [1, 3, 4, 5] \<and>
    (\<exists>b. BitmessageByUID demo_deps w' box' 5 = Ret (box', Some b) \<and> Payload b = Some (Encoding2 ''hi'' ''text''))"
proof -
  have t: "tick demo_world = 0" by (simp add: ref_world_def)
  have s: "storable store_fits demo_deps (prepared demo_world demo_box demo_bmail 32) (be 4 0)"
    by (rule recent_storable) (simp add: prepared_def recent_bmail_def demo_bmail_def t)
  have p: "Payload (stored (prepared demo_world demo_box demo_bmail 32)) = Some (Encoding2 ''hi'' ''text'')"
    by (simp add: stored_def prepared_def demo_bmail_def)
  have n: "NextID (store_Folder ref_bolt ref_crypto) (mbox demo_box) = 5" by (simp add: demo_next)
  from mailbox_add_fetch [OF demo_box_ok n _ s] show ?thesis
    by (auto simp: demo_small p)
qed

theorem mailbox_delete_witness:
  "\<exists>w' box'. DeleteBitmessageByUID demo_deps demo_world demo_box 3 = Ret (w', box', None) \<and> uids box' = [1, 4] \<and>
    BitmessageByUID demo_deps w' box' 3 = Ret (box', None)"
  using mailbox_delete [OF demo_box_ok, of 3] by (auto simp: demo_small)

theorem newMailbox_counts_witness:
  "\<exists>w' box. newMailbox demo_deps demo_world ''Inbox'' (Some demo_folder) Map.empty = Ret (w', Inr box) \<and>
    Messages box = 3 \<and> box_NextUID box = 5"
  using newMailbox_counts [OF demo_inv(1) ref_flags_ok demo_readable, of "''Inbox''" Map.empty]
  by (auto simp: demo_ids demo_next)

theorem mailbox_save_replaces_witness:
  "\<exists>w' box'. saveBitmessage demo_deps demo_world demo_box recent_bmail = Ret (w', box', recent_bmail, None) \<and>
    uids box' = [1, 3, 4]"
proof -
  have s: "storable store_fits demo_deps recent_bmail (be 4 0)"
    by (rule recent_storable) (simp add: recent_bmail_def)
  have i: "Imap recent_bmail = Some \<lparr>UID = 3, SequenceNumber = 2, Flags = 32, TimeReceived = clock demo_world 0,
     Mailbox = Some ''Inbox''\<rparr>" by (simp add: recent_bmail_def)
  from mailbox_save_replaces [OF demo_box_ok _ _ s i, of 3] show ?thesis by (auto simp: demo_small)
qed

theorem set_by_sequence_number_panics_witness:
  "MessageSetBySequenceNumber demo_deps demo_world demo_box
     [(\<lparr>sn_Last = False, sn_Nil = False, sn_Value = Inr 3\<rparr>, \<lparr>sn_Last = False, sn_Nil = True, sn_Value = Inr 0\<rparr>)] = Panic"
  by (rule set_by_sequence_number_panics [where n = 3]) (simp_all add: messages_def)

end
