(* ===== verification/Broadcasts.thy ===== *)
theory Broadcasts
  imports World Bmutil
begin

text \<open>
  The broadcast addresses a user listens to, src/store/broadcasts.go: a bucket with the addresses
  as keys and a copy of the decoded addresses in memory.  The bucket is inside a bucket with the
  user's bare name, not in the user's own bucket.
\<close>

section \<open>Model\<close>

definition broadcastAddressesBucket :: bytes where "broadcastAddressesBucket = ''broadcastAddresses''"

record 'a BroadcastAddresses =
  b_username :: bytes
  addrs :: "'a list"

definition bc_path :: "bytes \<Rightarrow> path" where
  "bc_path username = [username, broadcastAddressesBucket]"

fun bc_load :: "'a bmutil \<Rightarrow> entry list \<Rightarrow> 'a list \<Rightarrow> 'a list \<times> error option" where
  "bc_load U [] acc = (acc, None)"
| "bc_load U ((k, _) # es) acc =
     (case DecodeAddress U k of Inl e \<Rightarrow> (acc, Some e) | Inr a \<Rightarrow> bc_load U es (acc @ [a]))"

definition newBroadcastsStore ::
  "'db bolt \<Rightarrow> 'a bmutil \<Rightarrow> 'db world \<Rightarrow> string \<Rightarrow> ('db world \<times> (error + 'a BroadcastAddresses)) go" where
  "newBroadcastsStore B U w username =
     go_bind (db_Update B w [] (\<lambda>w tx as.
         case CreateBucketIfNotExists B tx [] username of
           Inl e \<Rightarrow> Ret (w, tx, as, Some e)
         | Inr tx1 \<Rightarrow>
             (case CreateBucketIfNotExists B tx1 [username] broadcastAddressesBucket of
                Inl e \<Rightarrow> Ret (w, tx1, as, Some e)
              | Inr tx2 \<Rightarrow>
                  (case bc_load U (Cursor B tx2 (bc_path username)) as of
                     (as', e) \<Rightarrow> Ret (w, tx2, as', e)))))
       (\<lambda>(w', as, e). case e of
          Some e \<Rightarrow> Ret (w', Inl e)
        | None \<Rightarrow> Ret (w', Inr \<lparr>b_username = username, addrs = as\<rparr>))"

definition bc_Add ::
  "'db bolt \<Rightarrow> 'a bmutil \<Rightarrow> 'db world \<Rightarrow> 'a BroadcastAddresses \<Rightarrow> string \<Rightarrow>
    ('db world \<times> 'a BroadcastAddresses \<times> error option) go" where
  "bc_Add B U w b address =
     (case DecodeAddress U address of
        Inl e \<Rightarrow> Ret (w, b, Some e)
      | Inr addr \<Rightarrow>
          go_bind (db_Update B w () (\<lambda>w tx _.
            on_bucket B tx [b_username b] (on_bucket B tx (bc_path (b_username b))
              (case Put B tx (bc_path (b_username b)) address [] of
                 Inl e \<Rightarrow> Ret (w, tx, (), Some e)
               | Inr tx1 \<Rightarrow> Ret (w, tx1, (), None)))))
          (\<lambda>(w', _, e). case e of
             Some e \<Rightarrow> Ret (w', b, Some e)
           | None \<Rightarrow> Ret (w', b\<lparr>addrs := addrs b @ [addr]\<rparr>, None)))"

fun remove_ripe :: "'a bmutil \<Rightarrow> 'a \<Rightarrow> 'a list \<Rightarrow> 'a list" where
  "remove_ripe U a [] = []"
| "remove_ripe U a (t # ts) = (if RipeHash U t = RipeHash U a then ts else t # remove_ripe U a ts)"

text \<open>\<open>Remove\<close> deletes from the bucket \<open>broadcastAddresses\<close> at the top level.\<close>

definition bc_Remove ::
  "'db bolt \<Rightarrow> 'a bmutil \<Rightarrow> 'db world \<Rightarrow> 'a BroadcastAddresses \<Rightarrow> string \<Rightarrow>
    ('db world \<times> 'a BroadcastAddresses \<times> error option) go" where
  "bc_Remove B U w b address =
     (case DecodeAddress U address of
        Inl e \<Rightarrow> Ret (w, b, Some e)
      | Inr addr \<Rightarrow>
          go_bind (db_Update B w () (\<lambda>w tx _.
            on_bucket B tx [b_username b] (on_bucket B tx (bc_path (b_username b))
              (if Get B tx (bc_path (b_username b)) address = None
               then Ret (w, tx, (), Some ErrNotFound)
               else on_bucket B tx [broadcastAddressesBucket]
                 (case Delete B tx [broadcastAddressesBucket] address of
                    Inl e \<Rightarrow> Ret (w, tx, (), Some e)
                  | Inr tx1 \<Rightarrow> Ret (w, tx1, (), None))))))
          (\<lambda>(w', _, e). case e of
             Some e \<Rightarrow> Ret (w', b, Some e)
           | None \<Rightarrow> Ret (w', b\<lparr>addrs := remove_ripe U addr (addrs b)\<rparr>, None)))"

fun bc_ForEach :: "('s \<Rightarrow> 'a \<Rightarrow> ('s \<times> error option) go) \<Rightarrow> 's \<Rightarrow> 'a list \<Rightarrow> ('s \<times> error option) go" where
  "bc_ForEach f s [] = Ret (s, None)"
| "bc_ForEach f s (a # as) =
     go_bind (f s a) (\<lambda>(s', e). case e of Some e \<Rightarrow> Ret (s', Some e) | None \<Rightarrow> bc_ForEach f s' as)"

section \<open>The stored addresses\<close>

definition bc_keys :: "'a bmutil \<Rightarrow> (bytes \<rightharpoonup> bytes option) \<Rightarrow> 'a set" where
  "bc_keys U m = {a. \<exists>k \<in> dom m. DecodeAddress U k = Inr a}"

text \<open>The bucket of the user exists and holds addresses only.\<close>

definition bc_inv :: "'db bolt \<Rightarrow> 'a bmutil \<Rightarrow> 'db world \<Rightarrow> bytes \<Rightarrow> (bytes \<rightharpoonup> bytes option) \<Rightarrow> bool" where
  "bc_inv B U w username m \<longleftrightarrow>
     bolt_ok B \<and> bolt_live B \<and> \<not> rwtx (wdb w) \<and> opened (wdb w) \<and>
     obs B (content (wdb w)) (bc_path username) = Some m \<and>
     (\<forall>k v. m k = Some v \<longrightarrow> v \<noteq> None \<and> (\<exists>a. DecodeAddress U k = Inr a))"

lemma bc_buckets:
  assumes "bc_inv B U w u m"
  shows "Bucket B (content (wdb w)) (bc_path u)" "Bucket B (content (wdb w)) [u]"
    "map_of (Cursor B (content (wdb w)) []) u = Some None"
    "map_of (Cursor B (content (wdb w)) [u]) broadcastAddressesBucket = Some None"
proof -
  have ok: "bolt_ok B" and o: "obs B (content (wdb w)) (bc_path u) = Some m"
    using assms by (simp_all add: bc_inv_def)
  show 1: "Bucket B (content (wdb w)) (bc_path u)" by (rule obs_Bucket [OF o])
  from bolt_nested [OF ok, of _ "[u]" broadcastAddressesBucket] 1
  show 2: "Bucket B (content (wdb w)) [u]"
    "map_of (Cursor B (content (wdb w)) [u]) broadcastAddressesBucket = Some None"
    by (simp_all add: bc_path_def)
  from bolt_nested [OF ok, of _ "[]" u] 2(1)
  show "map_of (Cursor B (content (wdb w)) []) u = Some None" by simp
qed

lemma bc_load_eq:
  assumes "\<And>k v. (k, v) \<in> set es \<Longrightarrow> \<exists>a. DecodeAddress U k = Inr a"
  shows "bc_load U es acc = (acc @ map (\<lambda>(k, _). projr (DecodeAddress U k)) es, None)"
  using assms
proof (induction es arbitrary: acc)
  case (Cons kv es)
  obtain k v where kv: "kv = (k, v)" by (cases kv)
  with Cons.prems [of k v] obtain a where "DecodeAddress U k = Inr a" by auto
  moreover have "bc_load U es (acc @ [projr (DecodeAddress U k)]) = ((acc @ [projr (DecodeAddress U k)]) @
      map (\<lambda>(k, _). projr (DecodeAddress U k)) es, None)"
    by (rule Cons.IH) (use Cons.prems in auto)
  ultimately show ?case using kv by simp
qed simp

text \<open>Opening the store reads the addresses back, in the order of the keys, and changes nothing.\<close>

lemma newBroadcastsStore_open:
  assumes inv: "bc_inv B U w u m"
  shows "\<exists>b. newBroadcastsStore B U w u = Ret (w, Inr b) \<and> b_username b = u \<and> set (addrs b) = bc_keys U m"
proof -
  let ?c = "content (wdb w)" and ?es = "Cursor B (content (wdb w)) (bc_path u)"
  have ok: "bolt_ok B" "bolt_live B" "\<not> rwtx (wdb w)" "opened (wdb w)"
    and m: "obs B ?c (bc_path u) = Some m" "\<And>k v. m k = Some v \<Longrightarrow> \<exists>a. DecodeAddress U k = Inr a"
    using inv by (auto simp: bc_inv_def)
  note b = bc_buckets [OF inv]
  have mem: "(k, v) \<in> set ?es \<longleftrightarrow> m k = Some v" for k v
    using sorted_keys_distinct [OF bolt_Cursor_sorted [OF ok(1)]] obs_Cursor [OF m(1)]
    by (auto simp: map_of_eq_Some_iff)
  obtain m0 m1 where o: "obs B ?c [] = Some m0" "obs B ?c [u] = Some m1"
      "m0 u = Some None" "m1 broadcastAddressesBucket = Some None"
    using b bolt_root [OF ok(1)] by (auto simp: obs_def)
  have c: "CreateBucketIfNotExists B ?c [] u = Inr ?c"
      "CreateBucketIfNotExists B ?c [u] broadcastAddressesBucket = Inr ?c"
    using bolt_CreateBucketIfNotExists [OF ok(1) o(1)] bolt_CreateBucketIfNotExists [OF ok(1) o(2)] o(3,4)
    by simp_all
  have l: "bc_load U ?es [] = ([] @ map (\<lambda>(k, _). projr (DecodeAddress U k)) ?es, None)"
    by (rule bc_load_eq) (use m(2) mem in blast)
  have "set (map (\<lambda>(k, _). projr (DecodeAddress U k)) ?es) = bc_keys U m"
  proof (intro set_eqI iffI)
    fix a assume "a \<in> set (map (\<lambda>(k, _). projr (DecodeAddress U k)) ?es)"
    then obtain k v where "(k, v) \<in> set ?es" "a = projr (DecodeAddress U k)" by auto
    with mem m(2) [of k v] show "a \<in> bc_keys U m" by (force simp: bc_keys_def)
  next
    fix a assume "a \<in> bc_keys U m"
    then obtain k v where "m k = Some v" "DecodeAddress U k = Inr a" by (auto simp: bc_keys_def)
    with mem show "a \<in> set (map (\<lambda>(k, _). projr (DecodeAddress U k)) ?es)" by force
  qed
  with l c ok show ?thesis
    by (simp add: newBroadcastsStore_def db_Update_run)
qed

lemma bc_add:
  assumes inv: "bc_inv B U w (b_username b) m" and a: "DecodeAddress U address = Inr a"
    and s: "address \<noteq> []" "length address \<le> MaxKeySize"
  shows "\<exists>w'. bc_Add B U w b address = Ret (w', b\<lparr>addrs := addrs b @ [a]\<rparr>, None) \<and>
    bc_inv B U w' (b_username b) (m(address \<mapsto> Some []))"
proof -
  let ?c = "content (wdb w)" and ?P = "bc_path (b_username b)"
  have ok: "bolt_ok B" "bolt_live B" "\<not> rwtx (wdb w)" "opened (wdb w)"
    and m: "obs B ?c ?P = Some m" "m address \<noteq> Some None"
    using inv by (auto simp: bc_inv_def)
  note b = bc_buckets [OF inv]
  have "length [] \<le> MaxValueSize" by simp
  from put_step [OF ok(1) m(1) _ m(2) s this] obtain tx where tx: "Put B ?c ?P address [] = Inr tx"
    "obs B tx = (obs B ?c)(?P \<mapsto> m(address \<mapsto> Some []))" by (auto simp: bc_path_def)
  have "bc_Add B U w b address = Ret (w\<lparr>wdb := (wdb w)\<lparr>content := tx\<rparr>\<rparr>, b\<lparr>addrs := addrs b @ [a]\<rparr>, None)"
    using ok b tx(1) a by (simp add: bc_Add_def db_Update_run on_bucket_def)
  moreover have "bc_inv B U (w\<lparr>wdb := (wdb w)\<lparr>content := tx\<rparr>\<rparr>) (b_username b) (m(address \<mapsto> Some []))"
    using inv tx(2) a by (simp add: bc_inv_def)
  ultimately show ?thesis by blast
qed

section \<open>Properties\<close>

text \<open>
  A broadcast address that was added is kept: \<open>Add\<close> succeeds on every address that decodes,
  and loading the store again gives the addresses that were there before and the new one.
\<close>

theorem broadcast_Add_persists:
  assumes "bc_inv B U w (b_username b) m" "DecodeAddress U address = Inr a"
    and "address \<noteq> []" "length address \<le> MaxKeySize"
  shows "\<exists>w' b0 b1. newBroadcastsStore B U w (b_username b) = Ret (w, Inr b0) \<and>
    bc_Add B U w b address = Ret (w', b\<lparr>addrs := addrs b @ [a]\<rparr>, None) \<and>
    newBroadcastsStore B U w' (b_username b) = Ret (w', Inr b1) \<and>
    set (addrs b1) = insert a (set (addrs b0))"
proof -
  from newBroadcastsStore_open [OF assms(1)] obtain b0 where b0:
    "newBroadcastsStore B U w (b_username b) = Ret (w, Inr b0)" "set (addrs b0) = bc_keys U m" by blast
  from bc_add [OF assms] obtain w' where w':
    "bc_Add B U w b address = Ret (w', b\<lparr>addrs := addrs b @ [a]\<rparr>, None)"
    "bc_inv B U w' (b_username b) (m(address \<mapsto> Some []))" by blast
  from newBroadcastsStore_open [OF w'(2)] obtain b1 where b1:
    "newBroadcastsStore B U w' (b_username b) = Ret (w', Inr b1)"
    "set (addrs b1) = bc_keys U (m(address \<mapsto> Some []))" by blast
  have "bc_keys U (m(address \<mapsto> Some [])) = insert a (bc_keys U m)"
    using assms(2) by (auto simp: bc_keys_def)
  with b0 b1 w' show ?thesis by auto
qed

definition bc_demo_db :: refdb where
  "bc_demo_db = (\<lambda>p. if p = [] then [(''bob'', None)]
     else if p = [''bob''] then [(''broadcastAddresses'', None)]
     else if p = [''bob'', ''broadcastAddresses''] then [(''BM-a'', Some [])] else [])"

lemma bc_demo_inv: "bc_inv ref_bolt ref_bmutil (ref_world bc_demo_db) ''bob'' [''BM-a'' \<mapsto> Some []]"
proof -
  have "obs ref_bolt bc_demo_db (bc_path ''bob'') = Some [''BM-a'' \<mapsto> Some []]"
    by (simp add: obs_ref ref_Bucket_def bc_demo_db_def bc_path_def broadcastAddressesBucket_def upt_rec)
  then show ?thesis
    using bolt_ok_ref bolt_live_ref by (auto simp: bc_inv_def ref_world_def ref_bmutil_def split: if_splits)
qed

theorem broadcast_Add_persists_witness:
  "\<exists>w' b1. bc_Add ref_bolt ref_bmutil (ref_world bc_demo_db) \<lparr>b_username = ''bob'', addrs = [''a'']\<rparr> ''BM-b'' =
      Ret (w', \<lparr>b_username = ''bob'', addrs = [''a'', ''b'']\<rparr>, None) \<and>
    newBroadcastsStore ref_bolt ref_bmutil w' ''bob'' = Ret (w', Inr b1) \<and> ''b'' \<in> set (addrs b1)"
  using broadcast_Add_persists [of ref_bolt ref_bmutil "ref_world bc_demo_db"
      "\<lparr>b_username = ''bob'', addrs = [''a'']\<rparr>" _ "''BM-b''" "''b''"] bc_demo_inv
  by (fastforce simp: ref_bmutil_def MaxKeySize_def)

text \<open>
  \<open>Remove\<close> never removes anything: it returns an error for a string that does not decode and
  \<open>ErrNotFound\<close> for an address that is not stored, and for an address that is stored it panics, since
  it looks for the addresses in a top-level bucket that does not exist.
\<close>

theorem broadcast_Remove_panics:
  assumes "bc_inv B U w (b_username b) m" "\<not> Bucket B (content (wdb w)) [broadcastAddressesBucket]"
  shows "bc_Remove B U w b address =
    (case DecodeAddress U address of
       Inl e \<Rightarrow> Ret (w, b, Some e)
     | Inr a \<Rightarrow> if m address = None then Ret (w, b, Some ErrNotFound) else Panic)"
proof -
  have ok: "bolt_ok B" "bolt_live B" "\<not> rwtx (wdb w)" "opened (wdb w)"
    and m: "obs B (content (wdb w)) (bc_path (b_username b)) = Some m"
      "\<And>k v. m k = Some v \<Longrightarrow> v \<noteq> None"
    using assms(1) by (auto simp: bc_inv_def)
  have "(Get B (content (wdb w)) (bc_path (b_username b)) address = None) = (m address = None)"
    using bolt_Get [OF ok(1) m(1), of address] m(2) [of address] by (auto split: option.splits)
  with ok bc_buckets [OF assms(1)] assms(2) show ?thesis
    by (simp add: bc_Remove_def db_Update_run on_bucket_def split: sum.split)
qed

theorem broadcast_Remove_panics_witness:
  "bc_Remove ref_bolt ref_bmutil (ref_world bc_demo_db) \<lparr>b_username = ''bob'', addrs = [''a'']\<rparr> ''BM-a'' = Panic"
proof -
  have "\<not> Bucket ref_bolt (content (wdb (ref_world bc_demo_db))) [broadcastAddressesBucket]"
    by (simp add: ref_bolt_def ref_Bucket_def ref_world_def bc_demo_db_def broadcastAddressesBucket_def)
  with broadcast_Remove_panics [of ref_bolt ref_bmutil "ref_world bc_demo_db"
      "\<lparr>b_username = ''bob'', addrs = [''a'']\<rparr>" _ "''BM-a''"] bc_demo_inv
  show ?thesis by (simp add: ref_bmutil_def)
qed

end
