(* ===== verification/Mem_Folder.thy ===== *)
theory Mem_Folder
  imports Folder_Spec
begin

text \<open>
  The in-memory folders of src/store/data/folder.go: \<open>memFolder\<close> with its cached highest ids, and
  the set of named folders \<open>memFolders\<close>.  \<open>memFolder\<close> satisfies the contract \<open>folder\<close> and the one
  on the highest ids; its iteration is in the order of the runtime's map, which the environment
  gives.
\<close>

section \<open>Model\<close>

record message =
  payload :: bytes
  suffix :: u64

record memFolder =
  lastIndex :: u64
  nextIndex :: u64
  lastIndexBySuffix :: "u64 \<rightharpoonup> u64"
  messages :: "u64 \<rightharpoonup> message"

definition newMemFolder :: memFolder where
  "newMemFolder = \<lparr>lastIndex = 0, nextIndex = 1, lastIndexBySuffix = Map.empty, messages = Map.empty\<rparr>"

text \<open>Reading a missing key of a Go map gives the zero value.\<close>

definition map_default :: "(u64 \<rightharpoonup> u64) \<Rightarrow> u64 \<Rightarrow> u64" where
  "map_default m k = (case m k of None \<Rightarrow> 0 | Some v \<Rightarrow> v)"

definition mem_NextID :: "memFolder \<Rightarrow> u64" where
  "mem_NextID f = nextIndex f"

definition mem_LastID :: "memFolder \<Rightarrow> u64 \<times> (u64 \<rightharpoonup> u64)" where
  "mem_LastID f = (lastIndex f, lastIndexBySuffix f)"

definition updateLast :: "memFolder \<Rightarrow> u64 \<Rightarrow> u64 \<Rightarrow> memFolder" where
  "updateLast f i sfx =
     (if lastIndex f < i
      then f\<lparr>lastIndex := i, lastIndexBySuffix := (lastIndexBySuffix f)(sfx \<mapsto> i)\<rparr>
      else if map_default (lastIndexBySuffix f) sfx < i
      then f\<lparr>lastIndexBySuffix := (lastIndexBySuffix f)(sfx \<mapsto> i)\<rparr>
      else f)"

definition mem_InsertNewMessage ::
  "memFolder \<Rightarrow> bytes option \<Rightarrow> u64 \<Rightarrow> memFolder \<times> (error + u64)" where
  "mem_InsertNewMessage f msg sfx =
     (case msg of
        None \<Rightarrow> (f, Inl (ErrText ''Nil message inserted.''))
      | Some m \<Rightarrow>
          let i = nextIndex f;
              f1 = f\<lparr>messages := (messages f)(i \<mapsto> \<lparr>payload = m, suffix = sfx\<rparr>)\<rparr>;
              f2 = updateLast f1 (nextIndex f1) sfx
          in (f2\<lparr>nextIndex := nextIndex f2 + 1\<rparr>, Inr i))"

definition mem_InsertMessage ::
  "memFolder \<Rightarrow> u64 \<Rightarrow> bytes option \<Rightarrow> u64 \<Rightarrow> memFolder \<times> error option" where
  "mem_InsertMessage f i msg sfx =
     (if i = 0 \<or> nextIndex f \<le> i then (f, Some ErrInvalidID)
      else case msg of
        None \<Rightarrow> (f, Some (ErrText ''Nil message inserted.''))
      | Some m \<Rightarrow>
          if messages f i \<noteq> None then (f, Some ErrDuplicateID)
          else let f1 = updateLast f i sfx
               in (f1\<lparr>messages := (messages f1)(i \<mapsto> \<lparr>payload = m, suffix = sfx\<rparr>)\<rparr>, None))"

definition mem_GetMessage :: "memFolder \<Rightarrow> u64 \<Rightarrow> error + u64 \<times> bytes" where
  "mem_GetMessage f i =
     (if i = 0 \<or> nextIndex f \<le> i then Inl ErrNotFound
      else case messages f i of None \<Rightarrow> Inl ErrNotFound | Some m \<Rightarrow> Inr (suffix m, payload m))"

text \<open>
  The loop of \<open>DeleteMessage\<close>, \<open>for k := id - 1; k > 0; k--\<close>: the flag says whether the
  function has returned from inside the loop.
\<close>

fun mem_delete_scan :: "nat \<Rightarrow> u64 \<Rightarrow> u64 \<Rightarrow> memFolder \<Rightarrow> memFolder \<times> bool" where
  "mem_delete_scan 0 i sfx f = (f, False)"
| "mem_delete_scan (Suc n) i sfx f =
     (case messages f (of_nat (Suc n)) of
        None \<Rightarrow> mem_delete_scan n i sfx f
      | Some m \<Rightarrow>
          let k = of_nat (Suc n);
              f1 = (if i = lastIndex f then f\<lparr>lastIndex := k\<rparr> else f)
          in if suffix m = sfx
             then (f1\<lparr>lastIndexBySuffix := (lastIndexBySuffix f1)(sfx \<mapsto> k)\<rparr>, True)
             else mem_delete_scan n i sfx f1)"

definition mem_DeleteMessage :: "memFolder \<Rightarrow> u64 \<Rightarrow> memFolder \<times> error option" where
  "mem_DeleteMessage f i =
     (if i = 0 \<or> nextIndex f \<le> i then (f, Some ErrInvalidID)
      else case messages f i of
        None \<Rightarrow> (f, Some ErrNotFound)
      | Some m \<Rightarrow>
          let sfx = suffix m;
              f1 = f\<lparr>messages := (messages f)(i := None)\<rparr>
          in if map_default (lastIndexBySuffix f1) sfx \<noteq> i then (f1, None)
             else case mem_delete_scan (unat (i - 1)) i sfx f1 of
                (f2, True) \<Rightarrow> (f2, None)
              | (f2, False) \<Rightarrow>
                  let f3 = f2\<lparr>lastIndexBySuffix := (lastIndexBySuffix f2)(sfx := None)\<rparr>
                  in (if i = lastIndex f3 then f3\<lparr>lastIndex := 0\<rparr> else f3, None))"

text \<open>
  \<open>ForEachMessage\<close>: the loop over the map in the order \<open>ks\<close> of the runtime.  The suffix
  argument is not used by the code.
\<close>

definition mem_visits :: "memFolder \<Rightarrow> u64 list \<Rightarrow> u64 \<Rightarrow> u64 \<Rightarrow> u64 \<Rightarrow> visit list" where
  "mem_visits f ks lo hi sfx =
     concat (map (\<lambda>i. case messages f i of
                   None \<Rightarrow> []
                 | Some m \<Rightarrow> if (hi < i \<and> hi \<noteq> 0) \<or> i < lo then [] else [(i, suffix m, payload m)]) ks)"

definition memFolder_Folder :: "('a env_scheme, memFolder) Folder" where
  "memFolder_Folder =
     \<lparr>InsertNewMessage = (\<lambda>w f m s. case mem_InsertNewMessage f m s of (f', r) \<Rightarrow> Ret (w, f', r)),
      InsertMessage = (\<lambda>w f i m s. case mem_InsertMessage f i m s of (f', r) \<Rightarrow> Ret (w, f', r)),
      GetMessage = (\<lambda>w f i. Ret (mem_GetMessage f i)),
      DeleteMessage = (\<lambda>w f i. case mem_DeleteMessage f i of (f', r) \<Rightarrow> Ret (w, f', r)),
      Visits = (\<lambda>w f lo hi s. case range_keys w (dom (messages f)) of
                  (w', ks) \<Rightarrow> (w', mem_visits f ks lo hi s, Ret None)),
      NextID = mem_NextID,
      LastID = (\<lambda>w f. case mem_LastID f of (l, by) \<Rightarrow> Ret (w, l, by))\<rparr>"

section \<open>Named folders\<close>

text \<open>
  \<open>memFolders\<close> maps names to pointers to folders; the model keeps the pointers (\<open>nat\<close>) and a heap,
  since \<open>Rename\<close> makes two names share one folder.
\<close>

record memFolders =
  mfolders :: "string \<rightharpoonup> nat"
  mheap :: "nat \<rightharpoonup> memFolder"
  mfresh :: nat

definition NewMemFolders :: memFolders where
  "NewMemFolders = \<lparr>mfolders = Map.empty, mheap = Map.empty, mfresh = 0\<rparr>"

definition memFolders_New :: "memFolders \<Rightarrow> string \<Rightarrow> memFolders \<times> (error + nat)" where
  "memFolders_New mf name =
     (if mfolders mf name \<noteq> None then (mf, Inl ErrDuplicateID)
      else let p = mfresh mf
           in (mf\<lparr>mfolders := (mfolders mf)(name \<mapsto> p), mheap := (mheap mf)(p \<mapsto> newMemFolder),
                  mfresh := Suc p\<rparr>, Inr p))"

definition memFolders_Get :: "memFolders \<Rightarrow> string \<Rightarrow> error + nat" where
  "memFolders_Get mf name =
     (case mfolders mf name of None \<Rightarrow> Inl ErrNotFound | Some p \<Rightarrow> Inr p)"

definition memFolders_Rename :: "memFolders \<Rightarrow> string \<Rightarrow> string \<Rightarrow> memFolders \<times> error option" where
  "memFolders_Rename mf name newname =
     (case mfolders mf name of
        None \<Rightarrow> (mf, Some ErrNotFound)
      | Some p \<Rightarrow> (mf\<lparr>mfolders := (mfolders mf)(newname \<mapsto> p)\<rparr>, None))"

definition memFolders_Delete :: "memFolders \<Rightarrow> string \<Rightarrow> memFolders \<times> error option" where
  "memFolders_Delete mf name =
     (case mfolders mf name of
        None \<Rightarrow> (mf, Some ErrNotFound)
      | Some p \<Rightarrow> (mf\<lparr>mfolders := (mfolders mf)(name := None)\<rparr>, None))"

definition memFolders_Names :: "'a env_scheme \<Rightarrow> memFolders \<Rightarrow> 'a env_scheme \<times> string list" where
  "memFolders_Names w mf = range_names w (dom (mfolders mf))"

section \<open>Invariant\<close>

definition msgs_of :: "(u64 \<rightharpoonup> message) \<Rightarrow> u64 \<rightharpoonup> u64 \<times> bytes" where
  "msgs_of M i = map_option (\<lambda>m. (suffix m, payload m)) (M i)"

abbreviation mem_msgs :: "memFolder \<Rightarrow> u64 \<rightharpoonup> u64 \<times> bytes" where
  "mem_msgs f \<equiv> msgs_of (messages f)"

definition mem_inv :: "memFolder \<Rightarrow> bool" where
  "mem_inv f \<longleftrightarrow> finite (dom (messages f)) \<and> nextIndex f \<noteq> 0 \<and>
     (\<forall>i \<in> dom (messages f). valid_id (nextIndex f) i) \<and>
     lastIndex f = last_of (dom (messages f)) \<and>
     lastIndexBySuffix f = last_by_suffix (mem_msgs f)"

section \<open>The cached highest ids\<close>

lemma last_of_empty [simp]: "last_of {} = 0"
  by (simp add: last_of_def)

lemma last_of_nonempty: "K \<noteq> {} \<Longrightarrow> last_of K = Max K"
  by (simp add: last_of_def)

lemma last_of_if: "(if K = {} then 0 else last_of K) = last_of K"
  by simp

lemma last_of_insert:
  "finite K \<Longrightarrow> last_of (insert i K) = (if last_of K < i then i else last_of K)"
  by (cases "K = {}") (auto simp: last_of_nonempty max_def word_gt_0 not_le simp del: Max_less_iff)

lemma last_of_upper: "finite K \<Longrightarrow> i \<in> K \<Longrightarrow> i \<le> last_of K"
  by (cases "K = {}") (simp_all add: last_of_nonempty)

lemma last_of_in: "finite K \<Longrightarrow> K \<noteq> {} \<Longrightarrow> last_of K \<in> K"
  by (simp add: last_of_nonempty)

lemma last_of_mono: "finite K \<Longrightarrow> L \<subseteq> K \<Longrightarrow> last_of L \<le> last_of K"
  using last_of_upper [of K "last_of L"] last_of_in [of L] by (cases "L = {}") auto

lemma last_of_delete_other:
  assumes "finite K" "i \<in> K" "last_of K \<noteq> i"
  shows "last_of (K - {i}) = last_of K"
proof -
  have "last_of K \<in> K - {i}" using last_of_in [of K] assms by auto
  then have "last_of K \<le> last_of (K - {i})" using assms(1) by (simp add: last_of_upper)
  with last_of_mono [of K "K - {i}"] assms(1) show ?thesis by auto
qed

lemma finite_ids_of: "finite (dom M) \<Longrightarrow> finite (ids_of M s)"
  by (rule finite_subset [of _ "dom M"]) (auto simp: ids_of_def)

lemma ids_of_subset: "ids_of M s \<subseteq> dom M"
  by (auto simp: ids_of_def)

lemma ids_of_insert:
  "M i = None \<Longrightarrow> ids_of (M(i \<mapsto> (s, m))) t = (if t = s then insert i (ids_of M t) else ids_of M t)"
  by (auto simp: ids_of_def)

lemma ids_of_delete: "ids_of (M(i := None)) t = ids_of M t - {i}"
  by (auto simp: ids_of_def)

lemma map_default_last_by_suffix: "map_default (last_by_suffix M) s = last_of (ids_of M s)"
  by (simp add: map_default_def last_by_suffix_def)

lemma last_by_suffix_insert:
  assumes "finite (dom M)" "M i = None" "i \<noteq> 0"
  shows "last_by_suffix (M(i \<mapsto> (s, m))) =
    (if last_of (ids_of M s) < i then (last_by_suffix M)(s \<mapsto> i) else last_by_suffix M)"
  using finite_ids_of [OF assms(1), of s] assms(3)
  by (cases "ids_of M s = {}")
     (auto simp: last_by_suffix_def ids_of_insert [of M i, OF assms(2)] last_of_insert fun_eq_iff word_gt_0)

lemma last_by_suffix_delete_other:
  assumes "finite (dom M)" "i \<in> ids_of M s" "last_of (ids_of M s) \<noteq> i"
  shows "last_by_suffix (M(i := None)) = last_by_suffix M"
proof
  fix t
  show "last_by_suffix (M(i := None)) t = last_by_suffix M t"
  proof (cases "t = s")
    case True
    have fin: "finite (ids_of M s)" by (rule finite_ids_of [OF assms(1)])
    moreover have "ids_of M s - {i} \<noteq> {}"
      using last_of_in [OF fin] assms(2,3) by blast
    ultimately show ?thesis
      using last_of_delete_other [OF fin assms(2,3)] True assms(2)
      by (auto simp: last_by_suffix_def ids_of_delete)
  next
    case False
    then have "i \<notin> ids_of M t" using assms(2) by (auto simp: ids_of_def)
    then show ?thesis by (simp add: last_by_suffix_def ids_of_delete)
  qed
qed

lemma dom_msgs_of [simp]: "dom (msgs_of M) = dom M"
  by (auto simp: msgs_of_def)

lemma msgs_of_dom: "msgs_of M i = Some x \<Longrightarrow> i \<in> dom M"
  by (auto simp: msgs_of_def)

lemma msgs_of_update [simp]:
  "msgs_of (M(i \<mapsto> m)) = (msgs_of M)(i \<mapsto> (suffix m, payload m))"
  "msgs_of (M(i := None)) = (msgs_of M)(i := None)"
  by (auto simp: msgs_of_def)

text \<open>\<open>updateLast\<close> brings the caches up to date with one more message.\<close>

lemma updateLast_eq:
  assumes "mem_inv f" "messages f i = None" "i \<noteq> 0"
  shows "updateLast f i s =
    f\<lparr>lastIndex := last_of (insert i (dom (messages f))),
      lastIndexBySuffix := last_by_suffix ((mem_msgs f)(i \<mapsto> (s, m)))\<rparr>"
proof -
  have fin: "finite (dom (mem_msgs f))" and li: "lastIndex f = last_of (dom (messages f))"
    and lb: "lastIndexBySuffix f = last_by_suffix (mem_msgs f)"
    using assms(1) by (simp_all add: mem_inv_def)
  have le: "last_of (ids_of (mem_msgs f) s) \<le> last_of (dom (messages f))"
    using last_of_mono [OF fin ids_of_subset, of s] by simp
  have n: "mem_msgs f i = None" using assms(2) by (simp add: msgs_of_def)
  from fin have "finite (dom (messages f))" by simp
  then show ?thesis
    using le
    by (auto simp: updateLast_def li lb map_default_last_by_suffix last_of_insert
        last_by_suffix_insert [OF fin n assms(3)])
qed

lemma updateLast_messages [simp]:
  "updateLast (f\<lparr>messages := M\<rparr>) i s = (updateLast f i s)\<lparr>messages := M\<rparr>"
  by (simp add: updateLast_def)

lemma updateLast_frame [simp]:
  "messages (updateLast f i s) = messages f" "nextIndex (updateLast f i s) = nextIndex f"
  by (simp_all add: updateLast_def)


section \<open>Deleting\<close>

text \<open>The ids the loop looks at: those below \<open>n + 1\<close>, and among them those with the suffix.\<close>

definition below :: "memFolder \<Rightarrow> nat \<Rightarrow> u64 set" where
  "below f n = {k \<in> dom (messages f). k \<noteq> 0 \<and> unat k \<le> n}"

definition below_sfx :: "memFolder \<Rightarrow> u64 \<Rightarrow> nat \<Rightarrow> u64 set" where
  "below_sfx f s n = below f n \<inter> ids_of (mem_msgs f) s"

lemma below_0 [simp]: "below f 0 = {}"
  by (auto simp: below_def unat_eq_0)

lemma below_Suc:
  assumes "Suc n < 2 ^ 64"
  shows "below f (Suc n) =
    (if of_nat (Suc n) \<in> dom (messages f) then insert (of_nat (Suc n)) (below f n) else below f n)"
proof -
  have u: "unat (of_nat (Suc n) :: u64) = Suc n"
    using assms by (simp add: unat_of_nat_u64 del: of_nat_Suc)
  have "unat k \<le> Suc n \<longleftrightarrow> unat k \<le> n \<or> k = of_nat (Suc n)" for k :: u64
    using u by (metis le_Suc_eq word_unat_eq_iff)
  moreover have "(of_nat (Suc n) :: u64) \<noteq> 0"
    using u by (metis nat.distinct(1) unat_0)
  ultimately show ?thesis by (auto simp: below_def simp del: of_nat_Suc)
qed

lemma below_less: "Suc n < 2 ^ 64 \<Longrightarrow> k \<in> below f n \<Longrightarrow> k < of_nat (Suc n)"
  by (auto simp: below_def word_less_nat_alt unat_of_nat_u64 simp del: of_nat_Suc)

lemma last_of_insert_top: "(\<And>k. k \<in> K \<Longrightarrow> k < i) \<Longrightarrow> last_of (insert i (K :: u64 set)) = i"
  using last_of_in [of K] by (cases "K = {}") (auto simp: last_of_insert word_gt_0)

lemma below_update [simp]:
  "below (f\<lparr>lastIndex := l\<rparr>) n = below f n"
  "below_sfx (f\<lparr>lastIndex := l\<rparr>) s n = below_sfx f s n"
  by (simp_all add: below_def below_sfx_def)

lemma mem_delete_scan_eq:
  assumes "n < unat i"
  shows "mem_delete_scan n i s f =
    (f\<lparr>lastIndex := (if i = lastIndex f \<and> below f n \<noteq> {} then last_of (below f n) else lastIndex f),
       lastIndexBySuffix := (if below_sfx f s n \<noteq> {}
         then (lastIndexBySuffix f)(s \<mapsto> last_of (below_sfx f s n)) else lastIndexBySuffix f)\<rparr>,
     below_sfx f s n \<noteq> {})"
  using assms
proof (induction n arbitrary: f)
  case 0
  then show ?case by (simp add: below_sfx_def)
next
  case (Suc n)
  let ?k = "of_nat (Suc n) :: u64"
  have b: "Suc n < 2 ^ 64" using Suc.prems unsigned_less [of i, where 'a = nat] by simp
  have k: "?k < i" "?k \<noteq> i"
    using Suc.prems b by (auto simp: word_less_nat_alt unat_of_nat_u64 simp del: of_nat_Suc)
  note bs = below_Suc [OF b, of f]
  show ?case
  proof (cases "messages f ?k")
    case None
    then have "below f (Suc n) = below f n" using bs by (simp add: domIff del: of_nat_Suc)
    with None Suc show ?thesis by (simp add: below_sfx_def del: of_nat_Suc)
  next
    case (Some m)
    then have B: "below f (Suc n) = insert ?k (below f n)" using bs by (simp add: domI del: of_nat_Suc)
    have lB: "last_of (insert ?k (below f n)) = ?k"
      by (rule last_of_insert_top) (rule below_less [OF b])
    have S: "below_sfx f s (Suc n) =
        (if suffix m = s then insert ?k (below_sfx f s n) else below_sfx f s n)"
      using Some B by (auto simp: below_sfx_def ids_of_def msgs_of_def simp del: of_nat_Suc)
    have lS: "last_of (insert ?k (below_sfx f s n)) = ?k"
      by (rule last_of_insert_top) (use below_less [OF b] in \<open>auto simp: below_sfx_def\<close>)
    let ?f1 = "if i = lastIndex f then f\<lparr>lastIndex := ?k\<rparr> else f"
    show ?thesis
    proof (cases "suffix m = s")
      case True
      with Some show ?thesis
        by (cases "i = lastIndex f") (simp_all add: Let_def S B lB lS del: of_nat_Suc fun_upd_apply)
    next
      case False
      have "mem_delete_scan (Suc n) i s f = mem_delete_scan n i s ?f1"
        using Some False by (simp add: Let_def del: of_nat_Suc)
      also have "\<dots> = (?f1\<lparr>lastIndex := (if i = lastIndex ?f1 \<and> below ?f1 n \<noteq> {} then last_of (below ?f1 n)
            else lastIndex ?f1),
          lastIndexBySuffix := (if below_sfx ?f1 s n \<noteq> {}
            then (lastIndexBySuffix ?f1)(s \<mapsto> last_of (below_sfx ?f1 s n))
            else lastIndexBySuffix ?f1)\<rparr>, below_sfx ?f1 s n \<noteq> {})"
        by (rule Suc.IH) (use Suc.prems in simp)
      finally show ?thesis
        using False k by (auto simp: S B lB simp del: of_nat_Suc)
    qed
  qed
qed


lemma mem_DeleteMessage_some:
  assumes inv: "mem_inv f" and m: "messages f i = Some m"
  shows "mem_DeleteMessage f i =
    (f\<lparr>messages := (messages f)(i := None), lastIndex := last_of (dom (messages f) - {i}),
       lastIndexBySuffix := last_by_suffix ((mem_msgs f)(i := None))\<rparr>, None)"
proof -
  let ?K = "dom (messages f)" and ?M = "mem_msgs f" and ?s = "suffix m"
  let ?S = "ids_of ?M ?s" and ?f1 = "f\<lparr>messages := (messages f)(i := None)\<rparr>"
  have v: "i \<noteq> 0" "i < nextIndex f" and li: "lastIndex f = last_of ?K"
    and lb: "lastIndexBySuffix f = last_by_suffix ?M"
    and nz: "\<And>k. k \<in> ?K \<Longrightarrow> k \<noteq> 0"
    using inv m by (auto simp: mem_inv_def valid_id_def)
  have iS: "i \<in> ?S" and iK: "i \<in> ?K" using m by (auto simp: ids_of_def msgs_of_def)
  show ?thesis
  proof (cases "last_of ?S = i")
    case False
    have "i < last_of ?S" using last_of_upper [of ?S i] iS False by simp
    also have "last_of ?S \<le> last_of ?K" using last_of_mono [of ?K ?S] ids_of_subset [of ?M] by simp
    finally have "last_of ?K \<noteq> i" by simp
    with False m v iS iK show ?thesis
      by (simp add: mem_DeleteMessage_def lb map_default_last_by_suffix not_le
          last_by_suffix_delete_other last_of_delete_other li)
  next
    case True
    let ?n = "unat (i - 1)"
    have n: "?n < unat i" "\<And>k. unat k \<le> ?n \<longleftrightarrow> k < i"
      using v(1) by (simp_all add: unat_minus_one word_less_nat_alt unat_gt_0) (metis One_nat_def Suc_pred' le_imp_less_Suc less_Suc_eq_le neq0_conv unat_gt_0)+
    have B: "below ?f1 ?n = {k \<in> ?K. k < i}" using nz by (auto simp: below_def n(2))
    have Sb: "k \<in> ?S \<Longrightarrow> k \<noteq> i \<Longrightarrow> k < i" for k
      using last_of_upper [of ?S k] True by simp
    have BS: "below_sfx ?f1 ?s ?n = ?S - {i}"
      using Sb ids_of_subset [of ?M ?s] by (auto simp: below_sfx_def B ids_of_delete)
    have L: "last_by_suffix (?M(i := None)) =
        (if ?S - {i} = {} then (last_by_suffix ?M)(?s := None)
         else (last_by_suffix ?M)(?s \<mapsto> last_of (?S - {i})))"
    proof
      fix t
      have "t \<noteq> ?s \<Longrightarrow> ids_of ?M t - {i} = ids_of ?M t" using iS by (auto simp: ids_of_def)
      then show "last_by_suffix (?M(i := None)) t = (if ?S - {i} = {} then (last_by_suffix ?M)(?s := None)
         else (last_by_suffix ?M)(?s \<mapsto> last_of (?S - {i}))) t"
        by (auto simp: last_by_suffix_def ids_of_delete)
    qed
    define A where "A = {k \<in> ?K. k < i}"
    define R where "R = ?S - {i}"
    have K: "last_of (?K - {i}) = (if i = lastIndex f then last_of A else lastIndex f)"
    proof (cases "i = last_of ?K")
      case True
      have "k \<in> ?K \<Longrightarrow> k \<noteq> i \<Longrightarrow> k < i" for k
        using last_of_upper [of ?K k] True by simp
      then have "?K - {i} = A" by (auto simp: A_def)
      with True show ?thesis by (simp add: li)
    next
      case False
      then show ?thesis using last_of_delete_other [of ?K i] iK by (simp add: li)
    qed
    have ne: "A \<noteq> {} \<Longrightarrow> last_of A \<noteq> i" using last_of_in [of A] by (auto simp: A_def)
    have sub: "A = {} \<Longrightarrow> R = {}"
      using Sb ids_of_subset [of ?M ?s] unfolding A_def R_def dom_msgs_of by blast
    have scan: "mem_delete_scan ?n i ?s ?f1 =
      (?f1\<lparr>lastIndex := (if i = lastIndex f \<and> A \<noteq> {} then last_of A else lastIndex f),
         lastIndexBySuffix := (if R \<noteq> {} then (lastIndexBySuffix f)(?s \<mapsto> last_of R)
           else lastIndexBySuffix f)\<rparr>, R \<noteq> {})"
      unfolding mem_delete_scan_eq [OF n(1), of ?s ?f1] B BS A_def [symmetric] R_def [symmetric]
      by (simp del: fun_upd_apply)
    have g: "mem_DeleteMessage f i = (case mem_delete_scan ?n i ?s ?f1 of
        (f2, True) \<Rightarrow> (f2, None)
      | (f2, False) \<Rightarrow>
          let f3 = f2\<lparr>lastIndexBySuffix := (lastIndexBySuffix f2)(?s := None)\<rparr>
          in (if i = lastIndex f3 then f3\<lparr>lastIndex := 0\<rparr> else f3, None))"
    proof -
      have "\<not> nextIndex f \<le> i" using v(2) by (simp add: not_le)
      with v(1) m True show ?thesis
        unfolding mem_DeleteMessage_def Let_def
        by (simp add: lb map_default_last_by_suffix split: prod.split bool.split)
    qed
    show ?thesis
      unfolding g scan K L lb R_def [symmetric]
      by (cases "i = lastIndex f"; cases "A = {}"; cases "R = {}")
         (use ne sub in \<open>simp_all add: Let_def del: fun_upd_apply\<close>)
  qed
qed

lemma mem_inv_new [simp]: "mem_inv newMemFolder"
  by (simp add: mem_inv_def newMemFolder_def last_by_suffix_def ids_of_def msgs_of_def fun_eq_iff)


section \<open>The contract holds\<close>

lemma mem_InsertNewMessage_some:
  assumes inv: "mem_inv f" and top: "nextIndex f \<noteq> - 1"
  shows "\<exists>f'. mem_InsertNewMessage f (Some m) s = (f', Inr (nextIndex f)) \<and> mem_inv f' \<and>
    mem_msgs f' = (mem_msgs f)(nextIndex f \<mapsto> (s, m)) \<and> nextIndex f' = nextIndex f + 1"
proof -
  let ?i = "nextIndex f"
  have nz: "?i \<noteq> 0" and fresh: "messages f ?i = None"
    using inv by (auto simp: mem_inv_def valid_id_def)
  note lt = word_succ_less [OF top]
  note u = updateLast_eq [OF inv fresh nz, of s m]
  have "mem_inv (f\<lparr>lastIndex := last_of (insert ?i (dom (messages f))),
      lastIndexBySuffix := last_by_suffix ((mem_msgs f)(?i \<mapsto> (s, m))),
      messages := (messages f)(?i \<mapsto> \<lparr>payload = m, suffix = s\<rparr>), nextIndex := ?i + 1\<rparr>)"
  proof -
    have "\<forall>k \<in> dom (messages f). k \<noteq> 0 \<and> k \<le> ?i" and "finite (dom (messages f))"
      using inv unfolding mem_inv_def valid_id_def by (blast intro: less_imp_le)+
    then show ?thesis using lt nz by (simp add: mem_inv_def valid_id_def)
  qed
  then show ?thesis
    by (simp add: mem_InsertNewMessage_def Let_def u)
qed

lemma mem_InsertMessage_some:
  assumes inv: "mem_inv f" and i: "valid_id (nextIndex f) i" "messages f i = None"
  shows "\<exists>f'. mem_InsertMessage f i (Some m) s = (f', None) \<and> mem_inv f' \<and>
    mem_msgs f' = (mem_msgs f)(i \<mapsto> (s, m)) \<and> nextIndex f' = nextIndex f"
proof -
  have nz: "i \<noteq> 0" "\<not> nextIndex f \<le> i" using i(1) by (auto simp: valid_id_def)
  have "mem_inv (f\<lparr>lastIndex := last_of (insert i (dom (messages f))),
      lastIndexBySuffix := last_by_suffix ((mem_msgs f)(i \<mapsto> (s, m))),
      messages := (messages f)(i \<mapsto> \<lparr>payload = m, suffix = s\<rparr>)\<rparr>)"
    using inv i(1) by (auto simp: mem_inv_def)
  then show ?thesis
    using nz i(2) by (simp add: mem_InsertMessage_def Let_def updateLast_eq [OF inv i(2) nz(1), of s m])
qed

lemma mem_visits_set:
  "set (mem_visits f ks lo hi s) =
    {(i, t, m). i \<in> set ks \<and> mem_msgs f i = Some (t, m) \<and> in_range lo hi i}"
proof (induction ks)
  case (Cons k ks)
  have "set (mem_visits f [k] lo hi s) = {(i, t, m). i = k \<and> mem_msgs f i = Some (t, m) \<and> in_range lo hi i}"
    by (cases "messages f k") (auto simp: mem_visits_def in_range_def msgs_of_def)
  moreover have "mem_visits f (k # ks) lo hi s = mem_visits f [k] lo hi s @ mem_visits f ks lo hi s"
    by (simp add: mem_visits_def)
  ultimately show ?case using Cons by auto
qed (simp add: mem_visits_def)

lemma mem_visits_distinct: "distinct ks \<Longrightarrow> distinct (mem_visits f ks lo hi s)"
proof (induction ks)
  case (Cons k ks)
  have "mem_visits f (k # ks) lo hi s = mem_visits f [k] lo hi s @ mem_visits f ks lo hi s"
    by (simp add: mem_visits_def)
  moreover have "distinct (mem_visits f [k] lo hi s)"
    by (auto simp: mem_visits_def split: option.split)
  ultimately show ?case using Cons by (auto simp: mem_visits_set)
qed (simp add: mem_visits_def)

definition mem_world_inv :: "'a env_scheme \<Rightarrow> memFolder \<Rightarrow> bool" where
  "mem_world_inv w f \<longleftrightarrow> env_ok w \<and> mem_inv f"

interpretation mem: last_folder memFolder_Folder mem_world_inv "\<lambda>w. mem_msgs" "\<lambda>m. True" "\<lambda>h g. True"
proof (unfold_locales, goal_cases)
  case (1 w h)
  then show ?case by simp
next
  case (2 w h i)
  then show ?case
    by (auto simp: mem_world_inv_def mem_inv_def memFolder_Folder_def mem_NextID_def)
next
  case (3 w h m s)
  then have "mem_inv h" "nextIndex h \<noteq> - 1"
    by (simp_all add: mem_world_inv_def memFolder_Folder_def mem_NextID_def)
  from mem_InsertNewMessage_some [OF this, of m s] 3 show ?case
    by (auto simp: mem_world_inv_def memFolder_Folder_def mem_NextID_def)
next
  case (4 w h m i s)
  then have inv: "mem_inv h" by (simp add: mem_world_inv_def)
  show ?case
  proof (cases "valid_id (nextIndex h) i \<and> messages h i = None")
    case True
    with mem_InsertMessage_some [OF inv, of i m s] 4 show ?thesis
      by (auto simp: mem_world_inv_def memFolder_Folder_def mem_NextID_def domIff)
  next
    case False
    with 4 show ?thesis
      by (auto simp: mem_world_inv_def memFolder_Folder_def mem_NextID_def mem_InsertMessage_def
          valid_id_def not_less)
  qed
next
  case (5 w h i)
  then have "i \<in> dom (messages h) \<Longrightarrow> i \<noteq> 0 \<and> i < nextIndex h"
    by (auto simp: mem_world_inv_def mem_inv_def valid_id_def)
  then show ?case
    by (auto simp: memFolder_Folder_def mem_GetMessage_def msgs_of_def not_le split: option.splits)
next
  case (6 w h i)
  then have inv: "mem_inv h" by (simp add: mem_world_inv_def)
  show ?case
  proof (cases "messages h i")
    case None
    with 6 show ?thesis
      by (auto simp: memFolder_Folder_def mem_DeleteMessage_def mem_NextID_def valid_id_def not_less
          domIff msgs_of_def fun_eq_iff)
  next
    case (Some m)
    have v: "valid_id (nextIndex h) i" using inv Some by (auto simp: mem_inv_def)
    have "mem_inv (h\<lparr>messages := (messages h)(i := None), lastIndex := last_of (dom (messages h) - {i}),
       lastIndexBySuffix := last_by_suffix ((mem_msgs h)(i := None))\<rparr>)"
      using inv by (auto simp: mem_inv_def)
    with v Some 6 show ?thesis
      by (auto simp: memFolder_Folder_def mem_DeleteMessage_some [OF inv Some] mem_NextID_def
          mem_world_inv_def domIff)
  qed
next
  case (7 w h hi lo s)
  have "env_ok w" using 7 by (simp add: mem_world_inv_def)
  with env_ok_order [OF this, of "dom (messages h)" "tick w"] 7 show ?case
    by (auto simp: memFolder_Folder_def range_keys_def mem_visits_set mem_visits_distinct
        mem_world_inv_def dest: msgs_of_dom)
next
  case (8 w h)
  then show ?case
    by (simp add: memFolder_Folder_def mem_LastID_def mem_world_inv_def mem_inv_def)
qed

section \<open>Runs\<close>

text \<open>A run of calls on one folder, from the empty folder.\<close>

datatype mem_op =
    MInsertNew "bytes option" u64
  | MInsert u64 "bytes option" u64
  | MDelete u64

fun mem_step :: "mem_op \<Rightarrow> memFolder \<Rightarrow> memFolder" where
  "mem_step (MInsertNew m s) f = fst (mem_InsertNewMessage f m s)"
| "mem_step (MInsert i m s) f = fst (mem_InsertMessage f i m s)"
| "mem_step (MDelete i) f = fst (mem_DeleteMessage f i)"

definition mem_run :: "mem_op list \<Rightarrow> memFolder" where
  "mem_run ops = fold mem_step ops newMemFolder"

lemma mem_DeleteMessage_cases:
  "mem_inv f \<Longrightarrow> mem_DeleteMessage f i = (f', r) \<Longrightarrow>
    mem_inv f' \<and> nextIndex f' = nextIndex f"
  using mem_DeleteMessage_some [of f i]
  by (cases "messages f i") (auto simp: mem_DeleteMessage_def mem_inv_def split: if_splits)

lemma mem_step_inv:
  assumes "mem_inv f" "nextIndex f \<noteq> - 1"
  shows "mem_inv (mem_step op f) \<and> unat (nextIndex (mem_step op f)) \<le> Suc (unat (nextIndex f))"
proof (cases op)
  case (MInsertNew m s)
  show ?thesis
  proof (cases m)
    case None
    with MInsertNew assms show ?thesis by (simp add: mem_InsertNewMessage_def)
  next
    case (Some m')
    from mem_InsertNewMessage_some [OF assms, of m' s] obtain f' where
      "mem_InsertNewMessage f m s = (f', Inr (nextIndex f))" "mem_inv f'"
      "nextIndex f' = nextIndex f + 1"
      using Some by auto
    with MInsertNew assms(2) show ?thesis by (simp add: unat_plus_one)
  qed
next
  case (MInsert i m s)
  show ?thesis
  proof (cases "valid_id (nextIndex f) i \<and> messages f i = None \<and> m \<noteq> None")
    case True
    then obtain m' where "m = Some m'" "valid_id (nextIndex f) i" "messages f i = None" by auto
    with MInsert mem_InsertMessage_some [OF assms(1), of i m' s] show ?thesis by auto
  next
    case False
    with MInsert assms have "mem_step op f = f"
      by (auto simp: mem_InsertMessage_def valid_id_def not_less split: option.split)
    with assms show ?thesis by simp
  qed
next
  case (MDelete i)
  obtain f' r where "mem_DeleteMessage f i = (f', r)" by (cases "mem_DeleteMessage f i")
  with MDelete mem_DeleteMessage_cases [OF assms(1) this] show ?thesis by simp
qed

lemma mem_run_snoc: "mem_run (ops @ [op]) = mem_step op (mem_run ops)"
  by (simp add: mem_run_def)

lemma mem_run_inv:
  "length ops < 2 ^ 64 - 1 \<Longrightarrow>
    mem_inv (mem_run ops) \<and> unat (nextIndex (mem_run ops)) \<le> Suc (length ops)"
proof (induction ops rule: rev_induct)
  case Nil
  then show ?case by (simp add: mem_run_def) (simp add: newMemFolder_def)
next
  case (snoc op ops)
  then have ih: "mem_inv (mem_run ops)" "unat (nextIndex (mem_run ops)) \<le> Suc (length ops)"
    by simp_all
  have "unat (- 1 :: u64) = 2 ^ 64 - 1" by (simp add: unsigned_minus_1_eq_mask mask_eq_exp_minus_1)
  with ih(2) snoc.prems have "nextIndex (mem_run ops) \<noteq> - 1" by auto
  from mem_step_inv [OF ih(1) this, of op] ih(2) show ?case by (simp add: mem_run_snoc)
qed

section \<open>Properties\<close>

text \<open>
  C6. After any run of insertions and deletions (shorter than the 64-bit id space) \<open>LastID\<close>
  returns the highest id in the folder, 0 when it is empty, and the map from every suffix in
  use to the highest id with that suffix: the caches that \<open>DeleteMessage\<close> repairs with its
  downward scan are exact.
\<close>

theorem mem_LastID_exact:
  assumes "length ops < 2 ^ 64 - 1"
  shows "mem_LastID (mem_run ops) =
    (last_of (dom (mem_msgs (mem_run ops))), last_by_suffix (mem_msgs (mem_run ops)))"
  using mem_run_inv [OF assms] by (simp add: mem_LastID_def mem_inv_def)

lemma mem_delete_scan_numeral [simp]:
  "mem_delete_scan (numeral n) i sfx f =
     (case messages f (numeral n) of
        None \<Rightarrow> mem_delete_scan (pred_numeral n) i sfx f
      | Some m \<Rightarrow>
          let f1 = (if i = lastIndex f then f\<lparr>lastIndex := numeral n\<rparr> else f)
          in if suffix m = sfx
             then (f1\<lparr>lastIndexBySuffix := (lastIndexBySuffix f1)(sfx \<mapsto> numeral n)\<rparr>, True)
             else mem_delete_scan (pred_numeral n) i sfx f1)"
proof -
  have "Suc (pred_numeral n) = numeral n" "(of_nat (numeral n) :: u64) = numeral n"
    by (simp_all add: numeral_eq_Suc [symmetric])
  then show ?thesis
    using mem_delete_scan.simps(2) [of "pred_numeral n" i sfx f] by (simp only: Let_def)
qed

lemmas mem_eval = mem_run_def newMemFolder_def mem_InsertNewMessage_def mem_InsertMessage_def
  mem_DeleteMessage_def updateLast_def map_default_def Let_def

theorem mem_LastID_exact_witness:
  "let f = mem_run [MInsertNew (Some ''a'') 1, MInsertNew (Some ''b'') 2, MInsertNew (Some ''c'') 1,
      MDelete 3]
   in mem_LastID f = (2, [1 \<mapsto> 1, 2 \<mapsto> 2]) \<and>
      mem_LastID f = (last_of (dom (mem_msgs f)), last_by_suffix (mem_msgs f))"
proof -
  let ?ops = "[MInsertNew (Some ''a'') 1, MInsertNew (Some ''b'') 2, MInsertNew (Some ''c'') 1,
      MDelete 3]"
  have "mem_LastID (mem_run ?ops) = (2, [1 \<mapsto> 1, 2 \<mapsto> 2])"
    by (simp add: mem_eval mem_LastID_def fun_upd_twist)
  with mem_LastID_exact [of ?ops] show ?thesis by (simp add: Let_def)
qed

end
