(* ===== verification/Store_Folders.thy ===== *)
theory Store_Folders
  imports Store_Folder Broadcasts Mem_Folder
begin

text \<open>
  The set of folders of a user: the type \<open>folders\<close> of src/store/folder.go with \<open>initializeFolders\<close> of
  src/store/db.go, and the type \<open>User\<close> of src/store/user.go.  A locale states the contract of the
  interface \<open>data.Folders\<close>, and both implementations interpret it.
\<close>

section \<open>Model\<close>

definition miscBucket :: bytes where "miscBucket = ''misc''"
definition usersBucket :: bytes where "usersBucket = ''users''"
definition usersLatestIDKey :: bytes where "usersLatestIDKey = ''usersLatestIDKey''"

record 'a User =
  u_masterKey :: "bytes option"
  u_bucketID :: bytes
  u_username :: string
  u_broadcast :: "'a BroadcastAddresses"

definition newUser :: "bytes option \<Rightarrow> bytes \<Rightarrow> string \<Rightarrow> 'a BroadcastAddresses \<Rightarrow> 'a User" where
  "newUser masterKey bucketID username broadcast =
     \<lparr>u_masterKey = masterKey, u_bucketID = bucketID, u_username = username, u_broadcast = broadcast\<rparr>"

text \<open>A call whose error the code ignores: the content stays as it was.\<close>

definition ignore_error :: "'db \<Rightarrow> error + 'db \<Rightarrow> 'db" where
  "ignore_error tx r = (case r of Inl _ \<Rightarrow> tx | Inr tx' \<Rightarrow> tx')"

text \<open>The part of \<open>initializeFolders\<close> that runs for a new user: it gives the user a number.\<close>

definition register_user_tx :: "'db bolt \<Rightarrow> string \<Rightarrow> bytes \<Rightarrow> 'db \<Rightarrow> ('db \<times> error option) go" where
  "register_user_tx B username bucketID tx =
     (case CreateBucket B tx [] bucketID of
        Inl e \<Rightarrow> Ret (tx, Some e)
      | Inr tx1 \<Rightarrow> (case CreateBucketIfNotExists B tx1 [] usersBucket of
        Inl e \<Rightarrow> Ret (tx1, Some e)
      | Inr tx2 \<Rightarrow> (case CreateBucketIfNotExists B tx2 [] miscBucket of
        Inl e \<Rightarrow> Ret (tx2, Some e)
      | Inr tx3 \<Rightarrow> (case Get B tx3 [miscBucket] usersLatestIDKey of
        None \<Rightarrow> Panic
      | Some v \<Rightarrow> go_bind (Uint64 v) (\<lambda>n.
          let k = PutUint64 (n + 1);
              tx4 = ignore_error tx3 (Put B tx3 [usersBucket] username k);
              tx5 = ignore_error tx4 (Put B tx4 [miscBucket] usersLatestIDKey k)
          in Ret (tx5, None))))))"

definition initializeFolders_tx :: "'db bolt \<Rightarrow> string \<Rightarrow> bytes \<Rightarrow> 'db \<Rightarrow> ('db \<times> error option) go" where
  "initializeFolders_tx B username bucketID tx =
     (let isNew = \<not> Bucket B tx [bucketID]
      in go_bind (if isNew then register_user_tx B username bucketID tx else Ret (tx, None)) (\<lambda>(tx1, e1).
        case e1 of
          Some e \<Rightarrow> Ret (tx1, Some e)
        | None \<Rightarrow> (case CreateBucketIfNotExists B tx1 [bucketID] miscBucket of
            Inl e \<Rightarrow> Ret (tx1, Some e)
          | Inr tx2 \<Rightarrow> (case CreateBucketIfNotExists B tx2 [bucketID] foldersBucket of
            Inl e \<Rightarrow> Ret (tx2, Some e)
          | Inr tx3 \<Rightarrow>
              if isNew then (case Put B tx3 [bucketID, miscBucket] folderNextIDKey (PutUint64 0) of
                               Inl e \<Rightarrow> Ret (tx3, Some e)
                             | Inr tx4 \<Rightarrow> Ret (tx4, None))
              else Ret (tx3, None)))))"

definition initializeFolders ::
  "'db bolt \<Rightarrow> 'db world \<Rightarrow> string \<Rightarrow> bytes \<Rightarrow> ('db world \<times> (error + string list)) go" where
  "initializeFolders B w username bucketID =
     go_bind (db_Update B w () (\<lambda>w tx _.
         go_bind (initializeFolders_tx B username bucketID tx) (\<lambda>(tx1, e). Ret (w, tx1, (), e))))
       (\<lambda>(w1, _, e). case e of
          Some e \<Rightarrow> go_bind (db_Close B w1) (\<lambda>(w2, _). Ret (w2, Inl e))
        | None \<Rightarrow>
            go_bind (db_View B w1 [] (\<lambda>tx _.
                on_bucket B tx [bucketID] (on_bucket B tx (folders_path bucketID)
                  (Ret (map fst (Cursor B tx (folders_path bucketID)), None)))))
              (\<lambda>(names, e). case e of
                 Some e \<Rightarrow> go_bind (db_Close B w1) (\<lambda>(w2, _). Ret (w2, Inl e))
               | None \<Rightarrow> Ret (w1, Inr names)))"

text \<open>
  The map of the folders holds pointers, nil for a folder that has not been opened yet; the objects
  are in a heap.
\<close>

record 'a folders =
  fo_user :: "'a User"
  fo_map :: "string \<rightharpoonup> nat option"
  fo_heap :: "nat \<rightharpoonup> store_folder"
  fo_fresh :: nat

definition newFolders :: "'db bolt \<Rightarrow> 'db world \<Rightarrow> 'a User \<Rightarrow> ('db world \<times> (error + 'a folders)) go" where
  "newFolders B w user =
     go_bind (initializeFolders B w (u_username user) (u_bucketID user)) (\<lambda>(w1, r).
       case r of
         Inl e \<Rightarrow> Ret (w1, Inl e)
       | Inr names \<Rightarrow>
           Ret (w1, Inr \<lparr>fo_user = user, fo_map = map_of (map (\<lambda>n. (n, None)) names),
                          fo_heap = Map.empty, fo_fresh = 0\<rparr>))"

definition user_Folders :: "'db bolt \<Rightarrow> 'db world \<Rightarrow> 'a User \<Rightarrow> ('db world \<times> (error + 'a folders)) go" where
  "user_Folders B w u = newFolders B w u"

definition folders_New ::
  "'db bolt \<Rightarrow> 'db world \<Rightarrow> 'a folders \<Rightarrow> string \<Rightarrow> ('db world \<times> 'a folders \<times> (error + nat)) go" where
  "folders_New B w fo name =
     (if fo_map fo name \<noteq> None then Ret (w, fo, Inl ErrDuplicateMailbox)
      else go_bind (newFolder B w (u_masterKey (fo_user fo)) True (u_username (fo_user fo)) name)
        (\<lambda>(w1, r). case r of
           Inl e \<Rightarrow> Ret (w1, fo, Inl e)
         | Inr f \<Rightarrow>
             let p = fo_fresh fo
             in Ret (w1, fo\<lparr>fo_map := (fo_map fo)(name \<mapsto> Some p), fo_heap := (fo_heap fo)(p \<mapsto> f),
                            fo_fresh := Suc p\<rparr>, Inr p)))"

definition folders_Get ::
  "'db bolt \<Rightarrow> 'db world \<Rightarrow> 'a folders \<Rightarrow> string \<Rightarrow> ('db world \<times> 'a folders \<times> (error + nat)) go" where
  "folders_Get B w fo name =
     (case fo_map fo name of
        None \<Rightarrow> Ret (w, fo, Inl ErrNotFound)
      | Some (Some p) \<Rightarrow> Ret (w, fo, Inr p)
      | Some None \<Rightarrow>
          go_bind (newFolder B w (u_masterKey (fo_user fo)) True (u_username (fo_user fo)) name)
            (\<lambda>(w1, r). case r of
               Inl e \<Rightarrow> Ret (w1, fo, Inl e)
             | Inr f \<Rightarrow>
                 let p = fo_fresh fo
                 in Ret (w1, fo\<lparr>fo_map := (fo_map fo)(name \<mapsto> Some p), fo_heap := (fo_heap fo)(p \<mapsto> f),
                                fo_fresh := Suc p\<rparr>, Inr p)))"

definition folders_Names :: "'db world \<Rightarrow> 'a folders \<Rightarrow> 'db world \<times> string list" where
  "folders_Names w fo = range_names w (dom (fo_map fo))"

definition folders_Delete ::
  "'db bolt \<Rightarrow> 'db world \<Rightarrow> 'a folders \<Rightarrow> string \<Rightarrow> ('db world \<times> 'a folders \<times> error option) go" where
  "folders_Delete B w fo name =
     (let uid = u_bucketID (fo_user fo) in
      db_Update B w fo (\<lambda>w tx fo.
        if \<not> Bucket B tx [uid] then Ret (w, tx, fo, Some ErrNotFound)
        else on_bucket B tx (folders_path uid)
          (case DeleteBucket B tx (folders_path uid) name of
             Inl e \<Rightarrow> Ret (w, tx, fo, Some e)
           | Inr tx1 \<Rightarrow> Ret (w, tx1, fo\<lparr>fo_map := (fo_map fo)(name := None)\<rparr>, None))))"

text \<open>
  \<open>Rename\<close> opens the new folder with \<open>newFolder\<close> while its own transaction is open, and looks for the
  new bucket in the user's bucket instead of among the folders.
\<close>

definition rename_copy :: "'db bolt \<Rightarrow> path \<Rightarrow> entry list \<Rightarrow> 'db \<Rightarrow> 'db go" where
  "rename_copy B q es tx =
     (if es = [] then Ret tx
      else on_bucket B tx q
        (Ret (foldl (\<lambda>tx (k, v). ignore_error tx (Put B tx q k (case v of Some b \<Rightarrow> b | None \<Rightarrow> []))) tx es)))"

definition folders_Rename ::
  "'db bolt \<Rightarrow> 'db world \<Rightarrow> 'a folders \<Rightarrow> string \<Rightarrow> string \<Rightarrow> ('db world \<times> 'a folders \<times> error option) go" where
  "folders_Rename B w fo name newname =
     (let uid = u_bucketID (fo_user fo); Q = folders_path uid in
      db_Update B w fo (\<lambda>w tx fo.
        if \<not> Bucket B tx [uid] then Ret (w, tx, fo, Some ErrNotFound)
        else on_bucket B tx Q
          (if \<not> Bucket B tx (Q @ [name]) then Ret (w, tx, fo, Some ErrNotFound)
           else if Bucket B tx [uid, newname] then Ret (w, tx, fo, Some ErrDuplicateID)
           else go_bind (newFolder B w (u_masterKey (fo_user fo)) True (u_username (fo_user fo)) newname)
             (\<lambda>(w1, r). case r of
                Inl e \<Rightarrow> Ret (w1, tx, fo, Some e)
              | Inr _ \<Rightarrow>
                  go_bind (rename_copy B [uid, newname] (Cursor B tx (Q @ [name])) tx) (\<lambda>tx1.
                    case DeleteBucket B tx1 Q name of
                      Inl e \<Rightarrow> Ret (w1, tx1, fo, Some e)
                    | Inr tx2 \<Rightarrow> Ret (w1, tx2, fo\<lparr>fo_map := (fo_map fo)(name := None)\<rparr>, None))))))"

section \<open>The interface\<close>

text \<open>
  The contract of \<open>data.Folders\<close>.  A folder is a reference; \<open>names\<close> are the folders there are, and
  \<open>name_ok\<close> the names the implementation accepts.
\<close>

locale folder_set =
  fixes new :: "'w \<Rightarrow> 's \<Rightarrow> string \<Rightarrow> ('w \<times> 's \<times> (error + 'r)) go"
    and get :: "'w \<Rightarrow> 's \<Rightarrow> string \<Rightarrow> ('w \<times> 's \<times> (error + 'r)) go"
    and del :: "'w \<Rightarrow> 's \<Rightarrow> string \<Rightarrow> ('w \<times> 's \<times> error option) go"
    and inv :: "'w \<Rightarrow> 's \<Rightarrow> bool"
    and names :: "'s \<Rightarrow> string set"
    and name_ok :: "string \<Rightarrow> bool"
  assumes new_ok: "inv w s \<Longrightarrow> name_ok n \<Longrightarrow> n \<notin> names s \<Longrightarrow>
      \<exists>w' s' r. new w s n = Ret (w', s', Inr r) \<and> inv w' s' \<and> names s' = insert n (names s) \<and>
        get w' s' n = Ret (w', s', Inr r)"
    and new_dup: "inv w s \<Longrightarrow> n \<in> names s \<Longrightarrow> \<exists>e. new w s n = Ret (w, s, Inl e)"
    and get_ok: "inv w s \<Longrightarrow> n \<in> names s \<Longrightarrow>
      \<exists>w' s' r. get w s n = Ret (w', s', Inr r) \<and> inv w' s' \<and> names s' = names s \<and>
        get w' s' n = Ret (w', s', Inr r)"
    and get_missing: "inv w s \<Longrightarrow> n \<notin> names s \<Longrightarrow> get w s n = Ret (w, s, Inl ErrNotFound)"
    and del_ok: "inv w s \<Longrightarrow> n \<in> names s \<Longrightarrow>
      \<exists>w' s'. del w s n = Ret (w', s', None) \<and> inv w' s' \<and> names s' = names s - {n}"
    and del_missing: "inv w s \<Longrightarrow> n \<notin> names s \<Longrightarrow> \<exists>e. del w s n = Ret (w, s, Some e)"
begin

text \<open>A folder can be deleted and made anew, and only then.\<close>

lemma recreate:
  assumes "inv w s" "n \<in> names s" "name_ok n"
  shows "\<exists>e w1 s1 w2 s2 r. new w s n = Ret (w, s, Inl e) \<and> del w s n = Ret (w1, s1, None) \<and>
    get w1 s1 n = Ret (w1, s1, Inl ErrNotFound) \<and>
    new w1 s1 n = Ret (w2, s2, Inr r) \<and> get w2 s2 n = Ret (w2, s2, Inr r) \<and>
    inv w2 s2 \<and> names s2 = names s"
proof -
  from del_ok [OF assms(1,2)] obtain w1 s1 where d: "del w s n = Ret (w1, s1, None)" "inv w1 s1"
    "names s1 = names s - {n}" by blast
  from new_ok [OF d(2) assms(3)] d(3) obtain w2 s2 r where
    "new w1 s1 n = Ret (w2, s2, Inr r)" "inv w2 s2" "names s2 = insert n (names s - {n})"
    "get w2 s2 n = Ret (w2, s2, Inr r)" by auto
  moreover from this assms(2) have "names s2 = names s" by auto
  ultimately show ?thesis
    using new_dup [OF assms(1,2)] d get_missing [OF d(2), of n] by auto
qed

text \<open>\<open>Get\<close> always gives the same object.\<close>

lemma get_stable:
  assumes "inv w s" "n \<in> names s"
  shows "\<exists>w' s' r. get w s n = Ret (w', s', Inr r) \<and> get w' s' n = Ret (w', s', Inr r)"
  using get_ok [OF assms] by blast

end

text \<open>The in-memory implementation.\<close>

interpretation mfs: folder_set
  "\<lambda>w mf n. case memFolders_New mf n of (mf', r) \<Rightarrow> Ret (w, mf', r)"
  "\<lambda>w mf n. Ret (w, mf, memFolders_Get mf n)"
  "\<lambda>w mf n. case memFolders_Delete mf n of (mf', r) \<Rightarrow> Ret (w, mf', r)"
  "\<lambda>w mf. True" "\<lambda>mf. dom (mfolders mf)" "\<lambda>n. True"
  by unfold_locales
     (auto simp: memFolders_New_def memFolders_Get_def memFolders_Delete_def Let_def domIff split: option.split)

section \<open>The folders in the database\<close>

definition clock_ok :: "'x env_scheme \<Rightarrow> bool" where
  "clock_ok w \<longleftrightarrow> (\<forall>i. \<exists>b. MarshalBinary (clock w i) = Inr b)"

definition is_folder :: "'a folders \<Rightarrow> string \<Rightarrow> store_folder \<Rightarrow> bool" where
  "is_folder fo n f \<longleftrightarrow> f_name f = n \<and> f_userID f = u_bucketID (fo_user fo) \<and>
     f_masterKey f = u_masterKey (fo_user fo)"

definition fo_inv :: "'db bolt \<Rightarrow> crypto \<Rightarrow> 'db world \<Rightarrow> 'a folders \<Rightarrow> bool" where
  "fo_inv B C w fo \<longleftrightarrow> world_ok B C w \<and> clock_ok w \<and>
     u_bucketID (fo_user fo) = userPrefix @ u_username (fo_user fo) \<and>
     (\<exists>mu mq. obs B (content (wdb w)) [u_bucketID (fo_user fo)] = Some mu \<and>
        obs B (content (wdb w)) (folders_path (u_bucketID (fo_user fo))) = Some mq \<and>
        dom mq = dom (fo_map fo)) \<and>
     (\<forall>n r. fo_map fo n = Some r \<longrightarrow> n \<noteq> [] \<and>
        (\<exists>f. is_folder fo n f \<and> store_inv B C w f \<and> (\<forall>p. r = Some p \<longrightarrow> fo_heap fo p = Some f))) \<and>
     (\<forall>n p. fo_map fo n = Some (Some p) \<longrightarrow> p < fo_fresh fo)"

definition fo_name_ok :: "string \<Rightarrow> bool" where
  "fo_name_ok n \<longleftrightarrow> n \<noteq> [] \<and> length n \<le> MaxKeySize"

lemma is_folder_apart: "is_folder fo n f \<Longrightarrow> is_folder fo k g \<Longrightarrow> k \<noteq> n \<Longrightarrow> store_apart f g"
  by (auto simp: is_folder_def store_apart_def folder_path_def)

lemma is_folder_update [simp]:
  "is_folder (fo\<lparr>fo_map := m, fo_heap := h, fo_fresh := k\<rparr>) = is_folder fo"
  "is_folder (fo\<lparr>fo_map := m\<rparr>) = is_folder fo"
  by (simp_all add: is_folder_def fun_eq_iff)

lemma fo_invE:
  assumes "fo_inv B C w fo"
  obtains mu mq where "world_ok B C w" "clock_ok w"
    "u_bucketID (fo_user fo) = userPrefix @ u_username (fo_user fo)"
    "obs B (content (wdb w)) [u_bucketID (fo_user fo)] = Some mu"
    "obs B (content (wdb w)) (folders_path (u_bucketID (fo_user fo))) = Some mq"
    "dom mq = dom (fo_map fo)" "bolt_ok B" "bolt_live B" "\<not> rwtx (wdb w)" "opened (wdb w)"
  using assms by (auto simp: fo_inv_def world_ok_def)

lemma fo_inv_folder:
  assumes "fo_inv B C w fo" "fo_map fo n = Some r"
  shows "\<exists>f. is_folder fo n f \<and> store_inv B C w f \<and> (\<forall>p. r = Some p \<longrightarrow> fo_heap fo p = Some f)" "n \<noteq> []"
  using assms by (auto simp: fo_inv_def)

lemma folders_new:
  assumes inv: "fo_inv B C w fo" and n: "fo_name_ok n" "n \<notin> dom (fo_map fo)"
  shows "\<exists>w' fo' p f. folders_New B w fo n = Ret (w', fo', Inr p) \<and> fo_inv B C w' fo' \<and>
    dom (fo_map fo') = insert n (dom (fo_map fo)) \<and> folders_Get B w' fo' n = Ret (w', fo', Inr p) \<and>
    fo_heap fo' p = Some f \<and> f_nextID f = 1 \<and> store_inv B C w' f \<and> store_msgs B C w' f = Map.empty \<and>
    is_folder fo n f \<and> clock w' = clock w \<and> fo_user fo' = fo_user fo \<and> fo_map fo' = (fo_map fo)(n \<mapsto> Some p) \<and>
    (\<forall>q. q < fo_fresh fo \<longrightarrow> fo_heap fo' q = fo_heap fo q) \<and> p < fo_fresh fo' \<and> fo_fresh fo < fo_fresh fo' \<and>
    (\<forall>k g. k \<noteq> n \<longrightarrow> is_folder fo k g \<longrightarrow> store_inv B C w g \<longrightarrow> store_inv B C w' g \<and> store_msgs B C w' g = store_msgs B C w g)"
proof -
  let ?u = "fo_user fo" and ?p = "fo_fresh fo"
  from inv obtain mu mq where ok: "world_ok B C w" "clock_ok w" "u_bucketID ?u = userPrefix @ u_username ?u"
      "obs B (content (wdb w)) [u_bucketID ?u] = Some mu"
      "obs B (content (wdb w)) (folders_path (u_bucketID ?u)) = Some mq" "dom mq = dom (fo_map fo)"
    by (rule fo_invE)
  have mq: "mq n = None" using ok(6) n(2) by (auto simp: domIff)
  obtain now where now: "MarshalBinary (clock w (tick w)) = Inr now" using ok(2) by (auto simp: clock_ok_def)
  have nn: "n \<noteq> []" "length n \<le> MaxKeySize" using n(1) by (auto simp: fo_name_ok_def)
  from newFolder_new [OF ok(1) ok(4,5) [unfolded ok(3)] mq nn now, of "u_masterKey ?u"]
  obtain w' f where f: "newFolder B w (u_masterKey ?u) True (u_username ?u) n = Ret (w', Inr f)"
    "f_nextID f = 1" "is_folder fo n f" "store_inv B C w' f" "store_msgs B C w' f = Map.empty"
    "clock w' = clock w"
    "obs B (content (wdb w')) [u_bucketID ?u] = Some mu"
    "obs B (content (wdb w')) (folders_path (u_bucketID ?u)) = Some (mq(n \<mapsto> None))"
    and fr: "\<And>g. store_apart f g \<Longrightarrow> store_inv B C w g \<Longrightarrow> store_inv B C w' g \<and> store_msgs B C w' g = store_msgs B C w g"
    unfolding ok(3) is_folder_def by auto
  let ?fo = "fo\<lparr>fo_map := (fo_map fo)(n \<mapsto> Some ?p), fo_heap := (fo_heap fo)(?p \<mapsto> f), fo_fresh := Suc ?p\<rparr>"
  have run: "folders_New B w fo n = Ret (w', ?fo, Inr ?p)"
    using f(1) n(2) by (auto simp: folders_New_def Let_def domIff)
  have ptr: "fo_map fo k = Some (Some q) \<Longrightarrow> q < ?p" for k q
    using inv by (auto simp: fo_inv_def)
  have old: "k \<noteq> [] \<and> (\<exists>g. is_folder fo k g \<and> store_inv B C w' g \<and>
      (\<forall>q. r = Some q \<longrightarrow> ((fo_heap fo)(?p \<mapsto> f)) q = Some g))"
    if k: "k \<noteq> n" "fo_map fo k = Some r" for k r
  proof -
    from fo_inv_folder [OF inv k(2)] obtain g where g: "is_folder fo k g" "store_inv B C w g"
      "\<forall>q. r = Some q \<longrightarrow> fo_heap fo q = Some g" "k \<noteq> []" by blast
    have "store_inv B C w' g" using fr [OF is_folder_apart [OF f(3) g(1) k(1)] g(2)] by simp
    with g ptr [of k] k(2) show ?thesis by (auto intro!: exI [of _ g])
  qed
  have "fo_inv B C w' ?fo"
    unfolding fo_inv_def
  proof (intro conjI allI impI)
    show "world_ok B C w'" using f(4) by (simp add: store_inv_def)
    show "clock_ok w'" using ok(2) f(6) by (simp add: clock_ok_def)
    show "\<exists>mu mq. obs B (content (wdb w')) [u_bucketID (fo_user ?fo)] = Some mu \<and>
        obs B (content (wdb w')) (folders_path (u_bucketID (fo_user ?fo))) = Some mq \<and>
        dom mq = dom (fo_map ?fo)"
      using f(7,8) ok(6) by simp
  next
    fix k r assume "fo_map ?fo k = Some r"
    then show "k \<noteq> []" "\<exists>g. is_folder ?fo k g \<and> store_inv B C w' g \<and> (\<forall>q. r = Some q \<longrightarrow> fo_heap ?fo q = Some g)"
      using f(3,4) nn(1) old [of k r] by (auto split: if_splits)
  next
    fix k q assume "fo_map ?fo k = Some (Some q)"
    then show "q < fo_fresh ?fo" using ptr [of k q] by (auto split: if_splits)
  qed (use ok(3) in simp)
  moreover have "\<forall>k g. k \<noteq> n \<longrightarrow> is_folder fo k g \<longrightarrow> store_inv B C w g \<longrightarrow>
      store_inv B C w' g \<and> store_msgs B C w' g = store_msgs B C w g"
    using fr is_folder_apart [OF f(3)] by blast
  ultimately show ?thesis using run f(2-6) by (auto simp: folders_Get_def)
qed

lemma folders_get:
  assumes inv: "fo_inv B C w fo" and n: "n \<in> dom (fo_map fo)"
  shows "\<exists>fo' p f. folders_Get B w fo n = Ret (w, fo', Inr p) \<and> fo_inv B C w fo' \<and>
    dom (fo_map fo') = dom (fo_map fo) \<and> folders_Get B w fo' n = Ret (w, fo', Inr p) \<and>
    fo_heap fo' p = Some f \<and> is_folder fo n f \<and> store_inv B C w f"
proof -
  obtain r where r: "fo_map fo n = Some r" using n by auto
  from fo_inv_folder [OF inv r] obtain f where f: "is_folder fo n f" "store_inv B C w f"
    "\<forall>p. r = Some p \<longrightarrow> fo_heap fo p = Some f" "n \<noteq> []" by blast
  show ?thesis
  proof (cases r)
    case (Some p)
    with r f inv show ?thesis by (auto simp: folders_Get_def)
  next
    case None
    let ?p = "fo_fresh fo"
    let ?fo = "fo\<lparr>fo_map := (fo_map fo)(n \<mapsto> Some ?p), fo_heap := (fo_heap fo)(?p \<mapsto> f), fo_fresh := Suc ?p\<rparr>"
    have "f_userID f = userPrefix @ u_username (fo_user fo)"
      using f(1) inv by (simp add: is_folder_def fo_inv_def)
    from newFolder_reopen [OF f(2) this] f(1,4)
    have "newFolder B w (u_masterKey (fo_user fo)) True (u_username (fo_user fo)) n = Ret (w, Inr f)"
      by (simp add: is_folder_def)
    then have "folders_Get B w fo n = Ret (w, ?fo, Inr ?p)"
      using r None by (simp add: folders_Get_def Let_def)
    moreover have "fo_inv B C w ?fo"
    proof -
      have ptr: "fo_map fo k = Some (Some q) \<Longrightarrow> q < ?p" for k q
        using inv by (auto simp: fo_inv_def)
      have "k \<noteq> [] \<and> (\<exists>g. is_folder fo k g \<and> store_inv B C w g \<and>
          (\<forall>q. r' = Some q \<longrightarrow> ((fo_heap fo)(?p \<mapsto> f)) q = Some g))"
        if k: "k \<noteq> n" "fo_map fo k = Some r'" for k r'
        using fo_inv_folder [OF inv k(2)] ptr [of k] k(2) by fastforce
      then have "\<forall>k r'. ((fo_map fo)(n \<mapsto> Some ?p)) k = Some r' \<longrightarrow> k \<noteq> [] \<and>
          (\<exists>g. is_folder fo k g \<and> store_inv B C w g \<and> (\<forall>q. r' = Some q \<longrightarrow> ((fo_heap fo)(?p \<mapsto> f)) q = Some g))"
        using f by (auto split: if_splits)
      moreover have "\<forall>k q. ((fo_map fo)(n \<mapsto> Some ?p)) k = Some (Some q) \<longrightarrow> q < Suc ?p"
        using ptr by (auto split: if_splits intro: less_SucI)
      moreover have "dom ((fo_map fo)(n \<mapsto> Some ?p)) = dom (fo_map fo)" using n by auto
      ultimately show ?thesis using inv unfolding fo_inv_def
        by (simp del: fun_upd_apply dom_fun_upd) metis
    qed
    moreover have "dom (fo_map ?fo) = dom (fo_map fo)" using n by auto
    ultimately show ?thesis using f by (auto simp: folders_Get_def)
  qed
qed

lemma folders_delete:
  assumes inv: "fo_inv B C w fo" and n: "n \<in> dom (fo_map fo)"
  shows "\<exists>w' fo'. folders_Delete B w fo n = Ret (w', fo', None) \<and> fo_inv B C w' fo' \<and>
    dom (fo_map fo') = dom (fo_map fo) - {n} \<and>
    (\<forall>k f. k \<noteq> n \<longrightarrow> is_folder fo k f \<longrightarrow> store_inv B C w f \<longrightarrow>
       store_inv B C w' f \<and> store_msgs B C w' f = store_msgs B C w f)"
proof -
  let ?u = "u_bucketID (fo_user fo)" and ?c = "content (wdb w)"
  let ?Q = "folders_path ?u"
  from inv obtain mu mq where ok: "world_ok B C w" "clock_ok w" "?u = userPrefix @ u_username (fo_user fo)"
      "obs B ?c [?u] = Some mu" "obs B ?c ?Q = Some mq" "dom mq = dom (fo_map fo)"
      "bolt_ok B" "bolt_live B" "\<not> rwtx (wdb w)" "opened (wdb w)"
    by (rule fo_invE)
  obtain r where "fo_map fo n = Some r" using n by auto
  from fo_inv_folder [OF inv this] obtain f where f: "is_folder fo n f" "store_inv B C w f" by blast
  from f(2) obtain m where "obs B ?c (folder_path f) = Some m" by (rule store_invE)
  then have "mq n = Some None"
    using bolt_nested_obs [OF ok(7,5), of n] f(1) obs_Bucket [of B ?c "folder_path f" m]
    by (simp add: folder_path_snoc is_folder_def)
  then obtain tx where d: "DeleteBucket B ?c ?Q n = Inr tx"
    using bolt_DeleteBucket_ok [OF ok(7,5)] by blast
  note o = conjunct2 [OF bolt_DeleteBucket [OF ok(7) d ok(5)]]
  let ?w' = "w\<lparr>wdb := (wdb w)\<lparr>content := tx\<rparr>\<rparr>" and ?fo = "fo\<lparr>fo_map := (fo_map fo)(n := None)\<rparr>"
  have run: "folders_Delete B w fo n = Ret (?w', ?fo, None)"
    using ok d by (simp add: folders_Delete_def db_Update_run on_bucket_def obs_Bucket Let_def)
  have w': "world_ok B C ?w'" using ok(1) by (rule world_ok_update)
  have keep: "store_inv B C ?w' g \<and> store_msgs B C ?w' g = store_msgs B C w g"
    if g: "k \<noteq> n" "is_folder fo k g" "store_inv B C w g" for k g
  proof -
    have "obs B tx (folder_path g) = obs B ?c (folder_path g)" "obs B tx (data_path g) = obs B ?c (data_path g)"
      using g(1,2) by (auto simp: o folder_path_def data_path_def folders_path_def is_folder_def)
    then have "content_rep B C (content (wdb ?w')) g (store_msgs B C w g)"
      using g(3) by (simp add: store_inv_def content_rep_def)
    with store_invI [OF w' this] show ?thesis by simp
  qed
  have "fo_inv B C ?w' ?fo"
    unfolding fo_inv_def
  proof (intro conjI allI impI)
    show "\<exists>mu mq. obs B (content (wdb ?w')) [u_bucketID (fo_user ?fo)] = Some mu \<and>
        obs B (content (wdb ?w')) (folders_path (u_bucketID (fo_user ?fo))) = Some mq \<and> dom mq = dom (fo_map ?fo)"
      using o ok(4-6) by (auto simp: folders_path_def)
  next
    fix k r assume k: "fo_map ?fo k = Some r"
    then have "k \<noteq> n" "fo_map fo k = Some r" by (auto split: if_splits)
    with fo_inv_folder [OF inv this(2)] keep [of k]
    show "k \<noteq> []" "\<exists>g. is_folder ?fo k g \<and> store_inv B C ?w' g \<and> (\<forall>q. r = Some q \<longrightarrow> fo_heap ?fo q = Some g)"
      by auto
  next
    fix k q assume "fo_map ?fo k = Some (Some q)"
    then show "q < fo_fresh ?fo" using inv by (auto simp: fo_inv_def split: if_splits)
  qed (use w' ok(2,3) in \<open>simp_all add: clock_ok_def\<close>)
  with run keep show ?thesis by (intro exI [of _ ?w'] exI [of _ ?fo]) auto
qed

lemma folders_delete_missing:
  assumes inv: "fo_inv B C w fo" and n: "n \<notin> dom (fo_map fo)"
  shows "\<exists>e. folders_Delete B w fo n = Ret (w, fo, Some e)"
proof -
  let ?u = "u_bucketID (fo_user fo)" and ?c = "content (wdb w)"
  from inv obtain mu mq where ok: "obs B ?c [?u] = Some mu" "obs B ?c (folders_path ?u) = Some mq"
      "dom mq = dom (fo_map fo)" "bolt_ok B" "bolt_live B" "\<not> rwtx (wdb w)" "opened (wdb w)"
    by (rule fo_invE)
  have "mq n = None" using ok(3) n by (auto simp: domIff)
  then have "\<exists>e. DeleteBucket B ?c (folders_path ?u) n = Inl e"
    using bolt_DeleteBucket [OF ok(4) _ ok(2), of n] by (cases "DeleteBucket B ?c (folders_path ?u) n") auto
  with ok show ?thesis
    by (auto simp: folders_Delete_def db_Update_run on_bucket_def obs_Bucket Let_def)
qed

interpretation fos: folder_set "folders_New B" "folders_Get B" "folders_Delete B" "fo_inv B C"
    "\<lambda>fo. dom (fo_map fo)" fo_name_ok
  for B :: "'db bolt" and C :: crypto
proof (unfold_locales, goal_cases)
  case (1 w s n)
  then show ?case using folders_new [of B C w s n] by blast
next
  case (2 w s n)
  then show ?case by (auto simp: folders_New_def)
next
  case (3 w s n)
  then show ?case using folders_get [of B C w s n] by blast
next
  case (4 w s n)
  then show ?case by (auto simp: folders_Get_def domIff)
next
  case (5 w s n)
  then show ?case using folders_delete [of B C w s n] by blast
next
  case (6 w s n)
  then show ?case by (rule folders_delete_missing)
qed

section \<open>Properties\<close>

text \<open>
  C7. The folders of a user in the database: a new folder is empty and can be looked up, making it a
  second time fails, and after \<open>Delete\<close> it is not found and can be made anew; the other folders and
  their messages are unchanged by a deletion.
\<close>

theorem folders_recreate:
  assumes "fo_inv B C w fo" "n \<in> dom (fo_map fo)" "fo_name_ok n"
  shows "\<exists>w1 fo1 w2 fo2 p f. folders_New B w fo n = Ret (w, fo, Inl ErrDuplicateMailbox) \<and>
    folders_Delete B w fo n = Ret (w1, fo1, None) \<and>
    folders_Get B w1 fo1 n = Ret (w1, fo1, Inl ErrNotFound) \<and>
    (\<forall>k g. k \<noteq> n \<longrightarrow> is_folder fo k g \<longrightarrow> store_inv B C w g \<longrightarrow> store_msgs B C w1 g = store_msgs B C w g) \<and>
    folders_New B w1 fo1 n = Ret (w2, fo2, Inr p) \<and> folders_Get B w2 fo2 n = Ret (w2, fo2, Inr p) \<and>
    fo_heap fo2 p = Some f \<and> store_msgs B C w2 f = Map.empty \<and>
    fo_inv B C w2 fo2 \<and> dom (fo_map fo2) = dom (fo_map fo)"
proof -
  from folders_delete [OF assms(1,2)] obtain w1 fo1 where d: "folders_Delete B w fo n = Ret (w1, fo1, None)"
    "fo_inv B C w1 fo1" "dom (fo_map fo1) = dom (fo_map fo) - {n}"
    "\<forall>k f. k \<noteq> n \<longrightarrow> is_folder fo k f \<longrightarrow> store_inv B C w f \<longrightarrow>
       store_inv B C w1 f \<and> store_msgs B C w1 f = store_msgs B C w f" by blast
  from folders_new [OF d(2) assms(3)] d(3) obtain w2 fo2 p f where
    "folders_New B w1 fo1 n = Ret (w2, fo2, Inr p)" "fo_inv B C w2 fo2"
    "dom (fo_map fo2) = insert n (dom (fo_map fo) - {n})" "folders_Get B w2 fo2 n = Ret (w2, fo2, Inr p)"
    "fo_heap fo2 p = Some f" "store_msgs B C w2 f = Map.empty" by auto
  moreover have "insert n (dom (fo_map fo) - {n}) = dom (fo_map fo)" using assms(2) by auto
  moreover have "folders_New B w fo n = Ret (w, fo, Inl ErrDuplicateMailbox)"
    using assms(2) by (auto simp: folders_New_def)
  ultimately show ?thesis using d fos.get_missing [OF d(2), of n] by auto
qed

definition demo_folders :: "unit folders" where
  "demo_folders = \<lparr>fo_user = newUser None ''user:bob'' ''bob'' \<lparr>b_username = ''bob'', addrs = []\<rparr>,
     fo_map = [''Inbox'' \<mapsto> None], fo_heap = Map.empty, fo_fresh = 0\<rparr>"

lemma demo_fo_inv: "fo_inv ref_bolt ref_crypto demo_world demo_folders"
proof -
  have "obs ref_bolt demo_db [''user:bob''] = Some [''folders'' \<mapsto> None]"
    "obs ref_bolt demo_db (folders_path ''user:bob'') = Some [''Inbox'' \<mapsto> None]"
    by (simp_all add: obs_ref ref_Bucket_def demo_db_def folders_path_def foldersBucket_def upt_rec)
  moreover have "is_folder demo_folders ''Inbox'' demo_folder"
    by (simp add: is_folder_def demo_folders_def demo_folder_def newUser_def)
  moreover have "clock_ok demo_world" "content (wdb demo_world) = demo_db"
    by (simp_all add: clock_ok_def ref_world_def ref_env_def MarshalBinary_def)
  ultimately show ?thesis
    using ref_world_ok demo_inv(1)
    by (auto simp: fo_inv_def demo_folders_def newUser_def userPrefix_def split: if_splits)
qed

theorem folders_recreate_witness:
  "\<exists>w1 fo1 w2 fo2 p. folders_New ref_bolt demo_world demo_folders ''Inbox'' =
      Ret (demo_world, demo_folders, Inl ErrDuplicateMailbox) \<and>
    folders_Delete ref_bolt demo_world demo_folders ''Inbox'' = Ret (w1, fo1, None) \<and>
    folders_New ref_bolt w1 fo1 ''Inbox'' = Ret (w2, fo2, Inr p)"
  using folders_recreate [OF demo_fo_inv, of "''Inbox''"]
  by (auto simp: demo_folders_def fo_name_ok_def MaxKeySize_def)

text \<open>
  Renaming a folder of the database never returns.  \<open>Rename\<close> calls \<open>newFolder\<close>, which starts a
  read-write transaction of its own, while the transaction of \<open>Rename\<close> is still open: the goroutine
  waits for itself.
\<close>

theorem folders_Rename_blocks:
  assumes "fo_inv B C w fo" "n \<in> dom (fo_map fo)" "newname \<noteq> []"
    and "\<not> Bucket B (content (wdb w)) [u_bucketID (fo_user fo), newname]"
  shows "folders_Rename B w fo n newname = Block"
proof -
  let ?u = "u_bucketID (fo_user fo)" and ?c = "content (wdb w)"
  from assms(1) obtain mu mq where ok: "obs B ?c [?u] = Some mu" "obs B ?c (folders_path ?u) = Some mq"
      "bolt_ok B" "bolt_live B" "\<not> rwtx (wdb w)" "opened (wdb w)"
    by (rule fo_invE)
  obtain r where "fo_map fo n = Some r" using assms(2) by auto
  from fo_inv_folder [OF assms(1) this] obtain f where f: "is_folder fo n f" "store_inv B C w f" by blast
  from f(2) have "Bucket B ?c (folder_path f)" by (rule store_invE)
  with f(1) have "Bucket B ?c (folders_path ?u @ [n])" by (simp add: folder_path_snoc is_folder_def)
  with ok assms(3,4) show ?thesis
    by (simp add: folders_Rename_def db_Update_run on_bucket_def obs_Bucket newFolder_def initialize_def
        db_Update_open Let_def)
qed

theorem folders_Rename_blocks_witness:
  "folders_Rename ref_bolt demo_world demo_folders ''Inbox'' ''Archive'' = Block"
proof (rule folders_Rename_blocks [OF demo_fo_inv])
  show "\<not> Bucket ref_bolt (content (wdb demo_world)) [u_bucketID (fo_user demo_folders), ''Archive'']"
    by (simp add: ref_bolt_def ref_Bucket_def ref_world_def demo_db_def demo_folders_def newUser_def upt_rec)
qed (simp_all add: demo_folders_def)

end
