(* ===== verification/Pow_Queue.thy ===== *)
theory Pow_Queue
  imports Prelude "HOL-Library.Multiset"
begin

text \<open>
  The proof-of-work queue, src/powmgr/pow.go.  The queue is a linked list of nodes in a heap, with a
  pointer \<open>tail\<close> to the \<open>next\<close> field of the last node.  \<open>enqueue\<close> and \<open>dequeue\<close> hold the mutex, so each
  is one step; the goroutines that run \<open>work\<close> and the callers of \<open>Run\<close> interleave between these steps.
\<close>

section \<open>Model\<close>

text \<open>\<open>'t\<close> is the type of targets, \<open>'f\<close> that of the functions to run when the work is done.\<close>

record ('t, 'f) powOrder =
  target :: 't
  object :: bytes
  donePowFunc :: 'f

record 'o powNode =
  order :: 'o
  nxt :: "nat option"

text \<open>\<open>tail\<close> is a pointer to a \<open>next\<close> field and is modelled by the node that has the field.\<close>

record 'o Pow =
  head :: "nat option"
  tail :: "nat option"
  nodes :: "nat \<rightharpoonup> 'o powNode"
  nalloc :: nat

definition New :: "'o Pow" where
  "New = \<lparr>head = None, tail = None, nodes = Map.empty, nalloc = 0\<rparr>"

text \<open>
  \<open>enqueue\<close> says whether it starts a goroutine \<open>work\<close>.  A dangling \<open>tail\<close> or \<open>head\<close> would be a nil
  dereference.
\<close>

definition enqueue :: "'o Pow \<Rightarrow> 'o \<Rightarrow> ('o Pow \<times> bool) go" where
  "enqueue q p =
     (let n = nalloc q;
          q1 = q\<lparr>nodes := (nodes q)(n \<mapsto> \<lparr>order = p, nxt = None\<rparr>), nalloc := Suc n\<rparr>
      in case head q of
           None \<Rightarrow> Ret (q1\<lparr>tail := Some n, head := Some n\<rparr>, True)
         | Some _ \<Rightarrow>
             (case tail q of
                None \<Rightarrow> Panic
              | Some t \<Rightarrow>
                  (case nodes q1 t of
                     None \<Rightarrow> Panic
                   | Some node \<Rightarrow>
                       Ret (q1\<lparr>nodes := (nodes q1)(t \<mapsto> node\<lparr>nxt := Some n\<rparr>), tail := Some n\<rparr>, False))))"

definition dequeue :: "'o Pow \<Rightarrow> ('o Pow \<times> 'o option) go" where
  "dequeue q =
     (case head q of
        None \<Rightarrow> Ret (q, None)
      | Some h \<Rightarrow>
          (case nodes q h of
             None \<Rightarrow> Panic
           | Some node \<Rightarrow> Ret (q\<lparr>head := nxt node\<rparr>, Some (order node))))"

definition Run :: "('t, 'f) powOrder Pow \<Rightarrow> 't \<Rightarrow> bytes \<Rightarrow> 'f \<Rightarrow> (('t, 'f) powOrder Pow \<times> bool) go" where
  "Run q tgt obj f = enqueue q \<lparr>target = tgt, object = obj, donePowFunc = f\<rparr>"

text \<open>
  A goroutine in the loop of \<open>work\<close> is about to take an order (\<open>Idle\<close>), or has taken one and computes its nonce (\<open>Busy\<close>).
  A step runs from one of these points to the next and takes the lock once: a goroutine that finds the queue empty
  returns (\<open>None\<close>); one that has computed its nonce dequeues again, ignores what it gets, and starts the function of
  its order.  The last component is the order that was completed with the one that was ignored.
\<close>

datatype 'o worker = Idle | Busy 'o

fun work_step :: "'o worker \<Rightarrow> 'o Pow \<Rightarrow> ('o Pow \<times> 'o worker option \<times> ('o \<times> 'o option) option) go" where
  "work_step Idle q = go_bind (dequeue q) (\<lambda>(q1, r). Ret (q1, map_option Busy r, None))"
| "work_step (Busy p) q = go_bind (dequeue q) (\<lambda>(q1, r). Ret (q1, Some Idle, Some (p, r)))"

text \<open>
  The loop when no other goroutine touches the queue.  \<open>nonce\<close> computes the proof of work of an order (the hash of the
  object and \<open>powFunc\<close>); the result is the sequence of the orders whose function is run, each with its nonce.
  \<open>None\<close> means that the loop does not end.
\<close>

partial_function (option) work_loop :: "('o \<Rightarrow> 'n) \<Rightarrow> 'o worker \<Rightarrow> 'o Pow \<Rightarrow> ('o Pow \<times> ('o \<times> 'n) list) go option" where
  "work_loop nonce w q =
     (case work_step w q of
        Ret (q1, None, _) \<Rightarrow> Some (Ret (q1, []))
      | Ret (q1, Some w1, d) \<Rightarrow>
          Option.bind (work_loop nonce w1 q1) (\<lambda>r.
            Some (go_bind r (\<lambda>(q2, log). Ret (q2, (case d of None \<Rightarrow> log | Some (p, _) \<Rightarrow> (p, nonce p) # log)))))
      | Panic \<Rightarrow> Some Panic
      | Block \<Rightarrow> Some Block)"

definition work :: "('o \<Rightarrow> 'n) \<Rightarrow> 'o Pow \<Rightarrow> ('o Pow \<times> ('o \<times> 'n) list) go option" where
  "work nonce q = work_loop nonce Idle q"

definition powNonce :: "('t \<Rightarrow> bytes \<Rightarrow> 'n) \<Rightarrow> (bytes \<Rightarrow> bytes) \<Rightarrow> ('t, 'f) powOrder \<Rightarrow> 'n" where
  "powNonce powFunc sha512 p = powFunc (target p) (sha512 (object p))"

section \<open>The interface of a queue\<close>

text \<open>Calls on a queue in any order, and what they return: whether a goroutine is started, or the order that is taken.\<close>

datatype 'o queue_call = Enqueue 'o | Dequeue

datatype 'o queue_result = Starts bool | Takes "'o option"

fun queue_run ::
  "('q \<Rightarrow> 'o \<Rightarrow> ('q \<times> bool) go) \<Rightarrow> ('q \<Rightarrow> ('q \<times> 'o option) go) \<Rightarrow> 'q \<Rightarrow> 'o queue_call list \<Rightarrow> ('q \<times> 'o queue_result list) go" where
  "queue_run enq deq q [] = Ret (q, [])"
| "queue_run enq deq q (Enqueue p # cs) =
     go_bind (enq q p) (\<lambda>(q1, b). go_bind (queue_run enq deq q1 cs) (\<lambda>(q2, rs). Ret (q2, Starts b # rs)))"
| "queue_run enq deq q (Dequeue # cs) =
     go_bind (deq q) (\<lambda>(q1, x). go_bind (queue_run enq deq q1 cs) (\<lambda>(q2, rs). Ret (q2, Takes x # rs)))"

text \<open>The specification: a list, with insertion at the end and removal at the front.\<close>

fun list_run :: "'o list \<Rightarrow> 'o queue_call list \<Rightarrow> 'o list \<times> 'o queue_result list" where
  "list_run xs [] = (xs, [])"
| "list_run xs (Enqueue p # cs) = (case list_run (xs @ [p]) cs of (ys, rs) \<Rightarrow> (ys, Starts (xs = []) # rs))"
| "list_run [] (Dequeue # cs) = (case list_run [] cs of (ys, rs) \<Rightarrow> (ys, Takes None # rs))"
| "list_run (x # xs) (Dequeue # cs) = (case list_run xs cs of (ys, rs) \<Rightarrow> (ys, Takes (Some x) # rs))"

text \<open>What the rest of the package relies on: first in, first out, and no panic.\<close>

locale fifo =
  fixes empty :: 'q
    and enq :: "'q \<Rightarrow> 'o \<Rightarrow> ('q \<times> bool) go"
    and deq :: "'q \<Rightarrow> ('q \<times> 'o option) go"
    and rep :: "'q \<Rightarrow> 'o list \<Rightarrow> bool"
  assumes rep_empty: "rep empty []"
    and enq: "rep q xs \<Longrightarrow> \<exists>q'. enq q p = Ret (q', xs = []) \<and> rep q' (xs @ [p])"
    and deq: "rep q xs \<Longrightarrow>
      \<exists>q'. deq q = Ret (q', case xs of [] \<Rightarrow> None | x # _ \<Rightarrow> Some x) \<and> rep q' (tl xs)"
begin

text \<open>Every sequence of calls simulates the list.\<close>

lemma run_simulates:
  "rep q xs \<Longrightarrow> \<exists>q'. queue_run enq deq q cs = Ret (q', snd (list_run xs cs)) \<and> rep q' (fst (list_run xs cs))"
proof (induction xs cs arbitrary: q rule: list_run.induct)
  case (2 xs p cs)
  from enq [OF 2(2), of p] obtain q1 where "enq q p = Ret (q1, xs = [])" "rep q1 (xs @ [p])" by blast
  with 2(1) [of q1] show ?case by (auto split: prod.split)
next
  case (3 cs)
  from deq [OF 3(2)] obtain q1 where "deq q = Ret (q1, None)" "rep q1 []" by auto
  with 3(1) [of q1] show ?case by (auto split: prod.split)
next
  case (4 x xs cs)
  from deq [OF 4(2)] obtain q1 where "deq q = Ret (q1, Some x)" "rep q1 xs" by auto
  with 4(1) [of q1] show ?case by (auto split: prod.split)
qed simp

end

section \<open>The linked list is a queue\<close>

text \<open>The nodes reached from \<open>h\<close> hold \<open>xs\<close>; \<open>l\<close> is the last of them.\<close>

fun chain :: "(nat \<rightharpoonup> 'o powNode) \<Rightarrow> nat option \<Rightarrow> nat list \<Rightarrow> 'o list \<Rightarrow> bool" where
  "chain N h [] [] = (h = None)"
| "chain N h (n # ns) (x # xs) =
     (h = Some n \<and> (case N n of None \<Rightarrow> False | Some node \<Rightarrow> order node = x \<and> chain N (nxt node) ns xs))"
| "chain N h _ _ = False"

definition pow_rep :: "'o Pow \<Rightarrow> 'o list \<Rightarrow> bool" where
  "pow_rep q xs \<longleftrightarrow> (\<exists>ns. chain (nodes q) (head q) ns xs \<and> distinct ns \<and> (\<forall>n \<in> set ns. n < nalloc q) \<and>
     (ns \<noteq> [] \<longrightarrow> tail q = Some (last ns)))"

lemma chain_length: "chain N h ns xs \<Longrightarrow> length ns = length xs"
  by (induction N h ns xs rule: chain.induct) (auto split: option.splits)

lemma chain_fresh: "n \<notin> set ns \<Longrightarrow> chain (N(n \<mapsto> m)) h ns xs = chain N h ns xs"
  by (induction N h ns xs rule: chain.induct) (auto split: option.splits)

lemma chain_snoc:
  "chain N h ns xs \<Longrightarrow> ns \<noteq> [] \<Longrightarrow> distinct ns \<Longrightarrow> n \<notin> set ns \<Longrightarrow> N n = Some \<lparr>order = p, nxt = None\<rparr> \<Longrightarrow>
    \<exists>node. N (last ns) = Some node \<and> chain (N(last ns \<mapsto> node\<lparr>nxt := Some n\<rparr>)) h (ns @ [n]) (xs @ [p])"
proof (induction N h ns xs rule: chain.induct)
  case (2 N h k ns x xs)
  then obtain node where k: "h = Some k" "N k = Some node" "order node = x" "chain N (nxt node) ns xs"
    by (auto split: option.splits)
  show ?case
  proof (cases "ns = []")
    case True
    with k 2 have "xs = []" by (cases xs) auto
    with True k 2 show ?thesis by (auto split: option.splits)
  next
    case False
    with 2 k obtain nd where "N (last ns) = Some nd"
      "chain (N(last ns \<mapsto> nd\<lparr>nxt := Some n\<rparr>)) (nxt node) (ns @ [n]) (xs @ [p])"
      by (auto simp del: fun_upd_apply)
    moreover have "k \<noteq> last ns" using False 2 last_in_set [of ns] by (auto simp del: last_in_set)
    ultimately show ?thesis using False k by (auto simp: fun_upd_def)
  qed
qed auto

lemma enqueue_rep:
  assumes "pow_rep q xs"
  shows "\<exists>q'. enqueue q p = Ret (q', xs = []) \<and> pow_rep q' (xs @ [p])"
proof -
  from assms obtain ns where c: "chain (nodes q) (head q) ns xs" "distinct ns" "\<forall>n \<in> set ns. n < nalloc q"
      "ns \<noteq> [] \<longrightarrow> tail q = Some (last ns)"
    by (auto simp: pow_rep_def)
  let ?n = "nalloc q" and ?N = "(nodes q)(nalloc q \<mapsto> \<lparr>order = p, nxt = None\<rparr>)"
  have fresh: "?n \<notin> set ns" using c(3) by auto
  then have c': "chain ?N (head q) ns xs" using c(1) by (simp add: chain_fresh)
  show ?thesis
  proof (cases "ns = []")
    case True
    with c(1) have "xs = []" "head q = None" by (cases xs; simp)+
    then show ?thesis by (auto simp: enqueue_def Let_def pow_rep_def intro!: exI [of _ "[?n]"])
  next
    case False
    from chain_snoc [OF c' False c(2) fresh, of p] obtain node where
      n: "?N (last ns) = Some node" "chain (?N(last ns \<mapsto> node\<lparr>nxt := Some ?n\<rparr>)) (head q) (ns @ [?n]) (xs @ [p])"
      by auto
    have h: "head q \<noteq> None" "xs \<noteq> []" using c(1) False by (cases ns; cases xs; simp)+
    have "last ns \<noteq> ?n" using fresh last_in_set [OF False] by metis
    with h n(1) c(4) False have "enqueue q p = Ret (q\<lparr>nodes := ?N(last ns \<mapsto> node\<lparr>nxt := Some ?n\<rparr>), nalloc := Suc ?n, tail := Some ?n\<rparr>, False)"
      by (auto simp: enqueue_def Let_def)
    moreover have "pow_rep (q\<lparr>nodes := ?N(last ns \<mapsto> node\<lparr>nxt := Some ?n\<rparr>), nalloc := Suc ?n, tail := Some ?n\<rparr>) (xs @ [p])"
      unfolding pow_rep_def
      by (rule exI [of _ "ns @ [?n]"]) (use n(2) c(2,3) fresh in \<open>auto simp: less_SucI\<close>)
    ultimately show ?thesis using h by simp
  qed
qed

lemma dequeue_rep:
  assumes "pow_rep q xs"
  shows "\<exists>q'. dequeue q = Ret (q', case xs of [] \<Rightarrow> None | x # _ \<Rightarrow> Some x) \<and> pow_rep q' (tl xs)"
proof -
  from assms obtain ns where c: "chain (nodes q) (head q) ns xs" "distinct ns" "\<forall>n \<in> set ns. n < nalloc q"
      "ns \<noteq> [] \<longrightarrow> tail q = Some (last ns)"
    by (auto simp: pow_rep_def)
  show ?thesis
  proof (cases xs)
    case Nil
    with c(1) have "head q = None" by (cases ns) auto
    with Nil assms show ?thesis by (simp add: dequeue_def)
  next
    case (Cons x ys)
    with c(1) obtain n ms node where n: "ns = n # ms" "head q = Some n" "nodes q n = Some node" "order node = x"
        "chain (nodes q) (nxt node) ms ys"
      by (cases ns) (auto split: option.splits)
    have "pow_rep (q\<lparr>head := nxt node\<rparr>) ys"
      unfolding pow_rep_def by (rule exI [of _ ms]) (use n c in auto)
    with n Cons show ?thesis by (simp add: dequeue_def)
  qed
qed

interpretation pq: fifo New enqueue dequeue pow_rep
proof (unfold_locales, goal_cases)
  case 1
  then show ?case by (simp add: pow_rep_def New_def exI [of _ "[]"])
next
  case (2 q xs p)
  then show ?case by (rule enqueue_rep)
next
  case (3 q xs)
  then show ?case by (rule dequeue_rep)
qed

section \<open>One worker\<close>

fun evens :: "'a list \<Rightarrow> 'a list" where
  "evens [] = []"
| "evens [x] = [x]"
| "evens (x # y # xs) = x # evens xs"

lemma work_end:
  assumes "pow_rep q []"
  obtains q' where "work_loop nonce Idle q = Some (Ret (q', []))" "pow_rep q' []"
proof -
  from dequeue_rep [OF assms] obtain q' where "dequeue q = Ret (q', None)" "pow_rep q' []" by auto
  then show thesis using that by (subst (asm) work_loop.simps) simp
qed

lemma work_two:
  assumes "pow_rep q (x # xs)"
  obtains q' where "work_loop nonce Idle q =
      Option.bind (work_loop nonce Idle q') (\<lambda>r. Some (go_bind r (\<lambda>(q2, log). Ret (q2, (x, nonce x) # log))))"
    "pow_rep q' (tl xs)"
proof -
  from dequeue_rep [OF assms] obtain q1 where q1: "dequeue q = Ret (q1, Some x)" "pow_rep q1 xs" by auto
  from dequeue_rep [OF q1(2)] obtain q2 r where q2: "dequeue q1 = Ret (q2, r)" "pow_rep q2 (tl xs)" by blast
  have "work_loop nonce (Busy x) q1 =
      Option.bind (work_loop nonce Idle q2) (\<lambda>r. Some (go_bind r (\<lambda>(q3, log). Ret (q3, (x, nonce x) # log))))"
    using q2(1) by (subst work_loop.simps) simp
  moreover have "go_bind g (\<lambda>(q, log). Ret (q, log)) = g" for g :: "('a Pow \<times> ('a \<times> 'b) list) go"
    by (cases g) auto
  ultimately show thesis using that q1(1) q2(2) by (subst (asm) work_loop.simps) simp
qed

lemma work_evens:
  "pow_rep q xs \<Longrightarrow> \<exists>q'. work nonce q = Some (Ret (q', map (\<lambda>p. (p, nonce p)) (evens xs))) \<and> pow_rep q' []"
proof (induction xs arbitrary: q rule: evens.induct)
  case 1
  obtain q' where "work_loop nonce Idle q = Some (Ret (q', []))" "pow_rep q' []" by (rule work_end [OF 1])
  then show ?case by (simp add: work_def)
next
  case (2 x)
  obtain q1 where q1: "work_loop nonce Idle q =
      Option.bind (work_loop nonce Idle q1) (\<lambda>r. Some (go_bind r (\<lambda>(q2, log). Ret (q2, (x, nonce x) # log))))" "pow_rep q1 (tl [])"
    by (rule work_two [OF 2])
  obtain q2 where "work_loop nonce Idle q1 = Some (Ret (q2, []))" "pow_rep q2 []" by (rule work_end) (use q1(2) in simp)
  with q1(1) show ?case by (simp add: work_def)
next
  case (3 x y xs)
  obtain q1 where q1: "work_loop nonce Idle q =
      Option.bind (work_loop nonce Idle q1) (\<lambda>r. Some (go_bind r (\<lambda>(q2, log). Ret (q2, (x, nonce x) # log))))" "pow_rep q1 (tl (y # xs))"
    by (rule work_two [OF 3(2)])
  from 3(1) [of q1] q1(2) obtain q2 where "work nonce q1 = Some (Ret (q2, map (\<lambda>p. (p, nonce p)) (evens xs)))" "pow_rep q2 []" by auto
  with q1(1) show ?case by (simp add: work_def)
qed

section \<open>Any number of workers\<close>

text \<open>
  The goroutines that run \<open>work\<close> and the callers of \<open>Run\<close> take their steps in any order.  \<open>submitted\<close>, \<open>completed\<close> and \<open>dropped\<close>
  record what happened to the orders.
\<close>

record 'o powsys =
  queue :: "'o Pow"
  workers :: "'o worker multiset"
  submitted :: "'o multiset"
  completed :: "'o multiset"
  dropped :: "'o multiset"

definition pow_init :: "'o powsys" where
  "pow_init = \<lparr>queue = New, workers = {#}, submitted = {#}, completed = {#}, dropped = {#}\<rparr>"

inductive pow_step :: "'o powsys \<Rightarrow> 'o powsys \<Rightarrow> bool" where
  run: "enqueue (queue s) p = Ret (q', start) \<Longrightarrow>
    pow_step s (s\<lparr>queue := q', submitted := add_mset p (submitted s),
      workers := (if start then add_mset Idle (workers s) else workers s)\<rparr>)"
| work: "w \<in># workers s \<Longrightarrow> work_step w (queue s) = Ret (q', w', d) \<Longrightarrow>
    pow_step s (s\<lparr>queue := q',
      workers := (case w' of None \<Rightarrow> {#} | Some v \<Rightarrow> {#v#}) + (workers s - {#w#}),
      completed := (case d of None \<Rightarrow> {#} | Some (p, _) \<Rightarrow> {#p#}) + completed s,
      dropped := (case d of Some (_, Some x) \<Rightarrow> {#x#} | _ \<Rightarrow> {#}) + dropped s\<rparr>)"

inductive pow_reach :: "'o powsys \<Rightarrow> bool" where
  init: "pow_reach pow_init"
| step: "pow_reach s \<Longrightarrow> pow_step s t \<Longrightarrow> pow_reach t"

fun held :: "'o worker \<Rightarrow> 'o multiset" where
  "held Idle = {#}"
| "held (Busy p) = {#p#}"

definition in_work :: "'o worker multiset \<Rightarrow> 'o multiset" where
  "in_work W = \<Sum>\<^sub># (image_mset held W)"

lemma in_work_simps [simp]:
  "in_work {#} = {#}" "in_work (add_mset w W) = held w + in_work W"
  by (simp_all add: in_work_def)

lemma in_work_remove: "w \<in># W \<Longrightarrow> in_work W = held w + in_work (W - {#w#})"
  by (metis in_work_simps(2) insert_DiffM)

definition pow_inv :: "'o powsys \<Rightarrow> bool" where
  "pow_inv s \<longleftrightarrow> (\<exists>xs. pow_rep (queue s) xs \<and> (xs \<noteq> [] \<longrightarrow> workers s \<noteq> {#}) \<and>
     submitted s = mset xs + in_work (workers s) + completed s + dropped s)"

text \<open>A step of a goroutine moves at most one order out of the queue.\<close>

lemma work_step_rep:
  assumes "pow_rep q xs" "work_step w q = Ret (q', w', d)"
  shows "\<exists>ys. pow_rep q' ys \<and> (ys \<noteq> [] \<longrightarrow> w' \<noteq> None) \<and>
    mset xs + held w = mset ys + (case w' of None \<Rightarrow> {#} | Some v \<Rightarrow> held v) + (case d of None \<Rightarrow> {#} | Some (p, _) \<Rightarrow> {#p#}) +
      (case d of Some (_, Some x) \<Rightarrow> {#x#} | _ \<Rightarrow> {#})"
proof -
  from dequeue_rep [OF assms(1)] obtain q1 where "dequeue q = Ret (q1, case xs of [] \<Rightarrow> None | x # _ \<Rightarrow> Some x)" "pow_rep q1 (tl xs)"
    by blast
  with assms(2) show ?thesis by (cases w; cases xs) (auto intro!: exI [of _ "tl xs"])
qed

lemma pow_step_inv:
  assumes "pow_step s t" "pow_inv s"
  shows "pow_inv t"
  using assms(1)
proof cases
  case (run p q' start)
  from assms(2) obtain xs where xs: "pow_rep (queue s) xs" "xs \<noteq> [] \<longrightarrow> workers s \<noteq> {#}"
    "submitted s = mset xs + in_work (workers s) + completed s + dropped s" by (auto simp: pow_inv_def)
  from enqueue_rep [OF xs(1), of p] run have "start = (xs = [])" "pow_rep q' (xs @ [p])" by auto
  with run xs show ?thesis unfolding pow_inv_def by (intro exI [of _ "xs @ [p]"]) auto
next
  case (work w q' w' d)
  from assms(2) obtain xs where xs: "pow_rep (queue s) xs"
    "submitted s = mset xs + in_work (workers s) + completed s + dropped s" by (auto simp: pow_inv_def)
  from work_step_rep [OF xs(1) work(3)] obtain ys where ys: "pow_rep q' ys" "ys \<noteq> [] \<longrightarrow> w' \<noteq> None"
    "mset xs + held w = mset ys + (case w' of None \<Rightarrow> {#} | Some v \<Rightarrow> held v) + (case d of None \<Rightarrow> {#} | Some (p, _) \<Rightarrow> {#p#}) +
      (case d of Some (_, Some x) \<Rightarrow> {#x#} | _ \<Rightarrow> {#})" by blast
  have "submitted s = (mset xs + held w) + in_work (workers s - {#w#}) + completed s + dropped s"
    using xs(2) in_work_remove [OF work(2)] by (simp add: ac_simps)
  then have "pow_inv (s\<lparr>queue := q', workers := (case w' of None \<Rightarrow> {#} | Some v \<Rightarrow> {#v#}) + (workers s - {#w#}),
      completed := (case d of None \<Rightarrow> {#} | Some (p, _) \<Rightarrow> {#p#}) + completed s,
      dropped := (case d of Some (_, Some x) \<Rightarrow> {#x#} | _ \<Rightarrow> {#}) + dropped s\<rparr>)"
    unfolding pow_inv_def ys(3) by (intro exI [of _ ys]) (use ys(1,2) in \<open>auto simp: ac_simps split: option.split\<close>)
  with work(1) show ?thesis by simp
qed

lemma pow_reach_inv: "pow_reach s \<Longrightarrow> pow_inv s"
proof (induction rule: pow_reach.induct)
  case init
  then show ?case using pq.rep_empty by (auto simp: pow_inv_def pow_init_def intro!: exI [of _ "[]"])
next
  case (step s t)
  then show ?case using pow_step_inv by blast
qed

section \<open>Properties\<close>

text \<open>
  C14. The linked list with its pointer to the last \<open>next\<close> field refines a list: for every sequence of calls of \<open>enqueue\<close> and
  \<open>dequeue\<close> on a new queue, in any order, no nil pointer is followed, every \<open>dequeue\<close> returns the order that has waited
  longest (nil when none waits), every \<open>enqueue\<close> starts a goroutine exactly when the queue is empty, and the orders that are
  left in the end are those of the list.
\<close>

theorem pow_queue_fifo:
  "\<exists>q. queue_run enqueue dequeue New cs = Ret (q, snd (list_run [] cs)) \<and> pow_rep q (fst (list_run [] cs))"
  by (rule pq.run_simulates [OF pq.rep_empty])

text \<open>
  C15. Whatever the interleaving of callers of \<open>Run\<close> and of the goroutines running \<open>work\<close>: every order
  is in exactly one place (queued, being worked on, completed, or dropped), so none is completed
  twice; and as long as orders are queued there is a goroutine that works.
\<close>

theorem pow_no_duplicates:
  assumes "pow_reach s"
  shows "completed s + dropped s \<subseteq># submitted s \<and>
    (head (queue s) \<noteq> None \<longrightarrow> workers s \<noteq> {#})"
proof -
  from pow_reach_inv [OF assms] obtain xs where xs: "pow_rep (queue s) xs" "xs \<noteq> [] \<longrightarrow> workers s \<noteq> {#}"
    "submitted s = mset xs + in_work (workers s) + completed s + dropped s" by (auto simp: pow_inv_def)
  have "head (queue s) \<noteq> None \<Longrightarrow> xs \<noteq> []" using xs(1) by (auto simp: pow_rep_def elim: chain.elims)
  moreover have "completed s + dropped s \<subseteq># submitted s"
    by (simp add: xs(3) ac_simps)
  ultimately show ?thesis using xs(2) by blast
qed

lemma pow_demo_reach:
  "\<exists>s. pow_reach (s :: nat powsys) \<and> completed s = {#1#} \<and> dropped s = {#2#} \<and> submitted s = {#1, 2#}"
proof -
  let ?e1 = "\<lparr>head = Some 0, tail = Some 0, nodes = [0 \<mapsto> \<lparr>order = 1 :: nat, nxt = None\<rparr>], nalloc = 1\<rparr>"
  let ?N = "[0 \<mapsto> \<lparr>order = 1 :: nat, nxt = Some 1\<rparr>, 1 \<mapsto> \<lparr>order = 2, nxt = None\<rparr>]"
  let ?e2 = "\<lparr>head = Some 0, tail = Some 1, nodes = ?N, nalloc = 2\<rparr>"
  have s1: "pow_reach (pow_init\<lparr>queue := ?e1, submitted := {#1#}, workers := {#Idle#}\<rparr>)"
    using pow_reach.step [OF pow_reach.init pow_step.run [of pow_init 1 ?e1 True]]
    by (simp add: pow_init_def enqueue_def New_def)
  have "pow_reach (pow_init\<lparr>queue := ?e2, submitted := {#1, 2#}, workers := {#Idle#}\<rparr>)"
    using pow_reach.step [OF s1 pow_step.run [of _ 2 ?e2 False]]
    by (simp add: enqueue_def pow_init_def fun_upd_twist add_mset_commute numeral_2_eq_2)
  from pow_reach.step [OF this pow_step.work [of Idle _ "?e2\<lparr>head := Some 1\<rparr>" "Some (Busy 1)" None]]
  have "pow_reach (pow_init\<lparr>queue := ?e2\<lparr>head := Some 1\<rparr>, submitted := {#1, 2#}, workers := {#Busy 1#}\<rparr>)"
    by (simp add: dequeue_def pow_init_def)
  from pow_reach.step [OF this pow_step.work [of "Busy 1" _ "?e2\<lparr>head := None\<rparr>" "Some Idle" "Some (1, Some 2)"]]
  show ?thesis by (intro exI conjI) (auto simp: dequeue_def pow_init_def)
qed

theorem pow_no_duplicates_witness:
  "\<exists>s. pow_reach (s :: nat powsys) \<and> dropped s = {#2#} \<and> completed s + dropped s \<subseteq># submitted s"
proof -
  obtain s :: "nat powsys" where "pow_reach s" "dropped s = {#2#}" using pow_demo_reach by blast
  with pow_no_duplicates [of s] show ?thesis by blast
qed

text \<open>
  A worker alone with the queue ends, and it runs the functions of only every other order: the
  second \<open>dequeue\<close> of the loop does not remove the order just worked on, which is gone already, but the
  next one, which is lost.
\<close>

theorem work_drops_every_other:
  assumes "pow_rep q xs"
  shows "\<exists>q'. work nonce q = Some (Ret (q', map (\<lambda>p. (p, nonce p)) (evens xs))) \<and> head q' = None"
proof -
  from work_evens [OF assms, of nonce] obtain q' where
    "work nonce q = Some (Ret (q', map (\<lambda>p. (p, nonce p)) (evens xs)))" "pow_rep q' []" by blast
  moreover from this have "head q' = None" by (auto simp: pow_rep_def elim: chain.elims)
  ultimately show ?thesis by blast
qed

theorem work_drops_every_other_witness:
  "\<exists>q rs q'. queue_run enqueue dequeue New (map Enqueue [1, 2, 3 :: nat]) = Ret (q, rs) \<and>
     work (\<lambda>p. p + 10) q = Some (Ret (q', [(1, 11), (3, 13)]))"
proof -
  from pq.run_simulates [OF pq.rep_empty, of "map Enqueue [1, 2, 3 :: nat]"] obtain q rs where
    "queue_run enqueue dequeue New (map Enqueue [1, 2, 3 :: nat]) = Ret (q, rs)" "pow_rep q [1, 2, 3]" by auto
  with work_drops_every_other [of q "[1, 2, 3]" "\<lambda>p. p + 10"] show ?thesis by auto
qed

end
