(* ===== verification/Keys.thy ===== *)
theory Keys
  imports Golib
begin

text \<open>
  Package \<open>keys\<close> (src/idmgr/keys/keys.go): private identities and their JSON form.  The identities of
  bmutil and the extended keys of hdkeychain are opaque types with their functions in the parameter
  \<open>identity\<close>; JSON values are a datatype and their text form is the parameter \<open>jsonlib\<close>.
\<close>

section \<open>JSON\<close>

datatype json = JNull | JBool bool | JNum int | JStr string | JObj "(string \<times> json) list"

record jsonlib =
  json_text :: "json \<Rightarrow> bytes"
  json_parse :: "bytes \<Rightarrow> error + json"

definition ascii :: "string \<Rightarrow> bool" where
  "ascii s \<longleftrightarrow> (\<forall>c \<in> set s. CHR 0x20 \<le> c \<and> c \<le> CHR 0x7E)"

fun ascii_json :: "json \<Rightarrow> bool" where
  "ascii_json (JStr s) = ascii s"
| "ascii_json (JObj es) = (\<forall>(k, v) \<in> set es. ascii k \<and> ascii_json v)"
| "ascii_json _ = True"

text \<open>Documented behaviour of encoding/json: a value with printable strings is read back.\<close>

definition json_ok :: "jsonlib \<Rightarrow> bool" where
  "json_ok J \<longleftrightarrow> (\<forall>v. ascii_json v \<longrightarrow> json_parse J (json_text J v) = Inr v)"

text \<open>
  Decoding into a field of a struct.  Names are compared without regard to case.  Every occurrence of a name is decoded into
  the value that the field has by then, beginning with the value it had before: null leaves a value that is not a pointer or
  a map as it is, and a value of another type is an error.
\<close>

fun lower :: "char \<Rightarrow> char" where
  "lower c = (if CHR ''A'' \<le> c \<and> c \<le> CHR ''Z'' then char_of (of_char c + (32 :: nat)) else c)"

definition ToLower :: "string \<Rightarrow> string" where
  "ToLower s = map lower s"

definition EqualFold :: "string \<Rightarrow> string \<Rightarrow> bool" where
  "EqualFold s t \<longleftrightarrow> ToLower s = ToLower t"

definition json_fields :: "string \<Rightarrow> (string \<times> json) list \<Rightarrow> json list" where
  "json_fields name es = map snd (filter (\<lambda>(k, v). EqualFold k name) es)"

fun json_each :: "('x \<Rightarrow> json \<Rightarrow> error + 'x) \<Rightarrow> 'x \<Rightarrow> json list \<Rightarrow> error + 'x" where
  "json_each dec x [] = Inr x"
| "json_each dec x (v # vs) = (case dec x v of Inl e \<Rightarrow> Inl e | Inr y \<Rightarrow> json_each dec y vs)"

definition json_field :: "('x \<Rightarrow> json \<Rightarrow> error + 'x) \<Rightarrow> 'x \<Rightarrow> string \<Rightarrow> (string \<times> json) list \<Rightarrow> error + 'x" where
  "json_field dec x name es = json_each dec x (json_fields name es)"

lemma json_each_invariant:
  "(\<And>x v y. Q x \<Longrightarrow> dec x v = Inr y \<Longrightarrow> Q y) \<Longrightarrow> Q x \<Longrightarrow> json_each dec x vs = Inr y \<Longrightarrow> Q y"
  by (induction dec x vs rule: json_each.induct) (auto split: sum.splits)

definition json_type_error :: error where
  "json_type_error = ErrExt ''json: cannot unmarshal''"

fun json_string :: "string \<Rightarrow> json \<Rightarrow> error + string" where
  "json_string x (JStr s) = Inr s"
| "json_string x JNull = Inr x"
| "json_string x _ = Inl json_type_error"

fun json_bool :: "bool \<Rightarrow> json \<Rightarrow> error + bool" where
  "json_bool x (JBool b) = Inr b"
| "json_bool x JNull = Inr x"
| "json_bool x _ = Inl json_type_error"

fun json_uint :: "nat \<Rightarrow> nat \<Rightarrow> json \<Rightarrow> error + nat" where
  "json_uint bits x (JNum n) = (if 0 \<le> n \<and> n < 2 ^ bits then Inr (nat n) else Inl json_type_error)"
| "json_uint bits x JNull = Inr x"
| "json_uint bits x _ = Inl json_type_error"

fun json_int :: "int \<Rightarrow> json \<Rightarrow> error + int" where
  "json_int x (JNum n) = (if - (2 ^ 63) \<le> n \<and> n < 2 ^ 63 then Inr n else Inl json_type_error)"
| "json_int x JNull = Inr x"
| "json_int x _ = Inl json_type_error"

section \<open>Identities\<close>

record PowData =
  NonceTrialsPerByte :: u64
  ExtraBytes :: u64

text \<open>
  \<open>'k\<close> is hdkeychain's extended key, \<open>'a\<close> a private key, \<open>'b\<close> a private address and \<open>'p\<close> an
  \<open>identity.PrivateID\<close>.  Addresses are given by their text; a nil address is \<open>None\<close>.
\<close>

record ('k, 'a, 'b, 'p) identity =
  NewMaster :: "bytes \<Rightarrow> error + 'k"
  KeyString :: "'k \<Rightarrow> string"
  NewKeyFromString :: "string \<Rightarrow> error + 'k"
  NewHD :: "'k \<Rightarrow> u32 \<Rightarrow> u64 \<Rightarrow> error + 'a"
  NewPrivateAddress :: "'a \<Rightarrow> u64 \<Rightarrow> u64 \<Rightarrow> 'b"
  DefaultAddressVersion :: u64
  ImportWIF :: "string \<Rightarrow> string \<Rightarrow> string \<Rightarrow> error + 'b"
  NewPrivateID :: "'b \<Rightarrow> u32 \<Rightarrow> PowData option \<Rightarrow> 'p"
  id_Address :: "'p \<Rightarrow> string option"
  SigningWIF :: "'p \<Rightarrow> string"
  DecryptionWIF :: "'p \<Rightarrow> string"
  id_Pow :: "'p \<Rightarrow> PowData option"
  id_Behavior :: "'p \<Rightarrow> u32"
  DefaultNonceTrialsPerByte :: u64
  DefaultExtraBytes :: u64

record 'p PrivateID =
  Private :: "'p option"
  IsChan :: bool
  Disabled :: bool
  Imported :: bool
  Name :: string

definition pid_Address :: "('k, 'a, 'b, 'p) identity \<Rightarrow> 'p PrivateID \<Rightarrow> string option go" where
  "pid_Address I p = (case Private p of None \<Rightarrow> Panic | Some q \<Rightarrow> Ret (id_Address I q))"

text \<open>\<open>p.Address().String()\<close>.\<close>

definition address_String :: "('k, 'a, 'b, 'p) identity \<Rightarrow> 'p PrivateID \<Rightarrow> string go" where
  "address_String I p = go_bind (pid_Address I p) (\<lambda>a. case a of None \<Rightarrow> Panic | Some s \<Rightarrow> Ret s)"

text \<open>\<open>Public\<close> calls itself and never returns.\<close>

partial_function (option) pid_Public :: "'p PrivateID \<Rightarrow> 'p option" where
  "pid_Public p = pid_Public p"

definition MasterKey_MarshalJSON :: "('k, 'a, 'b, 'p) identity \<Rightarrow> 'k \<Rightarrow> json" where
  "MasterKey_MarshalJSON I k = JStr (KeyString I k)"

definition MasterKey_UnmarshalJSON :: "('k, 'a, 'b, 'p) identity \<Rightarrow> json \<Rightarrow> error + 'k" where
  "MasterKey_UnmarshalJSON I v =
     (case json_string '''' v of Inl e \<Rightarrow> Inl e | Inr str \<Rightarrow> NewKeyFromString I str)"

text \<open>\<open>json.Marshal\<close> writes the keys of a map in increasing order.\<close>

definition PrivateID_MarshalJSON :: "('k, 'a, 'b, 'p) identity \<Rightarrow> 'p PrivateID \<Rightarrow> (error + json) go" where
  "PrivateID_MarshalJSON I p =
     (case Private p of
        None \<Rightarrow> Ret (Inl ErrInvalidPrivateID)
      | Some q \<Rightarrow>
     (case id_Address I q of
        None \<Rightarrow> Ret (Inl ErrInvalidPrivateID)
      | Some addr \<Rightarrow>
     (case id_Pow I q of
        None \<Rightarrow> Panic
      | Some pow \<Rightarrow> Ret (Inr (JObj
          [(''address'', JStr addr),
           (''behavior'', JNum (uint (id_Behavior I q))),
           (''disabled'', JBool (Disabled p)),
           (''encryptionKey'', JStr (DecryptionWIF I q)),
           (''extraBytes'', JNum (uint (ExtraBytes pow))),
           (''imported'', JBool (Imported p)),
           (''isChan'', JBool (IsChan p)),
           (''name'', JStr (Name p)),
           (''nonceTrialsPerByte'', JNum (uint (NonceTrialsPerByte pow))),
           (''signingKey'', JStr (SigningWIF I q))])))))"

record privateIDStore =
  st_Address :: string
  st_NonceTrialsPerByte :: u64
  st_ExtraBytes :: u64
  st_SigningKey :: string
  st_EncryptionKey :: string
  st_IsChan :: bool
  st_Disabled :: bool
  st_Imported :: bool
  st_Name :: string
  st_Behavior :: u32

fun sum_bind :: "error + 'x \<Rightarrow> ('x \<Rightarrow> error + 'y) \<Rightarrow> error + 'y" where
  "sum_bind (Inl e) f = Inl e"
| "sum_bind (Inr x) f = f x"

definition unmarshal_store :: "json \<Rightarrow> error + privateIDStore" where
  "unmarshal_store v =
     (case v of
        JObj es \<Rightarrow>
          sum_bind (json_field json_string '''' ''address'' es) (\<lambda>a.
          sum_bind (json_field (json_uint 64) 0 ''nonceTrialsPerByte'' es) (\<lambda>n.
          sum_bind (json_field (json_uint 64) 0 ''extraBytes'' es) (\<lambda>x.
          sum_bind (json_field json_string '''' ''signingKey'' es) (\<lambda>s.
          sum_bind (json_field json_string '''' ''encryptionKey'' es) (\<lambda>k.
          sum_bind (json_field json_bool False ''isChan'' es) (\<lambda>c.
          sum_bind (json_field json_bool False ''disabled'' es) (\<lambda>d.
          sum_bind (json_field json_bool False ''imported'' es) (\<lambda>i.
          sum_bind (json_field json_string '''' ''name'' es) (\<lambda>m.
          sum_bind (json_field (json_uint 32) 0 ''behavior'' es) (\<lambda>b.
            Inr \<lparr>st_Address = a, st_NonceTrialsPerByte = of_nat n, st_ExtraBytes = of_nat x, st_SigningKey = s,
              st_EncryptionKey = k, st_IsChan = c, st_Disabled = d, st_Imported = i, st_Name = m,
              st_Behavior = of_nat b\<rparr>))))))))))
      | _ \<Rightarrow> Inl json_type_error)"

definition PrivateID_UnmarshalJSON :: "('k, 'a, 'b, 'p) identity \<Rightarrow> json \<Rightarrow> error + 'p PrivateID" where
  "PrivateID_UnmarshalJSON I v =
     sum_bind (unmarshal_store v) (\<lambda>stored.
     sum_bind (ImportWIF I (st_Address stored) (st_SigningKey stored) (st_EncryptionKey stored)) (\<lambda>pa.
       Inr \<lparr>Private = Some (NewPrivateID I pa (st_Behavior stored)
              (Some \<lparr>NonceTrialsPerByte = st_NonceTrialsPerByte stored, ExtraBytes = st_ExtraBytes stored\<rparr>)),
            IsChan = st_IsChan stored, Disabled = st_Disabled stored, Imported = st_Imported stored,
            Name = st_Name stored\<rparr>))"

section \<open>The JSON form of an identity\<close>

text \<open>
  Documented behaviour of bmutil: the address and the two private keys of an identity in their text form give the
  identity back, with its behaviour and its proof-of-work parameters; these texts are printable.
\<close>

definition saved_ok :: "('k, 'a, 'b, 'p) identity \<Rightarrow> 'p \<Rightarrow> bool" where
  "saved_ok I q \<longleftrightarrow>
     (\<exists>a b d. id_Address I q = Some a \<and> id_Pow I q = Some d \<and> ImportWIF I a (SigningWIF I q) (DecryptionWIF I q) = Inr b \<and>
        NewPrivateID I b (id_Behavior I q) (Some d) = q \<and> ascii a) \<and> ascii (SigningWIF I q) \<and> ascii (DecryptionWIF I q)"

lemma sum_bind_Inr: "sum_bind m f = Inr y \<longleftrightarrow> (\<exists>x. m = Inr x \<and> f x = Inr y)"
  by (cases m) simp_all

lemma field_names [simp]:
  "json_fields ''address'' [(''address'', a), (''behavior'', b), (''disabled'', c), (''encryptionKey'', d), (''extraBytes'', e),
     (''imported'', f), (''isChan'', g), (''name'', h), (''nonceTrialsPerByte'', i), (''signingKey'', j)] = [a]"
  "json_fields ''behavior'' [(''address'', a), (''behavior'', b), (''disabled'', c), (''encryptionKey'', d), (''extraBytes'', e),
     (''imported'', f), (''isChan'', g), (''name'', h), (''nonceTrialsPerByte'', i), (''signingKey'', j)] = [b]"
  "json_fields ''disabled'' [(''address'', a), (''behavior'', b), (''disabled'', c), (''encryptionKey'', d), (''extraBytes'', e),
     (''imported'', f), (''isChan'', g), (''name'', h), (''nonceTrialsPerByte'', i), (''signingKey'', j)] = [c]"
  "json_fields ''encryptionKey'' [(''address'', a), (''behavior'', b), (''disabled'', c), (''encryptionKey'', d), (''extraBytes'', e),
     (''imported'', f), (''isChan'', g), (''name'', h), (''nonceTrialsPerByte'', i), (''signingKey'', j)] = [d]"
  "json_fields ''extraBytes'' [(''address'', a), (''behavior'', b), (''disabled'', c), (''encryptionKey'', d), (''extraBytes'', e),
     (''imported'', f), (''isChan'', g), (''name'', h), (''nonceTrialsPerByte'', i), (''signingKey'', j)] = [e]"
  "json_fields ''imported'' [(''address'', a), (''behavior'', b), (''disabled'', c), (''encryptionKey'', d), (''extraBytes'', e),
     (''imported'', f), (''isChan'', g), (''name'', h), (''nonceTrialsPerByte'', i), (''signingKey'', j)] = [f]"
  "json_fields ''isChan'' [(''address'', a), (''behavior'', b), (''disabled'', c), (''encryptionKey'', d), (''extraBytes'', e),
     (''imported'', f), (''isChan'', g), (''name'', h), (''nonceTrialsPerByte'', i), (''signingKey'', j)] = [g]"
  "json_fields ''name'' [(''address'', a), (''behavior'', b), (''disabled'', c), (''encryptionKey'', d), (''extraBytes'', e),
     (''imported'', f), (''isChan'', g), (''name'', h), (''nonceTrialsPerByte'', i), (''signingKey'', j)] = [h]"
  "json_fields ''nonceTrialsPerByte'' [(''address'', a), (''behavior'', b), (''disabled'', c), (''encryptionKey'', d), (''extraBytes'', e),
     (''imported'', f), (''isChan'', g), (''name'', h), (''nonceTrialsPerByte'', i), (''signingKey'', j)] = [i]"
  "json_fields ''signingKey'' [(''address'', a), (''behavior'', b), (''disabled'', c), (''encryptionKey'', d), (''extraBytes'', e),
     (''imported'', f), (''isChan'', g), (''name'', h), (''nonceTrialsPerByte'', i), (''signingKey'', j)] = [j]"
  by (simp_all add: json_fields_def EqualFold_def ToLower_def)

lemma json_uint_uint [simp]: "json_uint 64 k (JNum (uint (x :: u64))) = Inr (unat x)"
    "json_uint 32 k (JNum (uint (y :: u32))) = Inr (unat y)"
  using uint_bounded [of x] uint_bounded [of y] by simp_all

lemma PrivateID_json:
  assumes "Private p = Some q" "saved_ok I q"
  shows "\<exists>v. PrivateID_MarshalJSON I p = Ret (Inr v) \<and> PrivateID_UnmarshalJSON I v = Inr p \<and>
    (ascii (Name p) \<longrightarrow> ascii_json v) \<and> v \<noteq> JNull"
proof -
  from assms(2) obtain a b d where s: "id_Address I q = Some a" "id_Pow I q = Some d"
      "ImportWIF I a (SigningWIF I q) (DecryptionWIF I q) = Inr b" "NewPrivateID I b (id_Behavior I q) (Some d) = q" "ascii a"
      "ascii (SigningWIF I q)" "ascii (DecryptionWIF I q)"
    by (auto simp: saved_ok_def)
  have p: "\<lparr>Private = Some q, IsChan = IsChan p, Disabled = Disabled p, Imported = Imported p, Name = Name p\<rparr> = p"
    using assms(1) by (cases p) simp
  have d: "\<lparr>NonceTrialsPerByte = NonceTrialsPerByte d, ExtraBytes = ExtraBytes d\<rparr> = d" by simp
  show ?thesis
    using s assms(1)
    by (simp add: PrivateID_MarshalJSON_def PrivateID_UnmarshalJSON_def unmarshal_store_def json_field_def d p del: json_uint.simps)
      (simp add: ascii_def)
qed

lemma pid_Public_never: "pid_Public p \<noteq> Some x"
proof
  assume "pid_Public p = Some x"
  then show False by (rule pid_Public.raw_induct [where P = "\<lambda>_ _. False", rotated])
qed

end
