(* ===== verification/Cmd.thy ===== *)
theory Cmd
  imports Email Keys
begin

text \<open>
  Package \<open>cmd\<close> (src/cmd/*.go, src/cmd/rpc/proto.go, src/cmd/client/main.go): the commands that a user gives by e-mail
  or over RPC, the patterns of their parameters, their execution against the interface \<open>cmd.User\<close>, and their replies.

  The readers of patterns are named by the constructors of \<open>reader\<close>, because the table of commands refers to them and
  \<open>readHelpCommand\<close> refers to the table.  A reader that sorts its parameters in place returns them.  The generated
  protocol buffer structures are records with the fields that the package uses; \<open>CompactTextString\<close> of package
  proto is a parameter.
\<close>

section \<open>Public identities\<close>

text \<open>
  \<open>identity.Public\<close> is an interface: package user implements it by \<open>broadcastID\<close>, bmutil by the opaque type \<open>'q\<close>.
\<close>

datatype 'q Public = broadcastID | PublicID_of 'q

record 'q publib =
  q_Address :: "'q \<Rightarrow> string option"
  q_Behavior :: "'q \<Rightarrow> u32"
  q_Pow :: "'q \<Rightarrow> PowData option"

fun public_Address :: "'q publib \<Rightarrow> 'q Public \<Rightarrow> string option" where
  "public_Address Q broadcastID = None"
| "public_Address Q (PublicID_of q) = q_Address Q q"

fun public_Behavior :: "'q publib \<Rightarrow> 'q Public \<Rightarrow> u32" where
  "public_Behavior Q broadcastID = 0"
| "public_Behavior Q (PublicID_of q) = q_Behavior Q q"

fun public_Pow :: "'q publib \<Rightarrow> 'q Public \<Rightarrow> PowData option" where
  "public_Pow Q broadcastID = None"
| "public_Pow Q (PublicID_of q) = q_Pow Q q"

record 'q PublicID =
  ID :: "'q Public"
  Label :: string

text \<open>The interface \<open>cmd.User\<close>: operations on a state \<open>'u\<close>.\<close>

record ('u, 'q) cmd_user =
  cu_NewAddress :: "'u \<Rightarrow> string \<Rightarrow> bool \<Rightarrow> ('u \<times> 'q PublicID) go"
  cu_ListAddresses :: "'u \<Rightarrow> ('u \<times> 'q PublicID list) go"

section \<open>RPC messages\<close>

record BitmessageIdentity =
  bi_Version :: "u32 option"
  bi_Address :: "string option"
  bi_Label :: "string option"
  bi_Behavior :: "u32 option"
  bi_Noncetrialsperbyte :: "u64 option"
  bi_Extrabytes :: "u64 option"

record NewAddressRequest =
  na_Version :: "u32 option"
  na_Addressversion :: "u32 option"
  na_Label :: "string option"
  na_Stream :: "u32 option"
  na_Noncetrialsperbyte :: "u32 option"
  na_Extrabytes :: "u32 option"
  na_Ack :: "bool option"

record HelpRequest =
  hr_Version :: "u32 option"
  hr_Requests :: "string list"

datatype Request =
    Request_Help "HelpRequest option"
  | Request_Newaddress "NewAddressRequest option"
  | Request_Listaddresses "u32 option option"  \<comment> \<open>the version of the request, or a nil pointer\<close>

record BMRPCRequest =
  rq_Version :: "u32 option"
  rq_Request :: "Request option"

datatype Reply =
    ErrorReply "u32 option" "string option"
  | NewAddressReply "u32 option" "BitmessageIdentity"
  | ListAddressesReply "u32 option" "BitmessageIdentity list"
  | HelpReply "u32 option" "string list"

record BMRPCReply =
  rp_Version :: "u32 option"
  rp_Reply :: "Reply option"

section \<open>Patterns and errors\<close>

datatype Key = KeyRepeated | KeyRepeatedNull | KeyBoolean | KeyNatural | KeyString | KeySymbol

fun keyString :: "Key \<Rightarrow> string" where
  "keyString KeyRepeated = ''+''"
| "keyString KeyRepeatedNull = ''*''"
| "keyString KeyBoolean = '' boolean''"
| "keyString KeyNatural = '' natural''"
| "keyString KeyString = '' string''"
| "keyString KeySymbol = '' symbol''"

definition patternString :: "Key list \<Rightarrow> string" where
  "patternString keys = join '''' (map keyString keys)"

datatype cmd_error =
    Plain error
  | ErrUnknownCommand string
  | ErrUnrecognizedPattern string "Key list list"
  | ErrUnimplemented string
  | ErrInvalidNumberOfParameters "string list" u32

fun cmd_Error :: "cmd_error \<Rightarrow> string" where
  "cmd_Error (Plain e) = error_text e"
| "cmd_Error (ErrUnknownCommand c) = ''Unknown command '' @ c"
| "cmd_Error (ErrUnrecognizedPattern c ps) =
     ''Unrecognized pattern for command '' @ c @ ''.'' @ [CHR 0x0A] @ ''Recognized patterns are '' @ [CHR 0x0A, CHR 0x09] @
     join [CHR 0x0A, CHR 0x09] (map patternString ps)"
| "cmd_Error (ErrUnimplemented c) = ''Command '' @ c @ '' has not yet been implemented.''"
| "cmd_Error (ErrInvalidNumberOfParameters ps n) =
     ''Invalid number of parameters in ('' @ join '' '' ps @ ''); expected '' @ fmt_d (unat n)"

text \<open>
  \<open>ReadPattern\<close> assigns through pointers; an element is the type it points to, and the values assigned before an
  error are kept.  \<open>regexString\<close> matches anywhere in the text: two quotes with no line break between them.
\<close>

datatype element = PBool | PUint64 | PString | POther
datatype elem_value = VBool bool | VUint64 u64 | VString string

fun quoted_from :: "string \<Rightarrow> bool" where
  "quoted_from [] = False"
| "quoted_from (c # s) = (if c = CHR 0x22 then True else if c = CHR 0x0A then False else quoted_from s)"

fun regexString :: "string \<Rightarrow> bool" where
  "regexString [] = False"
| "regexString (c # s) = ((c = CHR 0x22 \<and> quoted_from s) \<or> regexString s)"

definition read_element :: "string \<Rightarrow> element \<Rightarrow> cmd_error + elem_value" where
  "read_element param e =
     (case e of
        POther \<Rightarrow> Inl (Plain ErrInvalidType)
      | PBool \<Rightarrow> if param = ''true'' then Inr (VBool True) else if param = ''false'' then Inr (VBool False)
          else Inl (Plain ErrInvalidBoolean)
      | PUint64 \<Rightarrow> (case ParseUint param of Inl e \<Rightarrow> Inl (Plain e) | Inr n \<Rightarrow> Inr (VUint64 n))
      | PString \<Rightarrow> if \<not> regexString param then Inl (Plain ErrInvalidString)
          else Inr (VString (take (length param - 2) (drop 1 param))))"

fun read_elements :: "string list \<Rightarrow> element list \<Rightarrow> elem_value list \<times> cmd_error option" where
  "read_elements (p # ps) (e # es) =
     (case read_element p e of
        Inl err \<Rightarrow> ([], Some err)
      | Inr v \<Rightarrow> (case read_elements ps es of (vs, r) \<Rightarrow> (v # vs, r)))"
| "read_elements _ _ = ([], None)"

definition ReadPattern :: "string list \<Rightarrow> element list \<Rightarrow> elem_value list \<times> cmd_error option" where
  "ReadPattern params es =
     (if length params \<noteq> length es then ([], Some (ErrInvalidNumberOfParameters params (of_nat (length es))))
      else read_elements params es)"

section \<open>The table of commands\<close>

datatype reader = readHelp | readNewAddress | readListAddresses

record Pattern =
  p_help :: string
  p_key :: "Key list"
  p_read :: reader

record command =
  c_help :: string
  c_patterns :: "Pattern list"

definition recognizedPatterns :: "Pattern list \<Rightarrow> Key list list" where
  "recognizedPatterns ps = map p_key ps"

definition newErrUnrecognizedPattern :: "string \<Rightarrow> Pattern list \<Rightarrow> cmd_error" where
  "newErrUnrecognizedPattern c ps = ErrUnrecognizedPattern c (recognizedPatterns ps)"

definition Commands :: "string list" where
  "Commands = [''deletemessages'', ''getmessages'', ''help'', ''listaddresses'', ''newaddress'', ''sendmessage'']"

definition Unimplemented :: "string list" where
  "Unimplemented = [''deletemessages'', ''getmessages'', ''listaddresses'', ''newaddress'', ''sendmessage'']"

definition unimplementedStub :: command where
  "unimplementedStub = \<lparr>c_help = ''has not yet been implemented.'', c_patterns = []\<rparr>"

definition help_cmd :: command where
  "help_cmd = \<lparr>c_help = ''provides instructions on commands.'',
     c_patterns = [\<lparr>p_help = ''Print instructions for all commands.'', p_key = [], p_read = readHelp\<rparr>,
       \<lparr>p_help = ''Print instructions for specified commands.'', p_key = [KeySymbol, KeyRepeated], p_read = readHelp\<rparr>]\<rparr>"

definition newAddress :: command where
  "newAddress = \<lparr>c_help = ''creates a new address.'',
     c_patterns = [\<lparr>p_help = ''Create a new unnamed address.'', p_key = [], p_read = readNewAddress\<rparr>,
       \<lparr>p_help = ''Create a new named address.'', p_key = [KeyBoolean], p_read = readNewAddress\<rparr>,
       \<lparr>p_help = ''Create a new named address.'', p_key = [KeyBoolean, KeyNatural, KeyNatural], p_read = readNewAddress\<rparr>,
       \<lparr>p_help = ''Create a new named address.'', p_key = [KeyString], p_read = readNewAddress\<rparr>,
       \<lparr>p_help = ''Create a new named address.'', p_key = [KeyString, KeyBoolean], p_read = readNewAddress\<rparr>,
       \<lparr>p_help = ''Create a new named address.'', p_key = [KeyString, KeyBoolean, KeyNatural, KeyNatural],
         p_read = readNewAddress\<rparr>]\<rparr>"

definition listAddresses :: command where
  "listAddresses = \<lparr>c_help = ''list all available addresses'',
     c_patterns = [\<lparr>p_help = ''list all available addresses'', p_key = [], p_read = readListAddresses\<rparr>]\<rparr>"

definition commands :: "string \<rightharpoonup> command" where
  "commands = [''help'' \<mapsto> help_cmd, ''newaddress'' \<mapsto> newAddress, ''listaddresses'' \<mapsto> listAddresses,
     ''getmessages'' \<mapsto> unimplementedStub, ''deletemessages'' \<mapsto> unimplementedStub, ''sendmessage'' \<mapsto> unimplementedStub,
     ''subscribe'' \<mapsto> unimplementedStub]"

text \<open>The checks of \<open>init\<close>, each of which panics when it fails.\<close>

fun check_order :: "(string \<Rightarrow> bool) \<Rightarrow> string \<Rightarrow> string list \<Rightarrow> unit go" where
  "check_order known previous [] = Ret ()"
| "check_order known previous (c # cs) =
     (if previous > c then Panic else if \<not> known c then Panic else check_order known c cs)"

definition has_help :: "command \<Rightarrow> bool" where
  "has_help c \<longleftrightarrow> c_help c \<noteq> '''' \<and> (\<forall>p \<in> set (c_patterns c). p_help p \<noteq> '''')"

definition cmd_init :: "unit go" where
  "cmd_init =
     go_bind (check_order (\<lambda>c. commands c \<noteq> None) '''' Commands) (\<lambda>_.
     go_bind (check_order (\<lambda>c. c \<in> set Commands) '''' Unimplemented) (\<lambda>_.
       if \<forall>c \<in> ran commands. has_help c then Ret () else Panic))"

section \<open>Commands\<close>

record newAddressCommand =
  nc_ack :: bool
  nc_label :: "string option"
  nc_pow :: "PowData option"
  nc_version :: u64
  nc_stream :: u64

datatype Command = HelpCommand "string list" | NewAddressCommand newAddressCommand | ListAddressesCommand

datatype 'q Response =
    helpResponse "string list" bool
  | newAddressResponse "'q PublicID"
  | listAddressesResponse "'q PublicID list"
  | errorResponse cmd_error

definition DefaultSendAck :: bool where "DefaultSendAck = True"

fun unknown_command :: "string list \<Rightarrow> string option" where
  "unknown_command [] = None"
| "unknown_command (p # ps) = (if commands p = None then Some p else unknown_command ps)"

definition readHelpCommand :: "string list \<Rightarrow> string list \<times> (cmd_error + Command)" where
  "readHelpCommand param =
     (case unknown_command param of
        Some p \<Rightarrow> (param, Inl (ErrUnknownCommand p))
      | None \<Rightarrow> (sort param, Inr (HelpCommand (sort param))))"

definition readNewAddressCommand :: "string list \<Rightarrow> string list \<times> (cmd_error + Command)" where
  "readNewAddressCommand param =
     (let mk = (\<lambda>sendAck. Inr (NewAddressCommand
            \<lparr>nc_ack = sendAck, nc_label = None, nc_pow = None, nc_version = 4, nc_stream = 1\<rparr>))
      in (param,
        if length param = 0 then mk DefaultSendAck
        else if length param = 1 then
          (case ReadPattern param [PBool] of
             (_, Some e) \<Rightarrow> Inl e
           | (vs, None) \<Rightarrow> mk (vs = [VBool True]))
        else Inl (ErrInvalidNumberOfParameters param 1)))"

definition readListAddressesCommand :: "string list \<Rightarrow> string list \<times> (cmd_error + Command)" where
  "readListAddressesCommand param =
     (param, if length param \<noteq> 0 then Inl (ErrInvalidNumberOfParameters param 0) else Inr ListAddressesCommand)"

fun apply_read :: "reader \<Rightarrow> string list \<Rightarrow> string list \<times> (cmd_error + Command)" where
  "apply_read readHelp ps = readHelpCommand ps"
| "apply_read readNewAddress ps = readNewAddressCommand ps"
| "apply_read readListAddresses ps = readListAddressesCommand ps"

fun first_match :: "Pattern list \<Rightarrow> string list \<Rightarrow> string list \<times> Command option" where
  "first_match [] param = (param, None)"
| "first_match (p # ps) param =
     (case apply_read (p_read p) param of
        (param1, Inr c) \<Rightarrow> (param1, Some c)
      | (param1, Inl _) \<Rightarrow> first_match ps param1)"

definition ReadCommand :: "string \<Rightarrow> string list \<Rightarrow> string list \<times> (cmd_error + Command)" where
  "ReadCommand name param =
     (case commands name of
        None \<Rightarrow> (param, Inl (ErrUnknownCommand name))
      | Some c \<Rightarrow>
          (case first_match (c_patterns c) param of
             (param1, Some cmd) \<Rightarrow> (param1, Inr cmd)
           | (param1, None) \<Rightarrow> (param1, Inl (ErrUnrecognizedPattern name (recognizedPatterns (c_patterns c))))))"

definition helpCommand_Execute :: "string list \<Rightarrow> 'q Response" where
  "helpCommand_Execute cs = (if length cs = 0 then helpResponse Commands False else helpResponse cs True)"

definition newAddressCommand_Execute :: "('u, 'q) cmd_user \<Rightarrow> 'u \<Rightarrow> newAddressCommand \<Rightarrow> ('u \<times> 'q Response) go" where
  "newAddressCommand_Execute U u r =
     go_bind (cu_NewAddress U u '''' (nc_ack r)) (\<lambda>(u1, addr). Ret (u1, newAddressResponse addr))"

definition listAddressesCommand_Execute :: "('u, 'q) cmd_user \<Rightarrow> 'u \<Rightarrow> ('u \<times> 'q Response) go" where
  "listAddressesCommand_Execute U u =
     go_bind (cu_ListAddresses U u) (\<lambda>(u1, addrs). Ret (u1, listAddressesResponse addrs))"

fun Execute :: "('u, 'q) cmd_user \<Rightarrow> 'u \<Rightarrow> Command \<Rightarrow> ('u \<times> (cmd_error + 'q Response)) go" where
  "Execute U u (HelpCommand cs) = Ret (u, Inr (helpCommand_Execute cs))"
| "Execute U u (NewAddressCommand r) = go_bind (newAddressCommand_Execute U u r) (\<lambda>(u1, r). Ret (u1, Inr r))"
| "Execute U u ListAddressesCommand = go_bind (listAddressesCommand_Execute U u) (\<lambda>(u1, r). Ret (u1, Inr r))"

section \<open>Replies\<close>

definition PublicToRPC :: "'q publib \<Rightarrow> 'q PublicID \<Rightarrow> BitmessageIdentity go" where
  "PublicToRPC Q ip =
     (case (public_Address Q (ID ip), public_Pow Q (ID ip)) of
        (Some str, Some pow) \<Rightarrow> Ret \<lparr>bi_Version = Some 1, bi_Address = Some str, bi_Label = Some (Label ip),
          bi_Behavior = Some (public_Behavior Q (ID ip)), bi_Noncetrialsperbyte = Some (NonceTrialsPerByte pow),
          bi_Extrabytes = Some (ExtraBytes pow)\<rparr>
      | _ \<Rightarrow> Panic)"

fun PublicsToRPC :: "'q publib \<Rightarrow> 'q PublicID list \<Rightarrow> BitmessageIdentity list go" where
  "PublicsToRPC Q [] = Ret []"
| "PublicsToRPC Q (a # as) = go_bind (PublicToRPC Q a) (\<lambda>x. go_bind (PublicsToRPC Q as) (\<lambda>xs. Ret (x # xs)))"

text \<open>\<open>%-14s\<close>.\<close>

definition pad14 :: "string \<Rightarrow> string" where
  "pad14 s = s @ replicate (14 - length s) CHR '' ''"

definition formatHelp :: "string \<Rightarrow> string" where
  "formatHelp h = h"

definition helpMessageShort :: "string \<Rightarrow> command \<Rightarrow> string" where
  "helpMessageShort cmd c = ''  '' @ pad14 cmd @ '' : '' @ formatHelp (c_help c)"

definition helpMessagePattern :: "string \<Rightarrow> Pattern \<Rightarrow> string" where
  "helpMessagePattern cmd p = ''  '' @ pad14 cmd @ '' '' @ patternString (p_key p) @ [CHR 0x0A] @ formatHelp (p_help p)"

definition helpMessageLong :: "string \<Rightarrow> command \<Rightarrow> string" where
  "helpMessageLong cmd c = helpMessageShort cmd c @ concat (map (\<lambda>p. [CHR 0x0A] @ helpMessagePattern cmd p) (c_patterns c))"

text \<open>Looking up a name that is not in the table gives the zero command.\<close>

definition get_command :: "string \<Rightarrow> command" where
  "get_command n = (case commands n of None \<Rightarrow> \<lparr>c_help = '''', c_patterns = []\<rparr> | Some c \<Rightarrow> c)"

definition helpResponse_String :: "string list \<Rightarrow> bool \<Rightarrow> string" where
  "helpResponse_String cs long =
     concat (map (\<lambda>n. (if long then helpMessageLong else helpMessageShort) n (get_command n)) cs)"

definition helpResponse_RPC :: "string list \<Rightarrow> bool \<Rightarrow> BMRPCReply" where
  "helpResponse_RPC cs long = \<lparr>rp_Version = Some 1, rp_Reply = Some (HelpReply (Some 1) cs)\<rparr>"

text \<open>\<open>Response.RPC\<close>; the reply is a pointer, nil (\<open>None\<close>) for an error.\<close>

fun Response_RPC :: "'q publib \<Rightarrow> 'q Response \<Rightarrow> BMRPCReply option go" where
  "Response_RPC Q (helpResponse cs long) = Ret (Some (helpResponse_RPC cs long))"
| "Response_RPC Q (newAddressResponse a) =
     go_bind (PublicToRPC Q a) (\<lambda>x. Ret (Some \<lparr>rp_Version = Some 1, rp_Reply = Some (NewAddressReply (Some 1) x)\<rparr>))"
| "Response_RPC Q (listAddressesResponse as) =
     go_bind (PublicsToRPC Q as) (\<lambda>xs. Ret (Some \<lparr>rp_Version = Some 1, rp_Reply = Some (ListAddressesReply (Some 1) xs)\<rparr>))"
| "Response_RPC Q (errorResponse e) = Ret None"

definition Identity_Message :: "BitmessageIdentity \<Rightarrow> string" where
  "Identity_Message bi =
     (let (address, l0) = (case bi_Address bi of None \<Rightarrow> ('''', '''') | Some a \<Rightarrow> (a, '', ''));
          (label, l1) = (case bi_Label bi of None \<Rightarrow> ('''', l0) | Some l \<Rightarrow> (l0 @ [CHR 0x22] @ l @ [CHR 0x22], '', ''));
          (behavior, l2) = (case bi_Behavior bi of None \<Rightarrow> ('''', l1) | Some b \<Rightarrow> (l1 @ ''behavior:'' @ fmt_d (unat b), '', ''));
          poo = (case (bi_Noncetrialsperbyte bi, bi_Extrabytes bi) of
              (Some n, Some x) \<Rightarrow> l2 @ ''pow:{'' @ fmt_d (unat n) @ '', '' @ fmt_d (unat x) @ ''}''
            | _ \<Rightarrow> '''')
      in address @ label @ behavior @ poo)"

fun Reply_Message :: "(BitmessageIdentity \<Rightarrow> string) \<Rightarrow> Reply \<Rightarrow> string" where
  "Reply_Message T (ErrorReply v e) = ''''"
| "Reply_Message T (NewAddressReply v a) = T a"
| "Reply_Message T (ListAddressesReply v as) = join [CHR 0x0A] (map Identity_Message as)"
| "Reply_Message T (HelpReply v is) = join [CHR 0x0A] is"

definition rpc_Message :: "(BitmessageIdentity \<Rightarrow> string) \<Rightarrow> BMRPCReply option \<Rightarrow> string go" where
  "rpc_Message T r =
     (case r of
        None \<Rightarrow> Panic
      | Some r \<Rightarrow> Ret (case rp_Reply r of None \<Rightarrow> '''' | Some x \<Rightarrow> Reply_Message T x))"

fun Response_String :: "'q publib \<Rightarrow> (BitmessageIdentity \<Rightarrow> string) \<Rightarrow> 'q Response \<Rightarrow> string go" where
  "Response_String Q T (helpResponse cs long) = Ret (helpResponse_String cs long)"
| "Response_String Q T (errorResponse e) = Ret (''Error: '' @ cmd_Error e @ ''.'')"
| "Response_String Q T r = go_bind (Response_RPC Q r) (rpc_Message T)"

section \<open>Commands by e-mail\<close>

definition SubjectRe :: "string \<Rightarrow> string list \<Rightarrow> string" where
  "SubjectRe cmd p = ''Re: '' @ cmd @ '' '' @ join '' '' p"

definition EmailCommand ::
  "'q publib \<Rightarrow> (BitmessageIdentity \<Rightarrow> string) \<Rightarrow> ('u, 'q) cmd_user \<Rightarrow> 'u \<Rightarrow> string \<Rightarrow> string \<Rightarrow> string \<Rightarrow> string list \<Rightarrow>
    ('u \<times> Bmail) go" where
  "EmailCommand Q T U u from1 agent name params =
     (case ReadCommand name params of (params1, rc) \<Rightarrow>
        go_bind (case rc of
            Inl e \<Rightarrow> Ret (u, errorResponse e)
          | Inr c \<Rightarrow> go_bind (Execute U u c) (\<lambda>(u1, r). Ret (u1, case r of Inl e \<Rightarrow> errorResponse e | Inr x \<Rightarrow> x)))
          (\<lambda>(u1, r). go_bind (Response_String Q T r) (\<lambda>body.
             Ret (u1, \<lparr>From = agent, To = from1, OfChannel = False, Expiration = zero_time, Ack = None,
               Payload = Some (Encoding2 (SubjectRe name params1) body), Imap = None, State = None\<rparr>))))"

section \<open>Commands over RPC\<close>

fun Command_RPC :: "Command \<Rightarrow> BMRPCRequest" where
  "Command_RPC (HelpCommand cs) =
     \<lparr>rq_Version = Some 1, rq_Request = Some (Request_Help (Some \<lparr>hr_Version = Some 1, hr_Requests = cs\<rparr>))\<rparr>"
| "Command_RPC (NewAddressCommand r) =
     \<lparr>rq_Version = Some 1, rq_Request = Some (Request_Newaddress (Some \<lparr>na_Version = Some 1, na_Addressversion = None,
        na_Label = nc_label r, na_Stream = None, na_Noncetrialsperbyte = None, na_Extrabytes = None, na_Ack = None\<rparr>))\<rparr>"
| "Command_RPC ListAddressesCommand =
     \<lparr>rq_Version = Some 1, rq_Request = Some (Request_Listaddresses (Some (Some 1)))\<rparr>"

definition buildHelpCommand :: "HelpRequest option \<Rightarrow> cmd_error + Command" where
  "buildHelpCommand r =
     (case r of
        None \<Rightarrow> Inl (Plain ErrInvalidRPCRequest)
      | Some r \<Rightarrow>
          if hr_Version r \<noteq> Some 1 then Inl (Plain ErrInvalidRPCRequest)
          else (case unknown_command (hr_Requests r) of
            Some c \<Rightarrow> Inl (ErrUnknownCommand c)
          | None \<Rightarrow> Inr (HelpCommand (hr_Requests r))))"

definition buildNewAddressCommand :: "NewAddressRequest option \<Rightarrow> (cmd_error + Command) go" where
  "buildNewAddressCommand r =
     (case r of
        None \<Rightarrow> Panic
      | Some r \<Rightarrow>
          if na_Addressversion r \<noteq> None \<and> na_Addressversion r \<noteq> Some 4 then Ret (Inl (Plain (ErrText ''Address version must be 4'')))
          else if na_Stream r \<noteq> None \<and> na_Stream r \<noteq> Some 1 then Ret (Inl (Plain (ErrText ''Stream must be 1'')))
          else let ack = (case na_Ack r of Some a \<Rightarrow> a | None \<Rightarrow> True);
                   mk = (\<lambda>p. Ret (Inr (NewAddressCommand
                     \<lparr>nc_ack = ack, nc_label = na_Label r, nc_pow = Some p, nc_version = 4, nc_stream = 1\<rparr>)))
               in case na_Noncetrialsperbyte r of
                    None \<Rightarrow> mk \<lparr>NonceTrialsPerByte = 0, ExtraBytes = 0\<rparr>
                  | Some n \<Rightarrow>
                      if na_Extrabytes r \<noteq> None
                      then Ret (Inl (Plain (ErrText ''Must provide both nonce trials per byte and extra bytes.'')))
                      else (case na_Extrabytes r of
                        None \<Rightarrow> Panic
                      | Some x \<Rightarrow> mk \<lparr>NonceTrialsPerByte = ucast n, ExtraBytes = ucast x\<rparr>))"

definition buildListAddressesCommand :: "u32 option option \<Rightarrow> cmd_error + Command" where
  "buildListAddressesCommand r = Inr ListAddressesCommand"

definition BuildCommand :: "BMRPCRequest option \<Rightarrow> (cmd_error + Command) go" where
  "BuildCommand r =
     (case r of
        None \<Rightarrow> Ret (Inl (Plain ErrInvalidRPCRequest))
      | Some r \<Rightarrow>
          if rq_Version r \<noteq> Some 1 then Ret (Inl (Plain ErrInvalidRPCRequest))
          else case rq_Request r of
            None \<Rightarrow> Ret (Inl (Plain ErrInvalidRPCRequest))
          | Some (Request_Help h) \<Rightarrow> Ret (buildHelpCommand h)
          | Some (Request_Newaddress n) \<Rightarrow> buildNewAddressCommand n
          | Some (Request_Listaddresses l) \<Rightarrow> Ret (buildListAddressesCommand l))"

definition RPCCommand ::
  "'q publib \<Rightarrow> ('u, 'q) cmd_user \<Rightarrow> 'u \<Rightarrow> BMRPCRequest option \<Rightarrow> ('u \<times> (cmd_error + BMRPCReply option)) go" where
  "RPCCommand Q U u request =
     go_bind (BuildCommand request) (\<lambda>r. case r of
       Inl e \<Rightarrow> Ret (u, Inl e)
     | Inr c \<Rightarrow> go_bind (Execute U u c) (\<lambda>(u1, x). case x of
         Inl e \<Rightarrow> Ret (u1, Inl e)
       | Inr response \<Rightarrow> go_bind (Response_RPC Q response) (\<lambda>y. Ret (u1, Inr y))))"

text \<open>\<open>running\<close> is the state of bmd's RPC server.\<close>

definition BMAgentRequest ::
  "'q publib \<Rightarrow> ('u, 'q) cmd_user \<Rightarrow> bool \<Rightarrow> 'u \<Rightarrow> BMRPCRequest option \<Rightarrow> ('u \<times> (error + BMRPCReply option)) go" where
  "BMAgentRequest Q U running u req =
     (if \<not> running then Ret (u, Inl ErrServerStopped)
      else go_bind (RPCCommand Q U u req) (\<lambda>(u1, r). Ret (u1, Inr (case r of
        Inl e \<Rightarrow> Some \<lparr>rp_Version = Some 1, rp_Reply = Some (ErrorReply (Some 1) (Some (cmd_Error e)))\<rparr>
      | Inr reply \<Rightarrow> reply))))"

text \<open>The client program: \<open>request\<close> is the connection to the server.\<close>

definition client_run :: "(BMRPCRequest \<Rightarrow> 'u \<Rightarrow> ('u \<times> (error + BMRPCReply option)) go) \<Rightarrow> 'u \<Rightarrow> Command \<Rightarrow>
    ('u \<times> (error + BMRPCReply option)) go" where
  "client_run request u c = request (Command_RPC c) u"

definition client_try ::
  "(BitmessageIdentity \<Rightarrow> string) \<Rightarrow> (BMRPCRequest \<Rightarrow> 'u \<Rightarrow> ('u \<times> (error + BMRPCReply option)) go) \<Rightarrow> 'u \<Rightarrow> string \<Rightarrow> string list \<Rightarrow>
    ('u \<times> string) go" where
  "client_try T request u cmdName args =
     (case ReadCommand cmdName args of
        (_, Inl e) \<Rightarrow> Ret (u, cmd_Error e)
      | (_, Inr c) \<Rightarrow> go_bind (client_run request u c) (\<lambda>(u1, r). case r of
          Inl e \<Rightarrow> Ret (u1, error_text e)
        | Inr reply \<Rightarrow> go_bind (rpc_Message T reply) (\<lambda>s. Ret (u1, s))))"

end
