(* ===== verification/Idmgr.thy ===== *)
theory Idmgr
  imports Keys Crypt
begin

text \<open>
  Package \<open>idmgr\<close> (src/idmgr/manager.go, src/idmgr/db.go): the key manager, which holds derived and imported
  identities, and its key file, in the clear or encrypted with a passphrase.

  \<open>IDs\<close> may be a nil map (\<open>None\<close>), after reading a key file whose field \<open>addresses\<close> is null; writing to it
  panics.  The mutex is not modelled: calls are sequential.
\<close>

section \<open>The key file\<close>

record ('k, 'p) keydb =
  Version :: int
  MasterKey :: "'k option"
  NewIDIndex :: u32
  IDs :: "(string \<rightharpoonup> 'p PrivateID) option"

definition newDb :: "'k \<Rightarrow> int \<Rightarrow> ('k, 'p) keydb" where
  "newDb key v = \<lparr>Version = v, MasterKey = Some key, NewIDIndex = 0, IDs = Some Map.empty\<rparr>"

text \<open>Reading the map of identities: a null entry is a nil pointer (\<open>None\<close>).\<close>

fun decode_ids ::
  "('k, 'a, 'b, 'p) identity \<Rightarrow> (string \<times> json) list \<Rightarrow> (string \<rightharpoonup> 'p PrivateID option) \<Rightarrow>
    error + (string \<rightharpoonup> 'p PrivateID option)" where
  "decode_ids I [] m = Inr m"
| "decode_ids I ((k, v) # es) m =
     (if v = JNull then decode_ids I es (m(k \<mapsto> None))
      else sum_bind (PrivateID_UnmarshalJSON I v) (\<lambda>p. decode_ids I es (m(k \<mapsto> Some p))))"

record ('k, 'p) rawdb =
  raw_Version :: int
  raw_MasterKey :: "'k option"
  raw_NewIDIndex :: u32
  raw_IDs :: "(string \<rightharpoonup> 'p PrivateID option) option"

text \<open>
  The field \<open>addresses\<close> is decoded into the map that was made, or into a new one when it is nil; null makes it nil.
\<close>

definition raw_map :: "(string \<rightharpoonup> 'p PrivateID option) option \<Rightarrow> (string \<rightharpoonup> 'p PrivateID option)" where
  "raw_map r = (case r of None \<Rightarrow> Map.empty | Some m \<Rightarrow> m)"

fun read_ids ::
  "('k, 'a, 'b, 'p) identity \<Rightarrow> (string \<rightharpoonup> 'p PrivateID option) option \<Rightarrow> json \<Rightarrow> error + (string \<rightharpoonup> 'p PrivateID option) option" where
  "read_ids I m JNull = Inr None"
| "read_ids I m (JObj ids) = sum_bind (decode_ids I ids (raw_map m)) (\<lambda>m1. Inr (Some m1))"
| "read_ids I m _ = Inl json_type_error"

definition read_key :: "('k, 'a, 'b, 'p) identity \<Rightarrow> 'k option \<Rightarrow> json \<Rightarrow> error + 'k option" where
  "read_key I key v =
     (if v = JNull then Inr None else sum_bind (MasterKey_UnmarshalJSON I v) (\<lambda>k. Inr (Some k)))"

definition openDb :: "('k, 'a, 'b, 'p) identity \<Rightarrow> jsonlib \<Rightarrow> bytes \<Rightarrow> error + ('k, 'p) rawdb" where
  "openDb I J r =
     sum_bind (json_parse J r) (\<lambda>v. case v of
       JObj es \<Rightarrow>
         sum_bind (json_field json_int 0 ''version'' es) (\<lambda>version.
         sum_bind (json_field (read_key I) None ''masterKey'' es) (\<lambda>key.
         sum_bind (json_field (json_uint 32) 0 ''newIDIndex'' es) (\<lambda>index.
         sum_bind (json_field (read_ids I) (Some Map.empty) ''addresses'' es) (\<lambda>ids.
           Inr \<lparr>raw_Version = version, raw_MasterKey = key, raw_NewIDIndex = of_nat index, raw_IDs = ids\<rparr>))))
     | JNull \<Rightarrow> Inr \<lparr>raw_Version = 0, raw_MasterKey = None, raw_NewIDIndex = 0, raw_IDs = Some Map.empty\<rparr>
     | _ \<Rightarrow> Inl json_type_error)"

text \<open>\<open>json.Marshal\<close> of the struct: the fields in order, the keys of the map sorted.\<close>

fun marshal_ids ::
  "('k, 'a, 'b, 'p) identity \<Rightarrow> (string \<rightharpoonup> 'p PrivateID) \<Rightarrow> string list \<Rightarrow> (error + (string \<times> json) list) go" where
  "marshal_ids I m [] = Ret (Inr [])"
| "marshal_ids I m (k # ks) =
     (case m k of
        None \<Rightarrow> marshal_ids I m ks
      | Some p \<Rightarrow>
          go_bind (PrivateID_MarshalJSON I p) (\<lambda>r. case r of
            Inl e \<Rightarrow> Ret (Inl e)
          | Inr v \<Rightarrow> go_bind (marshal_ids I m ks) (\<lambda>r2. Ret (sum_bind r2 (\<lambda>es. Inr ((k, v) # es))))))"

definition Serialize :: "('k, 'a, 'b, 'p) identity \<Rightarrow> jsonlib \<Rightarrow> ('k, 'p) keydb \<Rightarrow> (error + bytes) go" where
  "Serialize I J db =
     go_bind (case IDs db of
         None \<Rightarrow> Ret (Inr JNull)
       | Some m \<Rightarrow> go_bind (marshal_ids I m (sorted_list_of_set (dom m))) (\<lambda>r. Ret (sum_bind r (\<lambda>es. Inr (JObj es)))))
       (\<lambda>r. Ret (sum_bind r (\<lambda>ids. Inr (json_text J (JObj
          [(''version'', JNum (Version db)),
           (''masterKey'', case MasterKey db of None \<Rightarrow> JNull | Some k \<Rightarrow> MasterKey_MarshalJSON I k),
           (''newIDIndex'', JNum (uint (NewIDIndex db))),
           (''addresses'', ids)])))))"

definition checkAndUpgrade :: "int \<Rightarrow> error option" where
  "checkAndUpgrade version = (if version \<noteq> 1 then Some ErrUnknownKeyfileVersion else None)"

section \<open>The manager\<close>

record ('k, 'p) Manager =
  mdb :: "('k, 'p) keydb"
  importedIDs :: "string list"
  derivedIDs :: "string list"

definition latestFileVersion :: int where "latestFileVersion = 1"

definition idmgr_New :: "('k, 'a, 'b, 'p) identity \<Rightarrow> bytes \<Rightarrow> error + ('k, 'p) Manager" where
  "idmgr_New I seed =
     sum_bind (NewMaster I seed) (\<lambda>mKey.
       Inr \<lparr>mdb = newDb mKey latestFileVersion, importedIDs = [], derivedIDs = []\<rparr>)"

text \<open>The loop over the map that was read; a nil entry is dereferenced.\<close>

fun sort_ids ::
  "(string \<rightharpoonup> 'p PrivateID option) \<Rightarrow> string list \<Rightarrow> string list \<Rightarrow> string list \<Rightarrow> (string list \<times> string list) go" where
  "sort_ids m [] imp der = Ret (imp, der)"
| "sort_ids m (addr # addrs) imp der =
     (case m addr of
        None \<Rightarrow> sort_ids m addrs imp der
      | Some None \<Rightarrow> Panic
      | Some (Some p) \<Rightarrow>
          if Imported p then sort_ids m addrs (imp @ [addr]) der else sort_ids m addrs imp (der @ [addr]))"

definition FromPlaintext ::
  "('k, 'a, 'b, 'p) identity \<Rightarrow> jsonlib \<Rightarrow> 'x env_scheme \<Rightarrow> bytes \<Rightarrow> ('x env_scheme \<times> (error + ('k, 'p) Manager)) go" where
  "FromPlaintext I J w r =
     (case openDb I J r of
        Inl e \<Rightarrow> Ret (w, Inl e)
      | Inr db \<Rightarrow>
          (case range_names w (dom (raw_map (raw_IDs db))) of (w1, addrs) \<Rightarrow>
             go_bind (sort_ids (raw_map (raw_IDs db)) addrs [] []) (\<lambda>(imp, der).
               case checkAndUpgrade (raw_Version db) of
                 Some e \<Rightarrow> Ret (w1, Inl e)
               | None \<Rightarrow> Ret (w1, Inr
                   \<lparr>mdb = \<lparr>Version = raw_Version db, MasterKey = raw_MasterKey db, NewIDIndex = raw_NewIDIndex db,
                       IDs = map_option (\<lambda>m k. case m k of Some (Some p) \<Rightarrow> Some p | _ \<Rightarrow> None) (raw_IDs db)\<rparr>,
                    importedIDs = imp, derivedIDs = der\<rparr>))))"

definition FromEncrypted ::
  "('k, 'a, 'b, 'p) identity \<Rightarrow> jsonlib \<Rightarrow> crypto \<Rightarrow> 'x env_scheme \<Rightarrow> bytes \<Rightarrow> bytes \<Rightarrow>
    ('x env_scheme \<times> (error + ('k, 'p) Manager)) go" where
  "FromEncrypted I J C w enc pass =
     (if length enc < Overhead + nonceSize + saltLength then Ret (w, Inl (ErrText ''encrypted data too small''))
      else let nonce = copy_array (zeros nonceSize) (take nonceSize enc);
               salt = take saltLength (drop nonceSize enc)
           in case Open C (drop (nonceSize + saltLength) enc) nonce (deriveKey C pass salt) of
                None \<Rightarrow> Ret (w, Inl ErrKeyfileDecryptionFailed)
              | Some contents \<Rightarrow> FromPlaintext I J w contents)"

definition ExportPlaintext :: "('k, 'a, 'b, 'p) identity \<Rightarrow> jsonlib \<Rightarrow> ('k, 'p) Manager \<Rightarrow> (error + bytes) go" where
  "ExportPlaintext I J mgr = Serialize I J (mdb mgr)"

definition ExportEncrypted ::
  "('k, 'a, 'b, 'p) identity \<Rightarrow> jsonlib \<Rightarrow> crypto \<Rightarrow> 'x env_scheme \<Rightarrow> ('k, 'p) Manager \<Rightarrow> bytes \<Rightarrow>
    ('x env_scheme \<times> (error + bytes)) go" where
  "ExportEncrypted I J C w mgr pass =
     go_bind (ExportPlaintext I J mgr) (\<lambda>r. case r of
       Inl e \<Rightarrow> Ret (w, Inl e)
     | Inr plain \<Rightarrow>
         (case rand_Read w nonceSize of
            (w1, Inl e) \<Rightarrow> Ret (w1, Inl e)
          | (w1, Inr nonce) \<Rightarrow>
              (case rand_Read w1 saltLength of
                 (w2, Inl e) \<Rightarrow> Ret (w2, Inl e)
               | (w2, Inr salt) \<Rightarrow> Ret (w2, Inr (nonce @ salt @ Seal C plain nonce (deriveKey C pass salt))))))"

definition ImportIdentity ::
  "('k, 'a, 'b, 'p) identity \<Rightarrow> ('k, 'p) Manager \<Rightarrow> 'p PrivateID \<Rightarrow> ('k, 'p) Manager go" where
  "ImportIdentity I mgr privID =
     go_bind (address_String I privID) (\<lambda>str.
       case IDs (mdb mgr) of
         None \<Rightarrow> Panic
       | Some m \<Rightarrow>
           if m str \<noteq> None then Ret mgr
           else Ret (mgr\<lparr>mdb := (mdb mgr)\<lparr>IDs := Some (m(str \<mapsto> privID\<lparr>Imported := True\<rparr>))\<rparr>,
                  importedIDs := importedIDs mgr @ [str]\<rparr>))"

text \<open>The loop that derives a key; it does not end when no index gives one.\<close>

partial_function (option) derive_loop ::
  "('k, 'a, 'b, 'p) identity \<Rightarrow> 'k \<Rightarrow> u32 \<Rightarrow> u64 \<Rightarrow> u32 \<Rightarrow> ('a \<times> u32) option" where
  "derive_loop I key index stream i =
     (case NewHD I key (index + i) stream of
        Inr privHD \<Rightarrow> Some (privHD, index + (i + 1))
      | Inl _ \<Rightarrow> derive_loop I key index stream (i + 1))"

definition mgr_New ::
  "('k, 'a, 'b, 'p) identity \<Rightarrow> ('k, 'p) Manager \<Rightarrow> string \<Rightarrow> u64 \<Rightarrow> u32 \<Rightarrow> (('k, 'p) Manager \<times> 'p PrivateID) go" where
  "mgr_New I mgr name stream behavior =
     (case MasterKey (mdb mgr) of
        None \<Rightarrow> Panic
      | Some key \<Rightarrow>
          (case derive_loop I key (NewIDIndex (mdb mgr)) stream 0 of
             None \<Rightarrow> Block
           | Some (privHD, index) \<Rightarrow>
               let p = \<lparr>Private = Some (NewPrivateID I (NewPrivateAddress I privHD (DefaultAddressVersion I) stream) behavior None),
                     IsChan = False, Disabled = False, Imported = False, Name = name\<rparr>
               in go_bind (address_String I p) (\<lambda>str.
                    case IDs (mdb mgr) of
                      None \<Rightarrow> Panic
                    | Some m \<Rightarrow> Ret (mgr\<lparr>mdb := (mdb mgr)\<lparr>NewIDIndex := index, IDs := Some (m(str \<mapsto> p))\<rparr>,
                        derivedIDs := derivedIDs mgr @ [str]\<rparr>, p))))"

definition NewUnnamed ::
  "('k, 'a, 'b, 'p) identity \<Rightarrow> ('k, 'p) Manager \<Rightarrow> u64 \<Rightarrow> u32 \<Rightarrow> (('k, 'p) Manager \<times> 'p PrivateID) go" where
  "NewUnnamed I mgr stream behavior = mgr_New I mgr '''' stream behavior"

text \<open>Reading a map that may be nil.\<close>

definition ids_map :: "('k, 'p) Manager \<Rightarrow> (string \<rightharpoonup> 'p PrivateID)" where
  "ids_map mgr = (case IDs (mdb mgr) of None \<Rightarrow> Map.empty | Some m \<Rightarrow> m)"

fun each_id ::
  "(string \<rightharpoonup> 'p PrivateID) \<Rightarrow> ('s \<Rightarrow> 'p PrivateID \<Rightarrow> ('s \<times> error option) go) \<Rightarrow> 's \<Rightarrow> string list \<Rightarrow> ('s \<times> error option) go" where
  "each_id m f s [] = Ret (s, None)"
| "each_id m f s (k # ks) =
     (case m k of
        None \<Rightarrow> each_id m f s ks
      | Some p \<Rightarrow> go_bind (f s p) (\<lambda>(s1, e). case e of Some e \<Rightarrow> Ret (s1, Some e) | None \<Rightarrow> each_id m f s1 ks))"

definition mgr_ForEach ::
  "'x env_scheme \<Rightarrow> ('k, 'p) Manager \<Rightarrow> ('s \<Rightarrow> 'p PrivateID \<Rightarrow> ('s \<times> error option) go) \<Rightarrow> 's \<Rightarrow>
    ('x env_scheme \<times> 's \<times> error option) go" where
  "mgr_ForEach w mgr f s =
     (case range_names w (dom (ids_map mgr)) of (w1, ks) \<Rightarrow>
        go_bind (each_id (ids_map mgr) f s ks) (\<lambda>(s1, e). Ret (w1, s1, e)))"

definition mgr_Get :: "('k, 'p) Manager \<Rightarrow> string \<Rightarrow> 'p PrivateID option" where
  "mgr_Get mgr address = ids_map mgr address"

definition NumImported :: "('k, 'p) Manager \<Rightarrow> nat" where
  "NumImported mgr = length (importedIDs mgr)"

definition NumDeterministic :: "('k, 'p) Manager \<Rightarrow> nat" where
  "NumDeterministic mgr = length (derivedIDs mgr)"

definition mgr_Size :: "('k, 'p) Manager \<Rightarrow> nat" where
  "mgr_Size mgr = card (dom (ids_map mgr))"

definition mgr_Addresses :: "'x env_scheme \<Rightarrow> ('k, 'p) Manager \<Rightarrow> 'x env_scheme \<times> string list" where
  "mgr_Addresses w mgr = range_names w (dom (ids_map mgr))"

definition NameAddress :: "('k, 'p) Manager \<Rightarrow> string \<Rightarrow> string \<Rightarrow> ('k, 'p) Manager \<times> error option" where
  "NameAddress mgr address name =
     (case ids_map mgr address of
        None \<Rightarrow> (mgr, Some ErrNonexistentIdentity)
      | Some p \<Rightarrow> (mgr\<lparr>mdb := (mdb mgr)\<lparr>IDs := Some ((ids_map mgr)(address \<mapsto> p\<lparr>Name := name\<rparr>))\<rparr>\<rparr>, None))"

definition UnnameAddress :: "('k, 'p) Manager \<Rightarrow> string \<Rightarrow> ('k, 'p) Manager \<times> error option" where
  "UnnameAddress mgr address =
     (case ids_map mgr address of
        None \<Rightarrow> (mgr, Some ErrNonexistentIdentity)
      | Some p \<Rightarrow> (mgr\<lparr>mdb := (mdb mgr)\<lparr>IDs := Some ((ids_map mgr)(address \<mapsto> p\<lparr>Name := ''''\<rparr>))\<rparr>\<rparr>, None))"

definition Names :: "('k, 'p) Manager \<Rightarrow> (string \<rightharpoonup> string)" where
  "Names mgr address = map_option Name (ids_map mgr address)"

section \<open>Importing keys\<close>

definition readIniBool :: "(string \<rightharpoonup> string) \<Rightarrow> string \<Rightarrow> bool \<Rightarrow> bool" where
  "readIniBool m key defaultValue =
     (case m key of
        None \<Rightarrow> defaultValue
      | Some str \<Rightarrow> if ToLower str = ''false'' then False else if ToLower str = ''true'' then True else defaultValue)"

definition readIniUint64 :: "(string \<rightharpoonup> string) \<Rightarrow> string \<Rightarrow> u64 \<Rightarrow> u64" where
  "readIniUint64 m key defaultValue =
     (case m key of
        None \<Rightarrow> defaultValue
      | Some str \<Rightarrow> (case Atoi str of Inl _ \<Rightarrow> defaultValue | Inr n \<Rightarrow> word_of_int n))"

definition ini_identity ::
  "('k, 'a, 'b, 'p) identity \<Rightarrow> string \<Rightarrow> (string \<rightharpoonup> string) \<Rightarrow> 'p PrivateID option" where
  "ini_identity I k v =
     (if k = ''bitmessagesettings'' then None
      else case (v ''privsigningkey'', v ''privencryptionkey'') of
        (Some signingKey, Some encKey) \<Rightarrow>
          (case ImportWIF I k signingKey encKey of
             Inl _ \<Rightarrow> None
           | Inr pr \<Rightarrow>
               Some \<lparr>Private = Some (NewPrivateID I pr 0 (Some
                   \<lparr>NonceTrialsPerByte = readIniUint64 v ''noncetrialsperbyte'' (DefaultNonceTrialsPerByte I),
                    ExtraBytes = readIniUint64 v ''payloadlengthextrabytes'' (DefaultExtraBytes I)\<rparr>)),
                 IsChan = readIniBool v ''chan'' False, Disabled = \<not> readIniBool v ''enabled'' True,
                 Imported = False, Name = (case v ''label'' of None \<Rightarrow> '''' | Some l \<Rightarrow> l)\<rparr>)
      | _ \<Rightarrow> None)"

fun import_sections ::
  "('k, 'a, 'b, 'p) identity \<Rightarrow> (string \<rightharpoonup> (string \<rightharpoonup> string)) \<Rightarrow> ('k, 'p) Manager \<Rightarrow> (string \<rightharpoonup> string) \<Rightarrow> string list \<Rightarrow>
    (('k, 'p) Manager \<times> (string \<rightharpoonup> string)) go" where
  "import_sections I f mgr addresses [] = Ret (mgr, addresses)"
| "import_sections I f mgr addresses (k # ks) =
     (case Option.bind (f k) (ini_identity I k) of
        None \<Rightarrow> import_sections I f mgr addresses ks
      | Some p \<Rightarrow>
          go_bind (address_String I p) (\<lambda>str. go_bind (ImportIdentity I mgr p) (\<lambda>mgr1.
            import_sections I f mgr1 (addresses(str \<mapsto> Name p)) ks)))"

definition ImportKeysFromPyBitmessage ::
  "('k, 'a, 'b, 'p) identity \<Rightarrow> 'x env_scheme \<Rightarrow> ('k, 'p) Manager \<Rightarrow> (string \<rightharpoonup> (string \<rightharpoonup> string)) \<Rightarrow>
    ('x env_scheme \<times> ('k, 'p) Manager \<times> (string \<rightharpoonup> string)) go" where
  "ImportKeysFromPyBitmessage I w mgr f =
     (case range_names w (dom f) of (w1, ks) \<Rightarrow>
        go_bind (import_sections I f mgr Map.empty ks) (\<lambda>(mgr1, addrs). Ret (w1, mgr1, addrs)))"

text \<open>The result is a nil map (\<open>None\<close>) when the data has neither format.  \<open>ini_Load\<close> is go-ini's parser.\<close>

definition ImportKeys ::
  "('k, 'a, 'b, 'p) identity \<Rightarrow> jsonlib \<Rightarrow> (bytes \<Rightarrow> error + (string \<rightharpoonup> (string \<rightharpoonup> string))) \<Rightarrow> 'x env_scheme \<Rightarrow>
    ('k, 'p) Manager \<Rightarrow> bytes \<Rightarrow> ('x env_scheme \<times> ('k, 'p) Manager \<times> (string \<rightharpoonup> string) option) go" where
  "ImportKeys I J ini_Load w mgr dat =
     (case ini_Load dat of
        Inr f \<Rightarrow> go_bind (ImportKeysFromPyBitmessage I w mgr f) (\<lambda>(w1, mgr1, a). Ret (w1, mgr1, Some a))
      | Inl _ \<Rightarrow>
          go_bind (FromPlaintext I J w dat) (\<lambda>(w1, r). case r of
            Inl _ \<Rightarrow> Ret (w1, mgr, None)
          | Inr m \<Rightarrow>
              go_bind (mgr_ForEach w1 m (\<lambda>(mgr, addresses) p.
                  go_bind (address_String I p) (\<lambda>str. go_bind (ImportIdentity I mgr p) (\<lambda>mgr1.
                    Ret ((mgr1, addresses(str \<mapsto> Name p)), None)))) (mgr, Map.empty))
                (\<lambda>(w2, (mgr1, addresses), _). Ret (w2, mgr1, Some addresses))))"

end
