(* ===== verification/User.thy ===== *)
theory User
  imports Mailbox_Correct Store_Folders Pow_Queue Cmd Idmgr
begin

text \<open>
  Package \<open>user\<close>: the type \<open>User\<close> (src/user/user.go), the sending of messages (src/user/process.go,
  src/user/serverops.go), commands (src/user/command.go), the IMAP store (src/user/imap.go), the SMTP handlers
  (src/user/smtp.go) and the names of the folders (src/user/defaults.go).

  The interfaces \<open>keys.Manager\<close>, \<open>ServerOps\<close> and \<open>data.Folders\<close> are records of operations on a state.  What bmutil does
  (objects, ciphers, proof-of-work targets) is the parameter \<open>netlib\<close>.  A function that is passed to the
  proof-of-work queue is a value of the datatype \<open>task\<close>, which holds what the closure captures, and \<open>task_done\<close> runs it.
  A nil mailbox, a nil function and a nil proof-of-work manager are \<open>None\<close>, and using them panics.
\<close>

section \<open>Interfaces\<close>

record ('m, 'p) Keys_Manager =
  km_Get :: "'m \<Rightarrow> string \<Rightarrow> 'p PrivateID option"
  km_New :: "'m \<Rightarrow> string \<Rightarrow> u64 \<Rightarrow> u32 \<Rightarrow> ('m \<times> 'p PrivateID) go"
  km_NewUnnamed :: "'m \<Rightarrow> u64 \<Rightarrow> u32 \<Rightarrow> ('m \<times> 'p PrivateID) go"
  km_Names :: "'m \<Rightarrow> (string \<rightharpoonup> string)"

text \<open>The key manager of package idmgr.\<close>

definition idmgr_Keys :: "('k, 'a, 'b, 'p) identity \<Rightarrow> (('k, 'p) Manager, 'p) Keys_Manager" where
  "idmgr_Keys I = \<lparr>km_Get = mgr_Get, km_New = mgr_New I, km_NewUnnamed = NewUnnamed I, km_Names = Names\<rparr>"

record ('w, 's, 'q) ServerOps =
  so_GetOrRequestPublicID :: "'w \<Rightarrow> 's \<Rightarrow> string \<Rightarrow> ('w \<times> 's \<times> (error + 'q Public)) go"
  so_Send :: "'w \<Rightarrow> 's \<Rightarrow> bytes \<Rightarrow> ('w \<times> 's) go"

text \<open>
  \<open>data.Folders\<close>: the methods return pointers; \<open>fs_obj\<close> reads and \<open>fs_set\<close> updates the folder behind one.
\<close>

record ('w, 'f, 'h) Folders =
  fs_Names :: "'w \<Rightarrow> 'f \<Rightarrow> 'w \<times> string list"
  fs_Get :: "'w \<Rightarrow> 'f \<Rightarrow> string \<Rightarrow> ('w \<times> 'f \<times> (error + nat)) go"
  fs_New :: "'w \<Rightarrow> 'f \<Rightarrow> string \<Rightarrow> ('w \<times> 'f \<times> (error + nat)) go"
  fs_obj :: "'f \<Rightarrow> nat \<Rightarrow> 'h option"
  fs_set :: "'f \<Rightarrow> nat \<Rightarrow> 'h \<Rightarrow> 'f"

text \<open>The folders of a user in the database (package store).\<close>

definition store_Folders :: "'db bolt \<Rightarrow> ('db world, 'a folders, store_folder) Folders" where
  "store_Folders B =
     \<lparr>fs_Names = folders_Names, fs_Get = folders_Get B, fs_New = folders_New B, fs_obj = fo_heap,
      fs_set = (\<lambda>fo p h. fo\<lparr>fo_heap := (fo_heap fo)(p \<mapsto> h)\<rparr>)\<rparr>"

datatype ObjectType = ObjectTypeGetPubKey | ObjectTypePubKey | ObjectTypeMsg | ObjectTypeBroadcast | ObjectTypeOther

record ('o, 'p, 'q, 't) netlib =
  id_Public :: "'p \<Rightarrow> 'q"
  id_Version :: "'p \<Rightarrow> u64"
  id_Stream :: "'p \<Rightarrow> u64"
  data_Pow :: "'p \<Rightarrow> PowData option"
  BehaviorAck :: u32
  DefaultStream :: u64
  CreateTaglessBroadcast :: "gotime \<Rightarrow> Encoding option \<Rightarrow> 'p \<Rightarrow> error + 'o"
  CreateTaggedBroadcast :: "gotime \<Rightarrow> Encoding option \<Rightarrow> 'p \<Rightarrow> error + 'o"
  SignAndEncryptMessage :: "gotime \<Rightarrow> Encoding option \<Rightarrow> bytes option \<Rightarrow> 'p \<Rightarrow> 'q \<Rightarrow> error + 'o"
  NewAckObject :: "gotime \<Rightarrow> u64 \<Rightarrow> bytes \<Rightarrow> 'o"
  InventoryHash :: "'o \<Rightarrow> bytes"
  object_Expiration :: "'o \<Rightarrow> gotime"
  CalculateTarget :: "u64 \<Rightarrow> u64 \<Rightarrow> PowData \<Rightarrow> 't"
  float_Seconds :: "int \<Rightarrow> u64"  \<comment> \<open>\<open>uint64(d.Seconds())\<close>, which depends on the machine for negative durations\<close>
  Int31 :: "nat \<Rightarrow> u32"  \<comment> \<open>the \<open>i\<close>-th read of the environment, by \<open>math/rand\<close>\<close>

record ('x, 'h, 'o, 'a, 'm, 'p, 's, 'q, 't) udeps =
  ubox :: "('x env_scheme, 'h, 'o) deps"
  ubm :: "'a bmutil"
  ukeys :: "('m, 'p) Keys_Manager"
  userver :: "('x env_scheme, 's, 'q) ServerOps"
  unet :: "('o, 'p, 'q, 't) netlib"
  upub :: "'q publib"
  utext :: "BitmessageIdentity \<Rightarrow> string"

section \<open>Times\<close>

text \<open>\<open>time.Time.Add\<close> and \<open>Sub\<close>; a duration is a number of nanoseconds in 64 bits.\<close>

definition time_Add :: "gotime \<Rightarrow> int \<Rightarrow> gotime" where
  "time_Add t d =
     (let n = int (unat (t_nsec t)) + d
      in t\<lparr>t_sec := t_sec t + word_of_int (n div 1000000000), t_nsec := word_of_int (n mod 1000000000)\<rparr>)"

definition time_Sub :: "gotime \<Rightarrow> gotime \<Rightarrow> int" where
  "time_Sub t u =
     (let d = (sint (t_sec t) - sint (t_sec u)) * 1000000000 + (int (unat (t_nsec t)) - int (unat (t_nsec u)))
      in max (- (2 ^ 63)) (min (2 ^ 63 - 1) d))"

section \<open>The type User\<close>

definition InboxFolderName :: string where "InboxFolderName = ''Inbox''"
definition OutboxFolderName :: string where "OutboxFolderName = ''Outbox''"
definition LimboFolderName :: string where "LimboFolderName = ''Limbo''"
definition SentFolderName :: string where "SentFolderName = ''Sent''"
definition TrashFolderName :: string where "TrashFolderName = ''Trash''"
definition DraftsFolderName :: string where "DraftsFolderName = ''Drafts''"
definition CommandsFolderName :: string where "CommandsFolderName = ''Commands''"

text \<open>What is to be done when the proof of work is completed, with the message that the closure holds.\<close>

datatype 'o task = AckTask Bmail | SendTask Bmail 'o

record ('h, 'o, 'm, 's, 't) user =
  mu_username :: string
  boxes :: "string \<rightharpoonup> ('h, 'o) mailbox"
  acks :: "bytes \<rightharpoonup> u64"
  expiration :: "(ObjectType \<Rightarrow> int) option"
  mu_keys :: 'm
  pm :: "('t, 'o task) powOrder Pow option"
  server :: 's

text \<open>The loop over the names of the folders.\<close>

fun open_boxes ::
  "('x env_scheme, 'h, 'o) deps \<Rightarrow> ('x env_scheme, 'f, 'h) Folders \<Rightarrow> (string \<rightharpoonup> string) \<Rightarrow> 'x env_scheme \<Rightarrow> 'f \<Rightarrow>
    (string \<rightharpoonup> ('h, 'o) mailbox) \<Rightarrow> string list \<Rightarrow> ('x env_scheme \<times> 'f \<times> (error + (string \<rightharpoonup> ('h, 'o) mailbox))) go" where
  "open_boxes D FS names w f bs [] = Ret (w, f, Inr bs)"
| "open_boxes D FS names w f bs (n # ns) =
     go_bind (fs_Get FS w f n) (\<lambda>(w1, f1, r). case r of
       Inl e \<Rightarrow> Ret (w1, f1, Inl e)
     | Inr p \<Rightarrow>
         go_bind ((if n = DraftsFolderName then newDrafts else newMailbox) D w1 n (fs_obj FS f1 p) names) (\<lambda>(w2, m). case m of
           Inl e \<Rightarrow> Ret (w2, f1, Inl e)
         | Inr mb \<Rightarrow> open_boxes D FS names w2 f1 (bs(n \<mapsto> mb)) ns))"

text \<open>
  \<open>NewUser\<close> does not use its parameters \<open>expiration\<close> and \<open>pm\<close>; the server gives it the queue of its own tasks, so that the type of the
  queue is left open.
\<close>

definition NewUser ::
  "('x, 'h, 'o, 'a, 'm, 'p, 's, 'q, 't) udeps \<Rightarrow> ('x env_scheme, 'f, 'h) Folders \<Rightarrow> 'x env_scheme \<Rightarrow> 'f \<Rightarrow> string \<Rightarrow> 'm \<Rightarrow>
    (ObjectType \<Rightarrow> int) option \<Rightarrow> 'z option \<Rightarrow> 's \<Rightarrow>
    ('x env_scheme \<times> 'f \<times> (error + ('h, 'o, 'm, 's, 't) user)) go" where
  "NewUser D FS w f username privateIds exp1 pm1 srv =
     (case fs_Names FS w f of (w1, folderNames) \<Rightarrow>
        go_bind (open_boxes (ubox D) FS (km_Names (ukeys D) privateIds) w1 f Map.empty folderNames) (\<lambda>(w2, f2, r). case r of
          Inl e \<Rightarrow> Ret (w2, f2, Inl e)
        | Inr bs \<Rightarrow> Ret (w2, f2, Inr \<lparr>mu_username = username, boxes = bs, acks = Map.empty, expiration = None,
            mu_keys = privateIds, pm = None, server = srv\<rparr>)))"

definition user_NewMailbox :: "string \<Rightarrow> error + ('h, 'o) mailbox" where
  "user_NewMailbox name = Inl (ErrText ''Not yet implemented.'')"

definition Mailboxes :: "'x env_scheme \<Rightarrow> ('h, 'o, 'm, 's, 't) user \<Rightarrow> 'x env_scheme \<times> ('h, 'o) mailbox list" where
  "Mailboxes w u =
     (case range_names w (dom (boxes u)) of (w1, ks) \<Rightarrow> (w1, map (\<lambda>k. the (boxes u k)) (filter (\<lambda>k. boxes u k \<noteq> None) ks)))"

definition MailboxByName :: "('h, 'o, 'm, 's, 't) user \<Rightarrow> string \<Rightarrow> error + ('h, 'o) mailbox" where
  "MailboxByName u name =
     (let name1 = (if ToLower name = ToLower InboxFolderName then InboxFolderName else name)
      in case boxes u name1 of None \<Rightarrow> Inl (ErrText ''Not found'') | Some m \<Rightarrow> Inr m)"

text \<open>A method of the mailbox with the given name; nil panics.\<close>

definition on_box ::
  "('h, 'o, 'm, 's, 't) user \<Rightarrow> string \<Rightarrow> (('h, 'o) mailbox \<Rightarrow> ('w \<times> ('h, 'o) mailbox \<times> 'r) go) \<Rightarrow>
    ('w \<times> ('h, 'o, 'm, 's, 't) user \<times> 'r) go" where
  "on_box u name f =
     (case boxes u name of
        None \<Rightarrow> Panic
      | Some b \<Rightarrow> go_bind (f b) (\<lambda>(w1, b1, r). Ret (w1, u\<lparr>boxes := (boxes u)(name \<mapsto> b1)\<rparr>, r)))"

definition DeliverFromBMNet ::
  "('x, 'h, 'o, 'a, 'm, 'p, 's, 'q, 't) udeps \<Rightarrow> 'x env_scheme \<Rightarrow> ('h, 'o, 'm, 's, 't) user \<Rightarrow> Bmail \<Rightarrow>
    ('x env_scheme \<times> ('h, 'o, 'm, 's, 't) user \<times> error option) go" where
  "DeliverFromBMNet D w u bm =
     on_box u InboxFolderName (\<lambda>box.
       go_bind (AddNew (ubox D) w box bm (FlagRecent (mlib (ubox D)))) (\<lambda>(w1, box1, _, e). Ret (w1, box1, e)))"

text \<open>\<open>Move\<close>: the message is read again from the first mailbox, deleted there, and added to the second.\<close>

definition Move ::
  "('x, 'h, 'o, 'a, 'm, 'p, 's, 'q, 't) udeps \<Rightarrow> 'x env_scheme \<Rightarrow> ('h, 'o, 'm, 's, 't) user \<Rightarrow> Bmail \<Rightarrow> string \<Rightarrow> string \<Rightarrow>
    ('x env_scheme \<times> ('h, 'o, 'm, 's, 't) user \<times> error option) go" where
  "Move D w u bmsg from1 to1 =
     (case (Imap bmsg, boxes u from1) of
        (Some d, Some fromBox) \<Rightarrow>
          go_bind (bmsgByUID (ubox D) w fromBox (UID d)) (\<lambda>(fromBox1, b).
            let u1 = u\<lparr>boxes := (boxes u)(from1 \<mapsto> fromBox1)\<rparr> in
            case b of
              None \<Rightarrow> Ret (w, u1, None)
            | Some b \<Rightarrow>
                go_bind (on_box u1 from1 (\<lambda>box. DeleteBitmessageByUID (ubox D) w box (UID d))) (\<lambda>(w2, u2, err). case err of
                  Some e \<Rightarrow> Ret (w2, u2, Some e)
                | None \<Rightarrow> on_box u2 to1 (\<lambda>box.
                    go_bind (addNew (ubox D) w2 box (b\<lparr>Imap := None\<rparr>) (FlagSeen (mlib (ubox D))))
                      (\<lambda>(w3, box3, _, e). Ret (w3, box3, e)))))
      | _ \<Rightarrow> Panic)"

section \<open>Generating objects\<close>

text \<open>Calling the function \<open>u.expiration\<close>, which is nil after \<open>NewUser\<close>.\<close>

definition call_expiration :: "('h, 'o, 'm, 's, 't) user \<Rightarrow> ObjectType \<Rightarrow> int go" where
  "call_expiration u t = (case expiration u of None \<Rightarrow> Panic | Some f \<Rightarrow> Ret (f t))"

definition generateBroadcast ::
  "('o, 'p, 'q, 't) netlib \<Rightarrow> 'x env_scheme \<Rightarrow> Encoding option \<Rightarrow> 'p \<Rightarrow> int \<Rightarrow> 'x env_scheme \<times> (error + 'o)" where
  "generateBroadcast N w content1 from1 expiry =
     (if id_Version N from1 = 2 \<or> id_Version N from1 = 3 then
        (case time_Now w of (w1, t) \<Rightarrow> (w1, CreateTaglessBroadcast N (time_Add t expiry) content1 from1))
      else if id_Version N from1 = 4 then
        (case time_Now w of (w1, t) \<Rightarrow> (w1, CreateTaggedBroadcast N (time_Add t expiry) content1 from1))
      else (w, Inl (ErrText ''Unknown from address version'')))"

definition generateMessage ::
  "('o, 'p, 'q, 't) netlib \<Rightarrow> 'q publib \<Rightarrow> 'x env_scheme \<Rightarrow> Encoding option \<Rightarrow> bytes option \<Rightarrow> 'p \<Rightarrow> 'q \<Rightarrow> int \<Rightarrow>
    ('x env_scheme \<times> (error + 'o)) go" where
  "generateMessage N Q w content1 ack from1 to1 expiry =
     (case q_Address Q to1 of
        None \<Rightarrow> Panic
      | Some _ \<Rightarrow>
          (case time_Now w of (w1, t) \<Rightarrow>
             Ret (w1, SignAndEncryptMessage N (time_Add t expiry) content1 ack from1 to1)))"

text \<open>Setting and reading \<open>m.State.AckExpected\<close>; the state is a pointer.\<close>

definition expect_ack :: "Bmail \<Rightarrow> bool \<Rightarrow> Bmail go" where
  "expect_ack m b = (case State m of None \<Rightarrow> Panic | Some st \<Rightarrow> Ret (m\<lparr>State := Some (st\<lparr>AckExpected := b\<rparr>)\<rparr>))"

definition ack_missing :: "Bmail \<Rightarrow> bool go" where
  "ack_missing m =
     (if Ack m \<noteq> None then Ret False
      else case State m of None \<Rightarrow> Panic | Some st \<Rightarrow> Ret (AckExpected st))"

text \<open>The message is changed through its pointer and returned; the second result is \<open>data.Pow\<close>.\<close>

definition generateObject ::
  "('x, 'h, 'o, 'a, 'm, 'p, 's, 'q, 't) udeps \<Rightarrow> 'x env_scheme \<Rightarrow> ('h, 'o, 'm, 's, 't) user \<Rightarrow> Bmail \<Rightarrow> ('h, 'o) mailbox \<Rightarrow>
    ('x env_scheme \<times> ('h, 'o, 'm, 's, 't) user \<times> Bmail \<times> (error + 'o \<times> PowData option)) go" where
  "generateObject D w u m box =
     (case ToBm (mlib (ubox D)) (ubm D) (From m) of
        Inl e \<Rightarrow> Ret (w, u, m, Inl e)
      | Inr fromAddr \<Rightarrow>
     (case km_Get (ukeys D) (mu_keys u) fromAddr of
        None \<Rightarrow> Ret (w, u, m, Inl ErrMissingPrivateID)
      | Some from1 \<Rightarrow>
     (case Private from1 of
        None \<Rightarrow> Panic
      | Some fromID \<Rightarrow>
     (case getObject box m of
        Some ob \<Rightarrow> Ret (w, u, m, Inr (ob, data_Pow (unet D) fromID))
      | None \<Rightarrow>
          go_bind (so_GetOrRequestPublicID (userver D) w (server u) (To m)) (\<lambda>(w1, s1, r).
            let u1 = u\<lparr>server := s1\<rparr> in
            case r of
              Inl e \<Rightarrow>
                if e = ErrGetPubKeySent then
                  (case State m of
                     None \<Rightarrow> Panic
                   | Some st \<Rightarrow> Ret (w1, u1, m\<lparr>State := Some (st\<lparr>PubkeyRequestOutstanding := True\<rparr>)\<rparr>, Inl e))
                else Ret (w1, u1, m, Inl e)
            | Inr broadcastID \<Rightarrow>
                go_bind (call_expiration u1 ObjectTypeBroadcast) (\<lambda>expiry.
                  case generateBroadcast (unet D) w1 (Payload m) fromID expiry of
                    (w2, Inl e) \<Rightarrow> Ret (w2, u1, m, Inl e)
                  | (w2, Inr ob) \<Rightarrow> Ret (w2, u1, m, Inr (ob, data_Pow (unet D) fromID)))
            | Inr (PublicID_of to1) \<Rightarrow>
                go_bind (case km_Get (ukeys D) (mu_keys u) (To m) of
                    Some i \<Rightarrow> expect_ack (m\<lparr>OfChannel := IsChan i\<rparr>) False
                  | None \<Rightarrow> if and (q_Behavior (upub D) to1) (BehaviorAck (unet D)) = BehaviorAck (unet D)
                      then expect_ack m True else Ret m) (\<lambda>m1.
                go_bind (ack_missing m1) (\<lambda>missing.
                  if missing then Ret (w1, u1, m1, Inl ErrAckMissing)
                  else go_bind (call_expiration u1 ObjectTypeMsg) (\<lambda>expiry.
                    go_bind (generateMessage (unet D) (upub D) w1 (Payload m1) (Ack m1) fromID to1 expiry) (\<lambda>(w2, r2).
                      case r2 of
                        Inl e \<Rightarrow> Ret (w2, u1, m1, Inl e)
                      | Inr ob \<Rightarrow> Ret (w2, u1, m1, Inr (ob, data_Pow (unet D) fromID)))))))))))"

definition generateAck ::
  "('x, 'h, 'o, 'a, 'm, 'p, 's, 'q, 't) udeps \<Rightarrow> 'x env_scheme \<Rightarrow> ('h, 'o, 'm, 's, 't) user \<Rightarrow> Bmail \<Rightarrow>
    ('x env_scheme \<times> (error + 'o \<times> PowData option)) go" where
  "generateAck D w u m =
     (if To m = ''broadcast@bm.agent'' then Ret (w, Inl (ErrText ''No acks on broadcast messages.''))
      else case ToBm (mlib (ubox D)) (ubm D) (From m) of
        Inl e \<Rightarrow> Ret (w, Inl e)
      | Inr fromAddr \<Rightarrow>
     (case km_Get (ukeys D) (mu_keys u) fromAddr of
        None \<Rightarrow> Panic
      | Some from1 \<Rightarrow>
     (case Private from1 of
        None \<Rightarrow> Panic
      | Some fromID \<Rightarrow>
          let num = Int31 (unet D) (tick w); w1 = w\<lparr>tick := Suc (tick w)\<rparr>
          in case time_Now w1 of (w2, t) \<Rightarrow>
            go_bind (call_expiration u ObjectTypeMsg) (\<lambda>expiry.
              Ret (w2, Inr (NewAckObject (unet D) (time_Add t expiry) (id_Stream (unet D) fromID) (rev (PutUint32 num)),
                data_Pow (unet D) fromID))))))"

section \<open>Sending\<close>

text \<open>\<open>encoded[8:]\<close> panics on a shorter encoding; a nil \<open>powData\<close> or manager is dereferenced.\<close>

definition sendPow ::
  "('x, 'h, 'o, 'a, 'm, 'p, 's, 'q, 't) udeps \<Rightarrow> 'x env_scheme \<Rightarrow> ('h, 'o, 'm, 's, 't) user \<Rightarrow> 'o \<Rightarrow> PowData option \<Rightarrow> 'o task \<Rightarrow>
    ('x env_scheme \<times> ('h, 'o, 'm, 's, 't) user) go" where
  "sendPow D w u ob powData k =
     (let encoded = EncodeObject (mcodec (ubox D)) ob
      in if length encoded < 8 then Panic
         else let q = drop 8 encoded
              in case time_Now w of (w1, t) \<Rightarrow>
                   (case (powData, pm u) of
                      (Some pd, Some p) \<Rightarrow>
                        go_bind (Run p (CalculateTarget (unet D) (of_nat (length q))
                            (float_Seconds (unet D) (time_Sub (object_Expiration (unet D) ob) t)) pd) q k)
                          (\<lambda>(p1, _). Ret (w1, u\<lparr>pm := Some p1\<rparr>))
                    | _ \<Rightarrow> Panic))"

definition save_outbox ::
  "('x, 'h, 'o, 'a, 'm, 'p, 's, 'q, 't) udeps \<Rightarrow> 'x env_scheme \<Rightarrow> ('h, 'o, 'm, 's, 't) user \<Rightarrow> Bmail \<Rightarrow>
    ('x env_scheme \<times> ('h, 'o, 'm, 's, 't) user \<times> Bmail \<times> error option) go" where
  "save_outbox D w u bmsg =
     on_box u OutboxFolderName (\<lambda>box.
       go_bind (saveBitmessage (ubox D) w box bmsg) (\<lambda>(w1, box1, b, e). Ret (w1, box1, b, e)))"

definition sendPreparedMessage ::
  "('x, 'h, 'o, 'a, 'm, 'p, 's, 'q, 't) udeps \<Rightarrow> 'x env_scheme \<Rightarrow> ('h, 'o, 'm, 's, 't) user \<Rightarrow> Bmail \<Rightarrow> 'o \<Rightarrow> PowData option \<Rightarrow>
    ('x env_scheme \<times> ('h, 'o, 'm, 's, 't) user \<times> Bmail \<times> error option) go" where
  "sendPreparedMessage D w u bmsg ob powData =
     go_bind (save_outbox D w u bmsg) (\<lambda>(w1, u1, b1, e). case e of
       Some e \<Rightarrow> Ret (w1, u1, b1, Some e)
     | None \<Rightarrow> go_bind (sendPow D w1 u1 ob powData (SendTask b1 ob)) (\<lambda>(w2, u2). Ret (w2, u2, b1, None)))"

definition process ::
  "('x, 'h, 'o, 'a, 'm, 'p, 's, 'q, 't) udeps \<Rightarrow> 'x env_scheme \<Rightarrow> ('h, 'o, 'm, 's, 't) user \<Rightarrow> Bmail \<Rightarrow>
    ('x env_scheme \<times> ('h, 'o, 'm, 's, 't) user \<times> Bmail \<times> error option) go" where
  "process D w u bmsg =
     (case boxes u OutboxFolderName of
        None \<Rightarrow> Panic
      | Some outbox \<Rightarrow>
          go_bind (generateObject D w u bmsg outbox) (\<lambda>(w1, u1, b1, r). case r of
            Inl e \<Rightarrow>
              if e = ErrGetPubKeySent then save_outbox D w1 u1 b1
              else if e = ErrAckMissing then
                go_bind (generateAck D w1 u1 b1) (\<lambda>(w2, a). case a of
                  Inl e \<Rightarrow> Ret (w2, u1, b1, Some e)
                | Inr (ack, powData) \<Rightarrow>
                    (case Imap b1 of
                       None \<Rightarrow> Panic
                     | Some d \<Rightarrow>
                         go_bind (sendPow D w2 (u1\<lparr>acks := (acks u1)(InventoryHash (unet D) ack \<mapsto> UID d)\<rparr>) ack powData (AckTask b1))
                           (\<lambda>(w3, u3). Ret (w3, u3, b1, None))))
              else Ret (w1, u1, b1, Some e)
          | Inr (ob, powData) \<Rightarrow> sendPreparedMessage D w1 u1 b1 ob powData))"

text \<open>
  What runs when the proof of work of an order is completed: \<open>obj1\<close> is the nonce followed by the object.  An error
  is only logged.
\<close>

definition ack_done ::
  "('x, 'h, 'o, 'a, 'm, 'p, 's, 'q, 't) udeps \<Rightarrow> 'x env_scheme \<Rightarrow> ('h, 'o, 'm, 's, 't) user \<Rightarrow> Bmail \<Rightarrow> bytes \<Rightarrow>
    ('x env_scheme \<times> ('h, 'o, 'm, 's, 't) user \<times> error option) go" where
  "ack_done D w u bmsg obj1 =
     (case boxes u OutboxFolderName of
        None \<Rightarrow> Panic
      | Some outbox \<Rightarrow>
          go_bind (generateObject D w u (bmsg\<lparr>Ack := Some obj1\<rparr>) outbox) (\<lambda>(w1, u1, b1, r). case r of
            Inl e \<Rightarrow> Ret (w1, u1, Some e)
          | Inr (ob, powData) \<Rightarrow>
              go_bind (sendPreparedMessage D w1 u1 b1 ob powData) (\<lambda>(w2, u2, _, e). Ret (w2, u2, e))))"

definition send_done ::
  "('x, 'h, 'o, 'a, 'm, 'p, 's, 'q, 't) udeps \<Rightarrow> 'x env_scheme \<Rightarrow> ('h, 'o, 'm, 's, 't) user \<Rightarrow> Bmail \<Rightarrow> bytes \<Rightarrow>
    ('x env_scheme \<times> ('h, 'o, 'm, 's, 't) user \<times> error option) go" where
  "send_done D w u bmsg obj1 =
     go_bind (save_outbox D w u bmsg) (\<lambda>(w1, u1, b1, e). case e of
       Some e \<Rightarrow> Ret (w1, u1, Some e)
     | None \<Rightarrow>
         go_bind (so_Send (userver D) w1 (server u1) obj1) (\<lambda>(w2, s2).
           case State b1 of
             None \<Rightarrow> Panic
           | Some st \<Rightarrow>
               let newBoxName = (if AckExpected st then LimboFolderName else SentFolderName)
               in case time_Now w2 of (w3, t) \<Rightarrow>
                    Move D w3 (u1\<lparr>server := s2\<rparr>) (b1\<lparr>State := Some (st\<lparr>SendTries := SendTries st + 1, LastSend := t\<rparr>)\<rparr>)
                      OutboxFolderName newBoxName))"

fun task_done ::
  "('x, 'h, 'o, 'a, 'm, 'p, 's, 'q, 't) udeps \<Rightarrow> 'x env_scheme \<Rightarrow> ('h, 'o, 'm, 's, 't) user \<Rightarrow> ('t, 'o task) powOrder \<Rightarrow> bytes \<Rightarrow>
    ('x env_scheme \<times> ('h, 'o, 'm, 's, 't) user) go" where
  "task_done D w u ord nonce =
     go_bind (case donePowFunc ord of
         AckTask b \<Rightarrow> ack_done D w u b (nonce @ object ord)
       | SendTask b _ \<Rightarrow> send_done D w u b (nonce @ object ord))
       (\<lambda>(w1, u1, _). Ret (w1, u1))"

section \<open>Delivery\<close>

text \<open>\<open>strings.Fields\<close>: the maximal runs of characters that are not white space.\<close>

definition is_space :: "char \<Rightarrow> bool" where
  "is_space c \<longleftrightarrow> c \<in> {CHR 0x09, CHR 0x0A, CHR 0x0B, CHR 0x0C, CHR 0x0D, CHR '' ''}"

fun fields :: "string \<Rightarrow> string \<Rightarrow> string list" where
  "fields cur [] = (if cur = [] then [] else [cur])"
| "fields cur (c # s) =
     (if is_space c then (if cur = [] then fields [] s else cur # fields [] s) else fields (cur @ [c]) s)"

definition PrivateIDToPublicID :: "('o, 'p, 'q, 't) netlib \<Rightarrow> 'p PrivateID \<Rightarrow> 'q PublicID go" where
  "PrivateIDToPublicID N pid =
     (case Private pid of None \<Rightarrow> Panic | Some p \<Rightarrow> Ret \<lparr>ID = PublicID_of (id_Public N p), Label = Name pid\<rparr>)"

definition user_NewAddress ::
  "('x, 'h, 'o, 'a, 'm, 'p, 's, 'q, 't) udeps \<Rightarrow> ('h, 'o, 'm, 's, 't) user \<Rightarrow> string \<Rightarrow> bool \<Rightarrow>
    (('h, 'o, 'm, 's, 't) user \<times> 'q PublicID) go" where
  "user_NewAddress D u tag sendAck =
     go_bind (km_NewUnnamed (ukeys D) (mu_keys u) (DefaultStream (unet D)) (if sendAck then BehaviorAck (unet D) else 0))
       (\<lambda>(k1, pid). go_bind (PrivateIDToPublicID (unet D) pid) (\<lambda>a. Ret (u\<lparr>mu_keys := k1\<rparr>, a)))"

fun list_ids :: "('o, 'p, 'q, 't) netlib \<Rightarrow> (string \<Rightarrow> 'p PrivateID option) \<Rightarrow> string list \<Rightarrow> 'q PublicID list go" where
  "list_ids N get [] = Ret []"
| "list_ids N get (a # as) =
     (case get a of
        None \<Rightarrow> Panic
      | Some pid \<Rightarrow> go_bind (PrivateIDToPublicID N pid) (\<lambda>x. go_bind (list_ids N get as) (\<lambda>xs. Ret (x # xs))))"

definition ListAddresses ::
  "('x, 'h, 'o, 'a, 'm, 'p, 's, 'q, 't) udeps \<Rightarrow> 'x env_scheme \<Rightarrow> ('h, 'o, 'm, 's, 't) user \<Rightarrow>
    ('x env_scheme \<times> 'q PublicID list) go" where
  "ListAddresses D w u =
     (case range_names w (dom (km_Names (ukeys D) (mu_keys u))) of (w1, as) \<Rightarrow>
        go_bind (list_ids (unet D) (km_Get (ukeys D) (mu_keys u)) as) (\<lambda>xs. Ret (w1, xs)))"

text \<open>The user as an implementation of \<open>cmd.User\<close>.\<close>

definition cmd_user_of ::
  "('x, 'h, 'o, 'a, 'm, 'p, 's, 'q, 't) udeps \<Rightarrow> ('x env_scheme \<times> ('h, 'o, 'm, 's, 't) user, 'q) cmd_user" where
  "cmd_user_of D =
     \<lparr>cu_NewAddress = (\<lambda>(w, u) tag ack. go_bind (user_NewAddress D u tag ack) (\<lambda>(u1, a). Ret ((w, u1), a))),
      cu_ListAddresses = (\<lambda>(w, u). go_bind (ListAddresses D w u) (\<lambda>(w1, as). Ret ((w1, u), as)))\<rparr>"

definition executeCommand ::
  "('x, 'h, 'o, 'a, 'm, 'p, 's, 'q, 't) udeps \<Rightarrow> 'x env_scheme \<Rightarrow> ('h, 'o, 'm, 's, 't) user \<Rightarrow> string \<Rightarrow> string \<Rightarrow> string \<Rightarrow>
    ('x env_scheme \<times> ('h, 'o, 'm, 's, 't) user \<times> error option) go" where
  "executeCommand D w u from1 name params =
     go_bind (EmailCommand (upub D) (utext D) (cmd_user_of D) (w, u) from1 ''command@bm.agent'' name (fields [] params))
       (\<lambda>((w1, u1), bm). on_box u1 CommandsFolderName (\<lambda>box.
          go_bind (AddNew (ubox D) w1 box bm (FlagRecent (mlib (ubox D)))) (\<lambda>(w2, box2, _, e). Ret (w2, box2, e))))"

text \<open>An error of adding to the outbox is not reported.\<close>

definition DeliverFromSMTP ::
  "('x, 'h, 'o, 'a, 'm, 'p, 's, 'q, 't) udeps \<Rightarrow> 'x env_scheme \<Rightarrow> ('h, 'o, 'm, 's, 't) user \<Rightarrow> Content \<Rightarrow>
    ('x env_scheme \<times> ('h, 'o, 'm, 's, 't) user \<times> error option) go" where
  "DeliverFromSMTP D w u smtp =
     go_bind (NewBitmessageFromSMTP (mlib (ubox D)) smtp) (\<lambda>r. case r of
       Inl e \<Rightarrow> Ret (w, u, Some e)
     | Inr bmsg \<Rightarrow>
         if CommandRegex (To bmsg) then
           (case map_of (Headers smtp) ''Subject'' of
              Some (subject # _) \<Rightarrow> executeCommand D w u (From bmsg) subject (Body smtp)
            | _ \<Rightarrow> Panic)
         else
           go_bind (on_box u OutboxFolderName (\<lambda>box.
               go_bind (AddNew (ubox D) w box bmsg (FlagSeen (mlib (ubox D)))) (\<lambda>(w1, box1, b, e). Ret (w1, box1, b, e))))
             (\<lambda>(w1, u1, b1, err). case err of
                Some _ \<Rightarrow> Ret (w1, u1, None)
              | None \<Rightarrow> go_bind (process D w1 u1 b1) (\<lambda>(w2, u2, _, e). Ret (w2, u2, e))))"

text \<open>\<open>strings.Contains\<close>.\<close>

fun contains :: "string \<Rightarrow> string \<Rightarrow> bool" where
  "contains [] sub1 = (sub1 = [])"
| "contains (c # s) sub1 = (take (length sub1) (c # s) = sub1 \<or> contains s sub1)"

definition awaiting_each ::
  "('w, 'h, 'o) deps \<Rightarrow> string \<Rightarrow> Bmail list \<Rightarrow> u64 \<Rightarrow> u64 \<Rightarrow> bytes \<Rightarrow> (Bmail list \<times> error option) go" where
  "awaiting_each D bmaddr bms i sfx msg =
     go_bind (decodeBitmessage (mlib D) (mcodec D) msg) (\<lambda>r. case r of
       Inl e \<Rightarrow> Ret (bms, Some e)
     | Inr (b, _) \<Rightarrow>
         (case State b of
            None \<Rightarrow> Panic
          | Some st \<Rightarrow>
              Ret (if PubkeyRequestOutstanding st \<and> contains (To b) bmaddr then bms @ [b] else bms, None)))"

fun process_all ::
  "('x, 'h, 'o, 'a, 'm, 'p, 's, 'q, 't) udeps \<Rightarrow> 'x env_scheme \<Rightarrow> ('h, 'o, 'm, 's, 't) user \<Rightarrow> Bmail list \<Rightarrow>
    ('x env_scheme \<times> ('h, 'o, 'm, 's, 't) user \<times> error option) go" where
  "process_all D w u [] = Ret (w, u, None)"
| "process_all D w u (b # bs) =
     go_bind (process D w u b) (\<lambda>(w1, u1, _, e). case e of
       Some e \<Rightarrow> Ret (w1, u1, Some e)
     | None \<Rightarrow> process_all D w1 u1 bs)"

definition DeliverPublic ::
  "('x, 'h, 'o, 'a, 'm, 'p, 's, 'q, 't) udeps \<Rightarrow> 'x env_scheme \<Rightarrow> ('h, 'o, 'm, 's, 't) user \<Rightarrow> string \<Rightarrow>
    ('x env_scheme \<times> ('h, 'o, 'm, 's, 't) user \<times> error option) go" where
  "DeliverPublic D w u bmaddr =
     (if \<not> BitmessageRegex bmaddr then Ret (w, u, Some (ErrText ''Bitmessage address required.''))
      else case boxes u OutboxFolderName of
        None \<Rightarrow> Panic
      | Some outbox \<Rightarrow>
          go_bind (ForEachMessage (mfold (ubox D)) w (mbox outbox) 0 0 2 (awaiting_each (ubox D) bmaddr) [])
            (\<lambda>(w1, bms, err). case err of
               Some e \<Rightarrow> Ret (w1, u, Some e)
             | None \<Rightarrow> process_all D w1 u bms))"

definition DeliverAckReply ::
  "('x, 'h, 'o, 'a, 'm, 'p, 's, 'q, 't) udeps \<Rightarrow> 'x env_scheme \<Rightarrow> ('h, 'o, 'm, 's, 't) user \<Rightarrow> bytes \<Rightarrow>
    ('x env_scheme \<times> ('h, 'o, 'm, 's, 't) user \<times> error option) go" where
  "DeliverAckReply D w u hash =
     (case acks u hash of
        None \<Rightarrow> Ret (w, u, Some ErrUnrecognizedAck)
      | Some uid \<Rightarrow>
     (case boxes u LimboFolderName of
        None \<Rightarrow> Panic
      | Some limbo \<Rightarrow>
          go_bind (bmsgByUID (ubox D) w limbo uid) (\<lambda>(limbo1, b).
            let u1 = u\<lparr>boxes := (boxes u)(LimboFolderName \<mapsto> limbo1)\<rparr> in
            case b of
              None \<Rightarrow> Ret (w, u1, Some ErrNoMessageFound)
            | Some bmsg \<Rightarrow>
                (case State bmsg of
                   None \<Rightarrow> Panic
                 | Some st \<Rightarrow>
                     if \<not> AckExpected st then Ret (w, u1, Some ErrNoAckExpected)
                     else Move D w u1 (bmsg\<lparr>State := Some (st\<lparr>AckReceived := True\<rparr>)\<rparr>) LimboFolderName SentFolderName))))"

end
