(* ===== verification/Mail_Server.thy ===== *)
theory Mail_Server
  imports User
begin

text \<open>
  What the IMAP and the SMTP server call: src/user/imap.go and src/user/smtp.go.  The protocol of SMTP is mailhog's
  state machine, a parameter; listening for connections is not modelled.
\<close>

section \<open>Base64\<close>

definition b64_chars :: string where
  "b64_chars = ''ABCDEFGHIJKLMNOPQRSTUVWXYZabcdefghijklmnopqrstuvwxyz0123456789+/''"

fun index_of :: "char \<Rightarrow> string \<Rightarrow> nat option" where
  "index_of c [] = None"
| "index_of c (d # ds) = (if c = d then Some 0 else map_option Suc (index_of c ds))"

definition b64_val :: "char \<Rightarrow> nat option" where
  "b64_val c = index_of c b64_chars"

text \<open>\<open>base64.StdEncoding.DecodeString\<close> on text without line breaks: quanta of four characters, padding at the end.\<close>

fun b64_quanta :: "string \<Rightarrow> bytes option" where
  "b64_quanta [] = Some []"
| "b64_quanta (a # b # c # d # s) =
     (case (b64_val a, b64_val b) of
        (Some va, Some vb) \<Rightarrow>
          if c = CHR ''='' then (if d = CHR ''='' \<and> s = [] then Some [char_of (va * 4 + vb div 16)] else None)
          else (case b64_val c of
            None \<Rightarrow> None
          | Some vc \<Rightarrow>
              if d = CHR ''='' then
                (if s = [] then Some [char_of (va * 4 + vb div 16), char_of (vb mod 16 * 16 + vc div 4)] else None)
              else (case b64_val d of
                None \<Rightarrow> None
              | Some vd \<Rightarrow> map_option (\<lambda>r. char_of (va * 4 + vb div 16) # char_of (vb mod 16 * 16 + vc div 4) #
                  char_of (vc mod 4 * 64 + vd) # r) (b64_quanta s)))
      | _ \<Rightarrow> None)"
| "b64_quanta _ = None"

definition b64_DecodeString :: "string \<Rightarrow> bytes option" where
  "b64_DecodeString s = b64_quanta (filter (\<lambda>c. c \<noteq> CHR 0x0A \<and> c \<noteq> CHR 0x0D) s)"

text \<open>\<open>bytes.Split(b, []byte{0x00})\<close>.\<close>

fun split0 :: "bytes \<Rightarrow> bytes list" where
  "split0 [] = [[]]"
| "split0 (c # s) = (if c = CHR 0x00 then [] # split0 s else (case split0 s of x # xs \<Rightarrow> (c # x) # xs | [] \<Rightarrow> [[c]]))"

section \<open>SMTP\<close>

record Config =
  cfg_Username :: string
  cfg_Password :: string

datatype smtp_reply = ReplyUnsupportedAuth | ReplyError string | ReplyInvalidAuth | ReplyAuthOk

record ('h, 'o, 'm, 's, 't) SMTPServer =
  smtp_cfg :: Config
  smtp_user :: "('h, 'o, 'm, 's, 't) user"

definition NewSMTPServer :: "Config \<Rightarrow> ('h, 'o, 'm, 's, 't) user \<Rightarrow> ('h, 'o, 'm, 's, 't) SMTPServer" where
  "NewSMTPServer c u = \<lparr>smtp_cfg = c, smtp_user = u\<rparr>"

definition validateAuth :: "Config \<Rightarrow> string \<Rightarrow> string list \<Rightarrow> (smtp_reply \<times> bool) go" where
  "validateAuth c mechanism args =
     (if mechanism \<noteq> ''PLAIN'' then Ret (ReplyUnsupportedAuth, False)
      else case args of
        [] \<Rightarrow> Panic
      | arg # _ \<Rightarrow>
          (case b64_DecodeString arg of
             None \<Rightarrow> Ret (ReplyError ''Invalid BASE64 encoding'', False)
           | Some b \<Rightarrow>
               let s = split0 b
               in if length s \<noteq> 3 then Ret (ReplyInvalidAuth, False)
                  else if s ! 1 \<noteq> cfg_Username c \<or> s ! 2 \<noteq> cfg_Password c then Ret (ReplyInvalidAuth, False)
                  else Ret (ReplyAuthOk, True)))"

definition validateSender ::
  "('x, 'h, 'o, 'a, 'm, 'p, 's, 'q, 't) udeps \<Rightarrow> ('h, 'o, 'm, 's, 't) SMTPServer \<Rightarrow> string \<Rightarrow> bool" where
  "validateSender D serv from1 =
     (case ParseAddress (mlib (ubox D)) from1 of
        Inl _ \<Rightarrow> False
      | Inr addr \<Rightarrow>
          (case ToBm (mlib (ubox D)) (ubm D) addr of
             Inl _ \<Rightarrow> False
           | Inr bmAddr \<Rightarrow> if km_Get (ukeys D) (mu_keys (smtp_user serv)) bmAddr = None then False else True))"

text \<open>The message that was received is given by its id and its content, as mailhog's \<open>Parse\<close> returns them.\<close>

definition messageReceived ::
  "('x, 'h, 'o, 'a, 'm, 'p, 's, 'q, 't) udeps \<Rightarrow> 'x env_scheme \<Rightarrow> ('h, 'o, 'm, 's, 't) SMTPServer \<Rightarrow> string \<times> Content \<Rightarrow>
    ('x env_scheme \<times> ('h, 'o, 'm, 's, 't) SMTPServer \<times> string \<times> error option) go" where
  "messageReceived D w serv msg =
     go_bind (DeliverFromSMTP D w (smtp_user serv) (snd msg)) (\<lambda>(w1, u1, e).
       Ret (w1, serv\<lparr>smtp_user := u1\<rparr>, fst msg, e))"

text \<open>
  A session: \<open>write\<close> writes a line to the connection \<open>'c\<close>, \<open>parse\<close> is a step of the protocol, the last argument holds the
  lines that are read until the connection fails.  The rest of a reply is dropped after a failing write.
\<close>

fun write_lines :: "('c \<Rightarrow> string \<Rightarrow> 'c \<times> error option) \<Rightarrow> 'c \<Rightarrow> string list \<Rightarrow> 'c" where
  "write_lines write c [] = c"
| "write_lines write c (r # rs) = (case write c r of (c1, Some _) \<Rightarrow> c1 | (c1, None) \<Rightarrow> write_lines write c1 rs)"

fun smtpRun ::
  "('c \<Rightarrow> string \<Rightarrow> 'c \<times> error option) \<Rightarrow> ('z \<Rightarrow> string \<Rightarrow> 'z \<times> string list option) \<Rightarrow> 'c \<Rightarrow> 'z \<Rightarrow> string list option \<Rightarrow>
    string list \<Rightarrow> 'c \<times> 'z" where
  "smtpRun write parse c z reply [] = (write_lines write c (case reply of None \<Rightarrow> [] | Some r \<Rightarrow> r), z)"
| "smtpRun write parse c z reply (line # ls) =
     (let c1 = write_lines write c (case reply of None \<Rightarrow> [] | Some r \<Rightarrow> r)
      in case parse z line of (z1, reply1) \<Rightarrow> smtpRun write parse c1 z1 reply1 ls)"

section \<open>IMAP\<close>

record ('h, 'o, 'm, 's, 't) BitmessageStore =
  imap_cfg :: Config
  imap_user :: "('h, 'o, 'm, 's, 't) user"

definition NewBitmessageStore :: "('h, 'o, 'm, 's, 't) user \<Rightarrow> Config \<Rightarrow> ('h, 'o, 'm, 's, 't) BitmessageStore" where
  "NewBitmessageStore u c = \<lparr>imap_cfg = c, imap_user = u\<rparr>"

definition Authenticate ::
  "('h, 'o, 'm, 's, 't) BitmessageStore \<Rightarrow> string \<Rightarrow> string \<Rightarrow> error + ('h, 'o, 'm, 's, 't) user" where
  "Authenticate s username password =
     (if username \<noteq> cfg_Username (imap_cfg s) \<or> password \<noteq> cfg_Password (imap_cfg s)
      then Inl (ErrText ''Invalid credentials'') else Inr (imap_user s))"

definition welcomeMsg :: "string \<Rightarrow> string" where
  "welcomeMsg keyList = join [CHR 0x0A]
     ['''', ''Welcome to bmagent and to the anonymous, encrypted world of Bitmessage! You are'',
      ''using version 0.1 alpha.'', '''', ''You have the following addresses available: '', '''', keyList, '''',
      ''To send a bitmessage, write an email with an address of the'',
      ''form <destination bitmessage address>@bm.addr. For sending out a broadcast,'',
      ''shoot an e-mail to broadcast@bm.addr. Don'' @ [CHR 0x27] @ ''t forget to add valid From addresses'',
      ''in your e-mail client! From addresses are considered valid if bmagent holds'',
      ''private keys for them. You can also send commands to bmagent via the address'',
      ''<command>@bm.agent.'', '''', ''Have a bug to report? Care to help out? Please see our github repo:'',
      ''https://github.com/DanielKrawisz/bmagent/'']"

fun new_folders ::
  "('w, 'f, 'h) Folders \<Rightarrow> 'w \<Rightarrow> 'f \<Rightarrow> string list \<Rightarrow> ('w \<times> 'f \<times> error option) go" where
  "new_folders FS w f [] = Ret (w, f, None)"
| "new_folders FS w f (n # ns) =
     go_bind (fs_New FS w f n) (\<lambda>(w1, f1, r). case r of
       Inl e \<Rightarrow> Ret (w1, f1, Some e)
     | Inr _ \<Rightarrow> new_folders FS w1 f1 ns)"

fun gen_keys :: "('m, 'p) Keys_Manager \<Rightarrow> u64 \<Rightarrow> u32 \<Rightarrow> 'm \<Rightarrow> nat \<Rightarrow> 'm go" where
  "gen_keys K stream behavior k 0 = Ret k"
| "gen_keys K stream behavior k (Suc n) =
     go_bind (km_NewUnnamed K k stream behavior) (\<lambda>(k1, _). gen_keys K stream behavior k1 n)"

definition key_list :: "(string \<rightharpoonup> string) \<Rightarrow> string list \<Rightarrow> string" where
  "key_list tags as =
     concat (map (\<lambda>a. [CHR 0x09] @ a @ ''@bm.addr '' @ (case tags a of None \<Rightarrow> '''' | Some t \<Rightarrow> t) @ [CHR 0x0A]) as)"

text \<open>The bmail that \<open>Initialize\<close> adds to the inbox; \<open>toAddr\<close> is never set.\<close>

definition welcome_bmail :: "string \<Rightarrow> Bmail" where
  "welcome_bmail keyList =
     \<lparr>From = ''welcome@bm.agent'', To = '''' @ ''@bm.addr'', OfChannel = False, Expiration = zero_time, Ack = None,
      Payload = Some (Encoding2 ''Welcome to bmagent!'' (welcomeMsg keyList)), Imap = None, State = None\<rparr>"

definition Initialize ::
  "('x, 'h, 'o, 'a, 'm, 'p, 's, 'q, 't) udeps \<Rightarrow> ('x env_scheme, 'f, 'h) Folders \<Rightarrow> 'x env_scheme \<Rightarrow> 'f \<Rightarrow> 'm \<Rightarrow> u32 \<Rightarrow>
    ('x env_scheme \<times> 'f \<times> 'm \<times> error option) go" where
  "Initialize D FS w f k genkeys =
     (let tags = km_Names (ukeys D) k in
      go_bind (fs_New FS w f InboxFolderName) (\<lambda>(w1, f1, r). case r of
        Inl e \<Rightarrow> Ret (w1, f1, k, Some e)
      | Inr p \<Rightarrow>
      go_bind (newMailbox (ubox D) w1 InboxFolderName (fs_obj FS f1 p) tags) (\<lambda>(w2, i). case i of
        Inl e \<Rightarrow> Ret (w2, f1, k, Some e)
      | Inr inbox \<Rightarrow>
      go_bind (new_folders FS w2 f1 [OutboxFolderName, SentFolderName, LimboFolderName, TrashFolderName, CommandsFolderName,
          DraftsFolderName]) (\<lambda>(w3, f3, err). case err of
        Some e \<Rightarrow> Ret (w3, f3, k, Some e)
      | None \<Rightarrow>
      go_bind (gen_keys (ukeys D) (DefaultStream (unet D)) (BehaviorAck (unet D)) k (unat genkeys)) (\<lambda>k1.
      case range_names w3 (dom tags) of (w4, as) \<Rightarrow>
      go_bind (AddNew (ubox D) w4 inbox (welcome_bmail (key_list tags as)) (FlagRecent (mlib (ubox D)))) (\<lambda>(w5, inbox1, _, e).
        Ret (w5, fs_set FS f3 p (mbox inbox1), k1, e)))))))"

end
