(* ===== verification/PK_Requests.thy ===== *)
theory PK_Requests
  imports World
begin

text \<open>
  Public key requests, src/store/pkrequests.go: for every address that was asked for, the number of
  requests and the time of the last one, 4 bytes of counter followed by the encoded time.
\<close>

section \<open>Model\<close>

definition pkRequestsBucket :: bytes where "pkRequestsBucket = ''pubkeyRequests''"

abbreviation pk_path :: path where "pk_path \<equiv> [pkRequestsBucket]"

definition initializePKRequestStore :: "'db bolt \<Rightarrow> 'db world \<Rightarrow> ('db world \<times> error option) go" where
  "initializePKRequestStore B w =
     go_bind (db_Update B w () (\<lambda>w tx _.
         case CreateBucketIfNotExists B tx [] pkRequestsBucket of
           Inl e \<Rightarrow> Ret (w, tx, (), Some e)
         | Inr tx1 \<Rightarrow> Ret (w, tx1, (), None)))
       (\<lambda>(w', _, e). Ret (w', e))"

definition pk_New :: "'db bolt \<Rightarrow> 'db world \<Rightarrow> string \<Rightarrow> ('db world \<times> (error + u32)) go" where
  "pk_New B w addr =
     go_bind (db_Update B w 0 (\<lambda>w tx _. on_bucket B tx pk_path
         (go_bind (case Get B tx pk_path addr of
                     None \<Rightarrow> Ret 1
                   | Some t \<Rightarrow> go_bind (Uint32 t) (\<lambda>c. Ret (c + 1)))
           (\<lambda>count.
              case time_Now w of (w1, now) \<Rightarrow>
                (case MarshalBinary now of
                   Inl e \<Rightarrow> Ret (w1, tx, count, Some e)
                 | Inr t \<Rightarrow>
                     (case Put B tx pk_path addr (PutUint32 count @ t) of
                        Inl e \<Rightarrow> Ret (w1, tx, count, Some e)
                      | Inr tx1 \<Rightarrow> Ret (w1, tx1, count, None)))))))
       (\<lambda>(w', count, e). case e of Some e \<Rightarrow> Ret (w', Inl e) | None \<Rightarrow> Ret (w', Inr count))"

definition LastRequestTime :: "'db bolt \<Rightarrow> 'db world \<Rightarrow> string \<Rightarrow> (error + gotime) go" where
  "LastRequestTime B w addr =
     go_bind (db_View B w None (\<lambda>tx l. on_bucket B tx pk_path
         (case Get B tx pk_path addr of
            None \<Rightarrow> Ret (l, Some ErrNotFound)
          | Some t \<Rightarrow>
              if length t < 4 then Panic
              else (case UnmarshalBinary (drop 4 t) of
                      Inl e \<Rightarrow> Ret (l, Some e)
                    | Inr v \<Rightarrow> Ret (Some v, None)))))
       (\<lambda>(v, e). case e of
          Some e \<Rightarrow> Ret (Inl e)
        | None \<Rightarrow> (case v of Some v \<Rightarrow> Ret (Inr v) | None \<Rightarrow> Panic))"

definition pk_Remove :: "'db bolt \<Rightarrow> 'db world \<Rightarrow> string \<Rightarrow> ('db world \<times> error option) go" where
  "pk_Remove B w addr =
     go_bind (db_Update B w () (\<lambda>w tx _. on_bucket B tx pk_path
         (case Delete B tx pk_path addr of
            Inl e \<Rightarrow> Ret (w, tx, (), Some e)
          | Inr tx1 \<Rightarrow> Ret (w, tx1, (), None))))
       (\<lambda>(w', _, e). Ret (w', e))"

text \<open>
  \<open>ForEach\<close> decodes each record and runs the callback on it; it stops at the first error.  A nested
  bucket has a nil value, on which the slice expression \<open>v[:4]\<close> panics.
\<close>

fun pk_each :: "('a \<Rightarrow> string \<Rightarrow> u32 \<Rightarrow> gotime \<Rightarrow> ('a \<times> error option) go) \<Rightarrow> 'a \<Rightarrow> entry list \<Rightarrow>
    ('a \<times> error option) go" where
  "pk_each f a [] = Ret (a, None)"
| "pk_each f a ((k, None) # es) = Panic"
| "pk_each f a ((k, Some v) # es) =
     go_bind (Uint32 v) (\<lambda>reqCount.
       case UnmarshalBinary (drop 4 v) of
         Inl e \<Rightarrow> Ret (a, Some e)
       | Inr t \<Rightarrow> go_bind (f a k reqCount t) (\<lambda>(a', e).
           case e of Some e \<Rightarrow> Ret (a', Some e) | None \<Rightarrow> pk_each f a' es))"

definition pk_ForEach ::
  "'db bolt \<Rightarrow> 'db world \<Rightarrow> ('a \<Rightarrow> string \<Rightarrow> u32 \<Rightarrow> gotime \<Rightarrow> ('a \<times> error option) go) \<Rightarrow> 'a \<Rightarrow>
    ('a \<times> error option) go" where
  "pk_ForEach B w f a =
     db_View B w a (\<lambda>tx a. on_bucket B tx pk_path (pk_each f a (Cursor B tx pk_path)))"

section \<open>The stored records\<close>

text \<open>\<open>pk_rep m R\<close>: the bucket's content \<open>m\<close> holds exactly the requests \<open>R\<close>.\<close>

definition pk_rep :: "(bytes \<rightharpoonup> bytes option) \<Rightarrow> (string \<rightharpoonup> u32 \<times> gotime) \<Rightarrow> bool" where
  "pk_rep m R \<longleftrightarrow> (\<forall>k. case R k of
       None \<Rightarrow> m k = None
     | Some (c, t) \<Rightarrow> \<exists>b. MarshalBinary t = Inr b \<and> m k = Some (Some (PutUint32 c @ b)))"

definition pk_inv :: "'db bolt \<Rightarrow> 'db world \<Rightarrow> (string \<rightharpoonup> u32 \<times> gotime) \<Rightarrow> bool" where
  "pk_inv B w R \<longleftrightarrow> bolt_ok B \<and> bolt_live B \<and> \<not> rwtx (wdb w) \<and> opened (wdb w) \<and>
     (\<exists>m. obs B (content (wdb w)) pk_path = Some m \<and> pk_rep m R)"

lemma pk_rep_update:
  "pk_rep m R \<Longrightarrow> MarshalBinary t = Inr b \<Longrightarrow>
    pk_rep (m(k \<mapsto> Some (PutUint32 c @ b))) (R(k \<mapsto> (c, t)))"
  unfolding pk_rep_def by (auto split: option.splits prod.splits) (metis option.distinct(1))

lemma pk_rep_delete: "pk_rep m R \<Longrightarrow> pk_rep (m(k := None)) (R(k := None))"
  unfolding pk_rep_def by (auto split: option.splits prod.splits) (metis option.distinct(1))

lemma pk_rep_not_bucket: "pk_rep m R \<Longrightarrow> m k \<noteq> Some None"
  by (auto simp: pk_rep_def dest!: spec [of _ k] split: option.splits)

text \<open>The number of the next request for an address, with wrap-around.\<close>

definition pk_next :: "(string \<rightharpoonup> u32 \<times> gotime) \<Rightarrow> string \<Rightarrow> u32" where
  "pk_next R addr = (case R addr of None \<Rightarrow> 1 | Some (c, _) \<Rightarrow> c + 1)"

lemma pk_new:
  assumes inv: "pk_inv B w R" and a: "addr \<noteq> []" "length addr \<le> MaxKeySize"
    and t: "MarshalBinary (clock w (tick w)) = Inr b"
  shows "\<exists>w'. pk_New B w addr = Ret (w', Inr (pk_next R addr)) \<and>
    pk_inv B w' (R(addr \<mapsto> (pk_next R addr, clock w (tick w)))) \<and>
    clock w' = clock w \<and> tick w' = Suc (tick w)"
proof -
  let ?c = "content (wdb w)"
  from inv obtain m where ok: "bolt_ok B" "bolt_live B" "\<not> rwtx (wdb w)" "opened (wdb w)"
    and m: "obs B ?c pk_path = Some m" "pk_rep m R"
    by (auto simp: pk_inv_def)
  have size: "length (PutUint32 (pk_next R addr) @ b) \<le> MaxValueSize"
    using MarshalBinary_length [OF t] by (simp add: MaxValueSize_def)
  from put_step [OF ok(1) m(1) _ pk_rep_not_bucket [OF m(2)] a size]
  obtain tx where tx: "Put B ?c pk_path addr (PutUint32 (pk_next R addr) @ b) = Inr tx"
      "obs B tx = (obs B ?c)(pk_path \<mapsto> m(addr \<mapsto> Some (PutUint32 (pk_next R addr) @ b)))" by auto
  have "(case Get B ?c pk_path addr of None \<Rightarrow> Ret 1
      | Some t \<Rightarrow> go_bind (Uint32 t) (\<lambda>c. Ret (c + 1))) = Ret (pk_next R addr)"
  proof (cases "R addr")
    case None
    then have "m addr = None" using m(2) by (auto simp: pk_rep_def dest: spec [of _ addr])
    then show ?thesis using get_none [OF ok(1) m(1)] None by (simp add: pk_next_def)
  next
    case (Some x)
    then obtain c u b' where x: "R addr = Some (c, u)" "m addr = Some (Some (PutUint32 c @ b'))"
      using m(2) by (cases x) (auto simp: pk_rep_def dest!: spec [of _ addr])
    then show ?thesis using get_step [OF ok(1) m(1) x(2)] by (simp add: pk_next_def)
  qed
  then have run: "pk_New B w addr =
      Ret (w\<lparr>tick := Suc (tick w), wdb := (wdb w)\<lparr>content := tx\<rparr>\<rparr>, Inr (pk_next R addr))"
    using ok t tx(1) m(1) by (simp add: pk_New_def db_Update_run on_bucket_def obs_Bucket time_Now_def)
  have "pk_inv B (w\<lparr>tick := Suc (tick w), wdb := (wdb w)\<lparr>content := tx\<rparr>\<rparr>)
      (R(addr \<mapsto> (pk_next R addr, clock w (tick w))))"
    using ok tx(2) pk_rep_update [OF m(2) t] by (simp add: pk_inv_def)
  with run show ?thesis by simp
qed

lemma pk_last:
  assumes inv: "pk_inv B w R"
  shows "LastRequestTime B w addr =
    Ret (case R addr of None \<Rightarrow> Inl ErrNotFound | Some (c, t) \<Rightarrow> Inr t)"
proof -
  let ?c = "content (wdb w)"
  from inv obtain m where ok: "bolt_ok B" "bolt_live B" "opened (wdb w)"
    and m: "obs B ?c pk_path = Some m" "pk_rep m R"
    by (auto simp: pk_inv_def)
  show ?thesis
  proof (cases "R addr")
    case None
    then have "m addr = None" using m(2) by (auto simp: pk_rep_def dest: spec [of _ addr])
    with get_none [OF ok(1) m(1)] None ok m(1) show ?thesis
      by (simp add: LastRequestTime_def db_View_live on_bucket_def obs_Bucket)
  next
    case (Some x)
    then obtain c u b where x: "R addr = Some (c, u)" "m addr = Some (Some (PutUint32 c @ b))"
        "MarshalBinary u = Inr b"
      using m(2) by (cases x) (auto simp: pk_rep_def dest!: spec [of _ addr])
    with get_step [OF ok(1) m(1) x(2)] MarshalBinary_roundtrip [OF x(3)] ok m(1) show ?thesis
      by (simp add: LastRequestTime_def db_View_live on_bucket_def obs_Bucket)
  qed
qed

lemma pk_remove:
  assumes inv: "pk_inv B w R"
  shows "\<exists>w'. pk_Remove B w addr = Ret (w', None) \<and> pk_inv B w' (R(addr := None))"
proof -
  let ?c = "content (wdb w)"
  from inv obtain m where ok: "bolt_ok B" "bolt_live B" "\<not> rwtx (wdb w)" "opened (wdb w)"
    and m: "obs B ?c pk_path = Some m" "pk_rep m R"
    by (auto simp: pk_inv_def)
  from delete_step [OF ok(1) m(1) _ pk_rep_not_bucket [OF m(2)], of addr]
  obtain tx where tx: "Delete B ?c pk_path addr = Inr tx"
      "obs B tx = (obs B ?c)(pk_path \<mapsto> m(addr := None))" by auto
  have "pk_Remove B w addr = Ret (w\<lparr>wdb := (wdb w)\<lparr>content := tx\<rparr>\<rparr>, None)"
    using ok tx(1) m(1) by (simp add: pk_Remove_def db_Update_run on_bucket_def obs_Bucket)
  moreover have "pk_inv B (w\<lparr>wdb := (wdb w)\<lparr>content := tx\<rparr>\<rparr>) (R(addr := None))"
    using ok tx(2) pk_rep_delete [OF m(2)] by (simp add: pk_inv_def)
  ultimately show ?thesis by blast
qed

text \<open>The callback of \<open>ForEach\<close> sees every request once, in the order of the addresses.\<close>

fun pk_log :: "(string \<times> u32 \<times> gotime) list \<Rightarrow> string \<Rightarrow> u32 \<Rightarrow> gotime \<Rightarrow>
    ((string \<times> u32 \<times> gotime) list \<times> error option) go" where
  "pk_log acc k c t = Ret (acc @ [(k, c, t)], None)"

lemma pk_each_log:
  assumes "\<And>k v. (k, v) \<in> set es \<Longrightarrow>
    \<exists>c t b. R k = Some (c, t) \<and> MarshalBinary t = Inr b \<and> v = Some (PutUint32 c @ b)"
  shows "pk_each pk_log acc es = Ret (acc @ map (\<lambda>(k, _). (k, the (R k))) es, None)"
  using assms
proof (induction es arbitrary: acc)
  case (Cons kv es)
  obtain k v where kv: "kv = (k, v)" by (cases kv)
  with Cons.prems [of k v] obtain c t b where
    "R k = Some (c, t)" "MarshalBinary t = Inr b" "v = Some (PutUint32 c @ b)" by auto
  with kv Cons MarshalBinary_roundtrip [of t b] show ?case by auto
qed simp

lemma pk_foreach:
  assumes inv: "pk_inv B w R"
  shows "\<exists>ks. pk_ForEach B w pk_log [] = Ret (map (\<lambda>k. (k, the (R k))) ks, None) \<and>
    set ks = dom R \<and> sorted_wrt (<) ks"
proof -
  let ?c = "content (wdb w)"
  from inv obtain m where ok: "bolt_ok B" "bolt_live B" "opened (wdb w)"
    and m: "obs B ?c pk_path = Some m" "pk_rep m R"
    by (auto simp: pk_inv_def)
  let ?es = "Cursor B ?c pk_path"
  have srt: "sorted_wrt (<) (map fst ?es)" by (rule bolt_Cursor_sorted [OF ok(1)])
  have mem: "(k, v) \<in> set ?es \<longleftrightarrow> m k = Some v" for k v
    using sorted_keys_distinct [OF srt] obs_Cursor [OF m(1)] by (auto simp: map_of_eq_Some_iff)
  have "pk_each pk_log [] ?es = Ret ([] @ map (\<lambda>(k, _). (k, the (R k))) ?es, None)"
  proof (rule pk_each_log)
    fix k v assume "(k, v) \<in> set ?es"
    then have "m k = Some v" by (simp add: mem)
    with m(2) show "\<exists>c t b. R k = Some (c, t) \<and> MarshalBinary t = Inr b \<and> v = Some (PutUint32 c @ b)"
      unfolding pk_rep_def by (auto dest!: spec [of _ k] split: option.splits)
  qed
  moreover have "map (\<lambda>(k, _). (k, the (R k))) ?es = map (\<lambda>k. (k, the (R k))) (map fst ?es)"
    by (simp add: case_prod_unfold)
  moreover have "set (map fst ?es) = dom R"
  proof -
    have "dom m = dom R"
      using m(2) unfolding pk_rep_def by (auto split: option.splits) (metis option.distinct(1))+
    moreover have "set (map fst ?es) = dom m"
      using obs_Cursor [OF m(1)] dom_map_of_conv_image_fst [of ?es] by simp
    ultimately show ?thesis by simp
  qed
  ultimately show ?thesis
    using srt ok m(1) by (intro exI [of _ "map fst ?es"])
      (simp add: pk_ForEach_def db_View_live on_bucket_def obs_Bucket)
qed

section \<open>Properties\<close>

text \<open>The outcome of asking \<open>n\<close> times for the same address.\<close>

fun pk_repeat :: "'db bolt \<Rightarrow> nat \<Rightarrow> 'db world \<Rightarrow> string \<Rightarrow> ('db world \<times> (error + u32) list) go" where
  "pk_repeat B 0 w addr = Ret (w, [])"
| "pk_repeat B (Suc n) w addr =
     go_bind (pk_New B w addr) (\<lambda>(w1, r).
       go_bind (pk_repeat B n w1 addr) (\<lambda>(w2, rs). Ret (w2, r # rs)))"

lemma pk_repeat_from:
  assumes "pk_inv B w R" "addr \<noteq> []" "length addr \<le> MaxKeySize"
    and "\<And>i. \<exists>b. MarshalBinary (clock w i) = Inr b"
  shows "\<exists>w'. pk_repeat B n w addr = Ret (w', map (\<lambda>i. Inr (pk_next R addr + of_nat i)) [0..<n])"
  using assms
proof (induction n arbitrary: w R)
  case (Suc n)
  obtain b where "MarshalBinary (clock w (tick w)) = Inr b" using Suc.prems(4) by blast
  from pk_new [OF Suc.prems(1-3) this] obtain w1 where w1:
    "pk_New B w addr = Ret (w1, Inr (pk_next R addr))"
    "pk_inv B w1 (R(addr \<mapsto> (pk_next R addr, clock w (tick w))))" "clock w1 = clock w" by blast
  let ?R1 = "R(addr \<mapsto> (pk_next R addr, clock w (tick w)))"
  have n1: "pk_next ?R1 addr = pk_next R addr + 1" by (simp add: pk_next_def)
  have "\<And>i. \<exists>b. MarshalBinary (clock w1 i) = Inr b" using Suc.prems(4) w1(3) by simp
  from Suc.IH [OF w1(2) Suc.prems(2,3) this] obtain w' where
    "pk_repeat B n w1 addr = Ret (w', map (\<lambda>i. Inr (pk_next R addr + 1 + of_nat i)) [0..<n])"
    unfolding n1 by blast
  moreover have "map (\<lambda>i. Inr (pk_next R addr + of_nat i)) [0..<Suc n] =
      (Inr (pk_next R addr) # map (\<lambda>i. Inr (pk_next R addr + 1 + of_nat i)) [0..<n] :: (error + u32) list)"
    by (simp add: map_upt_Suc add.assoc del: upt_Suc)
  ultimately show ?case using w1(1) by (simp del: upt_Suc)
qed simp

text \<open>
  The requests for an address that is not in the store are numbered: the \<open>n\<close>-th call of
  \<open>New\<close> returns \<open>n\<close> (modulo \<open>2 ^ 32\<close>), whatever else the store holds.
\<close>

theorem pk_New_counts:
  assumes "pk_inv B w R" "R addr = None" "addr \<noteq> []" "length addr \<le> MaxKeySize"
    and "\<And>i. \<exists>b. MarshalBinary (clock w i) = Inr b"
  shows "\<exists>w'. pk_repeat B n w addr = Ret (w', map (\<lambda>i. Inr (of_nat i)) [1..<Suc n])"
proof -
  have "map (\<lambda>i. Inr (pk_next R addr + of_nat i)) [0..<n] =
      (map (\<lambda>i. Inr (of_nat i)) [1..<Suc n] :: (error + u32) list)"
    using assms(2) by (simp add: pk_next_def map_Suc_upt [symmetric] del: upt_Suc)
  with pk_repeat_from [OF assms(1,3-5), of n] show ?thesis by simp
qed

definition pk_demo_db :: refdb where
  "pk_demo_db = (\<lambda>p. if p = [] then [(''pubkeyRequests'', None)] else [])"

lemma pk_demo_inv: "pk_inv ref_bolt (ref_world pk_demo_db) Map.empty"
proof -
  have "obs ref_bolt pk_demo_db pk_path = Some Map.empty"
    by (simp add: obs_ref ref_Bucket_def pk_demo_db_def pkRequestsBucket_def)
  then show ?thesis
    using bolt_ok_ref bolt_live_ref by (simp add: pk_inv_def pk_rep_def ref_world_def)
qed

lemma pk_demo_clock: "\<exists>b. MarshalBinary (clock (ref_world db) i) = Inr b"
  by (simp add: ref_world_def ref_env_def MarshalBinary_def)

theorem pk_New_counts_witness:
  "\<exists>w'. pk_repeat ref_bolt 3 (ref_world pk_demo_db) ''BM-x'' = Ret (w', [Inr 1, Inr 2, Inr 3])"
  using pk_New_counts [OF pk_demo_inv, of "''BM-x''" 3] pk_demo_clock
  by (auto simp: MaxKeySize_def upt_rec)

text \<open>
  \<open>New\<close> records the time of the request, which \<open>LastRequestTime\<close> then returns, and leaves the
  requests for other addresses alone; after \<open>Remove\<close> the address is not found; \<open>ForEach\<close> visits exactly
  the recorded addresses, each with its count and time.
\<close>

theorem pk_New_recorded:
  assumes "pk_inv B w R" "addr \<noteq> []" "length addr \<le> MaxKeySize"
    and "MarshalBinary (clock w (tick w)) = Inr b"
  shows "\<exists>w1 w2 ks. pk_New B w addr = Ret (w1, Inr (pk_next R addr)) \<and>
    LastRequestTime B w1 addr = Ret (Inr (clock w (tick w))) \<and>
    (\<forall>other. other \<noteq> addr \<longrightarrow> LastRequestTime B w1 other = LastRequestTime B w other) \<and>
    pk_ForEach B w1 pk_log [] = Ret (map (\<lambda>k. (k, the ((R(addr \<mapsto> (pk_next R addr, clock w (tick w)))) k))) ks, None) \<and>
    set ks = insert addr (dom R) \<and> distinct ks \<and>
    pk_Remove B w1 addr = Ret (w2, None) \<and> LastRequestTime B w2 addr = Ret (Inl ErrNotFound)"
proof -
  let ?R1 = "R(addr \<mapsto> (pk_next R addr, clock w (tick w)))"
  from pk_new [OF assms] obtain w1 where w1: "pk_New B w addr = Ret (w1, Inr (pk_next R addr))"
    "pk_inv B w1 ?R1" by blast
  from pk_remove [OF w1(2), of addr] obtain w2 where w2: "pk_Remove B w1 addr = Ret (w2, None)"
    "pk_inv B w2 (?R1(addr := None))" by blast
  from pk_foreach [OF w1(2)] obtain ks where ks:
    "pk_ForEach B w1 pk_log [] = Ret (map (\<lambda>k. (k, the (?R1 k))) ks, None)"
    "set ks = insert addr (dom R)" "sorted_wrt (<) ks" by auto
  have "distinct ks" using ks(3) by (simp add: strict_sorted_iff)
  moreover have "LastRequestTime B w1 addr = Ret (Inr (clock w (tick w)))"
    using pk_last [OF w1(2), of addr] by simp
  moreover have "\<forall>other. other \<noteq> addr \<longrightarrow> LastRequestTime B w1 other = LastRequestTime B w other"
    using pk_last [OF w1(2)] pk_last [OF assms(1)] by simp
  moreover have "LastRequestTime B w2 addr = Ret (Inl ErrNotFound)"
    using pk_last [OF w2(2), of addr] by simp
  ultimately show ?thesis using w1(1) w2(1) ks(1,2) by blast
qed

theorem pk_New_recorded_witness:
  "\<exists>w1 w2. pk_New ref_bolt (ref_world pk_demo_db) ''BM-x'' = Ret (w1, Inr 1) \<and>
    LastRequestTime ref_bolt w1 ''BM-x'' = Ret (Inr (clock ref_env 0)) \<and>
    pk_Remove ref_bolt w1 ''BM-x'' = Ret (w2, None) \<and>
    LastRequestTime ref_bolt w2 ''BM-x'' = Ret (Inl ErrNotFound)"
proof -
  obtain b where "MarshalBinary (clock (ref_world pk_demo_db) (tick (ref_world pk_demo_db))) = Inr b"
    using pk_demo_clock by blast
  from pk_New_recorded [OF pk_demo_inv _ _ this, of "''BM-x''"]
  show ?thesis by (auto simp: MaxKeySize_def pk_next_def ref_world_def)
qed

end
