(* ===== verification/Store_DB.thy ===== *)
theory Store_DB
  imports Store_Folders PK_Requests
begin

text \<open>
  The data store, src/store/db.go: opening a database with a passphrase (\<open>Loader.Construct\<close>), changing
  the passphrase, the users, and the counters.  The master key that encrypts the messages is stored
  encrypted with a key derived from the passphrase.
\<close>

section \<open>Model\<close>

definition countersBucket :: bytes where "countersBucket = ''counters''"
definition dbMasterKeyEnc :: bytes where "dbMasterKeyEnc = ''dbMasterKeyEnc''"
definition saltKey :: bytes where "saltKey = ''salt''"
definition versionKey :: bytes where "versionKey = ''version''"
definition powQueueLatestIDKey :: bytes where "powQueueLatestIDKey = ''powQueueLatestID''"
definition latestStoreVersion :: char where "latestStoreVersion = CHR 0x01"

record Loader =
  l_db :: bool

record 'a Store =
  s_masterKey :: "bytes option"
  s_users :: "string \<rightharpoonup> 'a User"

definition loader_Close :: "'db bolt \<Rightarrow> 'db world \<Rightarrow> Loader \<Rightarrow> ('db world \<times> Loader \<times> error option) go" where
  "loader_Close B w l =
     (if \<not> l_db l then Ret (w, l, None)
      else go_bind (db_Close B w) (\<lambda>(w', e). Ret (w', l\<lparr>l_db := False\<rparr>, e)))"

definition IsEncrypted :: "'db bolt \<Rightarrow> 'db world \<Rightarrow> Loader \<Rightarrow> ('db world \<times> Loader \<times> bool) go" where
  "IsEncrypted B w l =
     (if \<not> l_db l then Ret (w, l, False)
      else if \<not> opened (wdb w) \<or> Begin B (content (wdb w)) \<noteq> None
      then go_bind (loader_Close B w l) (\<lambda>(w', l', _). Ret (w', l', False))
      else let tx = content (wdb w)
           in Ret (w, l, Bucket B tx [miscBucket] \<and> Get B tx [miscBucket] dbMasterKeyEnc \<noteq> None))"

definition upgrade :: "'db bolt \<Rightarrow> 'db \<Rightarrow> error option go" where
  "upgrade B tx =
     on_bucket B tx [miscBucket]
       (case Get B tx [miscBucket] versionKey of
          Some (v # _) \<Rightarrow>
            Ret (if v \<noteq> latestStoreVersion then Some (ErrText ''Unrecognized version of data store.'') else None)
        | _ \<Rightarrow> Panic)"

text \<open>
  The two branches of the transaction in \<open>Construct\<close>: a new database is given a master key, its
  version and its counters; an existing one is checked and its master key is decrypted.  The error
  of \<open>encryptKey\<close> is overwritten by the call that follows.
\<close>

fun put_all :: "'db bolt \<Rightarrow> path \<Rightarrow> (bytes \<times> bytes) list \<Rightarrow> 'db \<Rightarrow> 'db \<times> error option" where
  "put_all B p [] tx = (tx, None)"
| "put_all B p ((k, v) # kvs) tx =
     (case Put B tx p k v of Inl e \<Rightarrow> (tx, Some e) | Inr tx' \<Rightarrow> put_all B p kvs tx')"

definition construct_new_tx ::
  "'db bolt \<Rightarrow> crypto \<Rightarrow> bytes option \<Rightarrow> 'db world \<Rightarrow> 'db \<Rightarrow> bytes \<Rightarrow>
    'db world \<times> 'db \<times> bytes \<times> error option" where
  "construct_new_tx B C pass w tx masterKey =
     (let rest = [(versionKey, [latestStoreVersion]), (powQueueLatestIDKey, zeros 8), (usersLatestIDKey, zeros 8)]
      in case pass of
           None \<Rightarrow> (case put_all B [miscBucket] rest tx of (tx', e) \<Rightarrow> (w, tx', masterKey, e))
         | Some p \<Rightarrow>
             (case rand_Read w keySize of
                (w1, Inl e) \<Rightarrow> (w1, tx, masterKey, Some e)
              | (w1, Inr mk) \<Rightarrow>
                  (case encryptKey C w1 mk p of
                     (w2, r) \<Rightarrow>
                       let (salt, v) = (case r of Inl _ \<Rightarrow> ([], []) | Inr sv \<Rightarrow> sv)
                       in (case put_all B [miscBucket] ((saltKey, salt) # (dbMasterKeyEnc, v) # rest) tx of
                             (tx', e) \<Rightarrow> (w2, tx', mk, e)))))"

definition construct_old_tx ::
  "'db bolt \<Rightarrow> crypto \<Rightarrow> bytes option \<Rightarrow> 'db \<Rightarrow> bytes \<Rightarrow> bytes \<Rightarrow> (bytes \<times> error option) go" where
  "construct_old_tx B C pass tx bVersion masterKey =
     (if bVersion = [] then Panic
      else go_bind (if hd bVersion \<noteq> latestStoreVersion then upgrade B tx else Ret None) (\<lambda>e.
        case e of
          Some e \<Rightarrow> Ret (masterKey, Some e)
        | None \<Rightarrow>
            (case (Get B tx [miscBucket] dbMasterKeyEnc, pass) of
               (None, None) \<Rightarrow> Ret (masterKey, None)
             | (None, Some _) \<Rightarrow> Ret (masterKey, Some (ErrText ''Password given for unencrypted database.''))
             | (Some v, None) \<Rightarrow>
                 Ret (masterKey, Some (ErrText ''No password supplied for encrypted database.''))
             | (Some v, Some p) \<Rightarrow>
                 if length v < nonceSize + keySize + Overhead
                 then Ret (masterKey, Some (ErrText ''Encrypted master key too short.''))
                 else
                   let salt = (case Get B tx [miscBucket] saltKey of None \<Rightarrow> [] | Some s \<Rightarrow> s);
                       key = deriveKey C p salt
                   in (case Open C (drop nonceSize v) (take nonceSize v) key of
                         None \<Rightarrow> Ret (masterKey, Some ErrDecryptionFailed)
                       | Some mKey \<Rightarrow> Ret (copy_array masterKey mKey, None)))))"

definition construct_tx ::
  "'db bolt \<Rightarrow> crypto \<Rightarrow> bytes option \<Rightarrow> 'db world \<Rightarrow> 'db \<Rightarrow> bytes \<Rightarrow>
    ('db world \<times> 'db \<times> bytes \<times> error option) go" where
  "construct_tx B C pass w tx masterKey =
     (case CreateBucketIfNotExists B tx [] miscBucket of
        Inl e \<Rightarrow> Ret (w, tx, masterKey, Some e)
      | Inr tx1 \<Rightarrow> (case CreateBucketIfNotExists B tx1 [miscBucket] countersBucket of
        Inl e \<Rightarrow> Ret (w, tx1, masterKey, Some e)
      | Inr tx2 \<Rightarrow> (case CreateBucketIfNotExists B tx2 [] usersBucket of
        Inl e \<Rightarrow> Ret (w, tx2, masterKey, Some e)
      | Inr tx3 \<Rightarrow> (case Get B tx3 [miscBucket] versionKey of
        None \<Rightarrow> Ret (construct_new_tx B C pass w tx3 masterKey)
      | Some v \<Rightarrow> go_bind (construct_old_tx B C pass tx3 v masterKey) (\<lambda>(mk, e). Ret (w, tx3, mk, e))))))"

definition addUser ::
  "'db bolt \<Rightarrow> 'a bmutil \<Rightarrow> 'db world \<Rightarrow> 'a Store \<Rightarrow> string \<Rightarrow> ('db world \<times> 'a Store \<times> (error + 'a User)) go" where
  "addUser B U w s username =
     (let uname = userPrefix @ username in
      go_bind (newBroadcastsStore B U w username) (\<lambda>(w1, r).
        case r of
          Inl e \<Rightarrow> go_bind (db_Close B w1) (\<lambda>(w2, _). Ret (w2, s, Inl e))
        | Inr broadcast \<Rightarrow>
            let user = newUser (s_masterKey s) uname username broadcast
            in Ret (w1, s\<lparr>s_users := (s_users s)(username \<mapsto> user)\<rparr>, Inr user)))"

fun addUsers ::
  "'db bolt \<Rightarrow> 'a bmutil \<Rightarrow> 'db world \<Rightarrow> 'a Store \<Rightarrow> string list \<Rightarrow> ('db world \<times> 'a Store) go" where
  "addUsers B U w s [] = Ret (w, s)"
| "addUsers B U w s (n # ns) = go_bind (addUser B U w s n) (\<lambda>(w1, s1, _). addUsers B U w1 s1 ns)"

definition Construct ::
  "'db bolt \<Rightarrow> crypto \<Rightarrow> 'a bmutil \<Rightarrow> 'db world \<Rightarrow> Loader \<Rightarrow> bytes option \<Rightarrow>
    ('db world \<times> Loader \<times> (error + 'a Store)) go" where
  "Construct B C U w l pass =
     (let fail = (\<lambda>w e. go_bind (loader_Close B w l) (\<lambda>(w', l', _). Ret (w', l', Inl e))) in
      if \<not> l_db l then Ret (w, l, Inl (ErrText ''Closed database.''))
      else go_bind (db_Update B w (zeros keySize) (construct_tx B C pass)) (\<lambda>(w1, masterKey, e).
        case e of
          Some e \<Rightarrow> fail w1 e
        | None \<Rightarrow>
            let st = \<lparr>s_masterKey = Some masterKey, s_users = Map.empty\<rparr>
            in go_bind (initializePKRequestStore B w1) (\<lambda>(w2, e).
              case e of
                Some e \<Rightarrow> fail w2 e
              | None \<Rightarrow>
                  go_bind (db_View B w2 [] (\<lambda>tx _.
                      on_bucket B tx [usersBucket] (Ret (map fst (Cursor B tx [usersBucket]), None))))
                    (\<lambda>(users, e). case e of
                       Some e \<Rightarrow> fail w2 e
                     | None \<Rightarrow>
                         go_bind (addUsers B U w2 st users) (\<lambda>(w3, st'). Ret (w3, l, Inr st'))))))"

definition store_GetUser :: "'a Store \<Rightarrow> string \<Rightarrow> error + 'a User" where
  "store_GetUser s name = (case s_users s name of None \<Rightarrow> Inl (ErrText ''No such user.'') | Some u \<Rightarrow> Inr u)"

definition store_NewUser ::
  "'db bolt \<Rightarrow> 'a bmutil \<Rightarrow> 'db world \<Rightarrow> 'a Store \<Rightarrow> string \<Rightarrow> ('db world \<times> 'a Store \<times> (error + 'a User)) go" where
  "store_NewUser B U w s name =
     (if s_users s name \<noteq> None then Ret (w, s, Inl (ErrText ''Duplicate user.''))
      else addUser B U w s name)"

definition store_Close :: "'db bolt \<Rightarrow> 'db world \<Rightarrow> ('db world \<times> error option) go" where
  "store_Close B w = db_Close B w"

definition ChangePassphrase ::
  "'db bolt \<Rightarrow> crypto \<Rightarrow> 'db world \<Rightarrow> 'a Store \<Rightarrow> bytes \<Rightarrow> ('db world \<times> error option) go" where
  "ChangePassphrase B C w s pass =
     (case s_masterKey s of
        None \<Rightarrow> Ret (w, Some (ErrText ''Database is not encrypted.''))
      | Some mk \<Rightarrow>
          (case encryptKey C w mk pass of
             (w1, r) \<Rightarrow>
               let (salt, v) = (case r of Inl _ \<Rightarrow> ([], []) | Inr sv \<Rightarrow> sv)
               in go_bind (db_Update B w1 () (\<lambda>w tx _. on_bucket B tx [miscBucket]
                    (case put_all B [miscBucket] [(saltKey, salt), (dbMasterKeyEnc, v)] tx of
                       (tx', e) \<Rightarrow> Ret (w, tx', (), e))))
                  (\<lambda>(w2, _, e). Ret (w2, e))))"

definition GetCounter :: "'db bolt \<Rightarrow> 'db world \<Rightarrow> u32 \<Rightarrow> (error + u64) go" where
  "GetCounter B w objType =
     go_bind (db_View B w 0 (\<lambda>tx _.
         on_bucket B tx [miscBucket] (on_bucket B tx [miscBucket, countersBucket]
           (case Get B tx [miscBucket, countersBucket] (PutUint32 objType) of
              None \<Rightarrow> Ret (1, None)
            | Some v \<Rightarrow> go_bind (Uint64 v) (\<lambda>n. Ret (n, None))))))
       (\<lambda>(res, e). case e of Some e \<Rightarrow> Ret (Inl e) | None \<Rightarrow> Ret (Inr res))"

definition SetCounter :: "'db bolt \<Rightarrow> 'db world \<Rightarrow> u32 \<Rightarrow> u64 \<Rightarrow> ('db world \<times> error option) go" where
  "SetCounter B w objType counter =
     go_bind (db_Update B w () (\<lambda>w tx _.
         on_bucket B tx [miscBucket] (on_bucket B tx [miscBucket, countersBucket]
           (case Put B tx [miscBucket, countersBucket] (PutUint32 objType) (PutUint64 counter) of
              Inl e \<Rightarrow> Ret (w, tx, (), Some e)
            | Inr tx1 \<Rightarrow> Ret (w, tx1, (), None)))))
       (\<lambda>(w', _, e). Ret (w', e))"

section \<open>The names in the database\<close>

lemmas db_names = miscBucket_def usersBucket_def countersBucket_def pkRequestsBucket_def dbMasterKeyEnc_def
  saltKey_def versionKey_def powQueueLatestIDKey_def usersLatestIDKey_def MaxKeySize_def

lemma misc_keys [simp]:
  "countersBucket \<noteq> versionKey" "countersBucket \<noteq> powQueueLatestIDKey" "countersBucket \<noteq> usersLatestIDKey"
  "countersBucket \<noteq> saltKey" "countersBucket \<noteq> dbMasterKeyEnc" "versionKey \<noteq> countersBucket"
  "versionKey \<noteq> powQueueLatestIDKey" "versionKey \<noteq> usersLatestIDKey" "versionKey \<noteq> saltKey"
  "versionKey \<noteq> dbMasterKeyEnc" "powQueueLatestIDKey \<noteq> countersBucket" "powQueueLatestIDKey \<noteq> versionKey"
  "powQueueLatestIDKey \<noteq> usersLatestIDKey" "powQueueLatestIDKey \<noteq> saltKey" "powQueueLatestIDKey \<noteq> dbMasterKeyEnc"
  "usersLatestIDKey \<noteq> countersBucket" "usersLatestIDKey \<noteq> versionKey" "usersLatestIDKey \<noteq> powQueueLatestIDKey"
  "usersLatestIDKey \<noteq> saltKey" "usersLatestIDKey \<noteq> dbMasterKeyEnc" "saltKey \<noteq> countersBucket"
  "saltKey \<noteq> versionKey" "saltKey \<noteq> powQueueLatestIDKey" "saltKey \<noteq> usersLatestIDKey"
  "saltKey \<noteq> dbMasterKeyEnc" "dbMasterKeyEnc \<noteq> countersBucket" "dbMasterKeyEnc \<noteq> versionKey"
  "dbMasterKeyEnc \<noteq> powQueueLatestIDKey" "dbMasterKeyEnc \<noteq> usersLatestIDKey" "dbMasterKeyEnc \<noteq> saltKey"
  by (simp_all add: db_names)

lemma root_names [simp]:
  "miscBucket \<noteq> usersBucket" "miscBucket \<noteq> pkRequestsBucket" "usersBucket \<noteq> miscBucket"
  "usersBucket \<noteq> pkRequestsBucket" "pkRequestsBucket \<noteq> miscBucket" "pkRequestsBucket \<noteq> usersBucket"
  by (simp_all add: db_names)

lemma name_sizes [simp]:
  "countersBucket \<noteq> []" "length countersBucket \<le> MaxKeySize" "versionKey \<noteq> []"
  "length versionKey \<le> MaxKeySize" "powQueueLatestIDKey \<noteq> []" "length powQueueLatestIDKey \<le> MaxKeySize"
  "usersLatestIDKey \<noteq> []" "length usersLatestIDKey \<le> MaxKeySize" "saltKey \<noteq> []"
  "length saltKey \<le> MaxKeySize" "dbMasterKeyEnc \<noteq> []" "length dbMasterKeyEnc \<le> MaxKeySize"
  "miscBucket \<noteq> []" "length miscBucket \<le> MaxKeySize" "usersBucket \<noteq> []"
  "length usersBucket \<le> MaxKeySize" "pkRequestsBucket \<noteq> []" "length pkRequestsBucket \<le> MaxKeySize"
  by (simp_all add: db_names)

section \<open>The state of a database\<close>

text \<open>The buckets that \<open>Construct\<close> creates.\<close>

definition db_layout :: "'db bolt \<Rightarrow> 'db \<Rightarrow> bool" where
  "db_layout B db \<longleftrightarrow> (\<exists>m0 m. obs B db [] = Some m0 \<and> m0 miscBucket = Some None \<and> m0 usersBucket = Some None \<and>
     (m0 pkRequestsBucket = None \<or> m0 pkRequestsBucket = Some None) \<and>
     obs B db [miscBucket] = Some m \<and> m countersBucket = Some None \<and>
     (\<forall>k. m k = Some None \<longrightarrow> k = countersBucket))"

text \<open>The passphrase \<open>pass\<close> unlocks the database and gives the master key \<open>key\<close>.\<close>

definition locked :: "'db bolt \<Rightarrow> crypto \<Rightarrow> 'db \<Rightarrow> bytes option \<Rightarrow> bytes \<Rightarrow> bool" where
  "locked B C db pass key \<longleftrightarrow> length key = keySize \<and>
     (\<exists>m. obs B db [miscBucket] = Some m \<and> m versionKey = Some (Some [latestStoreVersion]) \<and>
        (case pass of
           None \<Rightarrow> m dbMasterKeyEnc = None \<and> key = zeros keySize
         | Some p \<Rightarrow> \<exists>salt nonce. length nonce = nonceSize \<and> m saltKey = Some (Some salt) \<and>
             m dbMasterKeyEnc = Some (Some (nonce @ Seal C key nonce (deriveKey C p salt)))))"

lemma construct_tx_buckets:
  assumes "bolt_ok B" "db_layout B tx"
  shows "construct_tx B C pass w tx mk =
    (case Get B tx [miscBucket] versionKey of
        None \<Rightarrow> Ret (construct_new_tx B C pass w tx mk)
      | Some v \<Rightarrow> go_bind (construct_old_tx B C pass tx v mk) (\<lambda>(mk, e). Ret (w, tx, mk, e)))"
proof -
  from assms(2) obtain m0 m where o: "obs B tx [] = Some m0" "m0 miscBucket = Some None" "m0 usersBucket = Some None"
      "obs B tx [miscBucket] = Some m" "m countersBucket = Some None"
    by (auto simp: db_layout_def)
  with bolt_CreateBucketIfNotExists [OF assms(1) o(1)] bolt_CreateBucketIfNotExists [OF assms(1) o(4)]
  show ?thesis by (simp add: construct_tx_def)
qed

lemma construct_locked:
  assumes C: "crypto_ok C" and B: "bolt_ok B" and l: "db_layout B tx" and k: "locked B C tx pass key"
  shows "construct_tx B C pass w tx (zeros keySize) = Ret (w, tx, key, None)"
proof -
  from k obtain m where m: "obs B tx [miscBucket] = Some m" "m versionKey = Some (Some [latestStoreVersion])"
      "length key = keySize"
    by (auto simp: locked_def)
  have v: "Get B tx [miscBucket] versionKey = Some [latestStoreVersion]"
    by (rule get_step [OF B m(1,2)])
  show ?thesis
  proof (cases pass)
    case None
    with k m(1) have "m dbMasterKeyEnc = None" "key = zeros keySize" by (auto simp: locked_def)
    with get_none [OF B m(1)] None v show ?thesis
      by (simp add: construct_tx_buckets [OF B l] construct_old_tx_def)
  next
    case (Some p)
    with k m(1) obtain salt nonce where s: "length nonce = nonceSize" "m saltKey = Some (Some salt)"
        "m dbMasterKeyEnc = Some (Some (nonce @ Seal C key nonce (deriveKey C p salt)))"
      by (auto simp: locked_def)
    with get_step [OF B m(1) s(2)] get_step [OF B m(1) s(3)] Some v m(3) C show ?thesis
      by (simp add: construct_tx_buckets [OF B l] construct_old_tx_def Let_def)
  qed
qed

lemma newBroadcastsStore_total:
  assumes "\<not> rwtx (wdb w)"
  shows "\<exists>w' r. newBroadcastsStore B U w n = Ret (w', r) \<and> \<not> rwtx (wdb w')"
proof -
  let ?fn = "\<lambda>w tx as.
         case CreateBucketIfNotExists B tx [] n of
           Inl e \<Rightarrow> Ret (w, tx, as, Some e)
         | Inr tx1 \<Rightarrow>
             (case CreateBucketIfNotExists B tx1 [n] broadcastAddressesBucket of
                Inl e \<Rightarrow> Ret (w, tx1, as, Some e)
              | Inr tx2 \<Rightarrow> (case bc_load U (Cursor B tx2 (bc_path n)) as of (as', e) \<Rightarrow> Ret (w, tx2, as', e)))"
  have "\<exists>r. ?fn w tx l = Ret r" for w tx l by (auto split: sum.split prod.split)
  from db_Update_total [of w ?fn, OF assms this] obtain w' l' e where
    "db_Update B w [] ?fn = Ret (w', l', e)" "\<not> rwtx (wdb w')" by blast
  then show ?thesis by (auto simp: newBroadcastsStore_def split: option.split)
qed

lemma addUser_total:
  assumes "\<not> rwtx (wdb w)"
  shows "\<exists>w' s' r. addUser B U w s n = Ret (w', s', r) \<and> \<not> rwtx (wdb w') \<and> s_masterKey s' = s_masterKey s"
proof -
  from newBroadcastsStore_total [OF assms, of B U n] obtain w1 r where
    "newBroadcastsStore B U w n = Ret (w1, r)" "\<not> rwtx (wdb w1)" by blast
  then show ?thesis by (cases r) (auto simp: addUser_def db_Close_def Let_def)
qed

lemma addUsers_total:
  "\<not> rwtx (wdb w) \<Longrightarrow> \<exists>w' s'. addUsers B U w s ns = Ret (w', s') \<and> s_masterKey s' = s_masterKey s"
proof (induction ns arbitrary: w s)
  case (Cons n ns)
  from addUser_total [OF Cons.prems, of B U s n] obtain w1 s1 r where
    a: "addUser B U w s n = Ret (w1, s1, r)" "\<not> rwtx (wdb w1)" "s_masterKey s1 = s_masterKey s" by blast
  from Cons.IH [OF a(2), of s1] a show ?case by auto
qed simp

lemma initializePKRequestStore_ok:
  assumes "world_ok B C w" "db_layout B (content (wdb w))"
  shows "\<exists>tx. initializePKRequestStore B w = Ret (w\<lparr>wdb := (wdb w)\<lparr>content := tx\<rparr>\<rparr>, None) \<and>
    (\<forall>p. p \<noteq> [] \<longrightarrow> p \<noteq> [pkRequestsBucket] \<longrightarrow> obs B tx p = obs B (content (wdb w)) p) \<and>
    db_layout B tx \<and> (\<exists>m. obs B tx [pkRequestsBucket] = Some m) \<and>
    (\<forall>m0. obs B (content (wdb w)) [] = Some m0 \<longrightarrow> obs B tx [] = Some (m0(pkRequestsBucket \<mapsto> None)))"
proof -
  have ok: "bolt_ok B" "bolt_live B" "\<not> rwtx (wdb w)" "opened (wdb w)" using assms(1) by (simp_all add: world_ok_def)
  from assms(2) obtain m0 m where o: "obs B (content (wdb w)) [] = Some m0" "m0 miscBucket = Some None"
      "m0 usersBucket = Some None" "m0 pkRequestsBucket = None \<or> m0 pkRequestsBucket = Some None"
      "obs B (content (wdb w)) [miscBucket] = Some m" "m countersBucket = Some None"
      "\<forall>k. m k = Some None \<longrightarrow> k = countersBucket"
    by (auto simp: db_layout_def)
  from create_if_step [OF ok(1) o(1,4)] obtain tx mn where
    tx: "CreateBucketIfNotExists B (content (wdb w)) [] pkRequestsBucket = Inr tx"
      "obs B tx = (obs B (content (wdb w)))([] \<mapsto> m0(pkRequestsBucket \<mapsto> None), [pkRequestsBucket] \<mapsto> mn)"
    by auto
  have "db_layout B tx" using tx(2) o by (auto simp: db_layout_def)
  with tx ok show ?thesis
    by (intro exI [of _ tx]) (simp add: initializePKRequestStore_def db_Update_run o(1))
qed

lemma users_bucket:
  "bolt_ok B \<Longrightarrow> db_layout B db \<Longrightarrow> Bucket B db [usersBucket]"
  using bolt_nested_obs [of B db "[]" _ usersBucket] by (auto simp: db_layout_def)

text \<open>After the transaction, \<open>Construct\<close> succeeds with the master key it has found.\<close>

lemma Construct_after:
  assumes w: "world_ok B C w" and l: "l_db l"
    and tx: "construct_tx B C pass (w\<lparr>wdb := (wdb w)\<lparr>rwtx := True\<rparr>\<rparr>) (content (wdb w)) (zeros keySize) =
      Ret (w1, c1, key, None)"
    and w1: "world_ok B C (w1\<lparr>wdb := (wdb w)\<lparr>content := c1\<rparr>\<rparr>)" and c1: "db_layout B c1"
  shows "\<exists>w' st. Construct B C U w l pass = Ret (w', l, Inr st) \<and> s_masterKey st = Some key"
proof -
  have ok: "bolt_ok B" "bolt_live B" "\<not> rwtx (wdb w)" "opened (wdb w)" using w by (simp_all add: world_ok_def)
  let ?w1 = "w1\<lparr>wdb := (wdb w)\<lparr>content := c1\<rparr>\<rparr>"
  from initializePKRequestStore_ok [OF w1] c1 obtain c2 where
    c2: "initializePKRequestStore B ?w1 = Ret (w1\<lparr>wdb := (wdb w)\<lparr>content := c2\<rparr>\<rparr>, None)" "db_layout B c2"
    by auto
  let ?w2 = "w1\<lparr>wdb := (wdb w)\<lparr>content := c2\<rparr>\<rparr>"
  let ?st = "\<lparr>s_masterKey = Some key, s_users = Map.empty\<rparr>"
  obtain w3 s3 where a: "addUsers B U ?w2 ?st (map fst (Cursor B c2 [usersBucket])) = Ret (w3, s3)"
      "s_masterKey s3 = Some key"
    using addUsers_total [of ?w2 B U ?st "map fst (Cursor B c2 [usersBucket])"] ok(3) by auto
  show ?thesis
    using tx c2(1) a l ok users_bucket [OF ok(1) c2(2)]
    by (simp add: Construct_def db_Update_run db_View_live on_bucket_def Let_def)
qed

lemma Construct_opens:
  assumes "world_ok B C w" "l_db l" "db_layout B (content (wdb w))" "locked B C (content (wdb w)) pass key"
  shows "\<exists>w' st. Construct B C U w l pass = Ret (w', l, Inr st) \<and> s_masterKey st = Some key"
proof -
  have "crypto_ok C" "bolt_ok B" using assms(1) by (simp_all add: world_ok_def)
  from construct_locked [OF this assms(3,4)] show ?thesis
    using assms by (intro Construct_after [OF assms(1,2)]) (auto simp: world_ok_update)
qed

section \<open>A new database\<close>

lemma put_all_ok:
  assumes "bolt_ok B" "obs B tx p = Some m" "p \<noteq> []"
    and "\<forall>(k, v) \<in> set kvs. m k \<noteq> Some None \<and> k \<noteq> [] \<and> length k \<le> MaxKeySize \<and> length v \<le> MaxValueSize"
  shows "\<exists>tx'. put_all B p kvs tx = (tx', None) \<and>
    obs B tx' = (obs B tx)(p \<mapsto> foldl (\<lambda>m (k, v). m(k \<mapsto> Some v)) m kvs)"
  using assms
proof (induction kvs arbitrary: tx m)
  case Nil
  then show ?case by (auto simp: map_upd_triv)
next
  case (Cons kv kvs)
  obtain k v where kv: "kv = (k, v)" by (cases kv)
  from put_step [OF Cons.prems(1-3), of k v] Cons.prems(4) kv obtain tx1 where
    tx1: "Put B tx p k v = Inr tx1" "obs B tx1 = (obs B tx)(p \<mapsto> m(k \<mapsto> Some v))" by auto
  have "\<exists>tx'. put_all B p kvs tx1 = (tx', None) \<and>
    obs B tx' = (obs B tx1)(p \<mapsto> foldl (\<lambda>m (k, v). m(k \<mapsto> Some v)) (m(k \<mapsto> Some v)) kvs)"
    by (rule Cons.IH) (use Cons.prems tx1(2) in \<open>auto split: if_splits\<close>)
  with kv tx1 show ?case by (auto simp del: fun_upd_apply)
qed

lemma encryptKey_live:
  assumes "crypto_ok C" "env_ok w" "rnd_live w"
  shows "\<exists>n salt nonce. encryptKey C w mk p =
      (w\<lparr>tick := n\<rparr>, Inr (salt, nonce @ Seal C mk nonce (deriveKey C p salt))) \<and>
    length nonce = nonceSize \<and> length salt = saltLength"
proof -
  from rand_Read_live [OF assms(2,3), of nonceSize] obtain nonce where
    n: "rand_Read w nonceSize = (w\<lparr>tick := Suc (tick w)\<rparr>, Inr nonce)" "length nonce = nonceSize" by blast
  let ?w1 = "w\<lparr>tick := Suc (tick w)\<rparr>"
  from rand_Read_live [of ?w1 saltLength] assms(2,3) obtain salt where
    "rand_Read ?w1 saltLength = (?w1\<lparr>tick := Suc (tick ?w1)\<rparr>, Inr salt)" "length salt = saltLength" by auto
  with n show ?thesis by (auto simp: encryptKey_def Let_def)
qed

lemma misc_values [simp]:
  "length (zeros 8) \<le> MaxValueSize" "length [latestStoreVersion] \<le> MaxValueSize"
  "length s = saltLength \<Longrightarrow> length s \<le> MaxValueSize"
  "nonceSize + (keySize + Overhead) \<le> MaxValueSize"
  by (simp_all add: MaxValueSize_def saltLength_def nonceSize_def keySize_def Overhead_def)

lemma construct_new:
  assumes w: "world_ok B C w" and e: "obs B (content (wdb w)) [] = Some Map.empty"
  shows "\<exists>n c1 key. construct_tx B C pass (w\<lparr>wdb := (wdb w)\<lparr>rwtx := True\<rparr>\<rparr>) (content (wdb w)) (zeros keySize) =
      Ret (w\<lparr>wdb := (wdb w)\<lparr>rwtx := True\<rparr>, tick := n\<rparr>, c1, key, None) \<and>
    db_layout B c1 \<and> locked B C c1 pass key \<and> obs B c1 [usersBucket] = Some Map.empty \<and>
    obs B c1 [] = Some [miscBucket \<mapsto> None, usersBucket \<mapsto> None] \<and>
    (\<exists>m. obs B c1 [miscBucket] = Some m \<and> m usersLatestIDKey = Some (Some (zeros 8)))"
proof -
  let ?c = "content (wdb w)"
  let ?wt = "w\<lparr>wdb := (wdb w)\<lparr>rwtx := True\<rparr>\<rparr>"
  have ok: "bolt_ok B" "crypto_ok C" "env_ok ?wt" "rnd_live ?wt"
    using w by (simp_all add: world_ok_def env_ok_def rnd_live_def)
  have "\<exists>tx1. CreateBucketIfNotExists B ?c [] miscBucket = Inr tx1 \<and>
      obs B tx1 = (obs B ?c)([] \<mapsto> [miscBucket \<mapsto> None], [miscBucket] \<mapsto> Map.empty)"
    using create_if_step [OF ok(1) e, of miscBucket] by auto
  then obtain tx1 where c1: "CreateBucketIfNotExists B ?c [] miscBucket = Inr tx1"
      "obs B tx1 = (obs B ?c)([] \<mapsto> [miscBucket \<mapsto> None], [miscBucket] \<mapsto> Map.empty)" by blast
  have "obs B tx1 [miscBucket] = Some Map.empty" using c1(2) by simp
  from create_if_step [OF ok(1) this, of countersBucket] obtain tx2 where
    c2: "CreateBucketIfNotExists B tx1 [miscBucket] countersBucket = Inr tx2"
      "obs B tx2 = (obs B tx1)([miscBucket] \<mapsto> [countersBucket \<mapsto> None], [miscBucket, countersBucket] \<mapsto> Map.empty)"
    by auto
  have r2: "obs B tx2 [] = Some [miscBucket \<mapsto> None]" using c1(2) c2(2) by simp
  have un: "[miscBucket \<mapsto> None] usersBucket = None" by simp
  from create_if_step [OF ok(1) r2, of usersBucket] un obtain tx3 where
    c3: "CreateBucketIfNotExists B tx2 [] usersBucket = Inr tx3"
      "obs B tx3 = (obs B tx2)([] \<mapsto> [miscBucket \<mapsto> None, usersBucket \<mapsto> None], [usersBucket] \<mapsto> Map.empty)"
    by auto
  have m3: "obs B tx3 [miscBucket] = Some [countersBucket \<mapsto> None]" using c2(2) c3(2) by simp
  have ver: "Get B tx3 [miscBucket] versionKey = None"
    using get_none [OF ok(1) m3, of versionKey] by simp
  have run: "construct_tx B C pass ?wt ?c (zeros keySize) = Ret (construct_new_tx B C pass ?wt tx3 (zeros keySize))"
    using c1(1) c2(1) c3(1) ver by (simp add: construct_tx_def)
  let ?rest = "[(versionKey, [latestStoreVersion]), (powQueueLatestIDKey, zeros 8), (usersLatestIDKey, zeros 8)]"
  have layout: "db_layout B c'" "obs B c' [usersBucket] = Some Map.empty" "obs B c' [] = Some [miscBucket \<mapsto> None, usersBucket \<mapsto> None]"
    if "obs B c' = (obs B tx3)([miscBucket] \<mapsto> m)" "m countersBucket = Some None" "\<forall>k. m k = Some None \<longrightarrow> k = countersBucket"
    for c' m
    using that c3(2) by (auto simp: db_layout_def)
  show ?thesis
  proof (cases pass)
    case None
    let ?m = "foldl (\<lambda>m (k, v). m(k \<mapsto> Some v)) [countersBucket \<mapsto> None] ?rest"
    from put_all_ok [OF ok(1) m3, of ?rest] obtain c' where
      c': "put_all B [miscBucket] ?rest tx3 = (c', None)" "obs B c' = (obs B tx3)([miscBucket] \<mapsto> ?m)"
      by (auto simp: MaxValueSize_def)
    have "locked B C c' None (zeros keySize)" using c'(2) by (simp add: locked_def)
    moreover have "?m countersBucket = Some None" "\<forall>k. ?m k = Some None \<longrightarrow> k = countersBucket"
      by (auto split: if_splits)
    moreover have "?wt = w\<lparr>wdb := (wdb w)\<lparr>rwtx := True\<rparr>, tick := tick w\<rparr>" by simp
    moreover have "\<exists>m. obs B c' [miscBucket] = Some m \<and> m usersLatestIDKey = Some (Some (zeros 8))" using c'(2) by simp
    ultimately show ?thesis
      using run None c'(1) layout [OF c'(2)]
      by (intro exI [of _ "tick w"] exI [of _ c'] exI [of _ "zeros keySize"]) (simp add: construct_new_tx_def)
  next
    case (Some p)
    from rand_Read_live [OF ok(3,4), of keySize] obtain mk where
      mk: "rand_Read ?wt keySize = (?wt\<lparr>tick := Suc (tick ?wt)\<rparr>, Inr mk)" "length mk = keySize" by blast
    from encryptKey_live [OF ok(2), of "?wt\<lparr>tick := Suc (tick ?wt)\<rparr>" mk p] ok(3,4) obtain n salt nonce where
      ek: "encryptKey C (?wt\<lparr>tick := Suc (tick ?wt)\<rparr>) mk p =
        (?wt\<lparr>tick := n\<rparr>, Inr (salt, nonce @ Seal C mk nonce (deriveKey C p salt)))"
      "length nonce = nonceSize" "length salt = saltLength" by auto
    let ?all = "(saltKey, salt) # (dbMasterKeyEnc, nonce @ Seal C mk nonce (deriveKey C p salt)) # ?rest"
    let ?m = "foldl (\<lambda>m (k, v). m(k \<mapsto> Some v)) [countersBucket \<mapsto> None] ?all"
    have sz: "length (nonce @ Seal C mk nonce (deriveKey C p salt)) \<le> MaxValueSize"
      using ek(2) mk(2) ok(2) by simp
    from put_all_ok [OF ok(1) m3, of ?all] sz ek(3) obtain c' where
      c': "put_all B [miscBucket] ?all tx3 = (c', None)" "obs B c' = (obs B tx3)([miscBucket] \<mapsto> ?m)"
      by (auto simp: MaxValueSize_def saltLength_def)
    have "locked B C c' (Some p) mk" using c'(2) ek(2) mk(2) by (auto simp: locked_def)
    moreover have "?m countersBucket = Some None" "\<forall>k. ?m k = Some None \<longrightarrow> k = countersBucket"
      by (auto split: if_splits)
    moreover have "\<exists>m. obs B c' [miscBucket] = Some m \<and> m usersLatestIDKey = Some (Some (zeros 8))" using c'(2) by simp
    ultimately show ?thesis
      using run Some c'(1) layout [OF c'(2)] mk(1) ek(1)
      by (intro exI [of _ n] exI [of _ c'] exI [of _ mk]) (simp add: construct_new_tx_def)
  qed
qed

lemma empty_cursor: "obs B db p = Some Map.empty \<Longrightarrow> Cursor B db p = []"
  using obs_Cursor [of B db p Map.empty] by (metis dom_eq_empty_conv dom_map_of_conv_image_fst image_is_empty set_empty)

text \<open>A database that \<open>Construct\<close> has just made: it has no users.\<close>

definition made :: "'db bolt \<Rightarrow> 'db \<Rightarrow> bool" where
  "made B db \<longleftrightarrow> obs B db [] = Some [miscBucket \<mapsto> None, usersBucket \<mapsto> None, pkRequestsBucket \<mapsto> None] \<and>
     obs B db [usersBucket] = Some Map.empty \<and>
     (\<exists>m. obs B db [miscBucket] = Some m \<and> m usersLatestIDKey = Some (Some (PutUint64 0)))"

lemma be_0: "be n 0 = zeros n"
  by (induction n) (simp_all add: char_of_def bit_0)

lemma PutUint64_0: "PutUint64 0 = zeros 8"
  by (simp add: PutUint64_def be_0)

lemma Construct_new:
  assumes w: "world_ok B C w" and e: "obs B (content (wdb w)) [] = Some Map.empty" and l: "l_db l"
  shows "\<exists>w' st key. Construct B C U w l pass = Ret (w', l, Inr st) \<and> s_masterKey st = Some key \<and>
    s_users st = Map.empty \<and> world_ok B C w' \<and>
    db_layout B (content (wdb w')) \<and> locked B C (content (wdb w')) pass key \<and>
    made B (content (wdb w')) \<and> clock w' = clock w"
proof -
  have ok: "bolt_ok B" "bolt_live B" "\<not> rwtx (wdb w)" "opened (wdb w)" using w by (simp_all add: world_ok_def)
  from construct_new [OF w e, of pass] obtain n c1 key where
    tx: "construct_tx B C pass (w\<lparr>wdb := (wdb w)\<lparr>rwtx := True\<rparr>\<rparr>) (content (wdb w)) (zeros keySize) =
      Ret (w\<lparr>wdb := (wdb w)\<lparr>rwtx := True\<rparr>, tick := n\<rparr>, c1, key, None)"
    and c1: "db_layout B c1" "locked B C c1 pass key" "obs B c1 [usersBucket] = Some Map.empty"
      "obs B c1 [] = Some [miscBucket \<mapsto> None, usersBucket \<mapsto> None]"
      "\<exists>m. obs B c1 [miscBucket] = Some m \<and> m usersLatestIDKey = Some (Some (zeros 8))" by blast
  let ?w1 = "w\<lparr>tick := n, wdb := (wdb w)\<lparr>content := c1\<rparr>\<rparr>"
  have w1: "world_ok B C ?w1" using w by (rule world_ok_update)
  from initializePKRequestStore_ok [OF w1] c1(1) obtain c2 where
    c2: "initializePKRequestStore B ?w1 = Ret (w\<lparr>tick := n, wdb := (wdb w)\<lparr>content := c2\<rparr>\<rparr>, None)" "db_layout B c2"
      "\<And>p. p \<noteq> [] \<Longrightarrow> p \<noteq> [pkRequestsBucket] \<Longrightarrow> obs B c2 p = obs B c1 p"
      "obs B c2 [] = Some [miscBucket \<mapsto> None, usersBucket \<mapsto> None, pkRequestsBucket \<mapsto> None]" using c1(4) by auto
  have "made B c2" using c1(3,5) c2(3) [of "[usersBucket]"] c2(3) [of "[miscBucket]"] c2(4) by (simp add: made_def PutUint64_0)
  have u: "Cursor B c2 [usersBucket] = []" using c2(3) [of "[usersBucket]"] c1(3) empty_cursor [of B c2] by simp
  have "locked B C c2 pass key" using c1(2) c2(3) [of "[miscBucket]"] by (simp add: locked_def)
  moreover have "world_ok B C (w\<lparr>tick := n, wdb := (wdb w)\<lparr>content := c2\<rparr>\<rparr>)" using w by (rule world_ok_update)
  ultimately show ?thesis
    using tx c2(1,2) l ok u users_bucket [OF ok(1) c2(2)] \<open>made B c2\<close>
    by (simp add: Construct_def db_Update_run db_View_live on_bucket_def Let_def)
qed

lemma change_passphrase:
  assumes w: "world_ok B C w" and lay: "db_layout B (content (wdb w))"
    and k: "locked B C (content (wdb w)) pass key" and st: "s_masterKey st = Some key"
  shows "\<exists>w'. ChangePassphrase B C w st new = Ret (w', None) \<and> world_ok B C w' \<and>
    db_layout B (content (wdb w')) \<and> locked B C (content (wdb w')) (Some new) key"
proof -
  let ?c = "content (wdb w)"
  have ok: "bolt_ok B" "bolt_live B" "\<not> rwtx (wdb w)" "opened (wdb w)" "crypto_ok C" "env_ok w" "rnd_live w"
    using w by (simp_all add: world_ok_def)
  from lay obtain m0 m where o: "obs B ?c [] = Some m0" "m0 miscBucket = Some None" "m0 usersBucket = Some None"
      "m0 pkRequestsBucket = None \<or> m0 pkRequestsBucket = Some None"
      "obs B ?c [miscBucket] = Some m" "m countersBucket = Some None" "\<forall>k. m k = Some None \<longrightarrow> k = countersBucket"
    by (auto simp: db_layout_def)
  have ver: "m versionKey = Some (Some [latestStoreVersion])" and len: "length key = keySize"
    using k o(5) by (auto simp: locked_def)
  from encryptKey_live [OF ok(5-7), of key new] obtain n salt nonce where
    ek: "encryptKey C w key new = (w\<lparr>tick := n\<rparr>, Inr (salt, nonce @ Seal C key nonce (deriveKey C new salt)))"
      "length nonce = nonceSize" "length salt = saltLength" by blast
  let ?v = "nonce @ Seal C key nonce (deriveKey C new salt)"
  have nb: "m saltKey \<noteq> Some None" "m dbMasterKeyEnc \<noteq> Some None" using o(7) by auto
  from put_all_ok [OF ok(1) o(5), of "[(saltKey, salt), (dbMasterKeyEnc, ?v)]"] nb ek(2,3) len ok(5) obtain c' where
    c': "put_all B [miscBucket] [(saltKey, salt), (dbMasterKeyEnc, ?v)] ?c = (c', None)"
      "obs B c' = (obs B ?c)([miscBucket] \<mapsto> m(saltKey \<mapsto> Some salt, dbMasterKeyEnc \<mapsto> Some ?v))"
    by (auto simp: MaxValueSize_def saltLength_def nonceSize_def keySize_def Overhead_def)
  have "ChangePassphrase B C w st new = Ret (w\<lparr>tick := n, wdb := (wdb w)\<lparr>content := c'\<rparr>\<rparr>, None)"
    using st ek(1) c'(1) ok obs_Bucket [OF o(5)]
    by (simp add: ChangePassphrase_def db_Update_run on_bucket_def)
  moreover have "world_ok B C (w\<lparr>tick := n, wdb := (wdb w)\<lparr>content := c'\<rparr>\<rparr>)" using w by (rule world_ok_update)
  moreover have "db_layout B c'" using c'(2) o by (auto simp: db_layout_def)
  moreover have "locked B C c' (Some new) key" using c'(2) ver len ek(2) by (auto simp: locked_def)
  ultimately show ?thesis by auto
qed

section \<open>Properties\<close>

text \<open>
  C2. A database made with a passphrase (or without one) can be opened again with the same
  passphrase, and yields the same master key, so that the messages can be decrypted: for every
  later state of the program with this database content, \<open>Construct\<close> succeeds.
\<close>

theorem Construct_reopens:
  assumes "world_ok B C w" "obs B (content (wdb w)) [] = Some Map.empty" "l_db l"
  shows "\<exists>w1 st. Construct B C U w l pass = Ret (w1, l, Inr st) \<and>
    (\<forall>w2. world_ok B C w2 \<longrightarrow> content (wdb w2) = content (wdb w1) \<longrightarrow>
      (\<exists>w3 st2. Construct B C U w2 l pass = Ret (w3, l, Inr st2) \<and> s_masterKey st2 = s_masterKey st))"
proof -
  from Construct_new [OF assms, of U pass] obtain w1 st key where
    "Construct B C U w l pass = Ret (w1, l, Inr st)" "s_masterKey st = Some key"
    "db_layout B (content (wdb w1))" "locked B C (content (wdb w1)) pass key" by blast
  then show ?thesis using Construct_opens [OF _ assms(3), of B C _ pass key U] by auto
qed

definition ref_open :: Loader where "ref_open = \<lparr>l_db = True\<rparr>"

lemma ref_empty_obs: "obs ref_bolt (content (wdb (ref_world ref_empty))) [] = Some Map.empty"
  by (simp add: obs_ref ref_world_def ref_empty_def)

theorem Construct_reopens_witness:
  "\<exists>w1 st. Construct ref_bolt ref_crypto ref_bmutil (ref_world ref_empty) ref_open (Some ''pw'') = Ret (w1, ref_open, Inr st)"
  using Construct_reopens [OF ref_world_ok ref_empty_obs, of ref_open ref_bmutil "Some ''pw''"]
  by (auto simp: ref_open_def)

text \<open>
  C4. Changing the passphrase re-encrypts the master key and nothing else: afterwards the database
  opens with the new passphrase and yields the same master key as before.
\<close>

theorem ChangePassphrase_reopens:
  assumes "world_ok B C w" "db_layout B (content (wdb w))" "locked B C (content (wdb w)) pass key"
    and "s_masterKey st = Some key" "l_db l"
  shows "\<exists>w1. ChangePassphrase B C w st new = Ret (w1, None) \<and>
    (\<forall>w2. world_ok B C w2 \<longrightarrow> content (wdb w2) = content (wdb w1) \<longrightarrow>
      (\<exists>w3 st2. Construct B C U w2 l (Some new) = Ret (w3, l, Inr st2) \<and> s_masterKey st2 = Some key))"
proof -
  from change_passphrase [OF assms(1-4), of new] obtain w1 where
    "ChangePassphrase B C w st new = Ret (w1, None)" "db_layout B (content (wdb w1))"
    "locked B C (content (wdb w1)) (Some new) key" by blast
  then show ?thesis using Construct_opens [OF _ assms(5), of B C _ "Some new" key U] by auto
qed

theorem ChangePassphrase_reopens_witness:
  "\<exists>w0 st w1. Construct ref_bolt ref_crypto ref_bmutil (ref_world ref_empty) ref_open (Some ''pw'') = Ret (w0, ref_open, Inr st) \<and>
    ChangePassphrase ref_bolt ref_crypto w0 st ''secret'' = Ret (w1, None)"
proof -
  from Construct_new [OF ref_world_ok ref_empty_obs, of ref_open ref_bmutil "Some ''pw''"] obtain w0 st key where
    c: "Construct ref_bolt ref_crypto ref_bmutil (ref_world ref_empty) ref_open (Some ''pw'') = Ret (w0, ref_open, Inr st)"
      "s_masterKey st = Some key" "world_ok ref_bolt ref_crypto w0"
      "db_layout ref_bolt (content (wdb w0))" "locked ref_bolt ref_crypto (content (wdb w0)) (Some ''pw'') key"
    by (auto simp: ref_open_def)
  from ChangePassphrase_reopens [OF c(3-5,2), of ref_open "''secret''" ref_bmutil] c(1) show ?thesis
    by (auto simp: ref_open_def)
qed

text \<open>
  C5. A database is not opened without its passphrase: with none given, and with one whose derived
  key does not open the stored box, \<open>Construct\<close> returns an error, gives no store, and closes the
  database; the content is not changed.
\<close>

theorem Construct_refuses:
  assumes "world_ok B C w" "db_layout B (content (wdb w))" "locked B C (content (wdb w)) (Some p) key" "l_db l"
    and "\<And>salt nonce. Open C (Seal C key nonce (deriveKey C p salt)) nonce (deriveKey C q salt) = None"
    and "try \<in> {None, Some q}"
  shows "Construct B C U w l try =
    Ret (w\<lparr>wdb := (wdb w)\<lparr>opened := False\<rparr>\<rparr>, l\<lparr>l_db := False\<rparr>,
      Inl (if try = None then ErrText ''No password supplied for encrypted database.'' else ErrDecryptionFailed))"
proof -
  let ?c = "content (wdb w)"
  have ok: "bolt_ok B" "bolt_live B" "\<not> rwtx (wdb w)" "opened (wdb w)" "crypto_ok C"
    using assms(1) by (simp_all add: world_ok_def)
  from assms(3) obtain m salt nonce where m: "obs B ?c [miscBucket] = Some m"
      "m versionKey = Some (Some [latestStoreVersion])" "length key = keySize"
      "length nonce = nonceSize" "m saltKey = Some (Some salt)"
      "m dbMasterKeyEnc = Some (Some (nonce @ Seal C key nonce (deriveKey C p salt)))"
    by (auto simp: locked_def)
  note g = get_step [OF ok(1) m(1) m(2)] get_step [OF ok(1) m(1) m(5)] get_step [OF ok(1) m(1) m(6)]
  show ?thesis
    using assms(4-6) ok m(3,4) g
    by (auto simp: Construct_def db_Update_run construct_tx_buckets [OF ok(1) assms(2)] construct_old_tx_def
        loader_Close_def db_Close_def Let_def)
qed

theorem Construct_refuses_witness:
  "\<exists>w0 st w1 l1. Construct ref_bolt ref_crypto ref_bmutil (ref_world ref_empty) ref_open (Some ''pw'') = Ret (w0, ref_open, Inr st) \<and>
    Construct ref_bolt ref_crypto ref_bmutil w0 ref_open (Some ''guess'') = Ret (w1, l1, Inl ErrDecryptionFailed)"
proof -
  from Construct_new [OF ref_world_ok ref_empty_obs, of ref_open ref_bmutil "Some ''pw''"] obtain w0 st key where
    c: "Construct ref_bolt ref_crypto ref_bmutil (ref_world ref_empty) ref_open (Some ''pw'') = Ret (w0, ref_open, Inr st)"
      "world_ok ref_bolt ref_crypto w0"
      "db_layout ref_bolt (content (wdb w0))" "locked ref_bolt ref_crypto (content (wdb w0)) (Some ''pw'') key"
    by (auto simp: ref_open_def)
  have "Open ref_crypto (Seal ref_crypto key nonce (deriveKey ref_crypto ''pw'' salt)) nonce
      (deriveKey ref_crypto ''guess'' salt) = None" for salt nonce
    by (simp add: ref_crypto_def deriveKey_def ref_tag_def Overhead_def keySize_def copy_array_def)
  from Construct_refuses [OF c(2-4) _ this, of ref_open "Some ''guess''" ref_bmutil] c(1) show ?thesis
    by (auto simp: ref_open_def)
qed

lemma counter_buckets:
  assumes "bolt_ok B" "obs B c [miscBucket, countersBucket] = Some mc"
  shows "Bucket B c [miscBucket, countersBucket]" "Bucket B c [miscBucket]"
  using obs_Bucket [OF assms(2)] bolt_nested [OF assms(1), of c "[miscBucket]" countersBucket] by auto

lemma get_counter:
  assumes "bolt_ok B" "bolt_live B" "opened (wdb w)" "obs B (content (wdb w)) [miscBucket, countersBucket] = Some mc"
  shows "GetCounter B w t =
    (case mc (PutUint32 t) of Some (Some v) \<Rightarrow> go_bind (Uint64 v) (\<lambda>n. Ret (Inr n)) | _ \<Rightarrow> Ret (Inr 1))"
  using assms(2,3) counter_buckets [OF assms(1,4)] bolt_Get [OF assms(1,4), of "PutUint32 t"]
  by (simp add: GetCounter_def db_View_live on_bucket_def go_bind_assoc split: option.split)

text \<open>The counters are numbers of 64 bits.\<close>

abbreviation counters_path :: path where
  "counters_path \<equiv> [miscBucket, countersBucket]"

definition counters_ok :: "(bytes \<rightharpoonup> bytes option) \<Rightarrow> bool" where
  "counters_ok mc \<longleftrightarrow> (\<forall>k v. mc k = Some v \<longrightarrow> (\<exists>n. v = Some (PutUint64 n)))"

lemma PutUint32_inject: "PutUint32 a = PutUint32 b \<longleftrightarrow> a = b"
  by (simp only: PutUint32_def be_inject unat_lt_be4 word_unat_eq_iff)

lemma SetCounter_step:
  assumes "world_ok B C w" "obs B (content (wdb w)) counters_path = Some mc" "counters_ok mc"
  shows "\<exists>c'. SetCounter B w t n = Ret (w\<lparr>wdb := (wdb w)\<lparr>content := c'\<rparr>\<rparr>, None) \<and>
    world_ok B C (w\<lparr>wdb := (wdb w)\<lparr>content := c'\<rparr>\<rparr>) \<and>
    obs B c' counters_path = Some (mc(PutUint32 t \<mapsto> Some (PutUint64 n))) \<and>
    counters_ok (mc(PutUint32 t \<mapsto> Some (PutUint64 n)))"
proof -
  let ?c = "content (wdb w)"
  have ok: "bolt_ok B" "bolt_live B" "\<not> rwtx (wdb w)" "opened (wdb w)" using assms(1) by (simp_all add: world_ok_def)
  have nb: "mc (PutUint32 t) \<noteq> Some None" using assms(3) by (force simp: counters_ok_def)
  have "PutUint32 t \<noteq> []" using length_PutUint32 [of t] by force
  from put_step [OF ok(1) assms(2) _ nb this, of "PutUint64 n"] obtain c' where
    c': "Put B ?c counters_path (PutUint32 t) (PutUint64 n) = Inr c'"
      "obs B c' = (obs B ?c)(counters_path \<mapsto> mc(PutUint32 t \<mapsto> Some (PutUint64 n)))"
    by (auto simp: MaxKeySize_def MaxValueSize_def)
  have "SetCounter B w t n = Ret (w\<lparr>wdb := (wdb w)\<lparr>content := c'\<rparr>\<rparr>, None)"
    using ok counter_buckets [OF ok(1) assms(2)] c'(1) by (simp add: SetCounter_def db_Update_run on_bucket_def)
  moreover have "counters_ok (mc(PutUint32 t \<mapsto> Some (PutUint64 n)))" using assms(3) by (auto simp: counters_ok_def)
  ultimately show ?thesis using c'(2) world_ok_update(2) [OF assms(1)] by auto
qed

lemma GetCounter_step:
  assumes "world_ok B C w" "obs B (content (wdb w)) counters_path = Some mc" "counters_ok mc"
  shows "GetCounter B w t = Ret (Inr (case mc (PutUint32 t) of Some (Some v) \<Rightarrow> of_nat (unbe v) | _ \<Rightarrow> 1))"
proof -
  have ok: "bolt_ok B" "bolt_live B" "\<not> rwtx (wdb w)" "opened (wdb w)" using assms(1) by (simp_all add: world_ok_def)
  show ?thesis
  proof (cases "mc (PutUint32 t)")
    case None
    then show ?thesis using get_counter [OF ok(1,2,4) assms(2)] by simp
  next
    case (Some v)
    then obtain n where "v = Some (PutUint64 n)" using assms(3) by (auto simp: counters_ok_def)
    with Some show ?thesis using get_counter [OF ok(1,2,4) assms(2)] by (simp add: unbe_PutUint64)
  qed
qed

text \<open>
  A counter reads back what was last set for its object type, setting one does not change the
  others, and a counter that was never set is 1.
\<close>

theorem counter_roundtrip:
  assumes "world_ok B C w" "obs B (content (wdb w)) [miscBucket, countersBucket] = Some mc"
    and "\<And>k v. mc k = Some v \<Longrightarrow> \<exists>n. v = Some (PutUint64 n)"
  shows "\<exists>w'. SetCounter B w t n = Ret (w', None) \<and> GetCounter B w' t = Ret (Inr n) \<and>
    (\<forall>t'. t' \<noteq> t \<longrightarrow> GetCounter B w' t' = GetCounter B w t') \<and>
    (\<forall>t'. mc (PutUint32 t') = None \<longrightarrow> GetCounter B w t' = Ret (Inr 1))"
proof -
  have mc: "counters_ok mc" using assms(3) by (auto simp: counters_ok_def)
  obtain c' where c': "SetCounter B w t n = Ret (w\<lparr>wdb := (wdb w)\<lparr>content := c'\<rparr>\<rparr>, None)"
      "world_ok B C (w\<lparr>wdb := (wdb w)\<lparr>content := c'\<rparr>\<rparr>)"
      "obs B c' counters_path = Some (mc(PutUint32 t \<mapsto> Some (PutUint64 n)))" "counters_ok (mc(PutUint32 t \<mapsto> Some (PutUint64 n)))"
    using SetCounter_step [OF assms(1,2) mc] by blast
  note get = GetCounter_step [OF assms(1,2) mc] and get' = GetCounter_step [OF c'(2) _ c'(4)]
  show ?thesis using c'(1,3) by (auto simp: get get' PutUint32_inject unbe_PutUint64)
qed

definition counter_demo_db :: refdb where
  "counter_demo_db = (\<lambda>p. if p = [] then [(''misc'', None)] else if p = [''misc''] then [(''counters'', None)] else [])"

theorem counter_roundtrip_witness:
  "\<exists>w'. SetCounter ref_bolt (ref_world counter_demo_db) 2 7 = Ret (w', None) \<and>
    GetCounter ref_bolt w' 2 = Ret (Inr 7) \<and> GetCounter ref_bolt w' 3 = Ret (Inr 1)"
proof -
  have o: "obs ref_bolt (content (wdb (ref_world counter_demo_db))) [miscBucket, countersBucket] = Some Map.empty"
    by (simp add: obs_ref ref_Bucket_def counter_demo_db_def ref_world_def miscBucket_def countersBucket_def upt_rec)
  from counter_roundtrip [OF ref_world_ok o, of 2 7] show ?thesis by force
qed

section \<open>The folders of a new user\<close>

lemma user_bucket_neq:
  "userPrefix @ n \<noteq> miscBucket" "userPrefix @ n \<noteq> usersBucket" "miscBucket \<noteq> userPrefix @ n" "usersBucket \<noteq> userPrefix @ n"
  by (simp_all add: userPrefix_def miscBucket_def usersBucket_def)

lemma folder_names [simp]:
  "foldersBucket \<noteq> []" "length foldersBucket \<le> MaxKeySize" "miscBucket \<noteq> foldersBucket" "foldersBucket \<noteq> miscBucket"
  by (simp_all add: foldersBucket_def miscBucket_def MaxKeySize_def)

lemma initializeFolders_new:
  assumes w: "world_ok B C w" and lay: "db_layout B (content (wdb w))"
    and o: "obs B (content (wdb w)) [] = Some m0" "m0 (userPrefix @ n) = None"
      "obs B (content (wdb w)) [usersBucket] = Some mu" "mu n \<noteq> Some None"
      "obs B (content (wdb w)) [miscBucket] = Some m" "m usersLatestIDKey = Some (Some (PutUint64 k))"
    and n: "n \<noteq> []" "length (userPrefix @ n) \<le> MaxKeySize"
  shows "\<exists>tx mub. initializeFolders_tx B n (userPrefix @ n) (content (wdb w)) = Ret (tx, None) \<and>
    obs B tx [userPrefix @ n] = Some mub \<and> obs B tx (folders_path (userPrefix @ n)) = Some Map.empty \<and>
    obs B tx [usersBucket] = Some (mu(n \<mapsto> Some (PutUint64 (k + 1)))) \<and>
    obs B tx [miscBucket] = Some (m(usersLatestIDKey \<mapsto> Some (PutUint64 (k + 1)))) \<and>
    obs B tx [] = Some (m0(userPrefix @ n \<mapsto> None)) \<and>
    (\<forall>q. q \<noteq> [] \<longrightarrow> hd q \<noteq> userPrefix @ n \<longrightarrow> q \<noteq> [usersBucket] \<longrightarrow> q \<noteq> [miscBucket] \<longrightarrow> obs B tx q = obs B (content (wdb w)) q)"
proof -
  let ?c = "content (wdb w)" and ?u = "userPrefix @ n"
  note ne = user_bucket_neq [of n]
  have B: "bolt_ok B" using w by (simp add: world_ok_def)
  have r: "m0 miscBucket = Some None" "m0 usersBucket = Some None" using lay o(1) by (auto simp: db_layout_def)
  have un: "?u \<noteq> []" by (simp add: userPrefix_def)
  have fresh: "\<not> Bucket B ?c [?u]" using bolt_nested_obs [OF B o(1), of ?u] o(2) by simp
  from create_step [OF B o(1,2) un n(2)] obtain t1 where t1: "CreateBucket B ?c [] ?u = Inr t1"
    "obs B t1 = (obs B ?c)([] \<mapsto> m0(?u \<mapsto> None), [?u] \<mapsto> Map.empty)" by auto
  have r1: "obs B t1 [] = Some (m0(?u \<mapsto> None))" using t1(2) by simp
  have t2: "CreateBucketIfNotExists B t1 [] usersBucket = Inr t1" "CreateBucketIfNotExists B t1 [] miscBucket = Inr t1"
    using bolt_CreateBucketIfNotExists [OF B r1] r ne by auto
  have m1: "obs B t1 [miscBucket] = Some m" "obs B t1 [usersBucket] = Some mu" using t1(2) o ne by auto
  have g: "Get B t1 [miscBucket] usersLatestIDKey = Some (PutUint64 k)" by (rule get_step [OF B m1(1) o(6)])
  let ?k = "PutUint64 (k + 1)"
  have sz: "length n \<le> MaxKeySize" "length ?k \<le> MaxValueSize" using n(2) by (simp_all add: MaxValueSize_def)
  from put_step [OF B m1(2) _ o(4) n(1) sz] obtain t4 where t4: "Put B t1 [usersBucket] n ?k = Inr t4"
    "obs B t4 = (obs B t1)([usersBucket] \<mapsto> mu(n \<mapsto> Some ?k))" by auto
  have m4: "obs B t4 [miscBucket] = Some m" using t4(2) m1(1) by simp
  have "m usersLatestIDKey \<noteq> Some None" using o(6) by simp
  from put_step [OF B m4 _ this _ _ sz(2)] obtain t5 where t5: "Put B t4 [miscBucket] usersLatestIDKey ?k = Inr t5"
    "obs B t5 = (obs B t4)([miscBucket] \<mapsto> m(usersLatestIDKey \<mapsto> Some ?k))" by auto
  have u5: "obs B t5 [?u] = Some Map.empty" using t5(2) t4(2) t1(2) ne by simp
  from create_if_step [OF B u5, of miscBucket] obtain t6 where t6: "CreateBucketIfNotExists B t5 [?u] miscBucket = Inr t6"
    "obs B t6 = (obs B t5)([?u] \<mapsto> [miscBucket \<mapsto> None], [?u, miscBucket] \<mapsto> Map.empty)" by auto
  have u6: "obs B t6 [?u] = Some [miscBucket \<mapsto> None]" using t6(2) by simp
  from create_if_step [OF B u6, of foldersBucket] obtain t7 where t7: "CreateBucketIfNotExists B t6 [?u] foldersBucket = Inr t7"
    "obs B t7 = (obs B t6)([?u] \<mapsto> [miscBucket \<mapsto> None, foldersBucket \<mapsto> None], [?u, foldersBucket] \<mapsto> Map.empty)" by auto
  have m7: "obs B t7 [?u, miscBucket] = Some Map.empty" using t7(2) t6(2) by simp
  from put_step [OF B m7, of folderNextIDKey "PutUint64 0"] obtain t8 where
    t8: "Put B t7 [?u, miscBucket] folderNextIDKey (PutUint64 0) = Inr t8"
      "obs B t8 = (obs B t7)([?u, miscBucket] \<mapsto> [folderNextIDKey \<mapsto> Some (PutUint64 0)])"
    by (auto simp: folderNextIDKey_def MaxKeySize_def MaxValueSize_def)
  have "initializeFolders_tx B n ?u ?c = Ret (t8, None)"
    using fresh t1(1) t2 g t4(1) t5(1) t6(1) t7(1) t8(1)
    by (simp add: initializeFolders_tx_def register_user_tx_def ignore_error_def Let_def)
  then show ?thesis
    using t8(2) t7(2) t6(2) t5(2) t4(2) t1(2) ne by (auto simp: folders_path_def)
qed

text \<open>
  The first use of the folders of a user sets them up: the user gets the next user number, in the
  list of users and in the counter, and an empty set of folders in which folders can be made.
\<close>

theorem user_Folders_new:
  assumes w: "world_ok B C w" "clock_ok w" and lay: "db_layout B (content (wdb w))"
    and o: "obs B (content (wdb w)) [] = Some m0" "m0 (userPrefix @ n) = None"
      "obs B (content (wdb w)) [usersBucket] = Some mu" "mu n \<noteq> Some None"
      "obs B (content (wdb w)) [miscBucket] = Some m" "m usersLatestIDKey = Some (Some (PutUint64 k))"
    and n: "n \<noteq> []" "length (userPrefix @ n) \<le> MaxKeySize"
  shows "\<exists>w' fo. user_Folders B w (newUser key (userPrefix @ n) n b) = Ret (w', Inr fo) \<and>
    fo_map fo = Map.empty \<and> fo_inv B C w' fo \<and>
    obs B (content (wdb w')) [usersBucket] = Some (mu(n \<mapsto> Some (PutUint64 (k + 1)))) \<and>
    obs B (content (wdb w')) [miscBucket] = Some (m(usersLatestIDKey \<mapsto> Some (PutUint64 (k + 1)))) \<and>
    obs B (content (wdb w')) [] = Some (m0(userPrefix @ n \<mapsto> None)) \<and> clock w' = clock w \<and>
    fo_user fo = newUser key (userPrefix @ n) n b \<and>
    (\<forall>q. q \<noteq> [] \<longrightarrow> hd q \<noteq> userPrefix @ n \<longrightarrow> q \<noteq> [usersBucket] \<longrightarrow> q \<noteq> [miscBucket] \<longrightarrow>
      obs B (content (wdb w')) q = obs B (content (wdb w)) q)"
proof -
  from initializeFolders_new [OF w(1) lay o n] obtain tx mub where
    tx: "initializeFolders_tx B n (userPrefix @ n) (content (wdb w)) = Ret (tx, None)"
      "obs B tx [userPrefix @ n] = Some mub" "obs B tx (folders_path (userPrefix @ n)) = Some Map.empty"
      "obs B tx [usersBucket] = Some (mu(n \<mapsto> Some (PutUint64 (k + 1))))"
      "obs B tx [miscBucket] = Some (m(usersLatestIDKey \<mapsto> Some (PutUint64 (k + 1))))"
      "obs B tx [] = Some (m0(userPrefix @ n \<mapsto> None))"
      "\<forall>q. q \<noteq> [] \<longrightarrow> hd q \<noteq> userPrefix @ n \<longrightarrow> q \<noteq> [usersBucket] \<longrightarrow> q \<noteq> [miscBucket] \<longrightarrow> obs B tx q = obs B (content (wdb w)) q" by blast
  have ok: "bolt_ok B" "bolt_live B" "\<not> rwtx (wdb w)" "opened (wdb w)" using w(1) by (simp_all add: world_ok_def)
  let ?w' = "w\<lparr>wdb := (wdb w)\<lparr>content := tx\<rparr>\<rparr>"
  let ?fo = "\<lparr>fo_user = newUser key (userPrefix @ n) n b, fo_map = Map.empty, fo_heap = Map.empty, fo_fresh = 0\<rparr>"
  have "user_Folders B w (newUser key (userPrefix @ n) n b) = Ret (?w', Inr ?fo)"
    using tx(1) ok obs_Bucket [OF tx(2)] obs_Bucket [OF tx(3)] empty_cursor [OF tx(3)]
    by (simp add: user_Folders_def newFolders_def initializeFolders_def db_Update_run db_View_live on_bucket_def newUser_def)
  moreover have "world_ok B C ?w'" using w(1) by (rule world_ok_update)
  then have "fo_inv B C ?w' ?fo"
    using w(2) tx(2,3) by (simp add: fo_inv_def newUser_def clock_ok_def)
  ultimately show ?thesis using tx(4-7) by (intro exI [of _ ?w'] exI [of _ ?fo]) simp
qed

definition fresh_db :: refdb where
  "fresh_db = (\<lambda>p. if p = [] then [(''misc'', None), (''users'', None)]
     else if p = [''misc''] then [(''counters'', None), (''version'', Some [latestStoreVersion]), (''usersLatestIDKey'', Some (PutUint64 4))]
     else [])"

theorem user_Folders_new_witness:
  "\<exists>w' fo. user_Folders ref_bolt (ref_world fresh_db) (newUser None (userPrefix @ ''bob'') ''bob'' \<lparr>b_username = ''bob'', addrs = [()]\<rparr>) = Ret (w', Inr fo) \<and>
    fo_inv ref_bolt ref_crypto w' fo \<and>
    obs ref_bolt (content (wdb w')) [usersBucket] = Some [''bob'' \<mapsto> Some (PutUint64 5)]"
proof -
  let ?root = "map_of [(''misc'', None), (''users'', None)] :: bytes \<rightharpoonup> bytes option"
  let ?m = "map_of [(''counters'', None), (''version'', Some [latestStoreVersion]), (''usersLatestIDKey'', Some (PutUint64 4))]"
  have c: "content (wdb (ref_world fresh_db)) = fresh_db" by (simp add: ref_world_def)
  have b: "ref_Bucket fresh_db [''misc'']" "ref_Bucket fresh_db [''users'']"
    by (simp_all add: ref_Bucket_def fresh_db_def)
  have o: "obs ref_bolt fresh_db [] = Some ?root" "obs ref_bolt fresh_db [miscBucket] = Some ?m"
      "obs ref_bolt fresh_db [usersBucket] = Some Map.empty"
    using b by (simp_all add: obs_ref fresh_db_def miscBucket_def usersBucket_def)
  have lay: "db_layout ref_bolt fresh_db"
    using o(1,2) by (auto simp: db_layout_def db_names split: if_splits)
  have ck: "clock_ok (ref_world fresh_db)"
    by (simp add: clock_ok_def ref_world_def ref_env_def MarshalBinary_def)
  have a: "?root (userPrefix @ ''bob'') = None" "?m usersLatestIDKey = Some (Some (PutUint64 4))"
      "length (userPrefix @ ''bob'') \<le> MaxKeySize"
    by (simp_all add: userPrefix_def db_names)
  show ?thesis
    using user_Folders_new [of ref_bolt ref_crypto "ref_world fresh_db" ?root "''bob''" Map.empty ?m 4
        None "\<lparr>b_username = ''bob'', addrs = [()]\<rparr>"] ref_world_ok ck lay o a
    by (auto simp: c)
qed

section \<open>Users\<close>

lemma newBroadcastsStore_new:
  assumes w: "world_ok B C w" and o: "obs B (content (wdb w)) [] = Some m0" "m0 n = None" and n: "n \<noteq> []" "length n \<le> MaxKeySize"
  shows "\<exists>tx. newBroadcastsStore B U w n = Ret (w\<lparr>wdb := (wdb w)\<lparr>content := tx\<rparr>\<rparr>, Inr \<lparr>b_username = n, addrs = []\<rparr>) \<and>
    obs B tx = (obs B (content (wdb w)))([] \<mapsto> m0(n \<mapsto> None), [n] \<mapsto> [broadcastAddressesBucket \<mapsto> None], bc_path n \<mapsto> Map.empty)"
proof -
  have ok: "bolt_ok B" "bolt_live B" "\<not> rwtx (wdb w)" "opened (wdb w)" using w by (simp_all add: world_ok_def)
  have s: "broadcastAddressesBucket \<noteq> []" "length broadcastAddressesBucket \<le> MaxKeySize"
    by (simp_all add: broadcastAddressesBucket_def MaxKeySize_def)
  from create_if_step [OF ok(1) o(1), of n] o(2) n obtain t1 where t1: "CreateBucketIfNotExists B (content (wdb w)) [] n = Inr t1"
    "obs B t1 = (obs B (content (wdb w)))([] \<mapsto> m0(n \<mapsto> None), [n] \<mapsto> Map.empty)" by auto
  then have "obs B t1 [n] = Some Map.empty" by simp
  from create_if_step [OF ok(1) this, of broadcastAddressesBucket] s obtain t2 where
    t2: "CreateBucketIfNotExists B t1 [n] broadcastAddressesBucket = Inr t2"
      "obs B t2 = (obs B t1)([n] \<mapsto> [broadcastAddressesBucket \<mapsto> None], bc_path n \<mapsto> Map.empty)" by (auto simp: bc_path_def)
  have "Cursor B t2 (bc_path n) = []" using t2(2) by (intro empty_cursor) simp
  then show ?thesis using t1 t2 ok by (intro exI [of _ t2]) (simp add: newBroadcastsStore_def db_Update_run)
qed

text \<open>Opening a database with one user whose list of broadcast addresses is empty.\<close>

lemma Construct_one_user:
  assumes w: "world_ok B C w" and l: "l_db l" and lay: "db_layout B (content (wdb w))" and lock: "locked B C (content (wdb w)) pass key"
    and o: "obs B (content (wdb w)) [usersBucket] = Some [n \<mapsto> v]" "obs B (content (wdb w)) (bc_path n) = Some Map.empty"
    and n: "n \<noteq> pkRequestsBucket"
  shows "\<exists>tx st. Construct B C U w l pass = Ret (w\<lparr>wdb := (wdb w)\<lparr>content := tx\<rparr>\<rparr>, l, Inr st) \<and>
    st = \<lparr>s_masterKey = Some key, s_users = [n \<mapsto> newUser (Some key) (userPrefix @ n) n \<lparr>b_username = n, addrs = []\<rparr>]\<rparr> \<and>
    (\<forall>p. p \<noteq> [] \<longrightarrow> p \<noteq> [pkRequestsBucket] \<longrightarrow> obs B tx p = obs B (content (wdb w)) p)"
proof -
  have ok: "bolt_ok B" "bolt_live B" "\<not> rwtx (wdb w)" "opened (wdb w)" "crypto_ok C" using w by (simp_all add: world_ok_def)
  note c = construct_locked [OF ok(5,1) lay lock]
  from initializePKRequestStore_ok [OF w lay] obtain tx where
    tx: "initializePKRequestStore B w = Ret (w\<lparr>wdb := (wdb w)\<lparr>content := tx\<rparr>\<rparr>, None)" "db_layout B tx"
      "\<forall>p. p \<noteq> [] \<longrightarrow> p \<noteq> [pkRequestsBucket] \<longrightarrow> obs B tx p = obs B (content (wdb w)) p" by blast
  let ?w = "w\<lparr>wdb := (wdb w)\<lparr>content := tx\<rparr>\<rparr>" and ?st = "\<lparr>s_masterKey = Some key, s_users = Map.empty\<rparr>"
  have u: "map fst (Cursor B tx [usersBucket]) = [n]"
  proof -
    have m: "map_of (Cursor B tx [usersBucket]) = [n \<mapsto> v]" using tx(3) o(1) by (intro obs_Cursor) simp
    have d: "distinct (map fst (Cursor B tx [usersBucket]))" by (rule sorted_keys_distinct [OF bolt_Cursor_sorted [OF ok(1)]])
    have "set (map fst (Cursor B tx [usersBucket])) = {n}" using arg_cong [OF m, of dom] by (simp add: dom_map_of_conv_image_fst)
    with d show ?thesis by (intro distinct_one)
  qed
  have "obs B tx (bc_path n) = Some Map.empty" using tx(3) o(2) by (simp add: bc_path_def)
  then have b: "bc_inv B U ?w n Map.empty" using ok by (simp add: bc_inv_def)
  obtain b where nb: "newBroadcastsStore B U ?w n = Ret (?w, Inr b)" "b_username b = n" "set (addrs b) = bc_keys U Map.empty"
    using newBroadcastsStore_open [OF b] by blast
  then have bn: "b = \<lparr>b_username = n, addrs = []\<rparr>" by (cases b) (simp add: bc_keys_def)
  have a: "addUsers B U ?w ?st [n] = Ret (?w, ?st\<lparr>s_users := [n \<mapsto> newUser (Some key) (userPrefix @ n) n b]\<rparr>)"
    using nb(1) by (simp add: addUser_def Let_def)
  show ?thesis
    by (rule exI [of _ tx], rule exI [of _ "?st\<lparr>s_users := [n \<mapsto> newUser (Some key) (userPrefix @ n) n b]\<rparr>"])
      (use c l ok tx users_bucket [OF ok(1) tx(2)] u a bn in
        \<open>simp add: Construct_def db_Update_run db_View_live on_bucket_def Let_def\<close>)
qed

end
