(* ===== verification/Bmrpc.thy ===== *)
theory Bmrpc
  imports Keys Bmutil
begin

text \<open>
  Package bmrpc, src/bmrpc/client.go: the client of the node bmd.  The gRPC connection is a parameter with a state \<open>'n\<close>;
  so are the keys of btcec and the identities of bmutil.
\<close>

section \<open>The connection\<close>

datatype grpc_code = NotFound | Unauthenticated | PermissionDenied | InvalidArgument | OtherCode

record GetIdentityReply =
  r_SigningKey :: bytes
  r_EncryptionKey :: bytes
  r_NonceTrials :: u64
  r_ExtraBytes :: u64
  r_Behavior :: u32

datatype rpc_ObjectType = ObjectType_MESSAGE | ObjectType_BROADCAST | ObjectType_GETPUBKEY

record ClientConfig =
  DisableTLS :: bool
  cc_CAFile :: string
  ConnectTo :: string
  cc_Username :: string
  cc_Password :: string
  Timeout :: int

record ('n, 'y, 'a, 'q) bmdlib =
  NewClientTLSFromFile :: "string \<Rightarrow> error option"
  Dial :: "ClientConfig \<Rightarrow> error + 'n"
  grpc_GetIdentity :: "'n \<Rightarrow> string \<Rightarrow> 'n \<times> (grpc_code \<times> error + GetIdentityReply)"
  grpc_SendObject :: "'n \<Rightarrow> bytes \<Rightarrow> 'n \<times> (error + u64)"
  grpc_GetObjects :: "'n \<Rightarrow> rpc_ObjectType \<Rightarrow> u64 \<Rightarrow> error option"
  conn_Close :: "'n \<Rightarrow> 'n"
  ParsePubKey :: "bytes \<Rightarrow> error + 'y"
  NewPublic :: "'y \<Rightarrow> 'y \<Rightarrow> u64 \<Rightarrow> u64 \<Rightarrow> u32 \<Rightarrow> PowData \<Rightarrow> error + 'q"
  address_Version :: "'a \<Rightarrow> u64"
  address_Stream :: "'a \<Rightarrow> u64"

section \<open>The client\<close>

text \<open>\<open>quit_closed\<close> is the state of the channel \<open>quit\<close>, and \<open>handlers\<close> tells that the three functions are not nil.\<close>

record 'n Client =
  conn :: 'n
  cl_started :: bool
  quit_closed :: bool
  handlers :: bool

definition NewClient :: "('n, 'y, 'a, 'q) bmdlib \<Rightarrow> ClientConfig \<Rightarrow> error + 'n Client" where
  "NewClient R cfg =
     (case (if DisableTLS cfg then None else NewClientTLSFromFile R (cc_CAFile cfg)) of
        Some e \<Rightarrow> Inl (ErrText (''Failed to create TLS credentials '' @ error_text e))
      | None \<Rightarrow>
     (case Dial R cfg of
        Inl e \<Rightarrow> Inl (ErrText (''Failed to dial: '' @ error_text e))
      | Inr n \<Rightarrow>
     (case grpc_GetIdentity R n ''InvalidAddress'' of
        (n1, Inr _) \<Rightarrow> Inl (ErrText ''Unexpected error verifying credentials: <nil>'')
      | (n1, Inl (code, e)) \<Rightarrow>
          if code = Unauthenticated \<or> code = PermissionDenied
          then Inl (ErrText ''authentication failure; invalid username/password'')
          else if code \<noteq> InvalidArgument
          then Inl (ErrText (''Unexpected error verifying credentials: '' @ error_text e))
          else Inr \<lparr>conn = n1, cl_started = False, quit_closed = False, handlers = True\<rparr>)))"

text \<open>The error of an address that can not be decoded prints the address, which is nil.\<close>

definition GetIdentity ::
  "('n, 'y, 'a, 'q) bmdlib \<Rightarrow> 'a bmutil \<Rightarrow> 'n Client \<Rightarrow> string \<Rightarrow> 'n Client \<times> (error + 'q)" where
  "GetIdentity R U c address =
     (case DecodeAddress U address of
        Inl _ \<Rightarrow> (c, Inl (ErrText ''Address decode failed: <nil>''))
      | Inr addr \<Rightarrow>
     (case grpc_GetIdentity R (conn c) address of
        (n1, Inl (code, e)) \<Rightarrow> (c\<lparr>conn := n1\<rparr>, Inl (if code = NotFound then ErrIdentityNotFound else e))
      | (n1, Inr res) \<Rightarrow>
          (c\<lparr>conn := n1\<rparr>,
           sum_bind (ParsePubKey R (r_SigningKey res)) (\<lambda>verKey.
           sum_bind (ParsePubKey R (r_EncryptionKey res)) (\<lambda>encKey.
             NewPublic R verKey encKey (address_Version R addr) (address_Stream R addr) (r_Behavior res)
               \<lparr>NonceTrialsPerByte = r_NonceTrials res, ExtraBytes = r_ExtraBytes res\<rparr>)))))"

definition SendObject :: "('n, 'y, 'a, 'q) bmdlib \<Rightarrow> 'n Client \<Rightarrow> bytes \<Rightarrow> 'n Client \<times> (error + u64)" where
  "SendObject R c ob = (case grpc_SendObject R (conn c) ob of (n1, r) \<Rightarrow> (c\<lparr>conn := n1\<rparr>, r))"

text \<open>\<open>Start\<close> starts one goroutine \<open>processObjects\<close> for each type of object.\<close>

definition client_Start :: "'n Client \<Rightarrow> u64 \<Rightarrow> u64 \<Rightarrow> u64 \<Rightarrow> 'n Client \<times> (rpc_ObjectType \<times> u64) list" where
  "client_Start c msgCounter broadcastCounter getpubkeyCounter =
     (c\<lparr>cl_started := True\<rparr>,
      [(ObjectType_MESSAGE, msgCounter), (ObjectType_BROADCAST, broadcastCounter), (ObjectType_GETPUBKEY, getpubkeyCounter)])"

text \<open>
  One iteration of the loop finds \<open>quit\<close> closed, or receives an error or an object; \<open>receive_loop\<close> runs over the iterations
  made so far.
\<close>

datatype recv = Quit | RecvError error | RecvObject u64 bytes

fun receive_loop :: "('s \<Rightarrow> u64 \<Rightarrow> bytes \<Rightarrow> 's go) \<Rightarrow> 's \<Rightarrow> recv list \<Rightarrow> 's go" where
  "receive_loop f s [] = Ret s"
| "receive_loop f s (Quit # rs) = Ret s"
| "receive_loop f s (RecvError e # rs) = Ret s"
| "receive_loop f s (RecvObject counter contents # rs) = go_bind (f s counter contents) (\<lambda>s1. receive_loop f s1 rs)"

definition processObjects ::
  "('n, 'y, 'a, 'q) bmdlib \<Rightarrow> 'n Client \<Rightarrow> rpc_ObjectType \<Rightarrow> u64 \<Rightarrow> ('s \<Rightarrow> u64 \<Rightarrow> bytes \<Rightarrow> 's go) \<Rightarrow> 's \<Rightarrow> recv list \<Rightarrow> 's go" where
  "processObjects R c objType fromCounter f s rs =
     (case grpc_GetObjects R (conn c) objType fromCounter of Some _ \<Rightarrow> Ret s | None \<Rightarrow> receive_loop f s rs)"

text \<open>Closing a closed channel panics.\<close>

definition client_Stop :: "('n, 'y, 'a, 'q) bmdlib \<Rightarrow> 'n Client \<Rightarrow> 'n Client go" where
  "client_Stop R c =
     (if quit_closed c then Panic
      else Ret (c\<lparr>quit_closed := True, conn := conn_Close R (conn c), handlers := False\<rparr>))"

section \<open>What the client promises\<close>

text \<open>The objects that a stream delivers before it ends.\<close>

fun delivered :: "recv list \<Rightarrow> (u64 \<times> bytes) list" where
  "delivered (RecvObject n b # rs) = (n, b) # delivered rs"
| "delivered _ = []"

fun run_each :: "('s \<Rightarrow> u64 \<Rightarrow> bytes \<Rightarrow> 's go) \<Rightarrow> 's \<Rightarrow> (u64 \<times> bytes) list \<Rightarrow> 's go" where
  "run_each f s [] = Ret s"
| "run_each f s ((n, b) # xs) = go_bind (f s n b) (\<lambda>s1. run_each f s1 xs)"

lemma receive_loop_delivered: "receive_loop f s rs = run_each f s (delivered rs)"
  by (induction f s rs rule: receive_loop.induct) simp_all

lemma run_each_append: "run_each f s (xs @ ys) = go_bind (run_each f s xs) (\<lambda>s1. run_each f s1 ys)"
proof (induction f s xs rule: run_each.induct)
  case (2 f s n b xs)
  then show ?case by (cases "f s n b") simp_all
qed simp

end
