(* ===== verification/Net_Path.thy ===== *)
theory Net_Path
  imports Golib
begin

text \<open>
  What the configuration uses of the Go standard library: \<open>net.SplitHostPort\<close> and \<open>net.JoinHostPort\<close>, the lexical
  functions of \<open>path/filepath\<close> (on Unix), \<open>os.ExpandEnv\<close>, and \<open>strings.Split\<close>.
\<close>

named_theorems hostport_simps \<open>splitting host:port addresses\<close>

section \<open>Addresses host:port\<close>

definition AddrError :: "string \<Rightarrow> string \<Rightarrow> error" where
  "AddrError addr why = ErrExt (if addr = [] then why else ''address '' @ addr @ '': '' @ why)"

definition missingPort :: string where "missingPort = ''missing port in address''"
definition tooManyColons :: string where "tooManyColons = ''too many colons in address''"

text \<open>The host, when no bracket stands in the rest of the address.\<close>

definition split_checked :: "string \<Rightarrow> nat \<Rightarrow> nat \<Rightarrow> string \<Rightarrow> string \<Rightarrow> error + string \<times> string" where
  "split_checked s j k host port =
     (if CHR ''['' \<in> set (drop j s) then Inl (AddrError s (''unexpected '' @ [CHR 0x27] @ ''['' @ [CHR 0x27] @ '' in address''))
      else if CHR '']'' \<in> set (drop k s) then Inl (AddrError s (''unexpected '' @ [CHR 0x27] @ '']'' @ [CHR 0x27] @ '' in address''))
      else Inr (host, port))"

text \<open>\<open>net.SplitHostPort\<close>: the port starts after the last colon; a host in brackets may hold colons.\<close>

definition SplitHostPort :: "string \<Rightarrow> error + string \<times> string" where
  "SplitHostPort s =
     (if CHR '':'' \<notin> set s then Inl (AddrError s missingPort)
      else
        let port = rev (takeWhile (\<lambda>c. c \<noteq> CHR '':'') (rev s));
            i = length s - length port - 1
        in if hd s = CHR ''['' then
             (if CHR '']'' \<notin> set s then Inl (AddrError s (''missing '' @ [CHR 0x27] @ '']'' @ [CHR 0x27] @ '' in address''))
              else
                let e = length (takeWhile (\<lambda>c. c \<noteq> CHR '']'') s)
                in if e + 1 = length s then Inl (AddrError s missingPort)
                   else if e + 1 = i then split_checked s 1 (e + 1) (drop 1 (take e s)) port
                   else if s ! (e + 1) = CHR '':'' then Inl (AddrError s tooManyColons)
                   else Inl (AddrError s missingPort))
           else if CHR '':'' \<in> set (take i s) then Inl (AddrError s tooManyColons)
           else split_checked s 0 0 (take i s) port)"

definition JoinHostPort :: "string \<Rightarrow> string \<Rightarrow> string" where
  "JoinHostPort host port =
     (if CHR '':'' \<in> set host then ''['' @ host @ '']:'' @ port else host @ '':'' @ port)"

text \<open>The two forms of an address, and no other, are split.\<close>

abbreviation no_brackets :: "string \<Rightarrow> bool" where
  "no_brackets s \<equiv> CHR ''['' \<notin> set s \<and> CHR '']'' \<notin> set s"

lemma takeWhile_upto: "c \<notin> set h \<Longrightarrow> takeWhile (\<lambda>x. x \<noteq> c) (h @ c # s) = h"
  by (subst takeWhile_append2) auto

lemma takeWhile_rev_last:
  "c \<notin> set p \<Longrightarrow> takeWhile (\<lambda>x. x \<noteq> c) (rev (h @ c # p)) = rev p"
  using takeWhile_upto [of c "rev p" "rev h"] by simp

lemma split_last:
  assumes "c \<in> set s"
  obtains h p where "s = h @ c # p" "c \<notin> set p"
  using split_list_last [OF assms] by blast

lemma SplitHostPort_plain [hostport_simps]:
  assumes "CHR '':'' \<notin> set h" "CHR '':'' \<notin> set p" "no_brackets h" "no_brackets p"
  shows "SplitHostPort (h @ CHR '':'' # p) = Inr (h, p)"
proof -
  have "hd (h @ CHR '':'' # p) \<noteq> CHR ''[''" using assms(3) by (cases h) auto
  then show ?thesis
    using assms unfolding SplitHostPort_def by (simp add: takeWhile_rev_last split_checked_def del: rev_append)
qed

lemma SplitHostPort_bracketed [hostport_simps]:
  assumes "CHR '':'' \<notin> set p" "no_brackets h" "no_brackets p"
  shows "SplitHostPort (CHR ''['' # h @ CHR '']'' # CHR '':'' # p) = Inr (h, p)"
proof -
  let ?s = "CHR ''['' # h @ CHR '']'' # CHR '':'' # p"
  have p: "takeWhile (\<lambda>x. x \<noteq> CHR '':'') (rev ?s) = rev p"
    using takeWhile_rev_last [OF assms(1), of "CHR ''['' # h @ [CHR '']'']"] by simp
  have "takeWhile (\<lambda>c. c \<noteq> CHR '']'') (h @ CHR '']'' # CHR '':'' # p) = h"
    using assms(2) by (simp add: takeWhile_upto)
  then have e: "takeWhile (\<lambda>c. c \<noteq> CHR '']'') ?s = CHR ''['' # h" by simp
  show ?thesis
    unfolding SplitHostPort_def Let_def p e using assms by (simp add: split_checked_def)
qed

lemma SplitHostPort_no_colon [hostport_simps]:
  "CHR '':'' \<notin> set s \<Longrightarrow> SplitHostPort s = Inl (AddrError s missingPort)"
  by (simp add: SplitHostPort_def)

lemma SplitHostPort_many [hostport_simps]:
  assumes "CHR '':'' \<in> set h" "CHR '':'' \<notin> set p" "CHR ''['' \<notin> set h"
  shows "SplitHostPort (h @ CHR '':'' # p) = Inl (AddrError (h @ CHR '':'' # p) tooManyColons)"
proof -
  have "hd (h @ CHR '':'' # p) \<noteq> CHR ''[''" using assms by (cases h) auto
  then show ?thesis
    using assms unfolding SplitHostPort_def by (simp add: takeWhile_rev_last del: rev_append)
qed

lemma JoinHostPort_split:
  assumes "no_brackets h" "no_brackets p" "CHR '':'' \<notin> set p"
  shows "SplitHostPort (JoinHostPort h p) = Inr (h, p)"
proof (cases "CHR '':'' \<in> set h")
  case True
  then show ?thesis using SplitHostPort_bracketed [OF assms(3,1,2)] by (simp add: JoinHostPort_def)
next
  case False
  then show ?thesis using SplitHostPort_plain [OF False assms(3,1,2)] by (simp add: JoinHostPort_def)
qed

section \<open>Paths\<close>

fun split_on :: "char \<Rightarrow> string \<Rightarrow> string list" where
  "split_on d [] = [[]]"
| "split_on d (c # s) =
     (if c = d then [] # split_on d s else (case split_on d s of x # xs \<Rightarrow> (c # x) # xs | [] \<Rightarrow> [[c]]))"

lemma split_on_not_Nil [simp]: "split_on d s \<noteq> []"
  by (induction s) (auto split: list.split)

lemma split_on_clean: "x \<in> set (split_on d s) \<Longrightarrow> d \<notin> set x"
  by (induction s arbitrary: x) (fastforce split: list.splits if_splits)+

lemma split_on_single: "d \<notin> set s \<Longrightarrow> split_on d s = [s]"
  by (induction s) auto

lemma split_on_pair: "d \<notin> set x \<Longrightarrow> split_on d (x @ d # s) = x # split_on d s"
  by (induction x) auto

text \<open>The elements of a path, \<open>..\<close> taken up into its parent; \<open>acc\<close> holds the elements kept so far, the last one first.\<close>

fun clean_elems :: "bool \<Rightarrow> string list \<Rightarrow> string list \<Rightarrow> string list" where
  "clean_elems rooted acc [] = rev acc"
| "clean_elems rooted acc (e # es) =
     (if e = [] \<or> e = ''.'' then clean_elems rooted acc es
      else if e = ''..'' then
        (case acc of
           [] \<Rightarrow> clean_elems rooted (if rooted then [] else [''..'']) es
         | a # acc' \<Rightarrow> if a = ''..'' then clean_elems rooted (''..'' # acc) es else clean_elems rooted acc' es)
      else clean_elems rooted (e # acc) es)"

fun join_path :: "string list \<Rightarrow> string" where
  "join_path [] = []"
| "join_path [e] = e"
| "join_path (e # f # es) = e @ ''/'' @ join_path (f # es)"

definition filepath_Clean :: "string \<Rightarrow> string" where
  "filepath_Clean path =
     (let rooted = (path \<noteq> [] \<and> hd path = CHR ''/'');
          es = clean_elems rooted [] (split_on (CHR ''/'') path);
          out = (if rooted then ''/'' else []) @ join_path es
      in if out = [] then ''.'' else out)"

fun filepath_Join :: "string list \<Rightarrow> string" where
  "filepath_Join [] = []"
| "filepath_Join (e # es) = (if e = [] then filepath_Join es else filepath_Clean (join_path (e # es)))"

definition filepath_Dir :: "string \<Rightarrow> string" where
  "filepath_Dir path = filepath_Clean (rev (dropWhile (\<lambda>c. c \<noteq> CHR ''/'') (rev path)))"

definition filepath_Base :: "string \<Rightarrow> string" where
  "filepath_Base path =
     (if path = [] then ''.''
      else let p = rev (dropWhile (\<lambda>c. c = CHR ''/'') (rev path));
               b = rev (takeWhile (\<lambda>c. c \<noteq> CHR ''/'') (rev p))
           in if b = [] then ''/'' else b)"

definition filepath_Ext :: "string \<Rightarrow> string" where
  "filepath_Ext path =
     (let r = takeWhile (\<lambda>c. c \<noteq> CHR ''/'') (rev path)
      in if CHR ''.'' \<in> set r then CHR ''.'' # rev (takeWhile (\<lambda>c. c \<noteq> CHR ''.'') r) else [])"

definition TrimSuffix :: "string \<Rightarrow> string \<Rightarrow> string" where
  "TrimSuffix s sfx = (if length sfx \<le> length s \<and> drop (length s - length sfx) s = sfx then take (length s - length sfx) s else s)"

section \<open>Environment variables\<close>

definition isShellSpecialVar :: "char \<Rightarrow> bool" where
  "isShellSpecialVar c \<longleftrightarrow> c \<in> set ''*#$@!?-0123456789''"

definition char_in :: "char \<Rightarrow> char \<Rightarrow> char \<Rightarrow> bool" where
  "char_in lo hi c \<longleftrightarrow> lo \<le> c \<and> c \<le> hi"

definition isAlphaNum :: "char \<Rightarrow> bool" where
  "isAlphaNum c \<longleftrightarrow>
     c = CHR ''_'' \<or> char_in (CHR ''0'') (CHR ''9'') c \<or> char_in (CHR ''a'') (CHR ''z'') c \<or> char_in (CHR ''A'') (CHR ''Z'') c"

text \<open>The name after a dollar sign, and the number of bytes it takes; the text is not empty.\<close>

definition getShellName :: "string \<Rightarrow> string \<times> nat" where
  "getShellName s =
     (if hd s = CHR ''{'' then
        (if 2 < length s \<and> isShellSpecialVar (s ! 1) \<and> s ! 2 = CHR ''}'' then ([s ! 1], 3)
         else let body = takeWhile (\<lambda>c. c \<noteq> CHR ''}'') (tl s)
              in if CHR ''}'' \<in> set (tl s) then (if body = [] then ([], 2) else (body, length body + 2)) else ([], 1))
      else if isShellSpecialVar (hd s) then ([hd s], 1)
      else let n = takeWhile isAlphaNum s in (n, length n))"

function os_Expand :: "(string \<Rightarrow> string) \<Rightarrow> string \<Rightarrow> string" where
  "os_Expand f [] = []"
| "os_Expand f (c # s) =
     (if c = CHR ''$'' \<and> s \<noteq> [] then
        (case getShellName s of (n, w) \<Rightarrow>
           (if n = [] \<and> w > 0 then [] else if n = [] then [c] else f n) @ os_Expand f (drop w s))
      else c # os_Expand f s)"
  by pat_completeness auto
termination by (relation "measure (length \<circ> snd)") auto

lemma os_Expand_plain: "CHR ''$'' \<notin> set s \<Longrightarrow> os_Expand f s = s"
  by (induction f s rule: os_Expand.induct) auto

end
