(* ===== verification/Configuration.thy ===== *)
theory Configuration
  imports Net_Path
begin

text \<open>
  The configuration, src/config.go, and the levels of the loggers, src/log.go.  \<open>Validate\<close> is translated in the order
  of the code; its parts are definitions of their own.  The operating system, the resolver and the logging packages
  are parameters.  What is printed to the console is left out.
\<close>

section \<open>The system\<close>

text \<open>\<open>os.Exit\<close> ends the program with a status.\<close>

datatype 'a exit = Exit nat | Running 'a

primrec run_bind :: "'a exit \<Rightarrow> ('a \<Rightarrow> 'b exit) \<Rightarrow> 'b exit" where
  "run_bind (Exit n) f = Exit n"
| "run_bind (Running x) f = f x"

text \<open>
  \<open>'f\<close> is the file system: \<open>os_Stat\<close> tells whether a path is a directory, or gives an error.  \<open>'v\<close> are the levels of
  btclog, and \<open>LoggerFromConfigAsString\<close> is seelog's.
\<close>

record ('f, 'v) sys =
  os_Stat :: "'f \<Rightarrow> string \<Rightarrow> error + bool"
  os_IsNotExist :: "error \<Rightarrow> bool"
  os_MkdirAll :: "'f \<Rightarrow> string \<Rightarrow> 'f \<times> error option"
  os_ReadFile :: "'f \<Rightarrow> string \<Rightarrow> error + bytes"
  os_WriteFile :: "'f \<Rightarrow> string \<Rightarrow> bytes \<Rightarrow> 'f \<times> error option"
  os_Getenv :: "string \<Rightarrow> string"
  AppDataDir :: "string \<Rightarrow> string"
  NumCPU :: int
  LookupHost :: "string \<Rightarrow> error + string list"
  LogLevelFromString :: "string \<Rightarrow> 'v option"
  InfoLvl :: 'v
  LoggerFromConfigAsString :: "string \<Rightarrow> error option"

section \<open>Loggers\<close>

text \<open>A logger is disabled until a level is set; \<open>subsystemLoggers\<close> maps the subsystems to their loggers.\<close>

datatype 'v logger = Disabled | Logger string 'v

type_synonym 'v loggers = "(string \<times> 'v logger) list"

definition subsystemLoggers :: "'v loggers" where
  "subsystemLoggers =
     [(''BMC'', Disabled), (''SRVR'', Disabled), (''RPCC'', Disabled), (''RPCS'', Disabled), (''IMAP'', Disabled),
      (''SMTP'', Disabled), (''POW'', Disabled)]"

definition useLogger :: "'v loggers \<Rightarrow> string \<Rightarrow> 'v logger \<Rightarrow> 'v loggers" where
  "useLogger L subsystemID l =
     (if map_of L subsystemID = None then L else map (\<lambda>(k, x). if k = subsystemID then (k, l) else (k, x)) L)"

definition seelog_config :: "string \<Rightarrow> bool \<Rightarrow> string" where
  "seelog_config logFile logConsole =
     (let nl = [CHR 0x0A]; tab = (\<lambda>n. replicate n (CHR 0x09)); q = [CHR 0x22]; eq = (\<lambda>k v. k @ ''='' @ q @ v @ q)
      in nl @ tab 1 @ ''<seelog '' @ eq ''type'' ''adaptive'' @ '' '' @ eq ''mininterval'' ''2000000'' @ '' '' @
         eq ''maxinterval'' ''100000000'' @ nl @ tab 2 @ eq ''critmsgcount'' ''500'' @ '' '' @ eq ''minlevel'' ''trace'' @ ''>'' @ nl @
         tab 2 @ ''<outputs '' @ eq ''formatid'' ''all'' @ ''>'' @ nl @
         tab 3 @ (if logConsole then ''<console />'' else []) @ nl @
         tab 3 @ ''<rollingfile '' @ eq ''type'' ''size'' @ '' '' @ eq ''filename'' logFile @ '' '' @ eq ''maxsize'' ''10485760'' @ '' '' @
           eq ''maxrolls'' ''3'' @ '' />'' @ nl @
         tab 2 @ ''</outputs>'' @ nl @ tab 2 @ ''<formats>'' @ nl @
         tab 3 @ ''<format '' @ eq ''id'' ''all'' @ '' '' @ eq ''format'' ''%Time %Date [%LEV] %Msg%n'' @ '' />'' @ nl @
         tab 2 @ ''</formats>'' @ nl @ tab 1 @ ''</seelog>'')"

definition initSeelogLogger :: "('f, 'v) sys \<Rightarrow> string \<Rightarrow> bool \<Rightarrow> unit exit" where
  "initSeelogLogger S logFile logConsole =
     (case LoggerFromConfigAsString S (seelog_config logFile logConsole) of Some _ \<Rightarrow> Exit 1 | None \<Rightarrow> Running ())"

text \<open>A logger that is made for a subsystem is given its level at once.\<close>

definition setLogLevel :: "('f, 'v) sys \<Rightarrow> 'v loggers \<Rightarrow> string \<Rightarrow> string \<Rightarrow> 'v loggers" where
  "setLogLevel S L subsystemID logLevel =
     (case map_of L subsystemID of
        None \<Rightarrow> L
      | Some l \<Rightarrow>
          let level = (case LogLevelFromString S logLevel of None \<Rightarrow> InfoLvl S | Some v \<Rightarrow> v)
          in useLogger L subsystemID (case l of Disabled \<Rightarrow> Logger (subsystemID @ '': '') level | Logger p _ \<Rightarrow> Logger p level))"

definition setLogLevels :: "('f, 'v) sys \<Rightarrow> 'v loggers \<Rightarrow> string \<Rightarrow> 'v loggers" where
  "setLogLevels S L logLevel = foldl (\<lambda>M k. setLogLevel S M k logLevel) L (map fst L)"

section \<open>The configuration\<close>

definition defaultCAFilename :: string where "defaultCAFilename = ''bmd.cert''"
definition defaultConfigFilename :: string where "defaultConfigFilename = ''bmagent.conf''"
definition defaultLogLevel :: string where "defaultLogLevel = ''info''"
definition defaultLogDirname :: string where "defaultLogDirname = ''logs''"
definition defaultLogFilename :: string where "defaultLogFilename = ''bmagent.log''"
definition defaultBmdPort :: nat where "defaultBmdPort = 8442"
definition defaultRPCPort :: nat where "defaultRPCPort = 8446"
definition defaultIMAPPort :: nat where "defaultIMAPPort = 1143"
definition defaultSMTPPort :: nat where "defaultSMTPPort = 1587"
definition keyfileName :: string where "keyfileName = ''keys.dat''"
definition storeDbName :: string where "storeDbName = ''store.db''"

text \<open>Durations are in nanoseconds.\<close>

definition hour :: int where "hour = 3600 * 10 ^ 9"
definition defaultMsgExpiry :: int where "defaultMsgExpiry = hour * 60"
definition defaultBroadcastExpiry :: int where "defaultBroadcastExpiry = hour * 48"
definition defaultPubkeyExpiry :: int where "defaultPubkeyExpiry = hour * 24 * 14"
definition defaultGetpubkeyExpiry :: int where "defaultGetpubkeyExpiry = hour * 24 * 14"
definition defaultUnknownObjExpiry :: int where "defaultUnknownObjExpiry = hour * 24"

definition defaultDataDir :: "('f, 'v) sys \<Rightarrow> string" where
  "defaultDataDir S = AppDataDir S ''bmagent''"

definition bmdHomedirCAFile :: "('f, 'v) sys \<Rightarrow> string" where
  "bmdHomedirCAFile S = filepath_Join [AppDataDir S ''bmd'', ''rpc.cert'']"

definition defaultTLSKeyFile :: "('f, 'v) sys \<Rightarrow> string" where
  "defaultTLSKeyFile S = filepath_Join [defaultDataDir S, ''tls.key'']"

definition defaultTLSCertFile :: "('f, 'v) sys \<Rightarrow> string" where
  "defaultTLSCertFile S = filepath_Join [defaultDataDir S, ''tls.cert'']"

definition defaultLogDir :: "('f, 'v) sys \<Rightarrow> string" where
  "defaultLogDir S = filepath_Join [defaultDataDir S, defaultLogDirname]"

datatype powHandler = NoHandler | DoSequential | DoParallel int

record agent_Config =
  ShowVersion :: bool
  DataDir :: string
  LogDir :: string
  DebugLevel :: string
  ConfigFile :: string
  CreateFlag :: bool
  ImportKeyFile :: string
  NoPass :: bool
  Seed :: string
  EnableRPC :: bool
  RPCListeners :: "string list"
  IMAPListeners :: "string list"
  SMTPListeners :: "string list"
  DisableServerTLS :: bool
  DisableClientTLS :: bool
  CAFile :: string
  RPCConnect :: string
  Username :: string
  Password :: string
  BmdUsername :: string
  BmdPassword :: string
  RPCUser :: string
  RPCPass :: string
  RPCLimitUser :: string
  RPCLimitPass :: string
  RPCCert :: string
  RPCKey :: string
  RPCMaxClients :: int
  Profile :: string
  ProofOfWork :: string
  PowThreads :: int
  MsgExpiry :: int
  BroadcastExpiry :: int
  LogConsole :: bool
  GenKeys :: u16
  powHandler :: powHandler
  storePath :: string
  keyfilePath :: string
  keyfilePass :: "bytes option"

record rpc_Config =
  rpc_DisableTLS :: bool
  rpc_Key :: string
  rpc_Cert :: string
  rpc_User :: string
  rpc_Pass :: string
  rpc_LimitUser :: string
  rpc_LimitPass :: string
  rpc_MaxClients :: u32
  rpc_Listeners :: "string list"

definition RPCConfig :: "agent_Config \<Rightarrow> rpc_Config" where
  "RPCConfig cfg =
     \<lparr>rpc_DisableTLS = DisableServerTLS cfg, rpc_Key = RPCKey cfg, rpc_Cert = RPCCert cfg, rpc_User = RPCUser cfg,
      rpc_Pass = RPCPass cfg, rpc_LimitUser = RPCLimitUser cfg, rpc_LimitPass = RPCLimitPass cfg,
      rpc_MaxClients = word_of_int (RPCMaxClients cfg), rpc_Listeners = RPCListeners cfg\<rparr>"

definition DefaultConfig :: "('f, 'v) sys \<Rightarrow> agent_Config" where
  "DefaultConfig S =
     \<lparr>ShowVersion = False, DataDir = defaultDataDir S, LogDir = defaultLogDir S, DebugLevel = defaultLogLevel,
      ConfigFile = defaultConfigFilename, CreateFlag = False, ImportKeyFile = [], NoPass = False, Seed = [],
      EnableRPC = False, RPCListeners = [], IMAPListeners = [], SMTPListeners = [], DisableServerTLS = False,
      DisableClientTLS = False, CAFile = [], RPCConnect = [], Username = [], Password = [], BmdUsername = [],
      BmdPassword = [], RPCUser = [], RPCPass = [], RPCLimitUser = [], RPCLimitPass = [],
      RPCCert = defaultTLSCertFile S, RPCKey = defaultTLSKeyFile S, RPCMaxClients = 0, Profile = [],
      ProofOfWork = ''parallel'', PowThreads = NumCPU S, MsgExpiry = defaultMsgExpiry,
      BroadcastExpiry = defaultBroadcastExpiry, LogConsole = True, GenKeys = - 1, powHandler = NoHandler,
      storePath = [], keyfilePath = [], keyfilePass = None\<rparr>"

section \<open>Paths and files\<close>

definition cleanAndExpandPath :: "('f, 'v) sys \<Rightarrow> string \<Rightarrow> string" where
  "cleanAndExpandPath S path =
     (let p = (case path of
                 c # s \<Rightarrow> if c = CHR ''~'' then filepath_Dir (defaultDataDir S) @ s else path
               | [] \<Rightarrow> path)
      in filepath_Clean (os_Expand (os_Getenv S) p))"

definition fileExists :: "('f, 'v) sys \<Rightarrow> 'f \<Rightarrow> string \<Rightarrow> bool" where
  "fileExists S fs name = (case os_Stat S fs name of Inl e \<Rightarrow> \<not> os_IsNotExist S e | Inr _ \<Rightarrow> True)"

definition checkCreateDir :: "('f, 'v) sys \<Rightarrow> 'f \<Rightarrow> string \<Rightarrow> 'f \<times> error option" where
  "checkCreateDir S fs path =
     (case os_Stat S fs path of
        Inl e \<Rightarrow>
          if os_IsNotExist S e
          then (case os_MkdirAll S fs path of
                  (fs1, Some e1) \<Rightarrow> (fs1, Some (ErrText (''cannot create directory: '' @ error_text e1)))
                | (fs1, None) \<Rightarrow> (fs1, None))
          else (fs, Some (ErrText (''error checking directory: '' @ error_text e)))
      | Inr isDir \<Rightarrow>
          (fs, if isDir then None
               else Some (ErrText (''path '' @ [CHR 0x27] @ path @ [CHR 0x27] @ '' is not a directory''))))"

section \<open>Debug levels\<close>

definition validLogLevel :: "string \<Rightarrow> bool" where
  "validLogLevel s \<longleftrightarrow> s \<in> set [''trace'', ''debug'', ''info'', ''warn'', ''error'', ''critical'']"

definition supportedSubsystems :: "'v loggers \<Rightarrow> string list" where
  "supportedSubsystems L = sort (map fst L)"

fun fmt_words :: "string list \<Rightarrow> string" where
  "fmt_words [] = []"
| "fmt_words [x] = x"
| "fmt_words (x # y # xs) = x @ '' '' @ fmt_words (y # xs)"

fun set_levels :: "('f, 'v) sys \<Rightarrow> 'v loggers \<Rightarrow> string list \<Rightarrow> 'v loggers \<times> error option" where
  "set_levels S L [] = (L, None)"
| "set_levels S L (p # ps) =
     (if CHR ''='' \<notin> set p
      then (L, Some (ErrText (''The specified debug level contains an invalid subsystem/level pair ['' @ p @ '']'')))
      else
        let fields = split_on (CHR ''='') p; subsysID = fields ! 0; logLevel = fields ! 1
        in if map_of L subsysID = None
           then (L, Some (ErrText (''The specified subsystem ['' @ subsysID @ ''] is invalid -- supported subsytems ['' @
                    fmt_words (supportedSubsystems L) @ '']'')))
           else if \<not> validLogLevel logLevel
           then (L, Some (ErrText (''The specified debug level ['' @ logLevel @ ''] is invalid'')))
           else set_levels S (setLogLevel S L subsysID logLevel) ps)"

definition parseAndSetDebugLevels :: "('f, 'v) sys \<Rightarrow> 'v loggers \<Rightarrow> string \<Rightarrow> 'v loggers \<times> error option" where
  "parseAndSetDebugLevels S L debugLevel =
     (if CHR '','' \<notin> set debugLevel \<and> CHR ''='' \<notin> set debugLevel
      then (if \<not> validLogLevel debugLevel
            then (L, Some (ErrText (''The specified debug level ['' @ debugLevel @ ''] is invalid'')))
            else (setLogLevels S L debugLevel, None))
      else set_levels S L (split_on (CHR '','') debugLevel))"

section \<open>Addresses\<close>

fun remove_seen :: "string list \<Rightarrow> string list \<Rightarrow> string list \<Rightarrow> string list" where
  "remove_seen result seen [] = result"
| "remove_seen result seen (v # vs) =
     (if v \<in> set seen then remove_seen result seen vs else remove_seen (result @ [v]) (v # seen) vs)"

definition removeDuplicateAddresses :: "string list \<Rightarrow> string list" where
  "removeDuplicateAddresses addrs = remove_seen [] [] addrs"

definition normalizeAddress :: "string \<Rightarrow> nat \<Rightarrow> string" where
  "normalizeAddress addr defaultPort =
     (case SplitHostPort addr of Inl _ \<Rightarrow> JoinHostPort addr (fmt_d defaultPort) | Inr _ \<Rightarrow> addr)"

definition normalizeAddresses :: "string list \<Rightarrow> nat \<Rightarrow> string list" where
  "normalizeAddresses addrs defaultPort = removeDuplicateAddresses (map (\<lambda>a. normalizeAddress a defaultPort) addrs)"

definition localhostListeners :: "string list" where
  "localhostListeners = [''localhost'', ''127.0.0.1'', ''::1'']"

fun verifyListeners :: "string list \<Rightarrow> string \<Rightarrow> string \<Rightarrow> error option" where
  "verifyListeners [] service funcName = None"
| "verifyListeners (addr # addrs) service funcName =
     (case SplitHostPort addr of
        Inl e \<Rightarrow> Some (ErrText (funcName @ '': '' @ service @ '' listen interface '' @ [CHR 0x27] @ addr @ [CHR 0x27] @
                    '' is invalid: '' @ error_text e))
      | Inr (host, _) \<Rightarrow>
          if host \<notin> set localhostListeners
          then Some (ErrText (funcName @ '': the --noservertls option may not be used when binding '' @ service @
                  '' to non localhost addresses: '' @ addr))
          else verifyListeners addrs service funcName)"

section \<open>Validate\<close>

definition validate_dirs :: "('f, 'v) sys \<Rightarrow> 'f \<Rightarrow> agent_Config \<Rightarrow> 'f \<times> agent_Config \<times> error option" where
  "validate_dirs S fs cfg =
     (let cfg1 =
            (if DataDir cfg \<noteq> defaultDataDir S then
               let c1 = (if RPCKey cfg = defaultTLSKeyFile S
                         then cfg\<lparr>RPCKey := filepath_Join [DataDir cfg, ''rpc.key'']\<rparr> else cfg);
                   c2 = (if RPCCert c1 = defaultTLSCertFile S
                         then c1\<lparr>RPCCert := filepath_Join [DataDir c1, ''rpc.cert'']\<rparr> else c1)
               in c2\<lparr>DataDir := cleanAndExpandPath S (DataDir c2)\<rparr>
             else cfg)
      in case checkCreateDir S fs (DataDir cfg1) of
           (fs1, Some e) \<Rightarrow> (fs1, cfg1, Some e)
         | (fs1, None) \<Rightarrow> (fs1, cfg1\<lparr>LogDir := cleanAndExpandPath S (LogDir cfg1)\<rparr>, None))"

definition validate_pow :: "agent_Config \<Rightarrow> agent_Config \<times> error option" where
  "validate_pow cfg =
     (if ProofOfWork cfg = ''sequential'' then (cfg\<lparr>powHandler := DoSequential\<rparr>, None)
      else if ProofOfWork cfg = ''parallel'' then
        (if PowThreads cfg < 2
         then (cfg, Some (ErrText ''Number of threads for proof-of-work cannot be less than 2''))
         else (cfg\<lparr>powHandler := DoParallel (PowThreads cfg)\<rparr>, None))
      else (cfg, Some (ErrText ''Unknown proof-of-work handler'')))"

definition connect_address :: "agent_Config \<Rightarrow> agent_Config" where
  "connect_address cfg =
     (let cfg1 = (if RPCConnect cfg = [] then cfg\<lparr>RPCConnect := ''127.0.0.1''\<rparr> else cfg)
      in cfg1\<lparr>RPCConnect := normalizeAddress (RPCConnect cfg1) defaultBmdPort\<rparr>)"

definition ca_file :: "('f, 'v) sys \<Rightarrow> 'f \<Rightarrow> string \<Rightarrow> agent_Config \<Rightarrow> string" where
  "ca_file S fs RPCHost cfg =
     cleanAndExpandPath S
       (if CAFile cfg = [] then
          let file = filepath_Join [DataDir cfg, defaultCAFilename]
          in if \<not> fileExists S fs file \<and> RPCHost \<in> set localhostListeners \<and> fileExists S fs (bmdHomedirCAFile S)
             then bmdHomedirCAFile S else file
        else CAFile cfg)"

definition validate_client :: "('f, 'v) sys \<Rightarrow> 'f \<Rightarrow> agent_Config \<Rightarrow> agent_Config \<times> error option" where
  "validate_client S fs cfg0 =
     (let cfg = connect_address cfg0
      in case SplitHostPort (RPCConnect cfg) of
           Inl e \<Rightarrow> (cfg, Some e)
         | Inr (RPCHost, _) \<Rightarrow>
             if DisableClientTLS cfg then
               (cfg, if RPCHost \<notin> set localhostListeners
                     then Some (ErrText (''Validate: the --noclienttls option may not be used when connecting RPC to non localhost addresses: '' @
                            RPCConnect cfg))
                     else None)
             else (cfg\<lparr>CAFile := ca_file S fs RPCHost cfg\<rparr>, None))"

definition on_localhost :: "string list \<Rightarrow> nat \<Rightarrow> string list" where
  "on_localhost addrs port = map (\<lambda>a. JoinHostPort a (fmt_d port)) addrs"

definition default_listeners :: "string list \<Rightarrow> agent_Config \<Rightarrow> agent_Config" where
  "default_listeners addrs cfg =
     (let c1 = (if EnableRPC cfg \<and> RPCListeners cfg = [] then cfg\<lparr>RPCListeners := on_localhost addrs defaultRPCPort\<rparr> else cfg);
          c2 = (if IMAPListeners c1 = [] then c1\<lparr>IMAPListeners := on_localhost addrs defaultIMAPPort\<rparr> else c1)
      in if SMTPListeners c2 = [] then c2\<lparr>SMTPListeners := on_localhost addrs defaultSMTPPort\<rparr> else c2)"

definition normalize_listeners :: "agent_Config \<Rightarrow> agent_Config" where
  "normalize_listeners cfg =
     cfg\<lparr>RPCListeners := normalizeAddresses (RPCListeners cfg) defaultRPCPort,
         IMAPListeners := normalizeAddresses (IMAPListeners cfg) defaultIMAPPort,
         SMTPListeners := normalizeAddresses (SMTPListeners cfg) defaultSMTPPort\<rparr>"

definition verify_listeners :: "agent_Config \<Rightarrow> error option" where
  "verify_listeners cfg =
     (if \<not> DisableServerTLS cfg then None
      else case verifyListeners (RPCListeners cfg) ''RPC'' ''Validate'' of
        Some e \<Rightarrow> Some e
      | None \<Rightarrow>
          (case verifyListeners (IMAPListeners cfg) ''IMAP'' ''Validate'' of
             Some e \<Rightarrow> Some e
           | None \<Rightarrow> verifyListeners (SMTPListeners cfg) ''SMTP'' ''Validate''))"

definition validate_servers :: "('f, 'v) sys \<Rightarrow> agent_Config \<Rightarrow> agent_Config \<times> error option" where
  "validate_servers S cfg =
     (case LookupHost S ''localhost'' of
        Inl e \<Rightarrow> (cfg, Some e)
      | Inr addrs \<Rightarrow>
          let cfg1 = normalize_listeners (default_listeners addrs cfg)
          in case verify_listeners cfg1 of
               Some e \<Rightarrow> (cfg1, Some e)
             | None \<Rightarrow>
                 let cfg2 = (if BmdUsername cfg1 = [] then cfg1\<lparr>BmdUsername := Username cfg1\<rparr> else cfg1)
                 in (if BmdPassword cfg2 = [] then cfg2\<lparr>BmdPassword := Password cfg2\<rparr> else cfg2, None))"

definition Validate ::
  "('f, 'v) sys \<Rightarrow> 'f \<Rightarrow> 'v loggers \<Rightarrow> agent_Config \<Rightarrow> ('f \<times> 'v loggers \<times> agent_Config \<times> error option) exit" where
  "Validate S fs L cfg =
     (case validate_dirs S fs cfg of
        (fs1, cfg1, Some e) \<Rightarrow> Running (fs1, L, cfg1, Some e)
      | (fs1, cfg1, None) \<Rightarrow>
          if DebugLevel cfg1 = ''show'' then Exit 0
          else run_bind (initSeelogLogger S (filepath_Join [LogDir cfg1, defaultLogFilename]) (LogConsole cfg1)) (\<lambda>_.
            case parseAndSetDebugLevels S (setLogLevels S L defaultLogLevel) (DebugLevel cfg1) of
              (L1, Some e) \<Rightarrow> Running (fs1, L1, cfg1, Some (ErrText (''loadConfig: '' @ error_text e)))
            | (L1, None) \<Rightarrow>
                (case validate_pow cfg1 of
                   (cfg2, Some e) \<Rightarrow> Running (fs1, L1, cfg2, Some e)
                 | (cfg2, None) \<Rightarrow>
                     if Username cfg2 = [] \<or> Password cfg2 = []
                     then Running (fs1, L1, cfg2, Some (ErrText ''Username and password cannot be left blank.''))
                     else
                       (case validate_client S fs1 cfg2 of
                          (cfg3, Some e) \<Rightarrow> Running (fs1, L1, cfg3, Some e)
                        | (cfg3, None) \<Rightarrow>
                            (case validate_servers S cfg3 of (cfg4, e) \<Rightarrow> Running (fs1, L1, cfg4, e))))))"

end
