(* ===== verification/Server.thy ===== *)
theory Server
  imports Mail_Server Store_DB Bmrpc Configuration
begin

text \<open>
  The server of package main: src/server.go, src/serverops.go and src/user.go.

  The server, the operations it gives to its users (\<open>serverOps\<close>), the users and the key managers point at each other.
  Here the server is the owner: before a call on a user, the user is given the server's present key manager, client
  and proof-of-work queue (\<open>attach\<close>), and after the call the server takes them back (\<open>on_imap\<close>).  The user's own queue is
  nil (see \<open>NewUser\<close>), so the server's queue holds only the server's tasks.  The functions of the libraries that decode,
  decrypt and generate objects are parameters.  Logging is left out.
\<close>

section \<open>Parameters\<close>

record getpubkey =
  gp_Version :: u64
  gp_Ripe :: bytes
  gp_Tag :: bytes

text \<open>\<open>'e\<close> are encrypted objects, messages and broadcasts.\<close>

record ('o, 'p, 'a, 'e) objlib =
  Message_Decode :: "bytes \<Rightarrow> error + 'e"
  Message_Encrypted :: "'e \<Rightarrow> bytes"
  TryDecryptAndVerifyMessage :: "'e \<Rightarrow> 'p \<Rightarrow> error + cipher_message"
  DecodeBroadcast :: "bytes \<Rightarrow> error + 'e"
  Broadcast_Encrypted :: "'e \<Rightarrow> bytes"
  TryDecryptAndVerifyBroadcast :: "'e \<Rightarrow> 'a \<Rightarrow> error + cipher_message"
  GetPubKey_Decode :: "bytes \<Rightarrow> error + getpubkey"
  MsgObject_Decode :: "bytes \<Rightarrow> error option"
  object_Hash :: "bytes \<Rightarrow> bytes"
  AckLength :: nat
  MessageHeaderSize :: nat
  SimplePubKeyVersion :: u64
  ExtendedPubKeyVersion :: u64
  TagGetPubKeyVersion :: u64
  address_Ripe :: "string \<Rightarrow> bytes"
  address_Tag :: "string \<Rightarrow> bytes"
  GeneratePubKey :: "gotime \<Rightarrow> 'p \<Rightarrow> int \<Rightarrow> error + 'o"
  NewGetPubKey :: "gotime \<Rightarrow> 'a \<Rightarrow> 'o"
  pow_Default :: PowData
  objectType_num :: "ObjectType \<Rightarrow> u32"

text \<open>What the server calls: the store's database, the libraries, the node, and the system.\<close>

record ('db, 'k, 'b, 'c, 'o, 'a, 'p, 'q, 't, 'n, 'y, 'e, 'f, 'v) sdeps =
  sbolt :: "'db bolt"
  scrypto :: crypto
  sident :: "('k, 'b, 'c, 'p) identity"
  sjson :: jsonlib
  sbm :: "'a bmutil"
  sbox :: "('db world, store_folder, 'o) deps"
  snet :: "('o, 'p, 'q, 't) netlib"
  spub :: "'q publib"
  stext :: "BitmessageIdentity \<Rightarrow> string"
  sobj :: "('o, 'p, 'a, 'e) objlib"
  sbmd :: "('n, 'y, 'a, 'q) bmdlib"
  ssys :: "('f, 'v) sys"
  net_Listen :: "string \<Rightarrow> error option"
  GRPCServer :: "rpc_Config \<Rightarrow> error option"

section \<open>The state\<close>

text \<open>The user as the server sees it, src/user.go.\<close>

record ('k, 'p) main_User =
  Keys :: "('k, 'p) Manager"
  Path :: string
  mUsername :: string
  Pass :: "bytes option"

text \<open>The functions that are given to the proof-of-work queue: send the object, and for a request also record it.\<close>

datatype server_task = SendPubkey | RequestPubkey string

type_synonym 't server_Pow = "('t, server_task) powOrder Pow"

record ('k, 'p, 'q, 't, 'n) serverOps =
  pubIDs :: "string \<rightharpoonup> 'q Public"
  ops_Keys :: "('k, 'p) Manager"
  ops_bmd :: "'n Client"
  ops_pow :: "'t server_Pow"

type_synonym ('k, 'o, 'p, 'q, 't, 'n) imap_user =
  "(store_folder, 'o, ('k, 'p) Manager, ('k, 'p, 'q, 't, 'n) serverOps, 't) user"

record ('k, 'a, 'o, 'p, 'q, 't, 'n) server =
  bmd :: "'n Client"
  users :: "u32 \<rightharpoonup> ('k, 'p) main_User"
  sv_store :: "'a Store"
  sv_pow :: "'t server_Pow"
  started :: u32
  shutdown :: u32
  msgCounter :: u64
  broadcastCounter :: u64
  getpubkeyCounter :: u64
  imapUser :: "u32 \<rightharpoonup> ('k, 'o, 'p, 'q, 't, 'n) imap_user"
  imapListeners :: "string list"
  smtpListeners :: "string list"
  rpcServer :: "bool option"
  sv_quit :: bool

text \<open>A \<open>range\<close> loop over a map with keys of 32 bits.\<close>

definition range_u32 :: "'x env_scheme \<Rightarrow> u32 set \<Rightarrow> 'x env_scheme \<times> u32 list" where
  "range_u32 w K = (case range_keys w (ucast ` K) of (w1, ks) \<Rightarrow> (w1, map ucast ks))"

section \<open>The operations given to the users\<close>

text \<open>
  \<open>getOrRequestPublicIdentity\<close>: \<open>None\<close> is the pair of nils, a request that was queued.
\<close>

definition getOrRequestPublicIdentity ::
  "('db, 'k, 'b, 'c, 'o, 'a, 'p, 'q, 't, 'n, 'y, 'e, 'f, 'v) sdeps \<Rightarrow> 'x env_scheme \<Rightarrow> ('k, 'p, 'q, 't, 'n) serverOps \<Rightarrow> string \<Rightarrow>
    ('x env_scheme \<times> ('k, 'p, 'q, 't, 'n) serverOps \<times> (error + 'q option)) go" where
  "getOrRequestPublicIdentity D w s address =
     (case GetIdentity (sbmd D) (sbm D) (ops_bmd s) address of
        (c1, Inr q) \<Rightarrow> Ret (w, s\<lparr>ops_bmd := c1\<rparr>, Inr (Some q))
      | (c1, Inl e) \<Rightarrow>
          let s1 = s\<lparr>ops_bmd := c1\<rparr>
          in if e \<noteq> ErrIdentityNotFound then Ret (w, s1, Inl e)
             else (case DecodeAddress (sbm D) address of
               Inl e \<Rightarrow> Ret (w, s1, Inl (ErrText (''Failed to decode address: '' @ error_text e)))
             | Inr addr \<Rightarrow>
                 (case time_Now w of (w1, t) \<Rightarrow>
                   let msg = NewGetPubKey (sobj D) (time_Add t defaultGetpubkeyExpiry) addr;
                       enc = EncodeObject (mcodec (sbox D)) msg;
                       b = drop 8 enc
                   in if length enc < 8 then Panic
                      else (case time_Now w1 of (w2, t2) \<Rightarrow>
                        go_bind (Run (ops_pow s1)
                            (CalculateTarget (snet D) (of_nat (length b))
                              (float_Seconds (snet D) (time_Sub (object_Expiration (snet D) msg) t2)) (pow_Default (sobj D)))
                            b (RequestPubkey address))
                          (\<lambda>(p1, _). Ret (w2, s1\<lparr>ops_pow := p1\<rparr>, Inr None))))))"

definition GetPrivateID :: "('k, 'p, 'q, 't, 'n) serverOps \<Rightarrow> string \<Rightarrow> 'p PrivateID option" where
  "GetPrivateID s addr = mgr_Get (ops_Keys s) addr"

text \<open>\<open>private.Public()\<close> is the method that calls itself.\<close>

definition GetOrRequestPublicID ::
  "('db, 'k, 'b, 'c, 'o, 'a, 'p, 'q, 't, 'n, 'y, 'e, 'f, 'v) sdeps \<Rightarrow> 'x env_scheme \<Rightarrow> ('k, 'p, 'q, 't, 'n) serverOps \<Rightarrow> string \<Rightarrow>
    ('x env_scheme \<times> ('k, 'p, 'q, 't, 'n) serverOps \<times> (error + 'q Public)) go" where
  "GetOrRequestPublicID D w s emailAddress =
     (case ToBm (mlib (sbox D)) (sbm D) emailAddress of
        Inl e \<Rightarrow> Ret (w, s, Inl e)
      | Inr addr \<Rightarrow>
          if addr = Broadcast then Ret (w, s, Inr broadcastID)
          else case pubIDs s addr of
            Some q \<Rightarrow> Ret (w, s, Inr q)
          | None \<Rightarrow>
              (case GetPrivateID s addr of
                 Some private \<Rightarrow>
                   (case pid_Public private of
                      None \<Rightarrow> Block
                    | Some p \<Rightarrow> Ret (w, s, Inr (PublicID_of (id_Public (snet D) p))))
               | None \<Rightarrow>
                   go_bind (getOrRequestPublicIdentity D w s addr) (\<lambda>(w1, s1, r). case r of
                     Inl e \<Rightarrow> Ret (w1, s1, Inl e)
                   | Inr None \<Rightarrow> Ret (w1, s1, Inl ErrGetPubKeySent)
                   | Inr (Some q) \<Rightarrow>
                       Ret (w1, s1\<lparr>pubIDs := (pubIDs s1)(addr \<mapsto> PublicID_of q)\<rparr>, Inr (PublicID_of q)))))"

definition ops_Send ::
  "('db, 'k, 'b, 'c, 'o, 'a, 'p, 'q, 't, 'n, 'y, 'e, 'f, 'v) sdeps \<Rightarrow> 'x env_scheme \<Rightarrow> ('k, 'p, 'q, 't, 'n) serverOps \<Rightarrow> bytes \<Rightarrow>
    ('x env_scheme \<times> ('k, 'p, 'q, 't, 'n) serverOps) go" where
  "ops_Send D w s ob = (case SendObject (sbmd D) (ops_bmd s) ob of (c1, _) \<Rightarrow> Ret (w, s\<lparr>ops_bmd := c1\<rparr>))"

definition ObjectExpiration :: "agent_Config \<Rightarrow> ObjectType \<Rightarrow> int" where
  "ObjectExpiration cfg objType =
     (case objType of
        ObjectTypeMsg \<Rightarrow> MsgExpiry cfg
      | ObjectTypeBroadcast \<Rightarrow> BroadcastExpiry cfg
      | ObjectTypeGetPubKey \<Rightarrow> defaultGetpubkeyExpiry
      | ObjectTypePubKey \<Rightarrow> defaultPubkeyExpiry
      | ObjectTypeOther \<Rightarrow> defaultUnknownObjExpiry)"

definition serverOps_ServerOps ::
  "('db, 'k, 'b, 'c, 'o, 'a, 'p, 'q, 't, 'n, 'y, 'e, 'f, 'v) sdeps \<Rightarrow> ('x env_scheme, ('k, 'p, 'q, 't, 'n) serverOps, 'q) ServerOps" where
  "serverOps_ServerOps D = \<lparr>so_GetOrRequestPublicID = GetOrRequestPublicID D, so_Send = ops_Send D\<rparr>"

text \<open>What a user of this server works with.\<close>

definition udeps_of where
  "udeps_of D =
     \<lparr>ubox = sbox D, ubm = sbm D, ukeys = idmgr_Keys (sident D), userver = serverOps_ServerOps D, unet = snet D,
      upub = spub D, utext = stext D\<rparr>"

section \<open>Calls on a user\<close>

definition attach ::
  "('k, 'a, 'o, 'p, 'q, 't, 'n) server \<Rightarrow> u32 \<Rightarrow> ('k, 'o, 'p, 'q, 't, 'n) imap_user \<Rightarrow> ('k, 'o, 'p, 'q, 't, 'n) imap_user" where
  "attach s i u =
     (let k = (case users s i of None \<Rightarrow> mu_keys u | Some m \<Rightarrow> Keys m)
      in u\<lparr>mu_keys := k, user.server := (user.server u)\<lparr>ops_Keys := k, ops_bmd := bmd s, ops_pow := sv_pow s\<rparr>\<rparr>)"

definition take_back ::
  "('k, 'a, 'o, 'p, 'q, 't, 'n) server \<Rightarrow> u32 \<Rightarrow> ('k, 'o, 'p, 'q, 't, 'n) imap_user \<Rightarrow> ('k, 'a, 'o, 'p, 'q, 't, 'n) server" where
  "take_back s i u =
     s\<lparr>imapUser := (imapUser s)(i \<mapsto> u), bmd := ops_bmd (user.server u), sv_pow := ops_pow (user.server u),
       users := (case users s i of None \<Rightarrow> users s | Some m \<Rightarrow> (users s)(i \<mapsto> m\<lparr>Keys := mu_keys u\<rparr>))\<rparr>"

text \<open>A method call on \<open>s.imapUser[i]\<close>, which panics when there is no such user.\<close>

definition on_imap ::
  "('k, 'a, 'o, 'p, 'q, 't, 'n) server \<Rightarrow> u32 \<Rightarrow>
    (('k, 'o, 'p, 'q, 't, 'n) imap_user \<Rightarrow> ('w \<times> ('k, 'o, 'p, 'q, 't, 'n) imap_user \<times> 'r) go) \<Rightarrow>
    ('w \<times> ('k, 'a, 'o, 'p, 'q, 't, 'n) server \<times> 'r) go" where
  "on_imap s i f =
     (case imapUser s i of
        None \<Rightarrow> Panic
      | Some u \<Rightarrow> go_bind (f (attach s i u)) (\<lambda>(w1, u1, r). Ret (w1, take_back s i u1, r)))"

section \<open>Sending\<close>

definition server_Send ::
  "('db, 'k, 'b, 'c, 'o, 'a, 'p, 'q, 't, 'n, 'y, 'e, 'f, 'v) sdeps \<Rightarrow> ('k, 'a, 'o, 'p, 'q, 't, 'n) server \<Rightarrow> bytes \<Rightarrow>
    ('k, 'a, 'o, 'p, 'q, 't, 'n) server \<times> error option" where
  "server_Send D s ob =
     (case SendObject (sbmd D) (bmd s) ob of
        (c1, Inl e) \<Rightarrow> (s\<lparr>bmd := c1\<rparr>, Some e)
      | (c1, Inr _) \<Rightarrow> (s\<lparr>bmd := c1\<rparr>, None))"

text \<open>What runs when the proof of work of a task is completed; the result of \<open>pk.New\<close> is only logged.\<close>

definition server_done ::
  "('db, 'k, 'b, 'c, 'o, 'a, 'p, 'q, 't, 'n, 'y, 'e, 'f, 'v) sdeps \<Rightarrow> 'db world \<Rightarrow> ('k, 'a, 'o, 'p, 'q, 't, 'n) server \<Rightarrow>
    ('t, server_task) powOrder \<Rightarrow> bytes \<Rightarrow> ('db world \<times> ('k, 'a, 'o, 'p, 'q, 't, 'n) server) go" where
  "server_done D w s ord nonce =
     (case server_Send D s (nonce @ object ord) of (s1, _) \<Rightarrow>
        (case donePowFunc ord of
           SendPubkey \<Rightarrow> Ret (w, s1)
         | RequestPubkey address \<Rightarrow> go_bind (pk_New (sbolt D) w address) (\<lambda>(w1, _). Ret (w1, s1))))"

section \<open>Messages\<close>

text \<open>The smallest encrypted text: an IV, the parameters of a curve, one block and a MAC.\<close>

definition minEncrypted :: nat where
  "minEncrypted = 16 + 70 + 16 + 32"

fun ack_users ::
  "('db, 'k, 'b, 'c, 'o, 'a, 'p, 'q, 't, 'n, 'y, 'e, 'f, 'v) sdeps \<Rightarrow> 'db world \<Rightarrow> ('k, 'a, 'o, 'p, 'q, 't, 'n) server \<Rightarrow> bytes \<Rightarrow>
    u32 list \<Rightarrow> ('db world \<times> ('k, 'a, 'o, 'p, 'q, 't, 'n) server) go" where
  "ack_users D w s h [] = Ret (w, s)"
| "ack_users D w s h (i # is) =
     go_bind (on_imap s i (\<lambda>u. DeliverAckReply (udeps_of D) w u h)) (\<lambda>(w1, s1, e).
       if e \<noteq> Some ErrUnrecognizedAck then Ret (w1, s1) else ack_users D w1 s1 h is)"

text \<open>
  The function given to \<open>Keys.ForEach\<close>; it captures the message, the address and the flag.  The decryption of a private
  identity that is nil dereferences it.
\<close>

definition try_key ::
  "('db, 'k, 'b, 'c, 'o, 'a, 'p, 'q, 't, 'n, 'y, 'e, 'f, 'v) sdeps \<Rightarrow> 'e \<Rightarrow> (cipher_message \<times> string \<times> bool) option \<Rightarrow> 'p PrivateID \<Rightarrow>
    ((cipher_message \<times> string \<times> bool) option \<times> error option) go" where
  "try_key D msg found pid =
     (case Private pid of
        None \<Rightarrow> Panic
      | Some p \<Rightarrow>
          (case TryDecryptAndVerifyMessage (sobj D) msg p of
             Inl _ \<Rightarrow> Ret (None, None)
           | Inr m \<Rightarrow> go_bind (address_String (sident D) pid) (\<lambda>a. Ret (Some (m, a, IsChan pid), Some ErrSuccessCode))))"

fun decrypt_users ::
  "('db, 'k, 'b, 'c, 'o, 'a, 'p, 'q, 't, 'n, 'y, 'e, 'f, 'v) sdeps \<Rightarrow> 'db world \<Rightarrow> (u32 \<rightharpoonup> ('k, 'p) main_User) \<Rightarrow> 'e \<Rightarrow> u32 list \<Rightarrow>
    ('db world \<times> (u32 \<times> cipher_message \<times> string \<times> bool) option) go" where
  "decrypt_users D w us msg [] = Ret (w, None)"
| "decrypt_users D w us msg (i # is) =
     (case us i of
        None \<Rightarrow> Panic
      | Some u \<Rightarrow>
          go_bind (mgr_ForEach w (Keys u) (try_key D msg) None) (\<lambda>(w1, found, e).
            if e \<noteq> None then Ret (w1, map_option (\<lambda>r. (i, r)) found) else decrypt_users D w1 us msg is))"

definition send_ack ::
  "('db, 'k, 'b, 'c, 'o, 'a, 'p, 'q, 't, 'n, 'y, 'e, 'f, 'v) sdeps \<Rightarrow> ('k, 'a, 'o, 'p, 'q, 't, 'n) server \<Rightarrow> bytes option \<Rightarrow> bool \<Rightarrow>
    ('k, 'a, 'o, 'p, 'q, 't, 'n) server" where
  "send_ack D s ack ofChan =
     (case ack of
        None \<Rightarrow> s
      | Some a \<Rightarrow>
          if length a < MessageHeaderSize (sobj D) \<or> ofChan then s
          else if MsgObject_Decode (sobj D) (drop (MessageHeaderSize (sobj D)) a) \<noteq> None then s
          else fst (server_Send D s a))"

definition newMessage ::
  "('db, 'k, 'b, 'c, 'o, 'a, 'p, 'q, 't, 'n, 'y, 'e, 'f, 'v) sdeps \<Rightarrow> 'db world \<Rightarrow> ('k, 'a, 'o, 'p, 'q, 't, 'n) server \<Rightarrow> u64 \<Rightarrow> bytes \<Rightarrow>
    ('db world \<times> ('k, 'a, 'o, 'p, 'q, 't, 'n) server) go" where
  "newMessage D w s0 counter ob =
     (let s = s0\<lparr>msgCounter := counter\<rparr> in
      case Message_Decode (sobj D) ob of
        Inl _ \<Rightarrow> Ret (w, s)
      | Inr msg \<Rightarrow>
          if length ob = AckLength (sobj D) then
            (case range_u32 w (dom (imapUser s)) of (w1, is) \<Rightarrow> ack_users D w1 s (object_Hash (sobj D) ob) is)
          else if length (Message_Encrypted (sobj D) msg) \<le> minEncrypted then Ret (w, s)
          else
            (case range_u32 w (dom (users s)) of (w1, is) \<Rightarrow>
               go_bind (decrypt_users D w1 (users s) msg is) (\<lambda>(w2, r). case r of
                 None \<Rightarrow> Ret (w2, s)
               | Some (i, m, address, ofChan) \<Rightarrow>
                   (case MsgRead m address ofChan of
                      Inl _ \<Rightarrow> Ret (w2, s)
                    | Inr bmsg \<Rightarrow>
                        go_bind (on_imap s i (\<lambda>u. DeliverFromBMNet (udeps_of D) w2 u bmsg)) (\<lambda>(w3, s3, e). case e of
                          Some _ \<Rightarrow> Ret (w3, s3)
                        | None \<Rightarrow> Ret (w3, send_ack D s3 (message_ack m) ofChan))))))"

section \<open>Broadcasts\<close>

text \<open>
  The function given to \<open>BroadcastAddresses.ForEach\<close>: when the decryption fails, \<open>BroadcastRead\<close> is called with nil.
\<close>

definition try_broadcast ::
  "('db, 'k, 'b, 'c, 'o, 'a, 'p, 'q, 't, 'n, 'y, 'e, 'f, 'v) sdeps \<Rightarrow> 'e \<Rightarrow> u64 \<Rightarrow> 'db world \<times> ('k, 'a, 'o, 'p, 'q, 't, 'n) server \<Rightarrow> 'a \<Rightarrow>
    (('db world \<times> ('k, 'a, 'o, 'p, 'q, 't, 'n) server) \<times> error option) go" where
  "try_broadcast D msg counter ws addr =
     (case TryDecryptAndVerifyBroadcast (sobj D) msg addr of
        Inl _ \<Rightarrow> Panic
      | Inr broadcast \<Rightarrow>
          (case BroadcastRead broadcast of
             Inl e \<Rightarrow> Ret (ws, Some (ErrText (''Failed to decode message #'' @ fmt_d (unat counter) @ '': '' @ error_text e)))
           | Inr bmsg \<Rightarrow>
               go_bind (on_imap (snd ws) 1 (\<lambda>u. DeliverFromBMNet (udeps_of D) (fst ws) u bmsg)) (\<lambda>(w1, s1, e). case e of
                 Some e \<Rightarrow> Ret ((w1, s1), Some (ErrText (''Failed to save message #'' @ fmt_d (unat counter) @ '': '' @ error_text e)))
               | None \<Rightarrow> Ret ((w1, s1), Some ErrSuccessCode))))"

fun broadcast_users ::
  "('db, 'k, 'b, 'c, 'o, 'a, 'p, 'q, 't, 'n, 'y, 'e, 'f, 'v) sdeps \<Rightarrow> 'e \<Rightarrow> u64 \<Rightarrow> 'db world \<Rightarrow> ('k, 'a, 'o, 'p, 'q, 't, 'n) server \<Rightarrow>
    string list \<Rightarrow> ('db world \<times> ('k, 'a, 'o, 'p, 'q, 't, 'n) server) go" where
  "broadcast_users D msg counter w s [] = Ret (w, s)"
| "broadcast_users D msg counter w s (n # ns) =
     (case s_users (sv_store s) n of
        None \<Rightarrow> Panic
      | Some u \<Rightarrow>
          go_bind (bc_ForEach (try_broadcast D msg counter) (w, s) (addrs (u_broadcast u))) (\<lambda>((w1, s1), _).
            broadcast_users D msg counter w1 s1 ns))"

definition newBroadcast ::
  "('db, 'k, 'b, 'c, 'o, 'a, 'p, 'q, 't, 'n, 'y, 'e, 'f, 'v) sdeps \<Rightarrow> 'db world \<Rightarrow> ('k, 'a, 'o, 'p, 'q, 't, 'n) server \<Rightarrow> u64 \<Rightarrow> bytes \<Rightarrow>
    ('db world \<times> ('k, 'a, 'o, 'p, 'q, 't, 'n) server) go" where
  "newBroadcast D w s0 counter ob =
     (let s = s0\<lparr>broadcastCounter := counter\<rparr> in
      case DecodeBroadcast (sobj D) ob of
        Inl _ \<Rightarrow> Ret (w, s)
      | Inr msg \<Rightarrow>
          if length (Broadcast_Encrypted (sobj D) msg) \<le> minEncrypted then Ret (w, s)
          else (case range_names w (dom (s_users (sv_store s))) of (w1, ns) \<Rightarrow> broadcast_users D msg counter w1 s ns))"

section \<open>Requests for public keys\<close>

text \<open>The function given to \<open>Keys.ForEach\<close>; it captures the identity that matches.\<close>

definition match_key ::
  "('db, 'k, 'b, 'c, 'o, 'a, 'p, 'q, 't, 'n, 'y, 'e, 'f, 'v) sdeps \<Rightarrow> getpubkey \<Rightarrow> 'p PrivateID option \<Rightarrow> 'p PrivateID \<Rightarrow>
    ('p PrivateID option \<times> error option) go" where
  "match_key D msg found pid =
     (if PrivateID.Disabled pid \<or> IsChan pid then Ret (found, None)
      else
        let isRipe = (gp_Version msg = SimplePubKeyVersion (sobj D) \<or> gp_Version msg = ExtendedPubKeyVersion (sobj D));
            isTag = (gp_Version msg = TagGetPubKeyVersion (sobj D))
        in if \<not> isRipe \<and> \<not> isTag then go_bind (pid_Address (sident D) pid) (\<lambda>_. Ret (found, None))
           else go_bind (address_String (sident D) pid) (\<lambda>a.
             if (if isRipe then address_Ripe (sobj D) a = gp_Ripe msg else address_Tag (sobj D) a = gp_Tag msg)
             then Ret (Some pid, Some (ErrText ''We have a match.'')) else Ret (found, None)))"

fun match_users ::
  "('db, 'k, 'b, 'c, 'o, 'a, 'p, 'q, 't, 'n, 'y, 'e, 'f, 'v) sdeps \<Rightarrow> 'db world \<Rightarrow> (u32 \<rightharpoonup> ('k, 'p) main_User) \<Rightarrow> getpubkey \<Rightarrow> u32 list \<Rightarrow>
    ('db world \<times> 'p PrivateID option) go" where
  "match_users D w us msg [] = Ret (w, None)"
| "match_users D w us msg (i # is) =
     (case us i of
        None \<Rightarrow> Panic
      | Some u \<Rightarrow>
          go_bind (mgr_ForEach w (Keys u) (match_key D msg) None) (\<lambda>(w1, found, e).
            if e \<noteq> None then Ret (w1, found) else match_users D w1 us msg is))"

definition newGetpubkey ::
  "('db, 'k, 'b, 'c, 'o, 'a, 'p, 'q, 't, 'n, 'y, 'e, 'f, 'v) sdeps \<Rightarrow> 'db world \<Rightarrow> ('k, 'a, 'o, 'p, 'q, 't, 'n) server \<Rightarrow> u64 \<Rightarrow> bytes \<Rightarrow>
    ('db world \<times> ('k, 'a, 'o, 'p, 'q, 't, 'n) server) go" where
  "newGetpubkey D w s0 counter ob =
     (let s = s0\<lparr>getpubkeyCounter := counter\<rparr> in
      case GetPubKey_Decode (sobj D) ob of
        Inl _ \<Rightarrow> Ret (w, s)
      | Inr msg \<Rightarrow>
          (case range_u32 w (dom (users s)) of (w1, is) \<Rightarrow>
             go_bind (match_users D w1 (users s) msg is) (\<lambda>(w2, found). case found of
               None \<Rightarrow> Ret (w2, s)
             | Some privID \<Rightarrow>
                 (case Private privID of
                    None \<Rightarrow> Panic
                  | Some p \<Rightarrow>
                      (case time_Now w2 of (w3, t) \<Rightarrow>
                        (case GeneratePubKey (sobj D) t p defaultPubkeyExpiry of
                           Inl _ \<Rightarrow> Ret (w3, s)
                         | Inr pk \<Rightarrow>
                             let enc = EncodeObject (mcodec (sbox D)) pk; b = drop 8 enc
                             in if length enc < 8 then Panic
                                else (case time_Now w3 of (w4, t4) \<Rightarrow>
                                  go_bind (Run (sv_pow s)
                                      (CalculateTarget (snet D) (of_nat (length b))
                                        (float_Seconds (snet D) (time_Sub (object_Expiration (snet D) pk) t4)) (pow_Default (sobj D)))
                                      b SendPubkey)
                                    (\<lambda>(p1, _). Ret (w4, s\<lparr>sv_pow := p1\<rparr>)))))))))"

section \<open>The periodic tasks\<close>

text \<open>
  One round of \<open>pkRequestHandler\<close>.  The goroutines that ask the node write to a map under a lock; they are run in the
  order in which they are started.
\<close>

definition ask_identity ::
  "('db, 'k, 'b, 'c, 'o, 'a, 'p, 'q, 't, 'n, 'y, 'e, 'f, 'v) sdeps \<Rightarrow> 'n Client \<times> (string \<rightharpoonup> 'q) \<Rightarrow> string \<Rightarrow> u32 \<Rightarrow> gotime \<Rightarrow>
    (('n Client \<times> (string \<rightharpoonup> 'q)) \<times> error option) go" where
  "ask_identity D cm address reqCount lastReqTime =
     (case GetIdentity (sbmd D) (sbm D) (fst cm) address of
        (c1, Inl _) \<Rightarrow> Ret ((c1, snd cm), None)
      | (c1, Inr q) \<Rightarrow> Ret ((c1, (snd cm)(address \<mapsto> q)), None))"

fun deliver_public ::
  "('db, 'k, 'b, 'c, 'o, 'a, 'p, 'q, 't, 'n, 'y, 'e, 'f, 'v) sdeps \<Rightarrow> 'db world \<Rightarrow> ('k, 'a, 'o, 'p, 'q, 't, 'n) server \<Rightarrow> string \<Rightarrow>
    u32 list \<Rightarrow> ('db world \<times> ('k, 'a, 'o, 'p, 'q, 't, 'n) server) go" where
  "deliver_public D w s address [] = Ret (w, s)"
| "deliver_public D w s address (i # is) =
     go_bind (on_imap s i (\<lambda>u. DeliverPublic (udeps_of D) w u address)) (\<lambda>(w1, s1, _). deliver_public D w1 s1 address is)"

fun deliver_addresses ::
  "('db, 'k, 'b, 'c, 'o, 'a, 'p, 'q, 't, 'n, 'y, 'e, 'f, 'v) sdeps \<Rightarrow> 'db world \<Rightarrow> ('k, 'a, 'o, 'p, 'q, 't, 'n) server \<Rightarrow> string list \<Rightarrow>
    ('db world \<times> ('k, 'a, 'o, 'p, 'q, 't, 'n) server) go" where
  "deliver_addresses D w s [] = Ret (w, s)"
| "deliver_addresses D w s (a # as) =
     (case range_u32 w (dom (imapUser s)) of (w1, is) \<Rightarrow>
        go_bind (deliver_public D w1 s a is) (\<lambda>(w2, s2).
          go_bind (pk_Remove (sbolt D) w2 a) (\<lambda>(w3, _). deliver_addresses D w3 s2 as)))"

definition pk_round ::
  "('db, 'k, 'b, 'c, 'o, 'a, 'p, 'q, 't, 'n, 'y, 'e, 'f, 'v) sdeps \<Rightarrow> 'db world \<Rightarrow> ('k, 'a, 'o, 'p, 'q, 't, 'n) server \<Rightarrow>
    ('db world \<times> ('k, 'a, 'o, 'p, 'q, 't, 'n) server) go" where
  "pk_round D w s =
     go_bind (pk_ForEach (sbolt D) w (ask_identity D) (bmd s, Map.empty)) (\<lambda>((c1, m), _).
       case range_names w (dom m) of (w1, as) \<Rightarrow> deliver_addresses D w1 (s\<lparr>bmd := c1\<rparr>) as)"

text \<open>What the \<open>select\<close> of a periodic task finds.\<close>

datatype tick_event = QuitEvent | Tick

fun pkRequestHandler ::
  "('db, 'k, 'b, 'c, 'o, 'a, 'p, 'q, 't, 'n, 'y, 'e, 'f, 'v) sdeps \<Rightarrow> 'db world \<Rightarrow> ('k, 'a, 'o, 'p, 'q, 't, 'n) server \<Rightarrow>
    tick_event list \<Rightarrow> ('db world \<times> ('k, 'a, 'o, 'p, 'q, 't, 'n) server) go" where
  "pkRequestHandler D w s [] = Ret (w, s)"
| "pkRequestHandler D w s (QuitEvent # es) = Ret (w, s)"
| "pkRequestHandler D w s (Tick # es) = go_bind (pk_round D w s) (\<lambda>(w1, s1). pkRequestHandler D w1 s1 es)"

section \<open>Saving\<close>

definition saveKeyfile ::
  "('db, 'k, 'b, 'c, 'o, 'a, 'p, 'q, 't, 'n, 'y, 'e, 'f, 'v) sdeps \<Rightarrow> 'x env_scheme \<Rightarrow> 'f \<Rightarrow> ('k, 'p) Manager \<Rightarrow> string \<Rightarrow> bytes option \<Rightarrow>
    ('x env_scheme \<times> 'f) go" where
  "saveKeyfile D w fs keys path pass =
     go_bind (case pass of
         None \<Rightarrow> go_bind (ExportPlaintext (sident D) (sjson D) keys) (\<lambda>r. Ret (w, r))
       | Some p \<Rightarrow> ExportEncrypted (sident D) (sjson D) (scrypto D) w keys p)
       (\<lambda>(w1, r). case r of
          Inl _ \<Rightarrow> Ret (w1, fs)
        | Inr serialized \<Rightarrow> (case os_WriteFile (ssys D) fs path serialized of (fs1, _) \<Rightarrow> Ret (w1, fs1)))"

definition SaveKeyfile ::
  "('db, 'k, 'b, 'c, 'o, 'a, 'p, 'q, 't, 'n, 'y, 'e, 'f, 'v) sdeps \<Rightarrow> 'x env_scheme \<Rightarrow> 'f \<Rightarrow> ('k, 'p) main_User \<Rightarrow>
    ('x env_scheme \<times> 'f) go" where
  "SaveKeyfile D w fs u = saveKeyfile D w fs (Keys u) (Path u) (Pass u)"

fun save_users ::
  "('db, 'k, 'b, 'c, 'o, 'a, 'p, 'q, 't, 'n, 'y, 'e, 'f, 'v) sdeps \<Rightarrow> 'x env_scheme \<Rightarrow> 'f \<Rightarrow> (u32 \<rightharpoonup> ('k, 'p) main_User) \<Rightarrow> u32 list \<Rightarrow>
    ('x env_scheme \<times> 'f) go" where
  "save_users D w fs us [] = Ret (w, fs)"
| "save_users D w fs us (i # is) =
     (case us i of
        None \<Rightarrow> Panic
      | Some u \<Rightarrow> go_bind (SaveKeyfile D w fs u) (\<lambda>(w1, fs1). save_users D w1 fs1 us is))"

definition saveData ::
  "('db, 'k, 'b, 'c, 'o, 'a, 'p, 'q, 't, 'n, 'y, 'e, 'f, 'v) sdeps \<Rightarrow> 'db world \<Rightarrow> 'f \<Rightarrow> ('k, 'a, 'o, 'p, 'q, 't, 'n) server \<Rightarrow>
    ('db world \<times> 'f) go" where
  "saveData D w fs s =
     (case range_u32 w (dom (users s)) of (w1, is) \<Rightarrow>
        go_bind (save_users D w1 fs (users s) is) (\<lambda>(w2, fs2).
          go_bind (SetCounter (sbolt D) w2 (objectType_num (sobj D) ObjectTypeMsg) (msgCounter s)) (\<lambda>(w3, _).
          go_bind (SetCounter (sbolt D) w3 (objectType_num (sobj D) ObjectTypeBroadcast) (broadcastCounter s)) (\<lambda>(w4, _).
          go_bind (SetCounter (sbolt D) w4 (objectType_num (sobj D) ObjectTypeGetPubKey) (getpubkeyCounter s)) (\<lambda>(w5, _).
            Ret (w5, fs2))))))"

fun savePeriodically ::
  "('db, 'k, 'b, 'c, 'o, 'a, 'p, 'q, 't, 'n, 'y, 'e, 'f, 'v) sdeps \<Rightarrow> 'db world \<Rightarrow> 'f \<Rightarrow> ('k, 'a, 'o, 'p, 'q, 't, 'n) server \<Rightarrow>
    tick_event list \<Rightarrow> ('db world \<times> 'f) go" where
  "savePeriodically D w fs s [] = Ret (w, fs)"
| "savePeriodically D w fs s (QuitEvent # es) = Ret (w, fs)"
| "savePeriodically D w fs s (Tick # es) = go_bind (saveData D w fs s) (\<lambda>(w1, fs1). savePeriodically D w1 fs1 s es)"

section \<open>Starting and stopping\<close>

text \<open>The addresses that could be bound, or the error of the first that could not.\<close>

fun listen_all :: "(string \<Rightarrow> error option) \<Rightarrow> string list \<Rightarrow> error + string list" where
  "listen_all L [] = Inr []"
| "listen_all L (a # as) =
     (case L a of
        Some e \<Rightarrow> Inl (ErrExt (''Failed to listen on %!s(<nil>): '' @ error_text e))
      | None \<Rightarrow> (case listen_all L as of Inl e \<Rightarrow> Inl e | Inr ls \<Rightarrow> Inr (a # ls)))"

text \<open>A counter that can not be read is zero.\<close>

definition load_counter :: "'db bolt \<Rightarrow> 'db world \<Rightarrow> u32 \<Rightarrow> u64 go" where
  "load_counter B w t = go_bind (GetCounter B w t) (\<lambda>r. Ret (case r of Inl _ \<Rightarrow> 0 | Inr n \<Rightarrow> n))"

definition load_counters ::
  "('db, 'k, 'b, 'c, 'o, 'a, 'p, 'q, 't, 'n, 'y, 'e, 'f, 'v) sdeps \<Rightarrow> 'db world \<Rightarrow> ('k, 'a, 'o, 'p, 'q, 't, 'n) server \<Rightarrow>
    ('k, 'a, 'o, 'p, 'q, 't, 'n) server go" where
  "load_counters D w s =
     go_bind (load_counter (sbolt D) w (objectType_num (sobj D) ObjectTypeMsg)) (\<lambda>m.
     go_bind (load_counter (sbolt D) w (objectType_num (sobj D) ObjectTypeBroadcast)) (\<lambda>b.
     go_bind (load_counter (sbolt D) w (objectType_num (sobj D) ObjectTypeGetPubKey)) (\<lambda>g.
       Ret (s\<lparr>msgCounter := m, broadcastCounter := b, getpubkeyCounter := g\<rparr>))))"

definition newServer ::
  "('db, 'k, 'b, 'c, 'o, 'a, 'p, 'q, 't, 'n, 'y, 'e, 'f, 'v) sdeps \<Rightarrow> agent_Config \<Rightarrow> 'db world \<Rightarrow> ClientConfig \<Rightarrow> ('k, 'p) main_User \<Rightarrow>
    'a Store \<Rightarrow> ('db world \<times> (error + ('k, 'a, 'o, 'p, 'q, 't, 'n) server)) go" where
  "newServer D cfg w rpcc u st =
     (case NewClient (sbmd D) rpcc of
        Inl e \<Rightarrow> Ret (w, Inl e)
      | Inr c \<Rightarrow>
     (case store_GetUser st (mUsername u) of
        Inl e \<Rightarrow> Ret (w, Inl e)
      | Inr userData \<Rightarrow>
     (let so = \<lparr>pubIDs = Map.empty, ops_Keys = Keys u, ops_bmd = c, ops_pow = Pow_Queue.New\<rparr> in
      go_bind (user_Folders (sbolt D) w userData) (\<lambda>(w1, r). case r of
        Inl e \<Rightarrow> Ret (w1, Inl e)
      | Inr folders \<Rightarrow>
      go_bind (User.NewUser (udeps_of D) (store_Folders (sbolt D)) w1 folders (mUsername u) (Keys u) (Some (ObjectExpiration cfg)) (Some (Pow_Queue.New :: 't server_Pow)) so)
        (\<lambda>(w2, f2, r). case r of
        Inl e \<Rightarrow> Ret (w2, Inl e)
      | Inr iu \<Rightarrow>
      (case listen_all (net_Listen D) (IMAPListeners cfg) of
        Inl e \<Rightarrow> Ret (w2, Inl e)
      | Inr ils \<Rightarrow>
      (case listen_all (net_Listen D) (SMTPListeners cfg) of
        Inl e \<Rightarrow> Ret (w2, Inl e)
      | Inr sls \<Rightarrow>
      (case (if EnableRPC cfg then GRPCServer D (RPCConfig cfg) else None) of
        Some e \<Rightarrow> Ret (w2, Inl e)
      | None \<Rightarrow>
          go_bind (load_counters D w2
            \<lparr>bmd = c, users = [1 \<mapsto> u], sv_store = st, sv_pow = Pow_Queue.New, started = 0, shutdown = 0, msgCounter = 0,
             broadcastCounter = 0, getpubkeyCounter = 0, imapUser = [1 \<mapsto> iu], imapListeners = ils, smtpListeners = sls,
             rpcServer = (if EnableRPC cfg then Some False else None), sv_quit = False\<rparr>)
            (\<lambda>s. Ret (w2, Inr s))))))))))"

text \<open>The goroutines that \<open>Start\<close> starts.\<close>

datatype goroutine = ProcessObjects rpc_ObjectType u64 | ServeIMAP string | ServeSMTP string | ServeRPC | PkRequestHandler | SavePeriodically

definition server_Start :: "('k, 'a, 'o, 'p, 'q, 't, 'n) server \<Rightarrow> ('k, 'a, 'o, 'p, 'q, 't, 'n) server \<times> goroutine list" where
  "server_Start s0 =
     (let s = s0\<lparr>started := started s0 + 1\<rparr> in
      if started s \<noteq> 1 then (s, [])
      else (case client_Start (bmd s) (msgCounter s) (broadcastCounter s) (getpubkeyCounter s) of (c1, gs) \<Rightarrow>
        (s\<lparr>bmd := c1, rpcServer := map_option (\<lambda>_. True) (rpcServer s)\<rparr>,
         map (\<lambda>(t, n). ProcessObjects t n) gs @ map ServeIMAP (imapListeners s) @ map ServeSMTP (smtpListeners s) @
         (if rpcServer s \<noteq> None then [ServeRPC] else []) @ [PkRequestHandler, SavePeriodically])))"

text \<open>Closing \<open>quit\<close> a second time would panic.\<close>

definition server_Stop ::
  "('db, 'k, 'b, 'c, 'o, 'a, 'p, 'q, 't, 'n, 'y, 'e, 'f, 'v) sdeps \<Rightarrow> 'db world \<Rightarrow> 'f \<Rightarrow> ('k, 'a, 'o, 'p, 'q, 't, 'n) server \<Rightarrow>
    ('db world \<times> 'f \<times> ('k, 'a, 'o, 'p, 'q, 't, 'n) server) go" where
  "server_Stop D w fs s0 =
     (let s = s0\<lparr>shutdown := shutdown s0 + 1\<rparr> in
      if shutdown s \<noteq> 1 then Ret (w, fs, s)
      else go_bind (saveData D w fs s) (\<lambda>(w1, fs1).
        go_bind (client_Stop (sbmd D) (bmd s)) (\<lambda>c1.
          if sv_quit s then Panic
          else Ret (w1, fs1, s\<lparr>smtpListeners := [], imapListeners := [], imapUser := Map.empty, bmd := c1,
            rpcServer := map_option (\<lambda>_. False) (rpcServer s), sv_quit := True\<rparr>))))"

end
