(* ===== verification/Cmd_Correct.thy ===== *)
theory Cmd_Correct
  imports Cmd
begin

text \<open>
  The theorems on package \<open>cmd\<close>: which command lines are accepted, the agreement of the client program over RPC with
  direct execution, and the reading of parameters.
\<close>

section \<open>The table of commands\<close>

lemma commands_simps [simp]:
  "commands ''help'' = Some help_cmd" "commands ''newaddress'' = Some newAddress" "commands ''listaddresses'' = Some listAddresses"
  "commands ''getmessages'' = Some unimplementedStub" "commands ''deletemessages'' = Some unimplementedStub"
  "commands ''sendmessage'' = Some unimplementedStub" "commands ''subscribe'' = Some unimplementedStub"
  by (simp_all add: commands_def)



lemma commands_SomeD:
  "commands n = Some c \<Longrightarrow> n = ''help'' \<and> c = help_cmd \<or> n = ''newaddress'' \<and> c = newAddress \<or>
     n = ''listaddresses'' \<and> c = listAddresses \<or> c = unimplementedStub \<and> n \<in> {''getmessages'', ''deletemessages'', ''sendmessage'', ''subscribe''}"
  by (auto simp: commands_def split: if_splits)

lemma cmd_init_ok: "cmd_init = Ret ()"
proof -
  have "check_order (\<lambda>c. commands c \<noteq> None) '''' Commands = Ret ()"
    by (simp add: Commands_def less_char_def)
  moreover have "check_order (\<lambda>c. c \<in> set Commands) '''' Unimplemented = Ret ()"
    by (simp add: Unimplemented_def Commands_def less_char_def)
  moreover have "has_help c" if "c \<in> ran commands" for c
  proof -
    from that obtain n where "commands n = Some c" by (auto simp: ran_def)
    then have "c \<in> {help_cmd, newAddress, listAddresses, unimplementedStub}" using commands_SomeD by blast
    then show ?thesis by (auto simp: has_help_def help_cmd_def newAddress_def listAddresses_def unimplementedStub_def)
  qed
  ultimately show ?thesis by (simp add: cmd_init_def)
qed

section \<open>Reading commands\<close>

lemma unknown_command_None: "unknown_command ps = None \<longleftrightarrow> set ps \<subseteq> dom commands"
  by (induction ps) auto

lemma readNewAddress_cases:
  "readNewAddressCommand ps = (ps, Inr c) \<longleftrightarrow>
     ps \<in> {[], [''true''], [''false'']} \<and>
     c = NewAddressCommand \<lparr>nc_ack = (ps \<noteq> [''false'']), nc_label = None, nc_pow = None, nc_version = 4, nc_stream = 1\<rparr>"
proof (cases ps)
  case Nil
  then show ?thesis by (auto simp: readNewAddressCommand_def DefaultSendAck_def)
next
  case (Cons p qs)
  then show ?thesis
    by (cases qs) (auto simp: readNewAddressCommand_def ReadPattern_def read_element_def)
qed

lemma readNewAddress_params: "fst (readNewAddressCommand ps) = ps"
  by (simp add: readNewAddressCommand_def Let_def)

lemma first_match_new:
  assumes "\<And>p. p \<in> set pats \<Longrightarrow> p_read p = readNewAddress"
  shows "first_match pats ps = (ps, if pats = [] then None else case snd (readNewAddressCommand ps) of Inl _ \<Rightarrow> None | Inr c \<Rightarrow> Some c)"
  using assms
proof (induction pats)
  case (Cons p pats)
  obtain r where r: "readNewAddressCommand ps = (ps, r)"
    by (metis prod.collapse readNewAddress_params)
  with Cons show ?case by (cases r) auto
qed simp

lemma ReadCommand_new:
  "ReadCommand ''newaddress'' ps = (ps, case snd (readNewAddressCommand ps) of
     Inl _ \<Rightarrow> Inl (ErrUnrecognizedPattern ''newaddress'' (recognizedPatterns (c_patterns newAddress))) | Inr c \<Rightarrow> Inr c)"
proof -
  have "first_match (c_patterns newAddress) ps =
      (ps, case snd (readNewAddressCommand ps) of Inl _ \<Rightarrow> None | Inr c \<Rightarrow> Some c)"
    by (subst first_match_new) (auto simp: newAddress_def)
  then show ?thesis by (simp add: ReadCommand_def split: sum.split)
qed

lemma ReadCommand_help:
  "ReadCommand ''help'' ps =
     (if set ps \<subseteq> dom commands then (sort ps, Inr (HelpCommand (sort ps)))
      else (ps, Inl (ErrUnrecognizedPattern ''help'' [[], [KeySymbol, KeyRepeated]])))"
  using unknown_command_None [of ps]
  by (auto simp: ReadCommand_def help_cmd_def readHelpCommand_def recognizedPatterns_def split: option.splits)

lemma ReadCommand_list:
  "ReadCommand ''listaddresses'' ps =
     (ps, if ps = [] then Inr ListAddressesCommand else Inl (ErrUnrecognizedPattern ''listaddresses'' [[]]))"
  by (simp add: ReadCommand_def listAddresses_def readListAddressesCommand_def recognizedPatterns_def)

lemma ReadCommand_stub:
  "commands n = Some unimplementedStub \<Longrightarrow> ReadCommand n ps = (ps, Inl (ErrUnrecognizedPattern n []))"
  by (simp add: ReadCommand_def unimplementedStub_def recognizedPatterns_def)

lemma ReadCommand_Inr:
  "snd (ReadCommand n ps) = Inr c \<longleftrightarrow>
     n = ''help'' \<and> set ps \<subseteq> dom commands \<and> c = HelpCommand (sort ps) \<or>
     n = ''newaddress'' \<and> ps \<in> {[], [''true''], [''false'']} \<and>
       c = NewAddressCommand \<lparr>nc_ack = (ps \<noteq> [''false'']), nc_label = None, nc_pow = None, nc_version = 4, nc_stream = 1\<rparr> \<or>
     n = ''listaddresses'' \<and> ps = [] \<and> c = ListAddressesCommand"
proof (cases "commands n")
  case None
  then have "n \<notin> {''help'', ''newaddress'', ''listaddresses''}" by auto
  with None show ?thesis by (auto simp: ReadCommand_def)
next
  case (Some d)
  have new: "snd (ReadCommand ''newaddress'' ps) = Inr c \<longleftrightarrow> readNewAddressCommand ps = (ps, Inr c)"
    using readNewAddress_params [of ps] by (cases "readNewAddressCommand ps") (auto simp: ReadCommand_new split: sum.splits)
  from commands_SomeD [OF Some] show ?thesis
  proof (elim disjE conjE)
    assume "n = ''help''"
    then show ?thesis by (auto simp: ReadCommand_help)
  next
    assume "n = ''newaddress''"
    then show ?thesis using new readNewAddress_cases by simp
  next
    assume "n = ''listaddresses''"
    then show ?thesis by (auto simp: ReadCommand_list)
  next
    assume "d = unimplementedStub" "n \<in> {''getmessages'', ''deletemessages'', ''sendmessage'', ''subscribe''}"
    with Some show ?thesis by (auto simp: ReadCommand_stub)
  qed
qed

lemma ReadCommand_Inl: "snd (ReadCommand n ps) = Inl e \<Longrightarrow>
    (case commands n of None \<Rightarrow> e = ErrUnknownCommand n | Some c \<Rightarrow> e = ErrUnrecognizedPattern n (recognizedPatterns (c_patterns c)))"
  by (auto simp: ReadCommand_def split: option.splits prod.splits)

section \<open>The client program\<close>

text \<open>The command that the server builds from the request of the client.\<close>

fun transmitted :: "Command \<Rightarrow> Command" where
  "transmitted (NewAddressCommand r) =
     NewAddressCommand (r\<lparr>nc_ack := True, nc_pow := Some \<lparr>NonceTrialsPerByte = 0, ExtraBytes = 0\<rparr>, nc_version := 4, nc_stream := 1\<rparr>)"
| "transmitted c = c"

lemma BuildCommand_RPC:
  assumes "snd (ReadCommand n ps) = Inr c"
  shows "BuildCommand (Some (Command_RPC c)) = Ret (Inr (transmitted c))"
  using assms unknown_command_None [of "sort ps"] unfolding ReadCommand_Inr
  by (elim disjE)
    (auto simp: BuildCommand_def buildHelpCommand_def buildNewAddressCommand_def buildListAddressesCommand_def)

lemma Execute_Inr: "Execute U u c = Ret (u1, x) \<Longrightarrow> \<exists>r. x = Inr r"
  by (cases c) (auto simp: go_bind_Ret_conv split: prod.splits)

section \<open>Properties\<close>

text \<open>
  C22. The command lines that are accepted are exactly: \<open>help\<close> with names of commands, which are sorted;
  \<open>newaddress\<close> with no parameter, \<open>true\<close> or \<open>false\<close>; and \<open>listaddresses\<close> without parameters.  In
  particular no documented pattern with a string or a number is accepted.  Every other line gives the error of an unknown
  command or of an unrecognized pattern, which lists the patterns of the command.
\<close>

theorem ReadCommand_accepts:
  "(\<forall>c. snd (ReadCommand n ps) = Inr c \<longleftrightarrow>
     n = ''help'' \<and> set ps \<subseteq> dom commands \<and> c = HelpCommand (sort ps) \<or>
     n = ''newaddress'' \<and> ps \<in> {[], [''true''], [''false'']} \<and>
       c = NewAddressCommand \<lparr>nc_ack = (ps \<noteq> [''false'']), nc_label = None, nc_pow = None, nc_version = 4, nc_stream = 1\<rparr> \<or>
     n = ''listaddresses'' \<and> ps = [] \<and> c = ListAddressesCommand) \<and>
   (case snd (ReadCommand n ps) of Inr _ \<Rightarrow> True
    | Inl e \<Rightarrow> e = (case commands n of None \<Rightarrow> ErrUnknownCommand n
        | Some c \<Rightarrow> ErrUnrecognizedPattern n (recognizedPatterns (c_patterns c))))"
proof (rule conjI)
  show "case snd (ReadCommand n ps) of Inr _ \<Rightarrow> True
    | Inl e \<Rightarrow> e = (case commands n of None \<Rightarrow> ErrUnknownCommand n
        | Some c \<Rightarrow> ErrUnrecognizedPattern n (recognizedPatterns (c_patterns c)))"
    using ReadCommand_Inl [of n ps] by (cases "snd (ReadCommand n ps)"; cases "commands n") simp_all
qed (intro allI ReadCommand_Inr)

text \<open>
  C23. The client program, connected to a running server, does what direct execution of the command line does: it runs the
  same command and prints the text of its reply, or prints the error of the command line.  The exception is
  \<open>newaddress\<close>: its parameter is not transmitted and the address is always made with acks.
\<close>

theorem client_executes:
  "client_try T (\<lambda>q u. BMAgentRequest Q U True u (Some q)) u n ps =
     (case snd (ReadCommand n ps) of
        Inl e \<Rightarrow> Ret (u, cmd_Error e)
      | Inr c \<Rightarrow> go_bind (Execute U u (transmitted c)) (\<lambda>(u1, r). case r of
          Inl e \<Rightarrow> Ret (u1, '''')
        | Inr response \<Rightarrow> go_bind (Response_RPC Q response) (\<lambda>reply. go_bind (rpc_Message T reply) (\<lambda>s. Ret (u1, s)))))"
proof (cases "snd (ReadCommand n ps)")
  case (Inl e)
  then show ?thesis by (cases "ReadCommand n ps") (simp add: client_try_def)
next
  case (Inr c)
  note b = BuildCommand_RPC [OF Inr]
  show ?thesis
  proof (cases "Execute U u (transmitted c)")
    case (Ret x)
    then obtain u1 r where x: "x = (u1, Inr r)"
      using Execute_Inr [of U u "transmitted c"] by (cases x) blast
    with Inr Ret b show ?thesis
      by (cases "ReadCommand n ps"; cases "Response_RPC Q r")
        (simp_all add: client_try_def client_run_def BMAgentRequest_def RPCCommand_def)
  qed (use Inr b in \<open>cases "ReadCommand n ps";
      simp add: client_try_def client_run_def BMAgentRequest_def RPCCommand_def\<close>)+
qed

text \<open>
  Reading a parameter list: quoted strings without line break, numbers and booleans are read as they are printed.
\<close>

lemma quoted_from_append: "CHR 0x0A \<notin> set s \<Longrightarrow> quoted_from (s @ [CHR 0x22])"
  by (induction s) auto

lemma ParseUint_fmt_d: "n < 2 ^ 64 \<Longrightarrow> ParseUint (fmt_d n) = Inr (of_nat n)"
  using fmt_d_head [of n] by (auto simp: ParseUint_def digits_fmt_d simp del: One_nat_def)

lemma ReadPattern_printed:
  assumes "CHR 0x0A \<notin> set s"
  shows "ReadPattern [CHR 0x22 # s @ [CHR 0x22], fmt_d (unat n), if b then ''true'' else ''false''] [PString, PUint64, PBool] =
    ([VString s, VUint64 n, VBool b], None)"
proof -
  have "unat n < 2 ^ 64" using unsigned_less [of n, where 'a = nat] by simp
  with assms show ?thesis
    by (auto simp: ReadPattern_def read_element_def quoted_from_append ParseUint_fmt_d)
qed

text \<open>The expression for strings is not anchored: what surrounds the quotes is accepted, and the wrong bytes are cut off.\<close>

lemma ReadPattern_unanchored:
  "ReadPattern [''x'' @ [CHR 0x22] @ ''a'' @ [CHR 0x22] @ ''y''] [PString] = ([VString ([CHR 0x22] @ ''a'' @ [CHR 0x22])], None)"
  by (simp add: ReadPattern_def read_element_def)

end
