(* ===== verification/Ref_Json.thy ===== *)
theory Ref_Json
  imports Keys
begin

text \<open>
  A concrete encoding of JSON values, to evaluate the model of the key file: it has the law \<open>json_ok\<close> that the
  development uses of encoding/json.  Lengths and numbers are written in unary.
\<close>

definition unary :: "nat \<Rightarrow> bytes" where
  "unary n = replicate n (CHR ''1'') @ ''0''"

fun un_unary :: "bytes \<Rightarrow> nat \<times> bytes" where
  "un_unary (c # bs) = (if c = CHR ''1'' then (case un_unary bs of (n, r) \<Rightarrow> (Suc n, r)) else (0, bs))"
| "un_unary [] = (0, [])"

definition enc_str :: "string \<Rightarrow> bytes" where
  "enc_str s = unary (length s) @ s"

definition dec_str :: "bytes \<Rightarrow> string \<times> bytes" where
  "dec_str bs = (case un_unary bs of (n, r) \<Rightarrow> (take n r, drop n r))"

fun enc_json :: "json \<Rightarrow> bytes" where
  "enc_json JNull = ''n''"
| "enc_json (JBool b) = (if b then ''t'' else ''f'')"
| "enc_json (JNum i) = (if i < 0 then ''-'' else ''+'') @ unary (nat \<bar>i\<bar>)"
| "enc_json (JStr s) = ''s'' @ enc_str s"
| "enc_json (JObj es) = ''o'' @ unary (length es) @ concat (map (\<lambda>(k, v). enc_str k @ enc_json v) es)"

fun dec_json :: "nat \<Rightarrow> bytes \<Rightarrow> (json \<times> bytes) option"
  and dec_entries :: "nat \<Rightarrow> nat \<Rightarrow> bytes \<Rightarrow> ((string \<times> json) list \<times> bytes) option" where
  "dec_json (Suc f) (c # bs) =
     (if c = CHR ''n'' then Some (JNull, bs)
      else if c = CHR ''t'' then Some (JBool True, bs)
      else if c = CHR ''f'' then Some (JBool False, bs)
      else if c = CHR ''-'' then (case un_unary bs of (n, r) \<Rightarrow> Some (JNum (- int n), r))
      else if c = CHR ''+'' then (case un_unary bs of (n, r) \<Rightarrow> Some (JNum (int n), r))
      else if c = CHR ''s'' then (case dec_str bs of (s, r) \<Rightarrow> Some (JStr s, r))
      else if c = CHR ''o'' then
        (case un_unary bs of (n, r) \<Rightarrow> map_option (\<lambda>(es, r2). (JObj es, r2)) (dec_entries f n r))
      else None)"
| "dec_json _ _ = None"
| "dec_entries (Suc f) 0 bs = Some ([], bs)"
| "dec_entries (Suc f) (Suc n) bs =
     (case dec_str bs of (k, r) \<Rightarrow>
       (case dec_json f r of
          None \<Rightarrow> None
        | Some (v, r2) \<Rightarrow> map_option (\<lambda>(es, r3). ((k, v) # es, r3)) (dec_entries f n r2)))"
| "dec_entries 0 _ _ = None"

definition ref_json :: jsonlib where
  "ref_json = \<lparr>json_text = enc_json,
     json_parse = (\<lambda>b. case dec_json (length b) b of Some (v, []) \<Rightarrow> Inr v | _ \<Rightarrow> Inl (ErrExt ''json: syntax error''))\<rparr>"

lemma un_unary_unary [simp]: "un_unary (unary n @ r) = (n, r)"
  by (induction n) (simp_all add: unary_def)

lemma length_unary [simp]: "length (unary n) = Suc n"
  by (simp add: unary_def)

lemma dec_str_enc [simp]: "dec_str (enc_str s @ r) = (s, r)"
  by (simp add: dec_str_def enc_str_def)

lemma length_enc_str [simp]: "length (enc_str s) = Suc (2 * length s)"
  by (simp add: enc_str_def)

lemma dec_entries_enc:
  assumes "\<And>k v f r. (k, v) \<in> set es \<Longrightarrow> length (enc_json v) \<le> f \<Longrightarrow> dec_json f (enc_json v @ r) = Some (v, r)"
    and "length (concat (map (\<lambda>(k, v). enc_str k @ enc_json v) es)) < f"
  shows "dec_entries f (length es) (concat (map (\<lambda>(k, v). enc_str k @ enc_json v) es) @ r) = Some (es, r)"
  using assms
proof (induction es arbitrary: f)
  case Nil
  then show ?case by (cases f) simp_all
next
  case (Cons e es)
  obtain k v where e: "e = (k, v)" by (cases e)
  from Cons.prems(2) obtain f' where f: "f = Suc f'" by (cases f) simp_all
  have "dec_json f' (enc_json v @ q) = Some (v, q)" for q
    using Cons.prems(2) e f by (intro Cons.prems(1) [of k]) simp_all
  moreover have "dec_entries f' (length es) (concat (map (\<lambda>(k, v). enc_str k @ enc_json v) es) @ r) = Some (es, r)"
    using Cons.prems e f by (intro Cons.IH) auto
  ultimately show ?case by (simp add: e f)
qed

lemma dec_json_enc: "length (enc_json v) \<le> f \<Longrightarrow> dec_json f (enc_json v @ r) = Some (v, r)"
proof (induction v arbitrary: f r)
  case (JObj es)
  from JObj.prems obtain f' where f: "f = Suc f'" by (cases f) simp_all
  have s: "length (concat (map (\<lambda>(k, v). enc_str k @ enc_json v) es)) < f'"
    using JObj.prems f by simp
  have "dec_entries f' (length es) (concat (map (\<lambda>(k, v). enc_str k @ enc_json v) es) @ r) = Some (es, r)"
    by (rule dec_entries_enc [OF _ s]) (rule JObj.IH, auto simp: prod_set_defs)
  then show ?case by (simp add: f)
next
  case (JNum i)
  then show ?case by (cases f) simp_all
next
  case (JStr s)
  then show ?case by (cases f) simp_all
next
  case JNull
  then show ?case by (cases f) simp_all
next
  case (JBool b)
  then show ?case by (cases f; cases b) simp_all
qed

lemma json_ok_ref: "json_ok ref_json"
  using dec_json_enc [where r = "[]"] by (simp add: json_ok_def ref_json_def)

end
