(* ===== verification/Idmgr_Correct.thy ===== *)
theory Idmgr_Correct
  imports Idmgr Ref_Json
begin

text \<open>
  The theorems on package \<open>idmgr\<close>: the invariant of the key manager over every sequence of calls, the round trip of
  the encrypted key file, the loop that derives keys, the import of PyBitmessage keys, and the reading of numbers.
\<close>

section \<open>The invariant\<close>

text \<open>The two lists partition the map by the flag \<open>Imported\<close>.\<close>

definition mgr_ok :: "('k, 'p) Manager \<Rightarrow> bool" where
  "mgr_ok mgr \<longleftrightarrow> finite (dom (ids_map mgr)) \<and> distinct (importedIDs mgr) \<and> distinct (derivedIDs mgr) \<and>
     set (importedIDs mgr) = {a. \<exists>p. ids_map mgr a = Some p \<and> Imported p} \<and>
     set (derivedIDs mgr) = {a. \<exists>p. ids_map mgr a = Some p \<and> \<not> Imported p}"

lemma ids_map_Some: "IDs (mdb mgr) = Some m \<Longrightarrow> ids_map mgr = m"
  by (simp add: ids_map_def)

lemma mgr_ok_size: "mgr_ok mgr \<Longrightarrow> NumImported mgr + NumDeterministic mgr = mgr_Size mgr"
proof -
  assume ok: "mgr_ok mgr"
  have "dom (ids_map mgr) = set (importedIDs mgr) \<union> set (derivedIDs mgr)"
    using ok by (auto simp: mgr_ok_def)
  moreover have "set (importedIDs mgr) \<inter> set (derivedIDs mgr) = {}"
    using ok by (auto simp: mgr_ok_def)
  ultimately have "card (dom (ids_map mgr)) = card (set (importedIDs mgr)) + card (set (derivedIDs mgr))"
    by (simp add: card_Un_disjoint)
  moreover have "card (set (importedIDs mgr)) = length (importedIDs mgr)" "card (set (derivedIDs mgr)) = length (derivedIDs mgr)"
    using ok distinct_card unfolding mgr_ok_def by blast+
  ultimately show ?thesis by (simp add: NumImported_def NumDeterministic_def mgr_Size_def)
qed

lemma idmgr_New_ok: "idmgr_New I seed = Inr mgr \<Longrightarrow> mgr_ok mgr"
  by (auto simp: idmgr_New_def sum_bind_Inr newDb_def mgr_ok_def ids_map_def)

lemma ImportIdentity_cases:
  assumes "ImportIdentity I mgr p = Ret mgr'"
  obtains a where "address_String I p = Ret a" "ids_map mgr a \<noteq> None" "mgr' = mgr"
  | a m where "address_String I p = Ret a" "IDs (mdb mgr) = Some m" "m a = None"
      "mgr' = mgr\<lparr>mdb := (mdb mgr)\<lparr>IDs := Some (m(a \<mapsto> p\<lparr>Imported := True\<rparr>))\<rparr>, importedIDs := importedIDs mgr @ [a]\<rparr>"
proof -
  from assms obtain a m where "address_String I p = Ret a" "IDs (mdb mgr) = Some m"
    by (auto simp: ImportIdentity_def go_bind_Ret_conv split: option.splits)
  note am = this
  show thesis
  proof (cases "m a")
    case None
    from assms am None have "mgr' = mgr\<lparr>mdb := (mdb mgr)\<lparr>IDs := Some (m(a \<mapsto> p\<lparr>Imported := True\<rparr>))\<rparr>, importedIDs := importedIDs mgr @ [a]\<rparr>"
      by (simp add: ImportIdentity_def)
    then show ?thesis by (rule that(2) [OF am None])
  next
    case (Some q)
    then have "ids_map mgr a \<noteq> None" "mgr' = mgr" using assms am by (simp_all add: ImportIdentity_def ids_map_def)
    then show ?thesis by (rule that(1) [OF am(1)])
  qed
qed

lemma mgr_New_ids:
  assumes "mgr_New I mgr name stream behavior = Ret (mgr', p)"
  shows "\<exists>a m. address_String I p = Ret a \<and> IDs (mdb mgr) = Some m \<and> ids_map mgr' = m(a \<mapsto> p) \<and>
    importedIDs mgr' = importedIDs mgr \<and> derivedIDs mgr' = derivedIDs mgr @ [a] \<and> \<not> Imported p \<and> Name p = name"
  using assms by (auto simp: mgr_New_def Let_def go_bind_Ret_conv ids_map_def split: option.splits)

text \<open>Reading a key file.\<close>

lemma decode_ids_finite: "decode_ids I es m = Inr m' \<Longrightarrow> finite (dom m) \<Longrightarrow> finite (dom m')"
  by (induction I es m rule: decode_ids.induct) (auto simp: sum_bind_Inr split: if_splits)

lemma read_ids_finite: "finite (dom (raw_map m)) \<Longrightarrow> read_ids I m v = Inr r \<Longrightarrow> finite (dom (raw_map r))"
  by (cases v) (auto simp: sum_bind_Inr raw_map_def dest: decode_ids_finite)

lemma openDb_finite:
  assumes "openDb I J r = Inr db"
  shows "finite (dom (raw_map (raw_IDs db)))"
proof -
  have "finite (dom (raw_map r))" if "json_field (read_ids I) (Some Map.empty) ''addresses'' es = Inr r" for es r
    by (rule json_each_invariant [where Q = "\<lambda>m. finite (dom (raw_map m))", OF read_ids_finite _ that [unfolded json_field_def]])
      (simp_all add: raw_map_def)
  with assms show ?thesis
    by (cases "json_parse J r") (auto simp: openDb_def sum_bind_Inr raw_map_def split: json.splits)
qed

lemma sort_ids_lists:
  "sort_ids m addrs imp der = Ret (imp', der') \<Longrightarrow>
     imp' = imp @ filter (\<lambda>a. \<exists>p. m a = Some (Some p) \<and> Imported p) addrs \<and>
     der' = der @ filter (\<lambda>a. \<exists>p. m a = Some (Some p) \<and> \<not> Imported p) addrs \<and>
     (\<forall>a \<in> set addrs. m a \<noteq> Some None)"
proof (induction addrs arbitrary: imp der)
  case (Cons a addrs)
  show ?case
  proof (cases "m a")
    case None
    with Cons show ?thesis by simp
  next
    case (Some x)
    show ?thesis
    proof (cases x)
      case None
      with Some Cons.prems show ?thesis by simp
    next
      case (Some p)
      with \<open>m a = Some x\<close> Cons.prems
        Cons.IH [of "if Imported p then imp @ [a] else imp" "if Imported p then der else der @ [a]"]
      show ?thesis by (cases "Imported p") simp_all
    qed
  qed
qed simp

lemma FromPlaintext_ok:
  assumes "env_ok w" "FromPlaintext I J w r = Ret (w', Inr mgr)"
  shows "mgr_ok mgr"
proof -
  from assms(2) obtain db imp der where d: "openDb I J r = Inr db" and
    s: "sort_ids (raw_map (raw_IDs db)) (name_order w (tick w) (dom (raw_map (raw_IDs db)))) [] [] = Ret (imp, der)" and
    m: "importedIDs mgr = imp" "derivedIDs mgr = der"
      "IDs (mdb mgr) = map_option (\<lambda>m k. case m k of Some (Some p) \<Rightarrow> Some p | _ \<Rightarrow> None) (raw_IDs db)"
    by (auto simp: FromPlaintext_def range_names_def go_bind_Ret_conv split: sum.splits option.splits)
  let ?m = "raw_map (raw_IDs db)"
  have f: "finite (dom ?m)" by (rule openDb_finite [OF d])
  have o: "set (name_order w (tick w) (dom ?m)) = dom ?m" "distinct (name_order w (tick w) (dom ?m))"
    using env_ok_names [OF assms(1) f] by auto
  have ids: "ids_map mgr = (\<lambda>k. case ?m k of Some (Some p) \<Rightarrow> Some p | _ \<Rightarrow> None)"
    by (auto simp: ids_map_def m(3) raw_map_def split: option.splits)
  then have i: "ids_map mgr a = Some p \<longleftrightarrow> ?m a = Some (Some p)" for a p
    by (simp split: option.splits)
  then have "dom (ids_map mgr) \<subseteq> dom ?m" by (auto simp: dom_def)
  with sort_ids_lists [OF s] o f m(1,2) show ?thesis
    by (auto simp: mgr_ok_def i finite_subset)
qed

lemma FromEncrypted_plain:
  "FromEncrypted I J C w enc pass = Ret (w', Inr mgr) \<Longrightarrow> \<exists>r. FromPlaintext I J w r = Ret (w', Inr mgr)"
  by (auto simp: FromEncrypted_def Let_def split: if_splits option.splits)

lemma FromEncrypted_ok:
  assumes "env_ok w" "FromEncrypted I J C w enc pass = Ret (w', Inr mgr)"
  shows "mgr_ok mgr"
  using FromEncrypted_plain [OF assms(2)] FromPlaintext_ok [OF assms(1)] by blast

text \<open>Importing a set of keys.\<close>

lemma import_sections_invariant:
  assumes "\<And>mgr p mgr'. Q mgr \<Longrightarrow> ImportIdentity I mgr p = Ret mgr' \<Longrightarrow> Q mgr'"
  shows "Q mgr \<Longrightarrow> import_sections I f mgr adrs ks = Ret (mgr', adrs') \<Longrightarrow> Q mgr'"
proof (induction ks arbitrary: mgr adrs)
  case (Cons k ks)
  then show ?case by (auto simp: go_bind_Ret_conv dest: assms split: option.splits)
qed simp

lemma each_id_invariant:
  assumes "\<And>s p s' e. Q s \<Longrightarrow> f s p = Ret (s', e) \<Longrightarrow> Q s'" "Q s" "each_id m f s ks = Ret (s', e)"
  shows "Q s'"
  using assms(2,3)
proof (induction ks arbitrary: s)
  case (Cons k ks)
  show ?case
  proof (cases "m k")
    case None
    with Cons show ?thesis by simp
  next
    case (Some p)
    with Cons.prems obtain s1 e1 where s1: "f s p = Ret (s1, e1)"
      and r: "(case e1 of Some e \<Rightarrow> Ret (s1, Some e) | None \<Rightarrow> each_id m f s1 ks) = Ret (s', e)"
      by (auto simp: go_bind_Ret_conv)
    with Cons.IH [of s1] assms(1) [OF Cons.prems(1) s1] show ?thesis by (auto split: option.splits)
  qed
qed simp

lemma ImportKeys_invariant:
  assumes Q: "\<And>mgr p mgr'. Q mgr \<Longrightarrow> ImportIdentity I mgr p = Ret mgr' \<Longrightarrow> Q mgr'"
    and "Q mgr" "ImportKeys I J ini_Load w mgr dat = Ret (w', mgr', r)"
  shows "Q mgr'"
proof (cases "ini_Load dat")
  case (Inr f)
  with assms show ?thesis
    by (auto simp: ImportKeys_def ImportKeysFromPyBitmessage_def range_names_def go_bind_Ret_conv intro: import_sections_invariant [of Q, OF Q])
next
  case (Inl e)
  let ?f = "\<lambda>(mgr, addresses) p. go_bind (address_String I p) (\<lambda>str. go_bind (ImportIdentity I mgr p) (\<lambda>mgr1.
    Ret ((mgr1, addresses(str \<mapsto> Name p)), None)))"
  have step: "Q (fst s')" if "Q (fst s)" "?f s p = Ret (s', e)" for s p s' and e :: "error option"
    using that Q [OF that(1)] by (auto simp: go_bind_Ret_conv split: prod.splits)
  from Inl assms(3) obtain w1 q where q: "FromPlaintext I J w dat = Ret (w1, q)"
      "(case q of Inl _ \<Rightarrow> Ret (w1, mgr, None) | Inr m \<Rightarrow> go_bind (mgr_ForEach w1 m ?f (mgr, Map.empty))
         (\<lambda>(w2, (mgr1, addresses), _). Ret (w2, mgr1, Some addresses))) = Ret (w', mgr', r)"
    by (auto simp: ImportKeys_def go_bind_Ret_conv)
  show ?thesis
  proof (cases q)
    case Inl
    with q(2) assms(2) show ?thesis by simp
  next
    case (Inr m)
    with q(2) obtain s e where s: "each_id (ids_map m) ?f (mgr, Map.empty) (name_order w1 (tick w1) (dom (ids_map m))) = Ret (s, e)"
        "fst s = mgr'"
      by (auto simp: mgr_ForEach_def range_names_def go_bind_Ret_conv)
    have "Q (fst s)"
      by (rule each_id_invariant [where Q = "\<lambda>s. Q (fst s)", OF step _ s(1)]) (simp_all add: assms(2))
    with s(2) show ?thesis by simp
  qed
qed

text \<open>The part of the invariant that survives a replaced identity; \<open>n\<close> is the number of replacements.\<close>

definition mgr_lists :: "nat \<Rightarrow> ('k, 'p) Manager \<Rightarrow> bool" where
  "mgr_lists n mgr \<longleftrightarrow> finite (dom (ids_map mgr)) \<and> dom (ids_map mgr) = set (importedIDs mgr) \<union> set (derivedIDs mgr) \<and>
     (\<forall>a p. ids_map mgr a = Some p \<longrightarrow> Imported p \<longrightarrow> a \<in> set (importedIDs mgr) \<and> a \<notin> set (derivedIDs mgr)) \<and>
     (\<forall>a p. ids_map mgr a = Some p \<longrightarrow> \<not> Imported p \<longrightarrow> a \<in> set (derivedIDs mgr)) \<and>
     length (importedIDs mgr) + length (derivedIDs mgr) = card (dom (ids_map mgr)) + n"

lemma mgr_ok_lists: "mgr_ok mgr \<Longrightarrow> mgr_lists 0 mgr"
  using mgr_ok_size [of mgr]
  by (auto simp: mgr_ok_def mgr_lists_def NumImported_def NumDeterministic_def mgr_Size_def)

lemma mgr_lists_ok:
  assumes "mgr_lists 0 mgr"
  shows "mgr_ok mgr"
proof -
  have l: "finite (dom (ids_map mgr))" "dom (ids_map mgr) = set (importedIDs mgr) \<union> set (derivedIDs mgr)"
    "\<And>a p. ids_map mgr a = Some p \<Longrightarrow> Imported p \<Longrightarrow> a \<in> set (importedIDs mgr)"
    "\<And>a p. ids_map mgr a = Some p \<Longrightarrow> \<not> Imported p \<Longrightarrow> a \<in> set (derivedIDs mgr)"
    using assms by (auto simp: mgr_lists_def)
  have d: "distinct (importedIDs mgr @ derivedIDs mgr)" using assms by (intro card_distinct) (simp add: mgr_lists_def)
  have e: "\<exists>p. ids_map mgr a = Some p" if "a \<in> set (importedIDs mgr) \<or> a \<in> set (derivedIDs mgr)" for a
  proof -
    have "a \<in> dom (ids_map mgr)" using that by (simp add: l(2))
    then show ?thesis by blast
  qed
  have x: "a \<in> set (importedIDs mgr) \<Longrightarrow> a \<notin> set (derivedIDs mgr)" for a using d by auto
  have "set (importedIDs mgr) = {a. \<exists>p. ids_map mgr a = Some p \<and> Imported p}" using l(3,4) e x by blast
  moreover have "set (derivedIDs mgr) = {a. \<exists>p. ids_map mgr a = Some p \<and> \<not> Imported p}" using l(3,4) e x by blast
  ultimately show ?thesis using l(1) d by (simp add: mgr_ok_def)
qed

lemma ImportIdentity_lists:
  assumes "mgr_lists n mgr" "ImportIdentity I mgr p = Ret mgr'"
  shows "mgr_lists n mgr'"
  using assms(2)
proof (cases rule: ImportIdentity_cases)
  case (2 a m)
  then have m: "ids_map mgr = m" "ids_map mgr' = m(a \<mapsto> p\<lparr>Imported := True\<rparr>)" by (simp_all add: ids_map_def)
  have "a \<notin> dom m" "finite (dom m)" using 2 assms(1) m(1) by (auto simp: mgr_lists_def)
  then have "card (insert a (dom m)) = Suc (card (dom m))" "a \<notin> set (derivedIDs mgr)"
    using assms(1) unfolding mgr_lists_def m(1) by auto
  with assms(1) 2 show ?thesis unfolding mgr_lists_def m by (simp (no_asm_simp)) (fastforce simp del: fun_upd_apply)
qed (simp add: assms(1))

lemma mgr_New_lists:
  assumes "mgr_lists n mgr" "mgr_New I mgr name stream behavior = Ret (mgr', p)" "address_String I p = Ret a"
  shows "mgr_lists (if mgr_Get mgr a = None then n else Suc n) mgr'"
proof -
  obtain m where m: "IDs (mdb mgr) = Some m" "ids_map mgr' = m(a \<mapsto> p)" "importedIDs mgr' = importedIDs mgr"
      "derivedIDs mgr' = derivedIDs mgr @ [a]" "\<not> Imported p"
    using mgr_New_ids [OF assms(2)] assms(3) by auto
  have i: "ids_map mgr = m" using m(1) by (rule ids_map_Some)
  have "card (insert a (dom m)) = (if m a = None then Suc (card (dom m)) else card (dom m))"
  proof (cases "m a")
    case None
    then have "a \<notin> dom m" "finite (dom m)" using assms(1) i by (auto simp: mgr_lists_def)
    with None show ?thesis by simp
  next
    case (Some q)
    then have "insert a (dom m) = dom m" by auto
    with Some show ?thesis by simp
  qed
  with assms(1) m show ?thesis unfolding mgr_lists_def mgr_Get_def m(2) i by auto
qed

lemma set_name_lists:
  assumes "mgr_lists n mgr" "ids_map mgr a = Some p"
  shows "mgr_lists n (mgr\<lparr>mdb := (mdb mgr)\<lparr>IDs := Some ((ids_map mgr)(a \<mapsto> p\<lparr>Name := s\<rparr>))\<rparr>\<rparr>)"
proof -
  have "dom ((ids_map mgr)(a \<mapsto> p\<lparr>Name := s\<rparr>)) = dom (ids_map mgr)" using assms(2) by auto
  with assms show ?thesis by (auto simp: mgr_lists_def ids_map_def)
qed

lemma NameAddress_lists: "mgr_lists n mgr \<Longrightarrow> mgr_lists n (fst (NameAddress mgr a s))"
  by (auto simp: NameAddress_def set_name_lists split: option.split)

lemma UnnameAddress_lists: "mgr_lists n mgr \<Longrightarrow> mgr_lists n (fst (UnnameAddress mgr a))"
  by (auto simp: UnnameAddress_def set_name_lists split: option.split)

lemma ImportKeys_lists:
  assumes "mgr_lists n mgr" "ImportKeys I J ini_Load w mgr dat = Ret (w', mgr', r)"
  shows "mgr_lists n mgr'"
  by (rule ImportKeys_invariant [where Q = "mgr_lists n", OF _ assms]) (rule ImportIdentity_lists)

section \<open>The key file\<close>

text \<open>What is needed for a manager to be saved: every identity and the master key have a text form that is read back.\<close>

definition mgr_saved :: "('k, 'a, 'b, 'p) identity \<Rightarrow> ('k, 'p) Manager \<Rightarrow> bool" where
  "mgr_saved I mgr \<longleftrightarrow> Version (mdb mgr) = latestFileVersion \<and> IDs (mdb mgr) \<noteq> None \<and>
     (\<forall>k. MasterKey (mdb mgr) = Some k \<longrightarrow> NewKeyFromString I (KeyString I k) = Inr k \<and> ascii (KeyString I k)) \<and>
     (\<forall>a p. ids_map mgr a = Some p \<longrightarrow> ascii a \<and> ascii (Name p) \<and> (\<exists>q. Private p = Some q \<and> saved_ok I q))"

lemma marshal_ids_decode:
  assumes "\<And>a p. m a = Some p \<Longrightarrow> ascii a \<and> ascii (Name p) \<and> (\<exists>q. Private p = Some q \<and> saved_ok I q)"
  shows "\<exists>es. marshal_ids I m ks = Ret (Inr es) \<and> ascii_json (JObj es) \<and>
    (\<forall>m0. decode_ids I es m0 = Inr (\<lambda>k. if k \<in> set ks \<inter> dom m then Some (m k) else m0 k))"
proof (induction ks)
  case (Cons k ks)
  then obtain es where es: "marshal_ids I m ks = Ret (Inr es)" "ascii_json (JObj es)"
    "\<And>m0. decode_ids I es m0 = Inr (\<lambda>k. if k \<in> set ks \<inter> dom m then Some (m k) else m0 k)"
    by auto
  show ?case
  proof (cases "m k")
    case None
    then have "k' \<in> set (k # ks) \<inter> dom m \<longleftrightarrow> k' \<in> set ks \<inter> dom m" for k' by auto
    with None es show ?thesis by simp
  next
    case (Some p)
    with assms obtain q where q: "Private p = Some q" "saved_ok I q" "ascii k" "ascii (Name p)" by blast
    from PrivateID_json [OF q(1,2)] q(4) obtain v where v: "PrivateID_MarshalJSON I p = Ret (Inr v)"
      "PrivateID_UnmarshalJSON I v = Inr p" "ascii_json v" "v \<noteq> JNull" by blast
    have "decode_ids I ((k, v) # es) m0 = Inr (\<lambda>k'. if k' \<in> set (k # ks) \<inter> dom m then Some (m k') else m0 k')" for m0
      using v Some by (auto simp: es(3) fun_eq_iff)
    moreover have "marshal_ids I m (k # ks) = Ret (Inr ((k, v) # es))" using v Some es(1) by simp
    moreover have "ascii_json (JObj ((k, v) # es))" using v(3) q(3) es(2) by simp
    ultimately show ?thesis by blast
  qed
qed simp

lemma db_fields [simp]:
  "json_fields ''version'' [(''version'', a), (''masterKey'', b), (''newIDIndex'', c), (''addresses'', d)] = [a]"
  "json_fields ''masterKey'' [(''version'', a), (''masterKey'', b), (''newIDIndex'', c), (''addresses'', d)] = [b]"
  "json_fields ''newIDIndex'' [(''version'', a), (''masterKey'', b), (''newIDIndex'', c), (''addresses'', d)] = [c]"
  "json_fields ''addresses'' [(''version'', a), (''masterKey'', b), (''newIDIndex'', c), (''addresses'', d)] = [d]"
  by (simp_all add: json_fields_def EqualFold_def ToLower_def)

lemma db_names_ascii: "ascii ''version''" "ascii ''masterKey''" "ascii ''newIDIndex''" "ascii ''addresses''"
  by (simp_all add: ascii_def)

lemma Serialize_openDb:
  assumes "json_ok J" "mgr_ok mgr" "mgr_saved I mgr"
  shows "\<exists>b. ExportPlaintext I J mgr = Ret (Inr b) \<and> openDb I J b = Inr
    \<lparr>raw_Version = latestFileVersion, raw_MasterKey = MasterKey (mdb mgr), raw_NewIDIndex = NewIDIndex (mdb mgr),
     raw_IDs = Some (\<lambda>a. map_option Some (ids_map mgr a))\<rparr>"
proof -
  let ?m = "ids_map mgr"
  let ?ks = "sorted_list_of_set (dom ?m)"
  have m: "IDs (mdb mgr) = Some ?m" and v: "Version (mdb mgr) = 1"
    using assms(3) by (auto simp: mgr_saved_def ids_map_def latestFileVersion_def)
  have k: "set ?ks = dom ?m" using assms(2) by (simp add: mgr_ok_def)
  obtain es where es: "marshal_ids I ?m ?ks = Ret (Inr es)" "ascii_json (JObj es)"
    "\<And>m0. decode_ids I es m0 = Inr (\<lambda>k. if k \<in> set ?ks \<inter> dom ?m then Some (?m k) else m0 k)"
    using marshal_ids_decode [of ?m I ?ks] assms(3) by (auto simp: mgr_saved_def)
  have d: "decode_ids I es Map.empty = Inr (\<lambda>a. map_option Some (?m a))"
    unfolding es(3) k by (auto simp: fun_eq_iff dom_def split: option.splits)
  define key where "key = (case MasterKey (mdb mgr) of None \<Rightarrow> JNull | Some k \<Rightarrow> MasterKey_MarshalJSON I k)"
  have key: "read_key I None key = Inr (MasterKey (mdb mgr))" "ascii_json key"
    using assms(3)
    by (auto simp: key_def read_key_def mgr_saved_def MasterKey_MarshalJSON_def MasterKey_UnmarshalJSON_def split: option.splits)
  let ?v = "JObj [(''version'', JNum 1), (''masterKey'', key), (''newIDIndex'', JNum (uint (NewIDIndex (mdb mgr)))),
    (''addresses'', JObj es)]"
  have "ExportPlaintext I J mgr = Ret (Inr (json_text J ?v))"
    by (simp add: ExportPlaintext_def Serialize_def m es(1) v key_def)
  moreover have "json_parse J (json_text J ?v) = Inr ?v"
    using assms(1) es(2) key(2) db_names_ascii by (simp add: json_ok_def)
  ultimately show ?thesis
    by (simp add: openDb_def json_field_def raw_map_def d key(1) latestFileVersion_def del: json_uint.simps)
qed

lemma sort_ids_returns: "(\<And>a. m a \<noteq> Some None) \<Longrightarrow> \<exists>imp' der'. sort_ids m addrs imp der = Ret (imp', der')"
proof (induction addrs arbitrary: imp der)
  case (Cons a addrs)
  show ?case
  proof (cases "m a")
    case None
    with Cons show ?thesis by simp
  next
    case (Some x)
    with Cons show ?thesis by (cases x) auto
  qed
qed simp

lemma FromPlaintext_saved:
  assumes "openDb I J b = Inr \<lparr>raw_Version = latestFileVersion, raw_MasterKey = k, raw_NewIDIndex = i,
      raw_IDs = Some (\<lambda>a. map_option Some (m a))\<rparr>"
  shows "\<exists>w' mgr'. FromPlaintext I J w b = Ret (w', Inr mgr') \<and>
    mdb mgr' = \<lparr>Version = latestFileVersion, MasterKey = k, NewIDIndex = i, IDs = Some m\<rparr>"
proof -
  let ?r = "\<lambda>a. map_option Some (m a)"
  obtain imp der where "sort_ids ?r (name_order w (tick w) (dom ?r)) [] [] = Ret (imp, der)"
    using sort_ids_returns [of ?r] by fastforce
  moreover have "(\<lambda>k. case ?r k of Some (Some p) \<Rightarrow> Some p | _ \<Rightarrow> None) = m"
    by (auto simp: fun_eq_iff split: option.splits)
  ultimately show ?thesis
    by (simp add: FromPlaintext_def assms range_names_def raw_map_def checkAndUpgrade_def latestFileVersion_def)
qed

lemma ExportEncrypted_box:
  assumes "crypto_ok C" "env_ok w" "rnd_live w" "ExportPlaintext I J mgr = Ret (Inr plain)"
  shows "\<exists>w' nonce salt. length nonce = nonceSize \<and> length salt = saltLength \<and> env_ok w' \<and>
    ExportEncrypted I J C w mgr pass = Ret (w', Inr (nonce @ salt @ Seal C plain nonce (deriveKey C pass salt)))"
proof -
  let ?w = "w\<lparr>tick := Suc (tick w)\<rparr>"
  obtain n where n: "rand_Read w nonceSize = (?w, Inr n)" "length n = nonceSize"
    using rand_Read_live [OF assms(2,3)] by blast
  obtain s where s: "rand_Read ?w saltLength = (?w\<lparr>tick := Suc (tick ?w)\<rparr>, Inr s)" "length s = saltLength"
    using rand_Read_live [of ?w saltLength] assms(2,3) by auto
  have "ExportEncrypted I J C w mgr pass = Ret (w\<lparr>tick := Suc (Suc (tick w))\<rparr>, Inr (n @ s @ Seal C plain n (deriveKey C pass s)))"
    using n(1) s(1) assms(4) by (simp add: ExportEncrypted_def)
  with n(2) s(2) assms(2) env_ok_tick show ?thesis by blast
qed

lemma FromEncrypted_box:
  assumes "crypto_ok C" "length nonce = nonceSize" "length salt = saltLength"
  shows "FromEncrypted I J C w (nonce @ salt @ Seal C plain nonce (deriveKey C pass salt)) pass = FromPlaintext I J w plain"
  using assms by (simp add: FromEncrypted_def Let_def)

section \<open>Deriving keys\<close>

lemma derive_loop_finds:
  assumes "\<And>j. j < n \<Longrightarrow> \<exists>e. NewHD I key (index + (i + of_nat j)) stream = Inl e"
    and "NewHD I key (index + (i + of_nat n)) stream = Inr h"
  shows "derive_loop I key index stream i = Some (h, index + (i + of_nat n + 1))"
  using assms
proof (induction n arbitrary: i)
  case 0
  then show ?case by (subst derive_loop.simps) simp
next
  case (Suc n)
  obtain e where e: "NewHD I key (index + i) stream = Inl e" using Suc.prems(1) [of 0] by auto
  have "derive_loop I key index stream (i + 1) = Some (h, index + (i + 1 + of_nat n + 1))"
    using Suc.prems(1) [of "Suc _"] Suc.prems(2) by (intro Suc.IH) (simp_all add: algebra_simps)
  with e show ?case by (subst derive_loop.simps) (simp add: algebra_simps)
qed

lemma derive_loop_found:
  assumes "derive_loop I key index stream i = Some (h, index')"
  shows "\<exists>n. (\<forall>j < n. \<exists>e. NewHD I key (index + (i + of_nat j)) stream = Inl e) \<and>
    NewHD I key (index + (i + of_nat n)) stream = Inr h \<and> index' = index + (i + of_nat n + 1)"
proof -
  let ?P = "\<lambda>I key index stream i r. \<exists>n. (\<forall>j < n. \<exists>e. NewHD I key (index + (i + of_nat j)) stream = Inl e) \<and>
    NewHD I key (index + (i + of_nat n)) stream = Inr (fst r) \<and> snd r = index + (i + of_nat n + 1)"
  have "?P I key index stream i (h, index')"
  proof (rule derive_loop.raw_induct [OF _ assms, where P = ?P])
    fix loop and I :: "('b, 'a, 'c, 'd) identity" and key index stream i and r :: "'a \<times> u32"
    assume ih: "\<And>I key index stream i r. loop I key index stream i = Some r \<Longrightarrow> ?P I key index stream i r"
      and r: "(case NewHD I key (index + i) stream of Inl x \<Rightarrow> loop I key index stream (i + 1)
        | Inr privHD \<Rightarrow> Some (privHD, index + (i + 1))) = Some r"
    show "?P I key index stream i r"
    proof (cases "NewHD I key (index + i) stream")
      case (Inr h')
      with r show ?thesis by (intro exI [of _ 0]) auto
    next
      case (Inl e)
      with r ih [of I key index stream "i + 1" r] obtain n where
        n: "\<forall>j < n. \<exists>e. NewHD I key (index + (i + 1 + of_nat j)) stream = Inl e"
          "NewHD I key (index + (i + 1 + of_nat n)) stream = Inr (fst r)" "snd r = index + (i + 1 + of_nat n + 1)"
        by auto
      have "\<exists>e. NewHD I key (index + (i + of_nat j)) stream = Inl e" if "j < Suc n" for j
        using that n(1) Inl by (cases j) (auto simp: algebra_simps)
      with n(2,3) show ?thesis by (intro exI [of _ "Suc n"]) (auto simp: algebra_simps)
    qed
  qed
  then show ?thesis by simp
qed

section \<open>Importing keys\<close>

text \<open>
  The sections of a file whose keys are imported are named by the address as bmutil prints it; \<open>ImportWIF\<close> accepts only keys of
  the address it is given.
\<close>

definition canonical_ini :: "('k, 'a, 'b, 'p) identity \<Rightarrow> (string \<rightharpoonup> (string \<rightharpoonup> string)) \<Rightarrow> bool" where
  "canonical_ini I f \<longleftrightarrow> (\<forall>a v p. f a = Some v \<longrightarrow> ini_identity I a v = Some p \<longrightarrow> address_String I p = Ret a)"

definition ini_entry :: "('k, 'a, 'b, 'p) identity \<Rightarrow> (string \<rightharpoonup> (string \<rightharpoonup> string)) \<Rightarrow> string \<Rightarrow> 'p PrivateID option" where
  "ini_entry I f a = Option.bind (f a) (ini_identity I a)"

lemma ini_entry_address: "canonical_ini I f \<Longrightarrow> ini_entry I f a = Some p \<Longrightarrow> address_String I p = Ret a"
  by (auto simp: ini_entry_def canonical_ini_def bind_eq_Some_conv)

lemma ImportIdentity_ids:
  assumes "IDs (mdb mgr) = Some m" "address_String I p = Ret a"
  shows "\<exists>mgr'. ImportIdentity I mgr p = Ret mgr' \<and>
    IDs (mdb mgr') = Some (if m a = None then m(a \<mapsto> p\<lparr>Imported := True\<rparr>) else m)"
  using assms by (cases "m a") (simp_all add: ImportIdentity_def)

text \<open>What the sections \<open>K\<close> add to the identities \<open>m\<close> and to the report.\<close>

definition merged :: "(string \<rightharpoonup> 'p PrivateID) \<Rightarrow> (string \<rightharpoonup> 'p PrivateID) \<Rightarrow> string set \<Rightarrow> (string \<rightharpoonup> 'p PrivateID)" where
  "merged m new K a = (case m a of Some p \<Rightarrow> Some p
     | None \<Rightarrow> if a \<in> K then map_option (\<lambda>p. p\<lparr>Imported := True\<rparr>) (new a) else None)"

definition reported :: "(string \<rightharpoonup> string) \<Rightarrow> (string \<rightharpoonup> 'p PrivateID) \<Rightarrow> string set \<Rightarrow> (string \<rightharpoonup> string)" where
  "reported adrs new K a = (if a \<in> K \<and> new a \<noteq> None then map_option Name (new a) else adrs a)"

lemma merged_insert:
  "new k = Some p \<Longrightarrow> merged (if m k = None then m(k \<mapsto> p\<lparr>Imported := True\<rparr>) else m) new K = merged m new (insert k K)"
  "new k = Some p \<Longrightarrow> reported (adrs(k \<mapsto> Name p)) new K = reported adrs new (insert k K)"
  "new k = None \<Longrightarrow> merged m new (insert k K) = merged m new K"
  "new k = None \<Longrightarrow> reported adrs new (insert k K) = reported adrs new K"
  by (auto simp: merged_def reported_def fun_eq_iff split: option.splits)

lemma import_sections_ids:
  assumes "canonical_ini I f" "IDs (mdb mgr) = Some m"
  shows "\<exists>mgr'. import_sections I f mgr adrs ks = Ret (mgr', reported adrs (ini_entry I f) (set ks)) \<and>
    IDs (mdb mgr') = Some (merged m (ini_entry I f) (set ks))"
  using assms(2)
proof (induction ks arbitrary: mgr m adrs)
  case Nil
  then show ?case by (auto simp: merged_def reported_def fun_eq_iff split: option.splits)
next
  case (Cons k ks)
  show ?case
  proof (cases "ini_entry I f k")
    case None
    with Cons.IH [OF Cons.prems, of adrs] show ?thesis
      by (simp add: ini_entry_def [symmetric] merged_insert(3,4))
  next
    case (Some p)
    note a = ini_entry_address [OF assms(1) Some]
    obtain mgr1 where m1: "ImportIdentity I mgr p = Ret mgr1"
      "IDs (mdb mgr1) = Some (if m k = None then m(k \<mapsto> p\<lparr>Imported := True\<rparr>) else m)"
      using ImportIdentity_ids [OF Cons.prems a] by auto
    have "import_sections I f mgr adrs (k # ks) = import_sections I f mgr1 (adrs(k \<mapsto> Name p)) ks"
      using Some a m1(1) by (simp add: ini_entry_def [symmetric])
    with Cons.IH [OF m1(2), of "adrs(k \<mapsto> Name p)"] show ?thesis
      by (simp only: merged_insert(1,2) [where new = "ini_entry I f", OF Some] list.set)
  qed
qed

section \<open>A reference for bmutil's identities\<close>

text \<open>Keys are texts; an identity is an address with two texts, its behaviour and its proof-of-work parameters.\<close>

type_synonym ref_id = "(string \<times> string \<times> string) \<times> u32 \<times> PowData"

definition ref_identity :: "(string, string, string \<times> string \<times> string, ref_id) identity" where
  "ref_identity =
     \<lparr>NewMaster = (\<lambda>seed. if length seed < 16 then Inl (ErrExt ''seed length'') else Inr ''xprv''),
      KeyString = (\<lambda>k. k), NewKeyFromString = Inr,
      NewHD = (\<lambda>k i s. if i = 3 then Inl (ErrExt ''invalid child'') else Inr (k @ fmt_d (unat i))),
      NewPrivateAddress = (\<lambda>a v s. (''BM-'' @ a, ''s'' @ a, ''d'' @ a)),
      DefaultAddressVersion = 4, ImportWIF = (\<lambda>a s d. Inr (a, s, d)),
      NewPrivateID = (\<lambda>b v x. (b, v, case x of None \<Rightarrow> \<lparr>NonceTrialsPerByte = 1000, ExtraBytes = 1000\<rparr> | Some d \<Rightarrow> d)),
      id_Address = (\<lambda>((a, s, d), v, x). Some a), SigningWIF = (\<lambda>((a, s, d), v, x). s),
      DecryptionWIF = (\<lambda>((a, s, d), v, x). d), id_Pow = (\<lambda>((a, s, d), v, x). Some x),
      id_Behavior = (\<lambda>((a, s, d), v, x). v),
      DefaultNonceTrialsPerByte = 1000, DefaultExtraBytes = 1000\<rparr>"

lemma ini_identity_ref: "ini_identity ref_identity a v = Some p \<Longrightarrow> address_String ref_identity p = Ret a"
  by (auto simp: ini_identity_def ref_identity_def address_String_def pid_Address_def split: if_splits option.splits)

definition demo_id :: "string \<Rightarrow> bool \<Rightarrow> string \<Rightarrow> ref_id PrivateID" where
  "demo_id a imp name = \<lparr>Private = Some ((a, ''s'', ''d''), 1, \<lparr>NonceTrialsPerByte = 1000, ExtraBytes = 1000\<rparr>),
     IsChan = False, Disabled = False, Imported = imp, Name = name\<rparr>"

definition demo_mgr :: "(string, ref_id) Manager" where
  "demo_mgr = \<lparr>mdb = \<lparr>Version = 1, MasterKey = Some ''xprv'', NewIDIndex = 2,
       IDs = Some [''BM-a'' \<mapsto> demo_id ''BM-a'' False ''me'', ''BM-b'' \<mapsto> demo_id ''BM-b'' True '''']\<rparr>,
     importedIDs = [''BM-b''], derivedIDs = [''BM-a'']\<rparr>"

lemma mgr_ok_demo: "mgr_ok demo_mgr"
  by (auto simp: mgr_ok_def demo_mgr_def ids_map_def demo_id_def split: if_splits)

lemma mgr_saved_demo: "mgr_saved ref_identity demo_mgr"
  by (auto simp: mgr_saved_def demo_mgr_def ids_map_def latestFileVersion_def demo_id_def ref_identity_def saved_ok_def ascii_def
      split: if_splits)

section \<open>Properties\<close>

text \<open>
  The managers that a program can hold: made from a seed or from a key file, then changed by any sequence of calls; \<open>n\<close> is
  the number of calls of \<open>New\<close> that derived an address which the manager held already, and whose identity they replaced.
\<close>

inductive mgr_reachable ::
  "('k, 'a, 'b, 'p) identity \<Rightarrow> jsonlib \<Rightarrow> crypto \<Rightarrow> (bytes \<Rightarrow> error + (string \<rightharpoonup> (string \<rightharpoonup> string))) \<Rightarrow> nat \<Rightarrow> ('k, 'p) Manager \<Rightarrow> bool"
  for I J C ini_Load where
  seed: "idmgr_New I seed = Inr mgr \<Longrightarrow> mgr_reachable I J C ini_Load 0 mgr"
| plain: "FromPlaintext I J (w :: env) r = Ret (w', Inr mgr) \<Longrightarrow> env_ok w \<Longrightarrow> mgr_reachable I J C ini_Load 0 mgr"
| encrypted: "FromEncrypted I J C (w :: env) enc pass = Ret (w', Inr mgr) \<Longrightarrow> env_ok w \<Longrightarrow> mgr_reachable I J C ini_Load 0 mgr"
| import_id: "mgr_reachable I J C ini_Load n mgr \<Longrightarrow> ImportIdentity I mgr p = Ret mgr' \<Longrightarrow> mgr_reachable I J C ini_Load n mgr'"
| derive: "mgr_reachable I J C ini_Load n mgr \<Longrightarrow> mgr_New I mgr name stream behavior = Ret (mgr', p) \<Longrightarrow>
    address_String I p = Ret a \<Longrightarrow> mgr_reachable I J C ini_Load (if mgr_Get mgr a = None then n else Suc n) mgr'"
| name: "mgr_reachable I J C ini_Load n mgr \<Longrightarrow> mgr_reachable I J C ini_Load n (fst (NameAddress mgr a s))"
| unname: "mgr_reachable I J C ini_Load n mgr \<Longrightarrow> mgr_reachable I J C ini_Load n (fst (UnnameAddress mgr a))"
| keys: "mgr_reachable I J C ini_Load n mgr \<Longrightarrow> ImportKeys I J ini_Load (w :: env) mgr dat = Ret (w', mgr', r) \<Longrightarrow>
    mgr_reachable I J C ini_Load n mgr'"

lemma mgr_reachable_lists: "mgr_reachable I J C ini_Load n mgr \<Longrightarrow> mgr_lists n mgr"
proof (induction rule: mgr_reachable.induct)
  case (derive n mgr name stream behavior mgr' p a)
  show ?case by (rule mgr_New_lists [OF derive(4,2,3)])
next
  case (import_id n mgr p mgr')
  show ?case by (rule ImportIdentity_lists [OF import_id(3,2)])
next
  case (keys n mgr w dat w' mgr' r)
  show ?case by (rule ImportKeys_lists [OF keys(3,2)])
qed (auto intro: mgr_ok_lists NameAddress_lists UnnameAddress_lists dest: idmgr_New_ok FromPlaintext_ok FromEncrypted_ok)

text \<open>
  C17. In every key manager that any sequence of calls leads to, the addresses of the map are those of the two lists; an
  identity that is marked as imported is in the list of imported addresses and not in the other, and one that is not is in
  the list of derived addresses.  \<open>NumImported\<close> and \<open>NumDeterministic\<close> add up to \<open>Size\<close> plus the number of calls of \<open>New\<close> that
  replaced an identity.  So when there was none, the lists have no repetition and partition the map, and the two numbers add
  up to \<open>Size\<close>; each replacement makes them too large by one.
\<close>

theorem mgr_reachable_invariant:
  assumes "mgr_reachable I J C ini_Load n mgr"
  shows "dom (ids_map mgr) = set (importedIDs mgr) \<union> set (derivedIDs mgr) \<and>
    (\<forall>a p. ids_map mgr a = Some p \<longrightarrow> Imported p \<longrightarrow> a \<in> set (importedIDs mgr) \<and> a \<notin> set (derivedIDs mgr)) \<and>
    (\<forall>a p. ids_map mgr a = Some p \<longrightarrow> \<not> Imported p \<longrightarrow> a \<in> set (derivedIDs mgr)) \<and>
    NumImported mgr + NumDeterministic mgr = mgr_Size mgr + n \<and> (n = 0 \<longrightarrow> mgr_ok mgr)"
proof -
  have l: "mgr_lists n mgr" by (rule mgr_reachable_lists [OF assms])
  then have "n = 0 \<longrightarrow> mgr_ok mgr" using mgr_lists_ok by blast
  with l show ?thesis unfolding mgr_lists_def NumImported_def NumDeterministic_def mgr_Size_def by blast
qed

theorem mgr_reachable_invariant_witness:
  "\<exists>mgr mgr1 mgr2 p. idmgr_New ref_identity ''0123456789abcdef'' = Inr mgr \<and>
     ImportIdentity ref_identity mgr (demo_id ''BM-xprv0'' False ''me'') = Ret mgr1 \<and>
     mgr_New ref_identity mgr1 ''me'' 1 1 = Ret (mgr2, p) \<and>
     mgr_ok mgr1 \<and> NumImported mgr1 + NumDeterministic mgr1 = mgr_Size mgr1 \<and>
     NumImported mgr2 + NumDeterministic mgr2 = mgr_Size mgr2 + 1"
proof -
  let ?ini = "\<lambda>_ :: bytes. Inl (ErrExt '''') :: error + (string \<rightharpoonup> (string \<rightharpoonup> string))"
  let ?reach = "mgr_reachable ref_identity ref_json ref_crypto ?ini"
  let ?m0 = "\<lparr>mdb = newDb ''xprv'' 1, importedIDs = [], derivedIDs = []\<rparr> :: (string, ref_id) Manager"
  let ?id = "demo_id ''BM-xprv0'' False ''me''"
  let ?m1 = "?m0\<lparr>mdb := (mdb ?m0)\<lparr>IDs := Some [''BM-xprv0'' \<mapsto> ?id\<lparr>Imported := True\<rparr>]\<rparr>, importedIDs := [''BM-xprv0'']\<rparr>"
  have 0: "idmgr_New ref_identity ''0123456789abcdef'' = Inr ?m0"
    by (simp add: idmgr_New_def ref_identity_def latestFileVersion_def)
  have 1: "ImportIdentity ref_identity ?m0 ?id = Ret ?m1"
    by (simp add: ImportIdentity_def address_String_def pid_Address_def demo_id_def ref_identity_def newDb_def)
  have d: "derive_loop ref_identity ''xprv'' 0 1 0 = Some (''xprv0'', 1)"
    by (subst derive_loop.simps) (simp add: ref_identity_def fmt_d.simps char_of_def bit_0)
  obtain m2 p where 2: "mgr_New ref_identity ?m1 ''me'' 1 1 = Ret (m2, p)" "address_String ref_identity p = Ret ''BM-xprv0''"
    by (simp add: mgr_New_def newDb_def d Let_def address_String_def pid_Address_def) (simp add: ref_identity_def)
  have g: "mgr_Get ?m1 ''BM-xprv0'' \<noteq> None" by (simp add: mgr_Get_def ids_map_def)
  have r1: "?reach 0 ?m1" by (rule import_id [OF seed [OF 0] 1])
  have r2: "?reach (Suc 0) m2" using derive [OF r1 2] by (simp only: g if_False)
  show ?thesis using mgr_reachable_invariant [OF r1] mgr_reachable_invariant [OF r2] 0 1 2(1)
    by (intro exI [of _ ?m0] exI [of _ ?m1] exI [of _ m2] exI [of _ p]) simp
qed

lemma keyfile_saved:
  fixes w :: "'x env_scheme"
  assumes "crypto_ok C" "env_ok w" "rnd_live w" "json_ok J" "mgr_ok mgr" "mgr_saved I mgr"
  shows "\<exists>w' enc. ExportEncrypted I J C w mgr pass = Ret (w', Inr enc) \<and> env_ok w' \<and>
    (\<forall>v :: 'x env_scheme. env_ok v \<longrightarrow>
      (\<exists>v' mgr'. FromEncrypted I J C v enc pass = Ret (v', Inr mgr') \<and> mdb mgr' = mdb mgr \<and> mgr_ok mgr'))"
proof -
  obtain b where b: "ExportPlaintext I J mgr = Ret (Inr b)"
    "openDb I J b = Inr \<lparr>raw_Version = latestFileVersion, raw_MasterKey = MasterKey (mdb mgr),
      raw_NewIDIndex = NewIDIndex (mdb mgr), raw_IDs = Some (\<lambda>a. map_option Some (ids_map mgr a))\<rparr>"
    using Serialize_openDb [OF assms(4-6)] by blast
  obtain w' n s where e: "length n = nonceSize" "length s = saltLength" "env_ok w'"
    "ExportEncrypted I J C w mgr pass = Ret (w', Inr (n @ s @ Seal C b n (deriveKey C pass s)))"
    using ExportEncrypted_box [OF assms(1-3) b(1)] by blast
  have "\<exists>v' mgr'. FromEncrypted I J C v (n @ s @ Seal C b n (deriveKey C pass s)) pass = Ret (v', Inr mgr') \<and>
      mdb mgr' = mdb mgr \<and> mgr_ok mgr'" if v: "env_ok v" for v :: "'x env_scheme"
  proof -
    obtain v' mgr' where f: "FromPlaintext I J v b = Ret (v', Inr mgr')"
      "mdb mgr' = \<lparr>Version = latestFileVersion, MasterKey = MasterKey (mdb mgr), NewIDIndex = NewIDIndex (mdb mgr),
        IDs = Some (ids_map mgr)\<rparr>"
      using FromPlaintext_saved [OF b(2)] by blast
    have "mdb mgr' = mdb mgr" using assms(6) by (auto simp: f(2) mgr_saved_def ids_map_def)
    with FromEncrypted_box [OF assms(1) e(1,2)] f(1) FromPlaintext_ok [OF v f(1)] show ?thesis by metis
  qed
  with e show ?thesis by blast
qed

lemma ExportEncrypted_tick:
  "ExportEncrypted I J C w mgr pass = Ret (w', r) \<Longrightarrow> \<exists>k. w' = w\<lparr>tick := k\<rparr>"
proof -
  assume e: "ExportEncrypted I J C w mgr pass = Ret (w', r)"
  then obtain p where p: "ExportPlaintext I J mgr = Ret p" by (cases "ExportPlaintext I J mgr") (simp_all add: ExportEncrypted_def)
  show ?thesis
  proof (cases p)
    case (Inl x)
    with e p have "w' = w\<lparr>tick := tick w\<rparr>" by (simp add: ExportEncrypted_def)
    then show ?thesis by blast
  next
    case (Inr b)
    with e p have "w' = w\<lparr>tick := Suc (tick w)\<rparr> \<or> w' = w\<lparr>tick := Suc (Suc (tick w))\<rparr>"
      by (auto simp: ExportEncrypted_def rand_Read_def split: sum.splits)
    then show ?thesis by blast
  qed
qed

text \<open>
  C18. What \<open>ExportEncrypted\<close> returns is read back by \<open>FromEncrypted\<close> with the same passphrase: the manager that
  results has the same master key, the same index of the next identity and the same identities, and satisfies the invariant.
\<close>

theorem keyfile_roundtrip:
  assumes "crypto_ok C" "env_ok w" "rnd_live w" "json_ok J" "mgr_ok mgr" "mgr_saved I mgr"
  shows "\<exists>w' enc w'' mgr'. ExportEncrypted I J C w mgr pass = Ret (w', Inr enc) \<and>
    FromEncrypted I J C w' enc pass = Ret (w'', Inr mgr') \<and> mdb mgr' = mdb mgr \<and> mgr_ok mgr'"
  using keyfile_saved [OF assms] by blast

theorem keyfile_roundtrip_witness:
  "\<exists>w' enc w'' mgr'. ExportEncrypted ref_identity ref_json ref_crypto ref_env demo_mgr ''secret'' = Ret (w', Inr enc) \<and>
    FromEncrypted ref_identity ref_json ref_crypto w' enc ''secret'' = Ret (w'', Inr mgr') \<and> mdb mgr' = mdb demo_mgr \<and> mgr_ok mgr'"
  by (rule keyfile_roundtrip [OF crypto_ok_ref env_ok_ref rnd_live_ref json_ok_ref mgr_ok_demo mgr_saved_demo])

text \<open>
  C19. \<open>New\<close> returns exactly when some index gives a key.  When it returns, it has taken the first such index
  from \<open>NewIDIndex\<close> on, wrapping around at 2^32, moved \<open>NewIDIndex\<close> just behind it, and the new
  identity is found by its address under its name.
\<close>

theorem mgr_New_first_index:
  assumes "MasterKey (mdb mgr) = Some key" "IDs (mdb mgr) = Some m"
    and "\<And>h. id_Address I (NewPrivateID I (NewPrivateAddress I h (DefaultAddressVersion I) stream) behavior None) \<noteq> None"
  shows "(returns (mgr_New I mgr name stream behavior) \<longleftrightarrow> (\<exists>i h. NewHD I key i stream = Inr h)) \<and>
    (\<forall>mgr' p. mgr_New I mgr name stream behavior = Ret (mgr', p) \<longrightarrow>
      (\<exists>n h a. (\<forall>j < n. \<exists>e. NewHD I key (NewIDIndex (mdb mgr) + of_nat j) stream = Inl e) \<and>
         NewHD I key (NewIDIndex (mdb mgr) + of_nat n) stream = Inr h \<and>
         NewIDIndex (mdb mgr') = NewIDIndex (mdb mgr) + of_nat n + 1 \<and>
         Private p = Some (NewPrivateID I (NewPrivateAddress I h (DefaultAddressVersion I) stream) behavior None) \<and>
         Name p = name \<and> address_String I p = Ret a \<and> mgr_Get mgr' a = Some p))"
proof -
  let ?i = "NewIDIndex (mdb mgr)"
  have "returns (mgr_New I mgr name stream behavior)" if "NewHD I key i stream = Inr h" for i h
  proof -
    define P where "P n \<longleftrightarrow> (\<exists>h. NewHD I key (?i + of_nat n) stream = Inr h)" for n
    have "P (unat (i - ?i))" using that by (simp add: P_def)
    then have n: "P (LEAST n. P n)" by (rule LeastI)
    then obtain h' where h: "NewHD I key (?i + of_nat (LEAST n. P n)) stream = Inr h'" by (auto simp: P_def)
    have "\<exists>e. NewHD I key (?i + of_nat j) stream = Inl e" if "j < (LEAST n. P n)" for j
      using not_less_Least [OF that] by (cases "NewHD I key (?i + of_nat j) stream") (auto simp: P_def)
    with h obtain x where "derive_loop I key ?i stream 0 = Some (h', x)"
      using derive_loop_finds [of "LEAST n. P n" I key ?i 0 stream h'] by auto
    with assms(1,2) assms(3) [of h'] show ?thesis
      by (auto simp: mgr_New_def Let_def address_String_def pid_Address_def)
  qed
  moreover have "\<exists>n h a. (\<forall>j < n. \<exists>e. NewHD I key (?i + of_nat j) stream = Inl e) \<and>
      NewHD I key (?i + of_nat n) stream = Inr h \<and> NewIDIndex (mdb mgr') = ?i + of_nat n + 1 \<and>
      Private p = Some (NewPrivateID I (NewPrivateAddress I h (DefaultAddressVersion I) stream) behavior None) \<and>
      Name p = name \<and> address_String I p = Ret a \<and> mgr_Get mgr' a = Some p"
    if "mgr_New I mgr name stream behavior = Ret (mgr', p)" for mgr' p
  proof -
    from that assms(1,2) obtain h x where d: "derive_loop I key ?i stream 0 = Some (h, x)"
      "NewIDIndex (mdb mgr') = x" "Private p = Some (NewPrivateID I (NewPrivateAddress I h (DefaultAddressVersion I) stream) behavior None)"
      by (auto simp: mgr_New_def Let_def go_bind_Ret_conv split: option.splits)
    from derive_loop_found [OF d(1)] obtain n where n: "\<forall>j < n. \<exists>e. NewHD I key (?i + of_nat j) stream = Inl e"
      "NewHD I key (?i + of_nat n) stream = Inr h" "x = ?i + of_nat n + 1"
      by (auto simp: algebra_simps)
    from mgr_New_ids [OF that] obtain a where a: "address_String I p = Ret a" "Name p = name" "mgr_Get mgr' a = Some p"
      by (auto simp: mgr_Get_def)
    from n a d(2,3) show ?thesis by blast
  qed
  ultimately show ?thesis unfolding returns_def by fastforce
qed

theorem mgr_New_first_index_witness:
  "\<exists>mgr' p. mgr_New ref_identity (demo_mgr\<lparr>mdb := (mdb demo_mgr)\<lparr>NewIDIndex := 3\<rparr>\<rparr>) ''new'' 1 1 = Ret (mgr', p) \<and>
     mgr_Get mgr' ''BM-xprv4'' = Some p"
proof -
  let ?m = "demo_mgr\<lparr>mdb := (mdb demo_mgr)\<lparr>NewIDIndex := 3\<rparr>\<rparr>"
  have k: "MasterKey (mdb ?m) = Some ''xprv''" and i: "NewIDIndex (mdb ?m) = 3" by (simp_all add: demo_mgr_def)
  obtain m where m: "IDs (mdb ?m) = Some m" by (simp add: demo_mgr_def)
  have a: "id_Address ref_identity (NewPrivateID ref_identity (NewPrivateAddress ref_identity h v 1) 1 None) = Some (''BM-'' @ h)"
    and d: "NewHD ref_identity key i s = (if i = 3 then Inl (ErrExt ''invalid child'') else Inr (key @ fmt_d (unat i)))"
    for h v key i s
    by (simp_all add: ref_identity_def)
  note new = mgr_New_first_index [OF k m, of ref_identity 1 1 "''new''", unfolded a i d, OF option.distinct(2)]
  have "\<exists>i h. (if i = (3 :: u32) then Inl (ErrExt ''invalid child'') else Inr (''xprv'' @ fmt_d (unat i))) = Inr h"
    by (intro exI [of _ 0]) simp
  with new obtain mgr' p where r: "mgr_New ref_identity ?m ''new'' 1 1 = Ret (mgr', p)"
    by (auto simp: returns_def)
  from new [THEN conjunct2, rule_format, OF r] obtain n h a where
      s: "\<forall>j < n. \<exists>e. (if (3 :: u32) + of_nat j = 3 then Inl (ErrExt ''invalid child'') else Inr (''xprv'' @ fmt_d (unat ((3 :: u32) + of_nat j)))) = Inl e"
      "(if (3 :: u32) + of_nat n = 3 then Inl (ErrExt ''invalid child'') else Inr (''xprv'' @ fmt_d (unat ((3 :: u32) + of_nat n)))) = Inr h"
    and n4: "Private p = Some (NewPrivateID ref_identity (NewPrivateAddress ref_identity h (DefaultAddressVersion ref_identity) 1) 1 None)"
      "address_String ref_identity p = Ret a" "mgr_Get mgr' a = Some p"
    by blast
  have n: "\<forall>j < n. (3 :: u32) + of_nat j = 3" "(3 :: u32) + of_nat n \<noteq> 3" "h = ''xprv'' @ fmt_d (unat ((3 :: u32) + of_nat n))"
    using s by (auto split: if_splits)
  note n = n n4
  have "n = 1"
  proof (rule ccontr)
    assume "n \<noteq> 1"
    with n(2) have "1 < n" by (cases n) auto
    with n(1) [rule_format, of 1] show False by simp
  qed
  moreover have "char_of (52 :: nat) = CHR ''4''" by code_simp
  ultimately have "h = ''xprv4''" using n(3) by (simp add: fmt_d.simps)
  with n(4,5) a have "a = ''BM-xprv4''" by (simp add: address_String_def pid_Address_def)
  with n(6) r show ?thesis by blast
qed

text \<open>
  C20. Importing a PyBitmessage key file whose sections are named by the addresses as bmutil prints them: every section with both keys becomes an identity under its address, marked as
  imported, unless the manager had an identity there already, which stays as it was; the report names every address of the
  file with its label, whatever the order in which the sections are visited.
\<close>

theorem ImportKeysFromPyBitmessage_ids:
  assumes "canonical_ini I f" "env_ok w" "finite (dom f)" "IDs (mdb mgr) = Some m"
  shows "\<exists>w' mgr' adrs. ImportKeysFromPyBitmessage I w mgr f = Ret (w', mgr', adrs) \<and>
    (\<forall>a. mgr_Get mgr' a = (case m a of Some p \<Rightarrow> Some p
       | None \<Rightarrow> map_option (\<lambda>p. p\<lparr>Imported := True\<rparr>) (Option.bind (f a) (ini_identity I a)))) \<and>
    (\<forall>a. adrs a = map_option Name (Option.bind (f a) (ini_identity I a)))"
proof -
  let ?ks = "name_order w (tick w) (dom f)"
  have ks: "set ?ks = dom f" using env_ok_names [OF assms(2,3)] by blast
  obtain mgr' where i: "import_sections I f mgr Map.empty ?ks = Ret (mgr', reported Map.empty (ini_entry I f) (dom f))"
    "IDs (mdb mgr') = Some (merged m (ini_entry I f) (dom f))"
    using import_sections_ids [OF assms(1,4), of Map.empty ?ks] ks by auto
  have new: "ini_entry I f a = Option.bind (f a) (ini_identity I a)" for a by (simp add: ini_entry_def)
  have "mgr_Get mgr' a = (case m a of Some p \<Rightarrow> Some p
       | None \<Rightarrow> map_option (\<lambda>p. p\<lparr>Imported := True\<rparr>) (Option.bind (f a) (ini_identity I a)))" for a
    by (cases "f a") (auto simp: mgr_Get_def ids_map_def i(2) merged_def new dom_def split: option.split)
  moreover have "reported Map.empty (ini_entry I f) (dom f) a = map_option Name (Option.bind (f a) (ini_identity I a))" for a
    by (cases "f a") (auto simp: reported_def new)
  ultimately show ?thesis
    by (simp add: ImportKeysFromPyBitmessage_def range_names_def i(1))
qed

definition demo_ini :: "string \<rightharpoonup> (string \<rightharpoonup> string)" where
  "demo_ini = [''BM-b'' \<mapsto> [''privsigningkey'' \<mapsto> ''s2'', ''privencryptionkey'' \<mapsto> ''d2'', ''label'' \<mapsto> ''chan'', ''chan'' \<mapsto> ''True''],
     ''BM-c'' \<mapsto> [''privsigningkey'' \<mapsto> ''s3'', ''privencryptionkey'' \<mapsto> ''d3'', ''enabled'' \<mapsto> ''false''],
     ''bitmessagesettings'' \<mapsto> [''port'' \<mapsto> ''8444'']]"

theorem ImportKeysFromPyBitmessage_ids_witness:
  "\<exists>w' mgr' adrs. ImportKeysFromPyBitmessage ref_identity ref_env demo_mgr demo_ini = Ret (w', mgr', adrs) \<and>
     mgr_Get mgr' ''BM-b'' = Some (demo_id ''BM-b'' True '''') \<and>
     (\<exists>p. mgr_Get mgr' ''BM-c'' = Some p \<and> Disabled p \<and> Imported p) \<and>
     mgr_Get mgr' ''bitmessagesettings'' = None \<and> adrs ''BM-b'' = Some ''chan''"
proof -
  obtain m where m: "IDs (mdb demo_mgr) = Some m" "m ''BM-b'' = Some (demo_id ''BM-b'' True '''')" "m ''BM-c'' = None"
    "m ''bitmessagesettings'' = None"
    by (simp add: demo_mgr_def)
  have fin: "finite (dom demo_ini)" by (simp add: demo_ini_def)
  have c: "canonical_ini ref_identity demo_ini" by (simp add: canonical_ini_def ini_identity_ref)
  from ImportKeysFromPyBitmessage_ids [OF c env_ok_ref fin m(1)] obtain w' mgr' adrs where
    r: "ImportKeysFromPyBitmessage ref_identity ref_env demo_mgr demo_ini = Ret (w', mgr', adrs)"
    and g: "\<And>a. mgr_Get mgr' a = (case m a of Some p \<Rightarrow> Some p
       | None \<Rightarrow> map_option (\<lambda>p. p\<lparr>Imported := True\<rparr>) (Option.bind (demo_ini a) (ini_identity ref_identity a)))"
    and n: "\<And>a. adrs a = map_option Name (Option.bind (demo_ini a) (ini_identity ref_identity a))"
    by blast
  have "adrs ''BM-b'' = Some ''chan''"
    by (simp add: n demo_ini_def ini_identity_def ref_identity_def)
  moreover have "\<exists>p. mgr_Get mgr' ''BM-c'' = Some p \<and> Disabled p \<and> Imported p"
    by (simp add: g m(3) demo_ini_def ini_identity_def ref_identity_def readIniBool_def ToLower_def)
  moreover have "mgr_Get mgr' ''bitmessagesettings'' = None"
    by (simp add: g m(4) demo_ini_def ini_identity_def)
  ultimately show ?thesis using r g [of "''BM-b''"] m(2) by auto
qed

text \<open>
  C21. Reading a number of a key file: a decimal number below 2^63 is read as it is; a larger one, even one that fits
  in the 64 bits of the result, is replaced by the default value; and a negative one wraps around modulo 2^64.
\<close>

theorem readIniUint64_bounds:
  "readIniUint64 [k \<mapsto> fmt_d n] k d = (if n < 2 ^ 63 then of_nat n else d) \<and>
   readIniUint64 [k \<mapsto> CHR ''-'' # fmt_d n] k d = (if n \<le> 2 ^ 63 then - of_nat n else d)"
  by (simp add: readIniUint64_def Atoi_fmt_d Atoi_neg)

text \<open>
  When the derived address is that of an imported identity, \<open>New\<close> replaces the identity and leaves the address in both lists.
\<close>

lemma mgr_New_duplicate:
  assumes "mgr_ok mgr" "mgr_New I mgr name stream behavior = Ret (mgr', p)" "address_String I p = Ret a"
    "mgr_Get mgr a = Some q" "Imported q"
  shows "a \<in> set (importedIDs mgr') \<and> a \<in> set (derivedIDs mgr') \<and> mgr_Get mgr' a = Some p \<and>
    NumImported mgr' + NumDeterministic mgr' = mgr_Size mgr' + 1"
proof -
  obtain m where m: "IDs (mdb mgr) = Some m" "ids_map mgr' = m(a \<mapsto> p)" "importedIDs mgr' = importedIDs mgr"
      "derivedIDs mgr' = derivedIDs mgr @ [a]"
    using mgr_New_ids [OF assms(2)] assms(3) by auto
  have "dom (ids_map mgr') = dom (ids_map mgr)"
    using m(2) assms(4) by (auto simp: ids_map_Some [OF m(1)] mgr_Get_def)
  with m mgr_ok_size [OF assms(1)] assms show ?thesis
    by (auto simp: mgr_ok_def mgr_Get_def NumImported_def NumDeterministic_def mgr_Size_def)
qed

end
