(* ===== verification/User_Correct.thy ===== *)
theory User_Correct
  imports Mail_Server Cmd_Correct Idmgr_Correct
begin

text \<open>
  The theorems on package \<open>user\<close>: moving messages between mailboxes, sending, the acks, commands, and authentication.
\<close>

section \<open>Folders and the clock\<close>

text \<open>A mailbox's folder does not touch the clock.\<close>

locale mail_store = mail_client F inv msgs fits apart D
  for F :: "('x env_scheme, 'h) Folder" and inv msgs fits apart and D :: "('x env_scheme, 'h, 'o) deps" +
  assumes apart_sym: "apart g h \<Longrightarrow> apart h g"
    and insert_new_clock: "InsertNewMessage F w h m s = Ret (w', h', r) \<Longrightarrow> clock w' = clock w"
    and insert_clock: "InsertMessage F w h i m s = Ret (w', h', e) \<Longrightarrow> clock w' = clock w"
    and delete_clock: "DeleteMessage F w h i = Ret (w', h', e) \<Longrightarrow> clock w' = clock w"
    and visits_clock: "Visits F w h lo hi s = (w', vs, fin) \<Longrightarrow> clock w' = clock w"

text \<open>\<open>keeps c m\<close>: whatever the call returns, the clock of the world (its first component) is \<open>c\<close>.\<close>

definition keeps :: "(nat \<Rightarrow> gotime) \<Rightarrow> ('x env_scheme \<times> 'y) go \<Rightarrow> bool" where
  "keeps c m \<longleftrightarrow> (\<forall>w y. m = Ret (w, y) \<longrightarrow> clock w = c)"

lemma keepsI [intro!]: "clock w = c \<Longrightarrow> keeps c (Ret (w, y))" "keeps c Panic" "keeps c Block"
  by (simp_all add: keeps_def)

lemma keeps_bind: "keeps c m \<Longrightarrow> (\<And>w y. clock w = c \<Longrightarrow> keeps c (f (w, y))) \<Longrightarrow> keeps c (go_bind m f)"
  unfolding keeps_def go_bind_Ret_conv by (metis surj_pair)

lemma keeps_bind_any: "(\<And>x. keeps c (f x)) \<Longrightarrow> keeps c (go_bind m f)"
  by (cases m) (auto simp: keeps_def)

lemma keeps_on_bucket: "keeps c m \<Longrightarrow> keeps c (on_bucket B tx p m)"
  by (auto simp: keeps_def on_bucket_def)

lemma keeps_db_Update:
  assumes "clock w = c" "\<And>w1 tx l1. clock w1 = c \<Longrightarrow> keeps c (fn w1 tx l1)"
  shows "keeps c (db_Update B w l fn)"
proof -
  let ?w = "w\<lparr>wdb := (wdb w)\<lparr>rwtx := True\<rparr>\<rparr>"
  let ?f = "\<lambda>tx (w1, l1). go_bind (fn w1 tx l1) (\<lambda>(w2, tx2, l2, e). Ret (tx2, (w2, l2), e))"
  have "clock w1 = c" if u: "Update B (wdb w) (?w, l) ?f = Ret (d, (w1, l1), e)" for d w1 l1 e
  proof (cases "?f (content (wdb w)) (?w, l)")
    case (Ret x)
    then obtain w2 tx2 l2 e2 where x: "fn ?w (content (wdb w)) l = Ret (w2, tx2, l2, e2)" "x = (tx2, (w2, l2), e2)"
      by (auto simp: go_bind_Ret_conv)
    have "clock ?w = c" using assms(1) by simp
    from assms(2) [OF this, of "content (wdb w)" l] x(1) have "clock w2 = c" by (simp add: keeps_def)
    with u Ret x(2) assms(1) show ?thesis
      by (auto simp: Update_def split: if_splits option.splits sum.splits)
  qed (use u assms(1) in \<open>auto simp: Update_def split: if_splits option.splits\<close>)
  then show ?thesis by (auto simp: keeps_def db_Update_def go_bind_Ret_conv)
qed

lemma encrypt_clock: "encrypt C k w m = (w', r) \<Longrightarrow> clock w' = clock w"
  using encrypt_world [of C k w m w' r] by auto

lemmas keeps_intros = keeps_bind keeps_on_bucket keeps_db_Update

lemma store_InsertNewMessage_clock: "keeps (clock w) (store_InsertNewMessage B C w f m s)"
  unfolding store_InsertNewMessage_def Let_def
  by (auto intro!: keeps_intros simp: encrypt_clock split: option.split sum.split prod.split)

lemma store_InsertMessage_clock: "keeps (clock w) (store_InsertMessage B C w f i m s)"
  unfolding store_InsertMessage_def Let_def
  by (auto intro!: keeps_intros simp: encrypt_clock split: option.split sum.split prod.split)

lemma store_DeleteMessage_clock: "keeps (clock w) (store_DeleteMessage B w f i)"
  unfolding store_DeleteMessage_def Let_def
  by (auto intro!: keeps_intros split: option.split sum.split prod.split list.split)

interpretation ms: mail_store "store_Folder B C" "store_inv B C" "store_msgs B C" store_fits store_apart
    "store_deps (and_flags L) P impl B C"
  for B :: "'db bolt" and C :: crypto and L :: mail_lib and P :: "'o codec" and impl :: "float64 \<Rightarrow> u32"
  using store_InsertNewMessage_clock store_InsertMessage_clock store_DeleteMessage_clock
  by unfold_locales (fastforce simp: store_Folder_def store_apart_def keeps_def)+

text \<open>A message as it is stored at a time \<open>t\<close>, and that it can be stored whatever the clock shows.\<close>

definition prepared_at :: "gotime \<Rightarrow> ('h, 'o) mailbox \<Rightarrow> Bmail \<Rightarrow> Flags \<Rightarrow> Bmail" where
  "prepared_at t box bmsg flags =
     (case State bmsg of None \<Rightarrow> bmsg\<lparr>State := Some new_state\<rparr> | Some _ \<Rightarrow> bmsg)
       \<lparr>Imap := Some \<lparr>UID = 0, SequenceNumber = Mailbox.messages box + 1, Flags = flags, TimeReceived = t,
          Mailbox = Some (b_name box)\<rparr>\<rparr>"

lemma prepared_clock: "prepared w box b flags = prepared_at (clock w (tick w)) box b flags"
  by (simp add: prepared_def prepared_at_def)

definition storable_at ::
  "(bytes \<Rightarrow> bool) \<Rightarrow> ('w, 'h, 'o) deps \<Rightarrow> (nat \<Rightarrow> gotime) \<Rightarrow> ('h, 'o) mailbox \<Rightarrow> Bmail \<Rightarrow> Flags \<Rightarrow> bool" where
  "storable_at fits D c box b flags \<longleftrightarrow> (\<forall>i. \<exists>enc. storable fits D (prepared_at (c i) box b flags) enc)"

context mail_store
begin

lemma folder_keeps:
  "keeps (clock w) (InsertNewMessage F w h m s)" "keeps (clock w) (InsertMessage F w h i m s)"
  "keeps (clock w) (DeleteMessage F w h i)"
  unfolding keeps_def using insert_new_clock insert_clock delete_clock by fastforce+

lemma ForEachMessage_keeps: "keeps (clock w) (ForEachMessage F w h lo hi s fn a)"
  using visits_clock by (fastforce simp: ForEachMessage_def keeps_def go_bind_Ret_conv split: prod.splits)

lemma keeps_trans: "keeps (clock w) m \<Longrightarrow> (\<And>w' y. clock w' = clock w \<Longrightarrow> keeps (clock w') (f (w', y))) \<Longrightarrow> keeps (clock w) (go_bind m f)"
  by (rule keeps_bind) auto

lemma refresh_keeps: "keeps (clock w) (refresh D w box)"
  unfolding refresh_def Let_def dF
  by (rule keeps_trans [OF ForEachMessage_keeps]) (auto split: prod.splits option.splits)

lemma DeleteBitmessageByUID_keeps: "keeps (clock w) (DeleteBitmessageByUID D w box i)"
proof -
  have "keeps (clock w) (DeleteBitmessageByUID D w box i)" if "bmsgByUID D w box i = Ret (b, r)" for b r
    using that unfolding DeleteBitmessageByUID_def dF
    by (auto split: option.splits intro!: keeps_bind [OF folder_keeps(3)] simp: Let_def)
  note r = this
  show ?thesis
  proof (cases "bmsgByUID D w box i")
    case (Ret x)
    then show ?thesis by (cases x) (rule r, simp)
  qed (simp_all add: DeleteBitmessageByUID_def keepsI)
qed

lemma saveBitmessage_keeps: "keeps (clock w) (saveBitmessage D w box m)"
proof -
  have r: "keeps (clock w) (go_bind (refresh D w1 b) (\<lambda>(w2, b2, e). Ret (w2, b2, x, e)))" if "clock w1 = clock w" for w1 b x
    using refresh_keeps [of w1 b] that by (intro keeps_bind) auto
  have i: "keeps (clock w) (go_bind (InsertMessage F w1 h i m s) (\<lambda>(w2, h2, _).
      go_bind (refresh D w2 (b h2)) (\<lambda>(w3, b3, e). Ret (w3, b3, x, e))))" if "clock w1 = clock w" for w1 h i m s b x
    using folder_keeps(2) [of w1 h i m s] that by (intro keeps_bind) (auto intro: r)
  show ?thesis
    unfolding saveBitmessage_def dF Let_def
    by (rule keeps_bind_any)
      (auto intro!: keeps_bind [OF folder_keeps(1)] keeps_bind [OF folder_keeps(3)] r i
        keeps_bind_any [where m = "GetMessage F w1 h j" for w1 h j] split: sum.splits option.splits)
qed

lemma Move_moves:
  assumes E: "ubox E = D" and b: "boxes u f = Some fb" "boxes u t = Some tb" "f \<noteq> t"
    and fb: "inv w (mbox fb)" "synced D (msgs w (mbox fb)) fb" "readable D (msgs w (mbox fb))" "seq_small (uids fb)"
    and tb: "inv w (mbox tb)" "sub tb = None" "readable D (msgs w (mbox tb))" "NextID F (mbox tb) \<noteq> - 1"
    and ap: "apart (mbox fb) (mbox tb)"
    and m: "Imap bmsg = Some d" "UID d \<in> ids_of (msgs w (mbox fb)) 2"
      "shown D (b_name fb) (msgs w (mbox fb)) (UID d) = Some b'"
    and st: "storable_at fits D (clock w) tb (b'\<lparr>Imap := None\<rparr>) (FlagSeen (mlib D))"
  shows "\<exists>w' fb' tb' enc i. Move E w u bmsg f t = Ret (w', u\<lparr>boxes := (boxes u)(f \<mapsto> fb', t \<mapsto> tb')\<rparr>, None) \<and>
    inv w' (mbox fb') \<and> msgs w' (mbox fb') = (msgs w (mbox fb))(UID d := None) \<and> synced D (msgs w' (mbox fb')) fb' \<and>
    inv w' (mbox tb') \<and> msgs w' (mbox tb') = (msgs w (mbox tb))(NextID F (mbox tb) \<mapsto> (2, enc)) \<and>
    synced D (msgs w' (mbox tb')) tb' \<and> readable D (msgs w' (mbox tb')) \<and>
    storable fits D (prepared_at (clock w i) tb (b'\<lparr>Imap := None\<rparr>) (FlagSeen (mlib D))) enc \<and>
    b_name fb' = b_name fb \<and> b_name tb' = b_name tb \<and>
    (\<forall>g. apart (mbox fb) g \<longrightarrow> apart (mbox tb) g \<longrightarrow> inv w g \<longrightarrow> inv w' g \<and> msgs w' g = msgs w g)"
proof -
  let ?u = "UID d"
  note g = bmsgByUID_ok [OF fb, of ?u, unfolded m(3)]
  obtain w1 fb' where dl: "DeleteBitmessageByUID D w fb ?u = Ret (w1, fb', None)" "inv w1 (mbox fb')"
    "msgs w1 (mbox fb') = (msgs w (mbox fb))(?u := None)" "synced D (msgs w1 (mbox fb')) fb'" "b_name fb' = b_name fb"
    "\<forall>g. apart (mbox fb) g \<longrightarrow> inv w g \<longrightarrow> inv w1 g \<and> msgs w1 g = msgs w g \<and> apart (mbox fb') g"
    using DeleteBitmessageByUID_ok [OF fb m(2)] by blast
  have c: "clock w1 = clock w" using DeleteBitmessageByUID_keeps [of w fb ?u] dl(1) by (simp add: keeps_def)
  with st obtain enc where e: "storable fits D (prepared_at (clock w (tick w1)) tb (b'\<lparr>Imap := None\<rparr>) (FlagSeen (mlib D))) enc"
    unfolding storable_at_def by blast
  then have enc: "storable fits D (prepared w1 tb (b'\<lparr>Imap := None\<rparr>) (FlagSeen (mlib D))) enc"
    by (simp add: prepared_clock c)
  have t1: "inv w1 (mbox tb)" "msgs w1 (mbox tb) = msgs w (mbox tb)" "apart (mbox fb') (mbox tb)"
    using dl(6) ap tb(1) by auto
  obtain w2 tb' b3 where ad: "addNew D w1 tb (b'\<lparr>Imap := None\<rparr>) (FlagSeen (mlib D)) = Ret (w2, tb', b3, None)"
    "inv w2 (mbox tb')" "msgs w2 (mbox tb') = (msgs w (mbox tb))(NextID F (mbox tb) \<mapsto> (2, enc))"
    "synced D (msgs w2 (mbox tb')) tb'" "readable D (msgs w2 (mbox tb'))" "b_name tb' = b_name tb"
    "\<forall>g. apart (mbox tb) g \<longrightarrow> inv w1 g \<longrightarrow> inv w2 g \<and> msgs w2 g = msgs w1 g \<and> apart (mbox tb') g"
    using addNew_ok [OF t1(1) tb(2) _ enc tb(4)] tb(3) t1(2) by auto
  have "inv w2 (mbox fb') \<and> msgs w2 (mbox fb') = msgs w1 (mbox fb')"
    using ad(7) apart_sym [OF t1(3)] dl(2) by blast
  moreover have "Move E w u bmsg f t = Ret (w2, u\<lparr>boxes := (boxes u)(f \<mapsto> fb', t \<mapsto> tb')\<rparr>, None)"
    using b m(1) dl(1) ad(1) g by (simp add: Move_def E on_box_def)
  moreover have "\<forall>g. apart (mbox fb) g \<longrightarrow> apart (mbox tb) g \<longrightarrow> inv w g \<longrightarrow> inv w2 g \<and> msgs w2 g = msgs w g"
    using dl(6) ad(7) by metis
  ultimately show ?thesis using dl(3-5) ad(2-6) e by metis
qed

end

section \<open>Moving messages\<close>

text \<open>What a fetch of a message stored as \<open>m\<close> returns, apart from its IMAP data.\<close>

lemma shown_stored:
  assumes "and_flags L = L" "storable store_fits (store_deps L P impl B C) m enc" "M i = Some (2, enc)"
  shows "\<exists>d. shown (store_deps L P impl B C) name M i = Some ((stored m)\<lparr>Imap := Some d\<rparr>) \<and> UID d = i"
proof -
  note L = mb.storable_mail [where L = L and P = P and impl = impl and B = B and C = C, unfolded assms(1)]
  have "shown (store_deps L P impl B C) name M i = Some ((stored m)\<lparr>Imap := Some ((the (Imap (stored m)))\<lparr>UID := i,
      SequenceNumber := of_nat (1 + card {j \<in> ids_of M 2. j < i}), Mailbox := Some name\<rparr>)\<rparr>)"
    using L(1) [OF assms(2)] assms(3) by (simp add: shown_def)
  moreover have "UID ((the (Imap (stored m)))\<lparr>UID := i,
      SequenceNumber := of_nat (1 + card {j \<in> ids_of M 2. j < i}), Mailbox := Some name\<rparr>) = i" by simp
  ultimately show ?thesis by blast
qed

lemma Move_store:
  assumes E: "ubox E = store_deps L P impl B C"
    and b: "boxes u f = Some fb" "boxes u t = Some tb" "f \<noteq> t" "store_apart (mbox fb) (mbox tb)"
    and ok: "mailbox_ok L P impl B C w fb" "mailbox_ok L P impl B C w tb"
    and sm: "seq_small (uids fb)" "seq_small (remove1 (UID d) (uids fb))" "seq_small (uids tb @ [i])"
    and i: "NextID (store_Folder B C) (mbox tb) = i" "i \<noteq> - 1"
    and m: "Imap bmsg = Some d" "UID d \<in> set (uids fb)" "BitmessageByUID (store_deps L P impl B C) w fb (UID d) = Ret (fb, Some b')"
    and st: "storable_at store_fits (store_deps L P impl B C) (clock w) tb (b'\<lparr>Imap := None\<rparr>) (FlagSeen L)"
  shows "\<exists>w' fb' tb' b2. Move E w u bmsg f t = Ret (w', u\<lparr>boxes := (boxes u)(f \<mapsto> fb', t \<mapsto> tb')\<rparr>, None) \<and>
    mailbox_ok L P impl B C w' fb' \<and> mailbox_ok L P impl B C w' tb' \<and>
    uids fb' = remove1 (UID d) (uids fb) \<and> uids tb' = uids tb @ [i] \<and>
    BitmessageByUID (store_deps L P impl B C) w' fb' (UID d) = Ret (fb', None) \<and>
    BitmessageByUID (store_deps L P impl B C) w' tb' i = Ret (tb', Some b2) \<and>
    From b2 = From b' \<and> To b2 = To b' \<and> Payload b2 = Payload b' \<and>
    (State b' \<noteq> None \<longrightarrow> State b2 = map_option (\<lambda>s. s\<lparr>LastSend := (LastSend s)\<lparr>t_nsec := 0\<rparr>\<rparr>) (State b')) \<and>
    (\<forall>g. store_apart (mbox fb) g \<longrightarrow> store_apart (mbox tb) g \<longrightarrow> store_inv B C w g \<longrightarrow>
      store_inv B C w' g \<and> store_msgs B C w' g = store_msgs B C w g)"
proof -
  let ?D = "store_deps L P impl B C" and ?Mf = "store_msgs B C w (mbox fb)" and ?Mt = "store_msgs B C w (mbox tb)"
  note F = mailbox_okD [OF ok(1)] and T = mailbox_okD [OF ok(2)]
  note L = mb.bmsgByUID_ok [where L = L and P = P and impl = impl, unfolded F(1)]
    ms.Move_moves [where L = L and P = P and impl = impl and E = E, unfolded F(1)]
    mb.readable_delete [where L = L and P = P and impl = impl and B = B and C = C, unfolded F(1)]
  have ml: "mlib ?D = L" by (simp add: store_deps_def)
  have sh: "shown ?D (b_name fb) ?Mf (UID d) = Some b'"
    using m(3) L(1) [OF F(2,4,5) sm(1)] by (simp add: BitmessageByUID_def)
  have u: "UID d \<in> ids_of ?Mf 2" using m(2) synced_uids [OF F(4)] by simp
  obtain w' fb' tb' enc j where mv: "Move E w u bmsg f t = Ret (w', u\<lparr>boxes := (boxes u)(f \<mapsto> fb', t \<mapsto> tb')\<rparr>, None)"
    "store_inv B C w' (mbox fb')" "store_msgs B C w' (mbox fb') = ?Mf(UID d := None)" "synced ?D (store_msgs B C w' (mbox fb')) fb'"
    "store_inv B C w' (mbox tb')" "store_msgs B C w' (mbox tb') = ?Mt(i \<mapsto> (2, enc))"
    "synced ?D (store_msgs B C w' (mbox tb')) tb'" "readable ?D (store_msgs B C w' (mbox tb'))"
    "storable store_fits ?D (prepared_at (clock w j) tb (b'\<lparr>Imap := None\<rparr>) (FlagSeen L)) enc"
    "\<forall>g. store_apart (mbox fb) g \<longrightarrow> store_apart (mbox tb) g \<longrightarrow> store_inv B C w g \<longrightarrow>
      store_inv B C w' g \<and> store_msgs B C w' g = store_msgs B C w g"
    using L(2) [OF E b(1-3) F(2,4,5) sm(1) T(2,3,5) _ b(4) m(1) u sh, unfolded ml, OF _ st] i by auto
  have r: "readable ?D (store_msgs B C w' (mbox fb'))" using L(3) [OF F(5)] mv(3) by simp
  have uf: "uids fb' = remove1 (UID d) (uids fb)"
    using synced_uids [OF mv(4)] synced_uids [OF F(4)] by (simp add: mv(3) ids_of_upd remove1_sorted_list_of_set)
  have "\<forall>j \<in> ids_of ?Mt 2. j < i"
    using st.msgs_valid [OF T(2)] i(1) by (auto simp: ids_of_def valid_id_def)
  then have ut: "uids tb' = uids tb @ [i]"
    using synced_uids [OF mv(7)] synced_uids [OF T(4)] sorted_list_of_set_insert_max by (simp add: mv(6) ids_of_upd)
  have "shown ?D (b_name fb') (store_msgs B C w' (mbox fb')) (UID d) = None" by (simp add: shown_def mv(3))
  then have gf: "BitmessageByUID ?D w' fb' (UID d) = Ret (fb', None)"
    using L(1) [OF mv(2,4) r, of "UID d"] sm(2) uf by (simp add: BitmessageByUID_def)
  obtain d2 where "shown ?D (b_name tb') (store_msgs B C w' (mbox tb')) i =
      Some ((stored (prepared_at (clock w j) tb (b'\<lparr>Imap := None\<rparr>) (FlagSeen L)))\<lparr>Imap := Some d2\<rparr>)"
    using shown_stored [OF F(1) mv(9), of "store_msgs B C w' (mbox tb')" i "b_name tb'"] by (simp only: mv(6) fun_upd_same) blast
  then have gt: "BitmessageByUID ?D w' tb' i =
      Ret (tb', Some ((stored (prepared_at (clock w j) tb (b'\<lparr>Imap := None\<rparr>) (FlagSeen L)))\<lparr>Imap := Some d2\<rparr>))"
    using L(1) [OF mv(5,7,8), of i] sm(3) ut by (simp add: BitmessageByUID_def)
  have "mailbox_ok L P impl B C w' fb'" "mailbox_ok L P impl B C w' tb'"
    using ok mv r by (simp_all add: mailbox_ok_def)
  moreover define b2 where "b2 = (stored (prepared_at (clock w j) tb (b'\<lparr>Imap := None\<rparr>) (FlagSeen L)))\<lparr>Imap := Some d2\<rparr>"
  have "From b2 = From b'" "To b2 = To b'" "Payload b2 = Payload b'"
    by (simp_all add: b2_def stored_def prepared_at_def split: option.split)
  moreover have "State b' \<noteq> None \<longrightarrow> State b2 = map_option (\<lambda>s. s\<lparr>LastSend := (LastSend s)\<lparr>t_nsec := 0\<rparr>\<rparr>) (State b')"
    by (auto simp: b2_def stored_def prepared_at_def)
  ultimately show ?thesis using mv(1,10) uf ut gf gt [folded b2_def] by blast
qed

lemma AddNew_stores:
  assumes ok: "mailbox_ok L P impl B C w box" and i: "NextID (store_Folder B C) (mbox box) = i" "i \<noteq> - 1"
    and st: "storable store_fits (store_deps L P impl B C) (prepared w box bmsg flags) enc"
  obtains w' box' b' where "AddNew (store_deps L P impl B C) w box bmsg flags = Ret (w', box', b', None)"
    "mailbox_ok L P impl B C w' box'" "uids box' = uids box @ [i]" "NextID (store_Folder B C) (mbox box') = i + 1"
    "store_msgs B C w' (mbox box') = (store_msgs B C w (mbox box))(i \<mapsto> (2, enc))" "clock w' = clock w"
proof -
  let ?D = "store_deps L P impl B C" and ?M = "store_msgs B C w (mbox box)"
  note o = mailbox_okD [OF ok]
  note L = mb.addNew_ok [where L = L and P = P and impl = impl, unfolded o(1)]
    ms.saveBitmessage_keeps [where L = L and P = P and impl = impl, unfolded o(1)]
  obtain w' box' b' where a: "addNew ?D w box bmsg flags = Ret (w', box', b', None)" "store_inv B C w' (mbox box')"
      "store_msgs B C w' (mbox box') = ?M(i \<mapsto> (2, enc))" "synced ?D (store_msgs B C w' (mbox box')) box'"
      "readable ?D (store_msgs B C w' (mbox box'))" "NextID (store_Folder B C) (mbox box') = i + 1"
    using L(1) [OF o(2,3,5) st] i by auto
  have "\<forall>j \<in> ids_of ?M 2. j < i" using st.msgs_valid [OF o(2)] i(1) by (auto simp: ids_of_def valid_id_def)
  then have "uids box' = uids box @ [i]"
    using synced_uids [OF a(4)] synced_uids [OF o(4)] sorted_list_of_set_insert_max by (simp add: a(3) ids_of_upd)
  moreover have "keeps (clock w) (addNew ?D w box bmsg flags)"
    unfolding addNew_def Let_def time_Now_def
    using L(2) [of "w\<lparr>tick := Suc (tick w)\<rparr>"] by (auto intro!: keeps_bind split: option.split)
  then have "clock w' = clock w" using a(1) by (auto simp: keeps_def)
  moreover have "mailbox_ok L P impl B C w' box'" using ok a by (simp add: mailbox_ok_def)
  moreover have "AddNew ?D w box bmsg flags = Ret (w', box', b', None)" using a(1) o(3) by (simp add: AddNew_def)
  ultimately show thesis using that a(3,6) by blast
qed

lemma storable_box:
  "storable fits D (prepared_at t box b flags) enc = storable fits D (prepared_at t box' b flags) enc"
  by (auto simp: storable_def times_ok_def has_body_def prepared_at_def serializeBitmessage_def Let_def split: option.splits)

lemma storable_at_box: "storable_at fits D c box b flags = storable_at fits D c box' b flags"
  unfolding storable_at_def using storable_box [of fits D _ box b flags _ box'] by blast

text \<open>The stored message with uid \<open>i\<close> is fetched.\<close>

lemma stored_fetched:
  assumes ok: "mailbox_ok L P impl B C w box" "seq_small (uids box)"
    and m: "store_msgs B C w (mbox box) i = Some (2, enc)" "storable store_fits (store_deps L P impl B C) b enc"
  obtains d where "BitmessageByUID (store_deps L P impl B C) w box i = Ret (box, Some ((stored b)\<lparr>Imap := Some d\<rparr>))"
proof -
  let ?D = "store_deps L P impl B C"
  note o = mailbox_okD [OF ok(1)]
  obtain d where d: "shown ?D (b_name box) (store_msgs B C w (mbox box)) i = Some ((stored b)\<lparr>Imap := Some d\<rparr>)"
    using shown_stored [OF o(1) m(2), of "store_msgs B C w (mbox box)" i] m(1) by blast
  have "BitmessageByUID ?D w box i = Ret (box, Some ((stored b)\<lparr>Imap := Some d\<rparr>))"
    using mb.bmsgByUID_ok [where L = L and P = P and impl = impl, unfolded o(1), OF o(2,4,5) ok(2), of i]
    by (simp add: BitmessageByUID_def d)
  then show thesis by (rule that)
qed
section \<open>Sending\<close>

lemma NewUser_fields:
  assumes "NewUser D FS w f n k ex p s = Ret (w', f', Inr u)"
  shows "\<exists>bs. u = \<lparr>mu_username = n, boxes = bs, acks = Map.empty, expiration = None, mu_keys = k, pm = None, server = s\<rparr>"
proof -
  obtain w1 ns where n: "fs_Names FS w f = (w1, ns)" by fastforce
  from assms n obtain w2 f2 r where "open_boxes (ubox D) FS (km_Names (ukeys D) k) w1 f Map.empty ns = Ret (w2, f2, r)"
    by (auto simp: NewUser_def go_bind_Ret_conv)
  with assms n show ?thesis by (cases r) (auto simp: NewUser_def)
qed

text \<open>Without an expiration function every message whose recipient is known makes the program panic.\<close>

lemma expect_ack_same: "expect_ack m b = Panic \<or> (\<exists>m1. expect_ack m b = Ret m1 \<and> From m1 = From m \<and> To m1 = To m)"
  by (auto simp: expect_ack_def split: option.split)

lemma ack_missing_no_block: "ack_missing m \<noteq> Block"
  by (simp add: ack_missing_def split: option.split)

lemma generateAck_panics:
  assumes "expiration u = None" "ToBm (mlib (ubox D)) (ubm D) (From m) = Inr a" "km_Get (ukeys D) (mu_keys u) a = Some k"
    and "Private k = Some q" "To m \<noteq> ''broadcast@bm.agent''"
  shows "generateAck D w u m = Panic"
  using assms by (simp add: generateAck_def Let_def time_Now_def call_expiration_def)

lemma process_panics:
  assumes "expiration u = None" "boxes u OutboxFolderName = Some box" "getObject box m = None"
    and k: "ToBm (mlib (ubox D)) (ubm D) (From m) = Inr a" "km_Get (ukeys D) (mu_keys u) a = Some k" "Private k = Some q"
    and "so_GetOrRequestPublicID (userver D) w (server u) (To m) = Ret (w1, s1, Inr p)" "To m \<noteq> ''broadcast@bm.agent''"
  shows "process D w u m = Panic"
proof -
  let ?u = "u\<lparr>server := s1\<rparr>"
  have c: "call_expiration ?u t = Panic" for t using assms(1) by (simp add: call_expiration_def)
  show ?thesis
  proof (cases p)
    case broadcastID
    with assms c show ?thesis by (simp add: process_def generateObject_def)
  next
    case (PublicID_of t)
    define r where "r = (case km_Get (ukeys D) (mu_keys u) (To m) of
        Some i \<Rightarrow> expect_ack (m\<lparr>OfChannel := IsChan i\<rparr>) False
      | None \<Rightarrow> if and (q_Behavior (upub D) t) (BehaviorAck (unet D)) = BehaviorAck (unet D) then expect_ack m True else Ret m)"
    have r: "r = Panic \<or> (\<exists>m1. r = Ret m1 \<and> From m1 = From m \<and> To m1 = To m)"
      using expect_ack_same [of m True] expect_ack_same [of "m\<lparr>OfChannel := x\<rparr>" False for x]
      by (auto simp: r_def split: option.split)
    then show ?thesis
    proof (elim disjE exE conjE)
      assume "r = Panic"
      with assms PublicID_of show ?thesis by (simp add: process_def generateObject_def r_def [symmetric])
    next
      fix m1 assume m1: "r = Ret m1" "From m1 = From m" "To m1 = To m"
      have "generateAck D w1 ?u m1 = Panic"
        using assms(1) k assms(8) m1(2,3) by (intro generateAck_panics) auto
      with assms PublicID_of m1 c show ?thesis
        by (cases "ack_missing m1") (auto simp: process_def generateObject_def Let_def ack_missing_no_block r_def [symmetric])
    qed
  qed
qed

text \<open>
  A message whose recipient's key has been requested: \<open>generateObject\<close> marks it and \<open>process\<close> saves it again.
\<close>

lemma process_waits:
  assumes "boxes u OutboxFolderName = Some box" "getObject box m = None"
    and "ToBm (mlib (ubox D)) (ubm D) (From m) = Inr a" "km_Get (ukeys D) (mu_keys u) a = Some k" "Private k = Some q"
    and "so_GetOrRequestPublicID (userver D) w (server u) (To m) = Ret (w1, s1, Inl ErrGetPubKeySent)" "State m = Some st"
  shows "process D w u m = save_outbox D w1 (u\<lparr>server := s1\<rparr>) (m\<lparr>State := Some (st\<lparr>PubkeyRequestOutstanding := True\<rparr>)\<rparr>)"
  using assms by (simp add: process_def generateObject_def)

text \<open>Requests to the server leave the folders and the clock alone.\<close>

definition quiet_request ::
  "('db bolt) \<Rightarrow> crypto \<Rightarrow> ('db world, 's, 'q) ServerOps \<Rightarrow> 's \<Rightarrow> string \<Rightarrow> error + 'q Public \<Rightarrow> bool" where
  "quiet_request B C S s a r \<longleftrightarrow> (\<forall>w. \<exists>w1 s1. so_GetOrRequestPublicID S w s a = Ret (w1, s1, r) \<and> clock w1 = clock w \<and>
     (\<forall>g. store_inv B C w g \<longrightarrow> store_inv B C w1 g \<and> store_msgs B C w1 g = store_msgs B C w g))"

lemma objects_None_getObject: "objects box = None \<Longrightarrow> getObject box m = None"
  by (simp add: getObject_def split: option.split)

text \<open>The uid of a message is not part of its stored form.\<close>

lemma storable_uid:
  "storable fits D m enc \<Longrightarrow> Imap m = Some d \<Longrightarrow> storable fits D (m\<lparr>Imap := Some (d\<lparr>UID := i\<rparr>)\<rparr>) enc"
  by (auto simp: storable_def times_ok_def has_body_def serializeBitmessage_def Let_def split: option.splits)

lemma DeliverFromSMTP_waits:
  assumes E: "ubox E = store_deps L P impl B C"
    and ob: "boxes u OutboxFolderName = Some ob" "mailbox_ok L P impl B C w ob" "objects ob = None"
      "NextID (store_Folder B C) (mbox ob) = i" "i \<noteq> - 1" "seq_small (uids ob @ [i])"
    and m: "NewBitmessageFromSMTP L smtp = Ret (Inr m)" "\<not> CommandRegex (To m)" "State m = Some st"
    and k: "ToBm L (ubm E) (From m) = Inr a" "km_Get (ukeys E) (mu_keys u) a = Some k" "Private k = Some q"
    and r: "quiet_request B C (userver E) (server u) (To m) (Inl ErrGetPubKeySent)"
    and st: "storable_at store_fits (store_deps L P impl B C) (clock w) ob m (FlagSeen L)"
      "storable_at store_fits (store_deps L P impl B C) (clock w) ob (m\<lparr>State := Some (st\<lparr>PubkeyRequestOutstanding := True\<rparr>)\<rparr>) (FlagSeen L)"
  shows "\<exists>w' s1 ob' b. DeliverFromSMTP E w u smtp = Ret (w', u\<lparr>server := s1, boxes := (boxes u)(OutboxFolderName \<mapsto> ob')\<rparr>, None) \<and>
    mailbox_ok L P impl B C w' ob' \<and> uids ob' = uids ob @ [i] \<and>
    BitmessageByUID (store_deps L P impl B C) w' ob' i = Ret (ob', Some b) \<and>
    From b = From m \<and> To b = To m \<and> Payload b = Payload m \<and> (\<exists>s. State b = Some s \<and> PubkeyRequestOutstanding s) \<and>
    (\<exists>w1 w2. so_GetOrRequestPublicID (userver E) w1 (server u) (To m) = Ret (w2, s1, Inl ErrGetPubKeySent)) \<and>
    (\<forall>g. store_apart (mbox ob) g \<longrightarrow> store_inv B C w g \<longrightarrow> store_inv B C w' g \<and> store_msgs B C w' g = store_msgs B C w g)"
proof -
  let ?D = "store_deps L P impl B C" and ?M = "store_msgs B C w (mbox ob)"
  let ?st = "st\<lparr>PubkeyRequestOutstanding := True\<rparr>"
  note O = mailbox_okD [OF ob(2)]
  note L = mb.addNew_ok [where L = L and P = P and impl = impl, unfolded O(1)]
    mb.saveBitmessage_replace [where L = L and P = P and impl = impl, unfolded O(1)]
    mb.bmsgByUID_ok [where L = L and P = P and impl = impl, unfolded O(1)]
  have ml: "mlib ?D = L" by (simp add: store_deps_def)
  obtain e1 where e1: "storable store_fits ?D (prepared w ob m (FlagSeen L)) e1"
    using st(1) unfolding storable_at_def prepared_clock by blast
  obtain w1 ob1 where a: "addNew ?D w ob m (FlagSeen L) = Ret (w1, ob1, (prepared w ob m (FlagSeen L))\<lparr>Imap := Some
      \<lparr>UID = i, SequenceNumber = Mailbox.messages ob + 1, Flags = FlagSeen L, TimeReceived = clock w (tick w), Mailbox = Some (b_name ob)\<rparr>\<rparr>, None)"
    "store_inv B C w1 (mbox ob1)" "store_msgs B C w1 (mbox ob1) = ?M(i \<mapsto> (2, e1))" "synced ?D (store_msgs B C w1 (mbox ob1)) ob1"
    "readable ?D (store_msgs B C w1 (mbox ob1))" "b_name ob1 = b_name ob" "objects ob1 = objects ob"
    "\<forall>g. store_apart (mbox ob) g \<longrightarrow> store_inv B C w g \<longrightarrow> store_inv B C w1 g \<and> store_msgs B C w1 g = store_msgs B C w g \<and> store_apart (mbox ob1) g"
    using L(1) [OF O(2,3,5) e1] ob(4,5) by auto
  define b1 where "b1 = (prepared w ob m (FlagSeen L))\<lparr>Imap := Some
      \<lparr>UID = i, SequenceNumber = Mailbox.messages ob + 1, Flags = FlagSeen L, TimeReceived = clock w (tick w), Mailbox = Some (b_name ob)\<rparr>\<rparr>"
  obtain w2 s1 where q: "so_GetOrRequestPublicID (userver E) w1 (server u) (To m) = Ret (w2, s1, Inl ErrGetPubKeySent)"
    "\<And>g. store_inv B C w1 g \<Longrightarrow> store_inv B C w2 g \<and> store_msgs B C w2 g = store_msgs B C w1 g"
    using r unfolding quiet_request_def by blast
  define b2 where "b2 = b1\<lparr>State := Some ?st\<rparr>"
  let ?p = "prepared_at (clock w (tick w)) ob (m\<lparr>State := Some ?st\<rparr>) (FlagSeen L)"
  have b1: "From b1 = From m" "To b1 = To m" "State b1 = Some st" using m(3) by (simp_all add: b1_def prepared_def)
  obtain e2 where e2: "storable store_fits ?D ?p e2" using st(2) unfolding storable_at_def by blast
  define d2 where "d2 = \<lparr>UID = 0, SequenceNumber = Mailbox.messages ob + 1, Flags = FlagSeen L, TimeReceived = clock w (tick w), Mailbox = Some (b_name ob)\<rparr>"
  have b2: "b2 = ?p\<lparr>Imap := Some (d2\<lparr>UID := i\<rparr>)\<rparr>" "Imap ?p = Some d2" "Imap b2 = Some (d2\<lparr>UID := i\<rparr>)"
    using m(3) by (simp_all add: b2_def b1_def prepared_def prepared_at_def d2_def)
  have e2': "storable store_fits ?D b2 e2" unfolding b2(1) by (rule storable_uid [OF e2 b2(2)])
  have i2: "UID (d2\<lparr>UID := i\<rparr>) = i" by simp
  have s1': "sub ob1 = None" using a(4) by (simp add: synced_def)
  obtain w3 ob3 where s: "saveBitmessage ?D w2 ob1 b2 = Ret (w3, ob3, b2, None)" "store_inv B C w3 (mbox ob3)"
    "store_msgs B C w3 (mbox ob3) = ?M(i \<mapsto> (2, e2))" "synced ?D (store_msgs B C w3 (mbox ob3)) ob3"
    "readable ?D (store_msgs B C w3 (mbox ob3))"
    "\<forall>g. store_apart (mbox ob1) g \<longrightarrow> store_inv B C w2 g \<longrightarrow> store_inv B C w3 g \<and> store_msgs B C w3 g = store_msgs B C w2 g \<and> store_apart (mbox ob3) g"
    using L(2) [of B C w2 ob1 b2 e2, OF _ s1' _ e2' b2(3)] q(2) [OF a(2)] a(3,5) i2 by auto
  have "process E w1 (u\<lparr>boxes := (boxes u)(OutboxFolderName \<mapsto> ob1)\<rparr>) b1 =
      save_outbox E w2 (u\<lparr>boxes := (boxes u)(OutboxFolderName \<mapsto> ob1), server := s1\<rparr>) b2"
    unfolding b2_def
    by (subst process_waits [where box = ob1 and a = a and k = k and q = q])
      (simp_all add: objects_None_getObject a(7) ob(3) E ml b1 k q(1))
  also have "\<dots> = Ret (w3, u\<lparr>boxes := (boxes u)(OutboxFolderName \<mapsto> ob3), server := s1\<rparr>, b2, None)"
    by (simp add: save_outbox_def on_box_def E s(1))
  finally have p: "process E w1 (u\<lparr>boxes := (boxes u)(OutboxFolderName \<mapsto> ob1)\<rparr>) b1 =
      Ret (w3, u\<lparr>boxes := (boxes u)(OutboxFolderName \<mapsto> ob3), server := s1\<rparr>, b2, None)" .
  have "DeliverFromSMTP E w u smtp = Ret (w3, u\<lparr>server := s1, boxes := (boxes u)(OutboxFolderName \<mapsto> ob3)\<rparr>, None)"
    using m(1,2) ob(1) a(1) p by (simp add: DeliverFromSMTP_def E ml on_box_def AddNew_def b1_def)
  moreover have "\<forall>j \<in> ids_of ?M 2. j < i"
    using st.msgs_valid [OF O(2)] ob(4) by (auto simp: ids_of_def valid_id_def)
  then have us: "uids ob3 = uids ob @ [i]"
    using synced_uids [OF s(4)] synced_uids [OF O(4)] sorted_list_of_set_insert_max by (simp add: s(3) ids_of_upd)
  moreover have "mailbox_ok L P impl B C w3 ob3" using ob(2) s by (simp add: mailbox_ok_def)
  moreover obtain dd where "shown ?D (b_name ob3) (store_msgs B C w3 (mbox ob3)) i = Some ((stored b2)\<lparr>Imap := Some dd\<rparr>)"
    using shown_stored [OF O(1) e2', of "store_msgs B C w3 (mbox ob3)" i "b_name ob3"] by (simp only: s(3) fun_upd_same) blast
  then have "BitmessageByUID ?D w3 ob3 i = Ret (ob3, Some ((stored b2)\<lparr>Imap := Some dd\<rparr>))"
    using L(3) [OF s(2,4,5), of i] ob(6) us by (simp add: BitmessageByUID_def)
  moreover have "From ((stored b2)\<lparr>Imap := Some dd\<rparr>) = From m" "To ((stored b2)\<lparr>Imap := Some dd\<rparr>) = To m"
      "Payload ((stored b2)\<lparr>Imap := Some dd\<rparr>) = Payload m"
      "\<exists>s. State ((stored b2)\<lparr>Imap := Some dd\<rparr>) = Some s \<and> PubkeyRequestOutstanding s"
    using b1 m(3) by (simp_all add: stored_def b2_def b1_def prepared_def)
  moreover have "\<forall>g. store_apart (mbox ob) g \<longrightarrow> store_inv B C w g \<longrightarrow> store_inv B C w3 g \<and> store_msgs B C w3 g = store_msgs B C w g"
    using a(8) q(2) s(6) by metis
  ultimately show ?thesis using q(1) by blast
qed

end
