(* ===== verification/User_Demo.thy ===== *)
theory User_Demo
  imports User_Correct
begin

text \<open>
  A small database of a user with the folders \<open>Limbo\<close>, \<open>Outbox\<close> and \<open>Sent\<close>, and instances of the parameters of package
  \<open>user\<close>, on which its properties are evaluated.
\<close>

definition bob_folder :: "string \<Rightarrow> u64 \<Rightarrow> store_folder" where
  "bob_folder n i = \<lparr>f_masterKey = None, f_userID = ''user:bob'', f_nextID = i, f_name = n\<rparr>"

definition bob_db :: refdb where
  "bob_db = (\<lambda>p. if p = [] then [(''user:bob'', None)]
     else if p = [''user:bob''] then [(''folders'', None)]
     else if p = [''user:bob'', ''folders''] then [(''Limbo'', None), (''Outbox'', None), (''Sent'', None)]
     else if p = [''user:bob'', ''folders'', ''Limbo''] then
       [(''data'', None), (msg_key 1 2, Some ''one''), (msg_key 3 2, Some ''three''), (msg_key 4 2, Some ''four'')]
     else if p = [''user:bob'', ''folders'', ''Outbox''] then [(''data'', None), (msg_key 1 2, Some ''out'')]
     else if p = [''user:bob'', ''folders'', ''Sent''] then [(''data'', None)]
     else if p = [''user:bob'', ''folders'', ''Limbo'', ''data''] then [(''folderNextID'', Some (PutUint64 5))]
     else if p = [''user:bob'', ''folders'', ''Outbox'', ''data''] then [(''folderNextID'', Some (PutUint64 2))]
     else if p = [''user:bob'', ''folders'', ''Sent'', ''data''] then [(''folderNextID'', Some (PutUint64 1))]
     else [])"

abbreviation bob_world :: "refdb world" where
  "bob_world \<equiv> ref_world bob_db"

lemma bob_bucket:
  "obs ref_bolt bob_db (folder_path (bob_folder ''Limbo'' 5)) = Some (map_of
     [(''data'', None), (msg_key 1 2, Some ''one''), (msg_key 3 2, Some ''three''), (msg_key 4 2, Some ''four'')])"
  "obs ref_bolt bob_db (data_path (bob_folder ''Limbo'' 5)) = Some [''folderNextID'' \<mapsto> Some (PutUint64 5)]"
  "obs ref_bolt bob_db (folder_path (bob_folder ''Outbox'' 2)) = Some (map_of [(''data'', None), (msg_key 1 2, Some ''out'')])"
  "obs ref_bolt bob_db (data_path (bob_folder ''Outbox'' 2)) = Some [''folderNextID'' \<mapsto> Some (PutUint64 2)]"
  "obs ref_bolt bob_db (folder_path (bob_folder ''Sent'' 1)) = Some [''data'' \<mapsto> None]"
  "obs ref_bolt bob_db (data_path (bob_folder ''Sent'' 1)) = Some [''folderNextID'' \<mapsto> Some (PutUint64 1)]"
  by (simp_all add: obs_ref ref_Bucket_def bob_db_def bob_folder_def folder_path_def data_path_def
      foldersBucket_def folderDataBucket_def upt_rec nth_Cons')

lemma bob_rep:
  "content_rep ref_bolt ref_crypto bob_db (bob_folder ''Limbo'' 5) [1 \<mapsto> (2, ''one''), 3 \<mapsto> (2, ''three''), 4 \<mapsto> (2, ''four'')]"
  "content_rep ref_bolt ref_crypto bob_db (bob_folder ''Outbox'' 2) [1 \<mapsto> (2, ''out'')]"
  "content_rep ref_bolt ref_crypto bob_db (bob_folder ''Sent'' 1) Map.empty"
proof -
  have d: "folderDataBucket = ''data''" by (simp add: folderDataBucket_def)
  note rep = content_rep_def bob_bucket folder_rep_def bob_folder_def decrypt_def folderNextIDKey_def valid_id_def d
  show "content_rep ref_bolt ref_crypto bob_db (bob_folder ''Limbo'' 5) [1 \<mapsto> (2, ''one''), 3 \<mapsto> (2, ''three''), 4 \<mapsto> (2, ''four'')]"
    unfolding content_rep_def bob_bucket using msg_key_data by (auto simp: rep split: if_splits)
  show "content_rep ref_bolt ref_crypto bob_db (bob_folder ''Outbox'' 2) [1 \<mapsto> (2, ''out'')]"
    unfolding content_rep_def bob_bucket using msg_key_data by (auto simp: rep split: if_splits)
  show "content_rep ref_bolt ref_crypto bob_db (bob_folder ''Sent'' 1) Map.empty"
    unfolding content_rep_def bob_bucket by (auto simp: rep split: if_splits)
qed

lemma bob_inv:
  assumes "content_rep ref_bolt ref_crypto bob_db f M"
  shows "store_inv ref_bolt ref_crypto bob_world f" "store_msgs ref_bolt ref_crypto bob_world f = M"
proof -
  have "content_rep ref_bolt ref_crypto (content (wdb bob_world)) f M" using assms by (simp add: ref_world_def)
  from store_invI [OF ref_world_ok this]
  show "store_inv ref_bolt ref_crypto bob_world f" "store_msgs ref_bolt ref_crypto bob_world f = M" by simp_all
qed

lemmas bob_msgs = bob_rep [THEN bob_inv(2)]

text \<open>
  The messages: one that awaits an ack, which is also what every byte string decodes to that the codec does not write;
  one that is to be sent, and the same when the key of its recipient has been requested.
\<close>

definition limbo_pb :: pb_Message where
  "limbo_pb = demo_pb\<lparr>pb_ImapData := Some \<lparr>pb_TimeReceived = PutUint64 0, pb_Flags = 1\<rparr>,
     pb_State := Some \<lparr>pb_PubkeyRequested = False, pb_SendTries = 1, pb_LastSend = PutUint64 0, pb_AckExpected = True,
       pb_AckReceived = False, pb_Received = False\<rparr>\<rparr>"

definition out_pb :: "bool \<Rightarrow> pb_Message" where
  "out_pb b = demo_pb\<lparr>pb_Expiration := PutUint64 0, pb_ImapData := Some \<lparr>pb_TimeReceived = PutUint64 0, pb_Flags = 1\<rparr>,
     pb_State := Some \<lparr>pb_PubkeyRequested = b, pb_SendTries = 0, pb_LastSend = PutUint64 0, pb_AckExpected = False,
       pb_AckReceived = False, pb_Received = False\<rparr>\<rparr>"

definition bob_codec :: "string codec" where
  "bob_codec = (let T = table_codec [limbo_pb, out_pb False, out_pb True]
     in T\<lparr>Unmarshal := (\<lambda>b. case Unmarshal T b of Inl _ \<Rightarrow> Inr (pb_norm limbo_pb) | r \<Rightarrow> r)\<rparr>)"

lemma bob_codec_ok: "codec_ok bob_codec"
  using codec_ok_table [of "[limbo_pb, out_pb False, out_pb True]"] by (auto simp: codec_ok_def bob_codec_def Let_def table_codec_def)

abbreviation bob_deps :: "(refdb world, store_folder, string) deps" where
  "bob_deps \<equiv> store_deps ref_mail bob_codec (\<lambda>_. 0) ref_bolt ref_crypto"

lemma bob_Unmarshal: "Unmarshal bob_codec b \<in> Inr ` {limbo_pb, out_pb False, out_pb True}"
proof -
  have "pb_norm m = m" if "m \<in> {limbo_pb, out_pb False, out_pb True}" for m
    using that by (auto simp: pb_norm_def nil_if_empty_def limbo_pb_def out_pb_def demo_pb_def)
  then show ?thesis by (auto simp: bob_codec_def Let_def table_codec_def less_Suc_eq nth_Cons' split: if_splits)
qed

lemma bob_mail_of: "mail_of bob_deps m \<noteq> None"
  using bob_Unmarshal [of m]
  by (auto simp: mail_of_def store_deps_def decodeBitmessage_def limbo_pb_def out_pb_def demo_pb_def
      decode_encoding_def decode_imap_def decode_state_def decode_object_def ref_mail_def Let_def)

lemma bob_readable: "readable bob_deps M"
  using bob_mail_of by (auto simp: readable_def)

section \<open>The mailboxes\<close>

definition bob_box :: "string \<Rightarrow> u64 \<Rightarrow> (store_folder, string) mailbox" where
  "bob_box n i = refreshed bob_deps (store_msgs ref_bolt ref_crypto bob_world (bob_folder n i)) (ucast i) (box_of n (bob_folder n i) Map.empty False)"

lemma bob_box_fields [simp]: "mbox (bob_box n i) = bob_folder n i" "b_name (bob_box n i) = n" "objects (bob_box n i) = None"
  by (simp_all add: bob_box_def box_of_def refreshed_def)

lemma bob_ids:
  "ids_of [1 \<mapsto> (2 :: u64, ''one''), 3 \<mapsto> (2, ''three''), 4 \<mapsto> (2, ''four'')] 2 = {1, 3, 4}" "ids_of [1 \<mapsto> (2 :: u64, ''out'')] 2 = {1}"
  by (auto simp: ids_of_def split: if_splits)

lemma bob_uids [simp]: "uids (bob_box ''Limbo'' 5) = [1, 3, 4]" "uids (bob_box ''Outbox'' 2) = [1]" "uids (bob_box ''Sent'' 1) = []"
  by (simp_all add: bob_box_def bob_msgs bob_ids) (simp add: ids_of_def)

abbreviation bob_ok :: "(store_folder, string) mailbox \<Rightarrow> bool" where
  "bob_ok \<equiv> mailbox_ok ref_mail bob_codec (\<lambda>_. 0) ref_bolt ref_crypto bob_world"

lemma bob_box_ok: "store_inv ref_bolt ref_crypto bob_world (bob_folder n i) \<Longrightarrow> bob_ok (bob_box n i)"
proof -
  assume i: "store_inv ref_bolt ref_crypto bob_world (bob_folder n i)"
  have "synced bob_deps (store_msgs ref_bolt ref_crypto bob_world (bob_folder n i)) (bob_box n i)"
    unfolding bob_box_def by (rule refreshed_synced) (simp add: box_of_def)
  then show ?thesis by (simp add: mailbox_ok_def i bob_readable ref_flags_ok)
qed

lemma bob_boxes_ok: "bob_ok (bob_box ''Limbo'' 5)" "bob_ok (bob_box ''Outbox'' 2)" "bob_ok (bob_box ''Sent'' 1)"
  using bob_rep [THEN bob_inv(1)] by (auto intro!: bob_box_ok)

lemma bob_next: "NextID (store_Folder ref_bolt ref_crypto) (bob_folder n i) = i"
  by (simp add: store_Folder_def store_NextID_def bob_folder_def)

lemma bob_apart: "m \<noteq> n \<Longrightarrow> store_apart (bob_folder m i) (bob_folder n j)"
  by (simp add: store_apart_def folder_path_def bob_folder_def)

lemma bob_clock [simp]: "clock bob_world i = \<lparr>t_sec = 0, t_nsec = 0, t_zone = None\<rparr>"
  by (simp add: ref_world_def ref_env_def)

text \<open>The message with the uid 3 in \<open>Limbo\<close>.\<close>

definition limbo_mail :: Bmail where
  "limbo_mail = \<lparr>From = ''BM-2cT@bm.addr'', To = ''BM-2cU@bm.addr'', OfChannel = False,
     Expiration = \<lparr>t_sec = 7, t_nsec = 0, t_zone = None\<rparr>, Ack = None, Payload = Some (Encoding2 ''hi'' ''text''),
     Imap = Some \<lparr>UID = 3, SequenceNumber = 2, Flags = 1, TimeReceived = zero_time, Mailbox = Some ''Limbo''\<rparr>,
     State = Some (new_state\<lparr>SendTries := 1, AckExpected := True\<rparr>)\<rparr>"

lemma limbo_fetch: "BitmessageByUID bob_deps bob_world (bob_box ''Limbo'' 5) 3 = Ret (bob_box ''Limbo'' 5, Some limbo_mail)"
proof -
  let ?M = "[1 \<mapsto> (2, ''one''), 3 \<mapsto> (2, ''three''), 4 \<mapsto> (2, ''four'')] :: folder_map"
  note ok = mailbox_okD [OF bob_boxes_ok(1)]
  have "{j \<in> ids_of ?M 2. j < 3} = {1}" by (auto simp: bob_ids)
  then have "shown bob_deps ''Limbo'' ?M 3 = Some limbo_mail"
    by (simp add: shown_def mail_of_def store_deps_def decodeBitmessage_def bob_codec_def Let_def table_codec_def limbo_pb_def demo_pb_def
      pb_norm_def nil_if_empty_def decode_encoding_def decode_imap_def decode_state_def decode_object_def ref_mail_def limbo_mail_def
      new_state_def zero_time_def flip: length_0_conv)
  moreover have "seq_small (uids (bob_box ''Limbo'' 5))" by (simp add: demo_small)
  ultimately show ?thesis
    using mb.bmsgByUID_ok [where L = ref_mail and P = bob_codec and impl = "\<lambda>_. 0", unfolded ok(1), OF ok(2,4,5), of 3]
    by (simp add: BitmessageByUID_def bob_msgs)
qed

lemma bob_storable:
  assumes "serializeBitmessage ref_mail bob_codec (prepared_at zero_time box b f) None = Ret (Inr (be 4 k))"
    and "t_zone (Expiration b) = None" "\<exists>s. State b = Some s \<and> t_zone (LastSend s) = None" "\<exists>s x y. Payload b = Some (Encoding2 s (x # y))"
  shows "storable_at store_fits bob_deps (clock bob_world) box b f"
proof -
  have "times_ok ref_mail (prepared_at zero_time box b f)"
    using assms(2,3) by (auto simp: times_ok_def prepared_at_def dated_ref zero_time_def)
  moreover have "store_fits (be 4 k)" by (rule demo_fits) simp
  ultimately have "storable store_fits bob_deps (prepared_at zero_time box b f) (be 4 k)"
    using assms(1,3,4) by (auto simp: storable_def store_deps_def bob_codec_ok has_body_def prepared_at_def)
  then show ?thesis by (auto simp: storable_at_def zero_time_def)
qed

lemma limbo_storable: "storable_at store_fits bob_deps (clock bob_world) box (limbo_mail\<lparr>Imap := None\<rparr>) 1"
proof (rule bob_storable [where k = 0])
  show "serializeBitmessage ref_mail bob_codec (prepared_at zero_time box (limbo_mail\<lparr>Imap := None\<rparr>) 1) None = Ret (Inr (be 4 0))"
    by (simp add: prepared_at_def limbo_mail_def zero_time_def new_state_def serializeBitmessage_def bob_codec_def table_codec_def
        limbo_pb_def demo_pb_def position_def ref_mail_def Let_def)
qed (simp_all add: limbo_mail_def new_state_def zero_time_def)

section \<open>The user\<close>

definition ref_net :: "(string, ref_id, string, nat) netlib" where
  "ref_net = \<lparr>id_Public = (\<lambda>((a, s, d), v, x). a), id_Version = (\<lambda>_. 4), id_Stream = (\<lambda>_. 1), data_Pow = (\<lambda>((a, s, d), v, x). Some x),
     BehaviorAck = 1, DefaultStream = 1, CreateTaglessBroadcast = (\<lambda>t c p. Inr ''tagless''), CreateTaggedBroadcast = (\<lambda>t c p. Inr ''tagged''),
     SignAndEncryptMessage = (\<lambda>t c a p q. Inr ''message''), NewAckObject = (\<lambda>t s b. ''ack'' @ b), InventoryHash = (\<lambda>ob. ob),
     object_Expiration = (\<lambda>_. zero_time), CalculateTarget = (\<lambda>n e d. unat n), float_Seconds = (\<lambda>i. word_of_int (i div 1000000000)),
     Int31 = (\<lambda>i. of_nat i)\<rparr>"

text \<open>A server that has to ask for the key of \<open>BM-2cU\<close> and keeps the objects that are sent.\<close>

definition ref_server :: "(refdb world, bytes list, string) ServerOps" where
  "ref_server = \<lparr>so_GetOrRequestPublicID = (\<lambda>w s a. Ret (w, s, if a = ''BM-2cU@bm.addr'' then Inl ErrGetPubKeySent else Inr (PublicID_of a))),
     so_Send = (\<lambda>w s b. Ret (w, s @ [b]))\<rparr>"

definition bob_keys :: "(string, ref_id) Manager" where
  "bob_keys = \<lparr>mdb = \<lparr>Version = 1, MasterKey = Some ''xprv'', NewIDIndex = 0,
     IDs = Some [''BM-2cT'' \<mapsto> demo_id ''BM-2cT'' False ''me'']\<rparr>, importedIDs = [], derivedIDs = [''BM-2cT'']\<rparr>"

definition bob_udeps where
  "bob_udeps = \<lparr>ubox = bob_deps, ubm = ref_bmutil, ukeys = idmgr_Keys ref_identity, userver = ref_server, unet = ref_net,
     upub = \<lparr>q_Address = (\<lambda>a :: string. Some a), q_Behavior = (\<lambda>_. 1), q_Pow = (\<lambda>_. None)\<rparr>, utext = (\<lambda>_. '''')\<rparr>"

definition bob :: "(store_folder, string, (string, ref_id) Manager, bytes list, nat) user" where
  "bob = \<lparr>mu_username = ''bob'', boxes = [''Limbo'' \<mapsto> bob_box ''Limbo'' 5, ''Outbox'' \<mapsto> bob_box ''Outbox'' 2, ''Sent'' \<mapsto> bob_box ''Sent'' 1],
     acks = [''h'' \<mapsto> 3], expiration = None, mu_keys = bob_keys, pm = None, server = []\<rparr>"

lemma bob_udeps_simps [simp]: "ubox bob_udeps = bob_deps" "userver bob_udeps = ref_server" "ubm bob_udeps = ref_bmutil"
  "ukeys bob_udeps = idmgr_Keys ref_identity" "unet bob_udeps = ref_net"
  by (simp_all add: bob_udeps_def)

lemma bob_simps [simp]: "boxes bob ''Limbo'' = Some (bob_box ''Limbo'' 5)" "boxes bob ''Outbox'' = Some (bob_box ''Outbox'' 2)"
  "boxes bob ''Sent'' = Some (bob_box ''Sent'' 1)" "acks bob ''h'' = Some 3" "server bob = []" "mu_keys bob = bob_keys" "expiration bob = None"
  by (simp_all add: bob_def)

text \<open>The e-mail that \<open>bob\<close> sends.\<close>

definition bob_smtp :: Content where
  "bob_smtp = \<lparr>Headers = [(''From'', [''BM-2cT@bm.addr'']), (''To'', [''BM-2cU@bm.addr'']), (''Subject'', [''hi''])], Body = ''text'', Size = 4\<rparr>"

definition bob_mail :: Bmail where
  "bob_mail = smtp_bmail ''BM-2cT@bm.addr'' ''BM-2cU@bm.addr'' zero_time ''hi'' ''text'' new_state"

lemma bob_smtp_mail: "NewBitmessageFromSMTP ref_mail bob_smtp = Ret (Inr bob_mail)"
  by (simp add: NewBitmessageFromSMTP_def bob_smtp_def bob_mail_def ValidateEmail_def ref_mail_def emailRegex_def at_domain_def
      BitmessageRegex_def bm_chars_def header_set_def read_rest_def read_expires_def read_subject_def GetSMTPBody_def)

lemma bob_mail_simps [simp]: "From bob_mail = ''BM-2cT@bm.addr''" "To bob_mail = ''BM-2cU@bm.addr''" "State bob_mail = Some new_state"
  by (simp_all add: bob_mail_def smtp_bmail_def)

lemma bob_mail_storable:
  "storable_at store_fits bob_deps (clock bob_world) box bob_mail 1"
  "storable_at store_fits bob_deps (clock bob_world) box (bob_mail\<lparr>State := Some (new_state\<lparr>PubkeyRequestOutstanding := True\<rparr>)\<rparr>) 1"
proof -
  have "serializeBitmessage ref_mail bob_codec (prepared_at zero_time box bob_mail 1) None = Ret (Inr (be 4 1))"
    "serializeBitmessage ref_mail bob_codec
      (prepared_at zero_time box (bob_mail\<lparr>State := Some (new_state\<lparr>PubkeyRequestOutstanding := True\<rparr>)\<rparr>) 1) None = Ret (Inr (be 4 2))"
    by (simp_all add: prepared_at_def bob_mail_def smtp_bmail_def zero_time_def new_state_def serializeBitmessage_def bob_codec_def
        table_codec_def limbo_pb_def out_pb_def demo_pb_def position_def ref_mail_def Let_def PutUint64_inject numeral_2_eq_2)
  note s = this [THEN bob_storable]
  show "storable_at store_fits bob_deps (clock bob_world) box bob_mail 1"
    by (rule s(1)) (simp_all add: bob_mail_def smtp_bmail_def new_state_def zero_time_def)
  show "storable_at store_fits bob_deps (clock bob_world) box (bob_mail\<lparr>State := Some (new_state\<lparr>PubkeyRequestOutstanding := True\<rparr>)\<rparr>) 1"
    by (rule s(2)) (simp_all add: bob_mail_def smtp_bmail_def new_state_def zero_time_def)
qed

lemma bob_sender: "ToBm ref_mail ref_bmutil ''BM-2cT@bm.addr'' = Inr ''BM-2cT''"
  "km_Get (idmgr_Keys ref_identity) bob_keys ''BM-2cT'' = Some (demo_id ''BM-2cT'' False ''me'')"
  by (simp_all add: ToBm_def ref_mail_def ref_bmutil_def emailRegex_def at_domain_def BitmessageRegex_def bm_chars_def
      before_at_def Broadcast_def idmgr_Keys_def mgr_Get_def bob_keys_def ids_map_def)

text \<open>The folders of \<open>bob\<close> before they are opened, and those of a user without folders.\<close>

definition bob_folders :: "unit folders" where
  "bob_folders = \<lparr>fo_user = newUser None ''user:bob'' ''bob'' \<lparr>b_username = ''bob'', addrs = []\<rparr>,
     fo_map = [''Limbo'' \<mapsto> None, ''Outbox'' \<mapsto> None, ''Sent'' \<mapsto> None], fo_heap = Map.empty, fo_fresh = 0\<rparr>"

lemma bob_fo_inv: "fo_inv ref_bolt ref_crypto bob_world bob_folders"
proof -
  have "obs ref_bolt bob_db [''user:bob''] = Some [''folders'' \<mapsto> None]"
    "obs ref_bolt bob_db (folders_path ''user:bob'') = Some [''Sent'' \<mapsto> None, ''Outbox'' \<mapsto> None, ''Limbo'' \<mapsto> None]"
    by (simp_all add: obs_ref ref_Bucket_def bob_db_def folders_path_def foldersBucket_def upt_rec)
  moreover have "is_folder bob_folders n (bob_folder n i)" for n i
    by (simp add: is_folder_def bob_folders_def bob_folder_def newUser_def)
  moreover have "clock_ok bob_world" "content (wdb bob_world) = bob_db"
    by (simp_all add: clock_ok_def MarshalBinary_def ref_world_def ref_env_def Let_def)
  ultimately show ?thesis
    using ref_world_ok bob_rep [THEN bob_inv(1)]
    by (auto simp: fo_inv_def bob_folders_def newUser_def userPrefix_def split: if_splits)
qed

definition eve_db :: refdb where
  "eve_db = (\<lambda>p. if p = [] then [(''user:eve'', None)] else if p = [''user:eve''] then [(''folders'', None)] else [])"

definition eve_folders :: "unit folders" where
  "eve_folders = \<lparr>fo_user = newUser None ''user:eve'' ''eve'' \<lparr>b_username = ''eve'', addrs = []\<rparr>,
     fo_map = Map.empty, fo_heap = Map.empty, fo_fresh = 0\<rparr>"

lemma eve_fo_inv: "fo_inv ref_bolt ref_crypto (ref_world eve_db) eve_folders"
proof -
  have "obs ref_bolt eve_db [''user:eve''] = Some [''folders'' \<mapsto> None]"
    "obs ref_bolt eve_db (folders_path ''user:eve'') = Some Map.empty"
    by (simp_all add: obs_ref ref_Bucket_def eve_db_def folders_path_def foldersBucket_def upt_rec)
  moreover have "clock_ok (ref_world eve_db)" "content (wdb (ref_world eve_db)) = eve_db"
    by (simp_all add: clock_ok_def MarshalBinary_def ref_world_def ref_env_def Let_def)
  ultimately show ?thesis
    using ref_world_ok by (auto simp: fo_inv_def eve_folders_def newUser_def userPrefix_def)
qed

end
