(* ===== verification/Confined.thy ===== *)
theory Confined
  imports Mail_Server Mailbox_Correct
begin

text \<open>
  What the operations on the folders of a user leave alone: all the buckets of the database outside the one of the user.
  The lemmas hold of every run that returns, whether it reports an error or not.
\<close>

section \<open>Transactions\<close>

text \<open>The buckets outside the top level bucket \<open>u\<close> are the same, and so is the list of the top level buckets.\<close>

definition elsewhere :: "'db bolt \<Rightarrow> bytes \<Rightarrow> 'db \<Rightarrow> 'db \<Rightarrow> bool" where
  "elsewhere B u db db' \<longleftrightarrow> (\<forall>q. q = [] \<or> hd q \<noteq> u \<longrightarrow> obs B db' q = obs B db q)"

abbreviation confined :: "'db bolt \<Rightarrow> bytes \<Rightarrow> 'db world \<Rightarrow> 'db world \<Rightarrow> bool" where
  "confined B u w w' \<equiv> elsewhere B u (content (wdb w)) (content (wdb w'))"

lemma elsewhere_refl [simp, intro]: "elsewhere B u db db"
  by (simp add: elsewhere_def)

lemma elsewhere_trans [trans]: "elsewhere B u db db1 \<Longrightarrow> elsewhere B u db1 db2 \<Longrightarrow> elsewhere B u db db2"
  by (simp add: elsewhere_def)

lemma elsewhere_Put:
  assumes "bolt_ok B" "Put B db (u # p) k v = Inr db'"
  shows "elsewhere B u db db'"
proof -
  have "bolt_put B" using assms(1) by (simp add: bolt_ok_def)
  with assms(2) obtain m where "obs B db' = (obs B db)(u # p \<mapsto> m)" unfolding bolt_put_def by blast
  then show ?thesis by (auto simp: elsewhere_def)
qed

lemma elsewhere_CreateBucket:
  assumes "bolt_ok B" "CreateBucket B db (u # p) n = Inr db'"
  shows "elsewhere B u db db'"
proof -
  have "bolt_create B" using assms(1) by (simp add: bolt_ok_def)
  from this [unfolded bolt_create_def, THEN conjunct1, rule_format, OF assms(2)]
  obtain m where "obs B db' = (obs B db)(u # p \<mapsto> m(n \<mapsto> None), (u # p) @ [n] \<mapsto> Map.empty)" by blast
  then show ?thesis by (auto simp: elsewhere_def)
qed

lemma elsewhere_CreateBucketIfNotExists:
  assumes "bolt_ok B" "Bucket B db (u # p)" "CreateBucketIfNotExists B db (u # p) n = Inr db'"
  shows "elsewhere B u db db'"
  using assms elsewhere_CreateBucket [OF assms(1), of db u p n db'] bolt_CreateBucketIfNotExists [OF assms(1), of db "u # p"]
  by (auto simp: Bucket_obs split: if_splits)

lemma confined_Update:
  assumes B: "bolt_ok B" and r: "db_Update B w l fn = Ret (w', l', e)"
    and fn: "\<And>v tx v1 tx1 l1. fn v tx l = Ret (v1, tx1, l1, None) \<Longrightarrow> elsewhere B u tx tx1"
  shows "confined B u w w'"
  using r fn [of "w\<lparr>wdb := (wdb w)\<lparr>rwtx := True\<rparr>\<rparr>" "content (wdb w)"]
  by (auto dest!: bolt_Commit [OF B] simp: db_Update_def Update_def go_bind_Ret_conv split: if_splits option.splits sum.splits prod.splits)

section \<open>Folders\<close>

lemma initialize_tx_confined:
  assumes B: "bolt_ok B" and r: "initialize_tx B name v tx f = Ret (v1, tx1, f1, e)"
  shows "elsewhere B (f_userID f) tx tx1 \<and> f_userID f1 = f_userID f"
proof -
  let ?u = "f_userID f"
  have b: "Bucket B tx [?u]" using r by (simp add: initialize_tx_def on_bucket_def Let_def split: if_splits)
  show ?thesis
    using r
    by (auto simp: initialize_tx_def on_bucket_def Let_def folders_path_def go_bind_Ret_conv
        split: if_splits sum.splits prod.splits option.splits
        dest!: elsewhere_CreateBucketIfNotExists [OF B, rotated] elsewhere_CreateBucket [OF B] elsewhere_Put [OF B])
      (simp_all add: elsewhere_def)
qed

lemma newFolder_confined:
  assumes B: "bolt_ok B" and r: "newFolder B w key db username name = Ret (w', x)"
  shows "confined B (userPrefix @ username) w w' \<and> (\<forall>f. x = Inr f \<longrightarrow> f_userID f = userPrefix @ username)"
proof (cases "db \<and> name \<noteq> []")
  case True
  let ?f = "\<lparr>f_masterKey = key, f_userID = userPrefix @ username, f_nextID = 1, f_name = name\<rparr>"
  from r True obtain w1 f1 e where i: "db_Update B w ?f (initialize_tx B name) = Ret (w1, f1, e)" "w' = w1" "\<forall>f. x = Inr f \<longrightarrow> f = f1"
    by (auto simp: newFolder_def initialize_def go_bind_Ret_conv Let_def split: option.splits)
  have "confined B (userPrefix @ username) w w1"
    by (rule confined_Update [OF B i(1)]) (use initialize_tx_confined [OF B, where f = ?f] in auto)
  moreover have "f_userID f1 = userPrefix @ username"
    using i(1) initialize_tx_confined [OF B, of name _ _ ?f]
    by (auto simp: db_Update_def Update_def go_bind_Ret_conv split: if_splits option.splits sum.splits)
  ultimately show ?thesis using i(2,3) by auto
qed (use r in \<open>auto simp: newFolder_def split: if_splits\<close>)

lemma folders_New_confined:
  assumes B: "bolt_ok B" and r: "folders_New B w fo n = Ret (w', fo', x)"
  shows "confined B (userPrefix @ u_username (fo_user fo)) w w' \<and> fo_user fo' = fo_user fo"
proof (cases "fo_map fo n")
  case None
  with r obtain w1 y where n: "newFolder B w (u_masterKey (fo_user fo)) True (u_username (fo_user fo)) n = Ret (w1, y)"
    by (cases "newFolder B w (u_masterKey (fo_user fo)) True (u_username (fo_user fo)) n") (auto simp: folders_New_def)
  with newFolder_confined [OF B n] r None show ?thesis by (cases y) (auto simp: folders_New_def Let_def)
qed (use r in \<open>auto simp: folders_New_def\<close>)

lemma store_Folders_New: "fs_New (store_Folders B) = folders_New B"
  by (simp add: store_Folders_def)

lemma new_folders_confined:
  assumes "bolt_ok B" "new_folders (store_Folders B) w fo ns = Ret (w', fo', e)"
  shows "confined B (userPrefix @ u_username (fo_user fo)) w w'"
  using assms(2)
proof (induction ns arbitrary: w fo)
  case (Cons n ns)
  then obtain w1 fo1 x where n: "folders_New B w fo n = Ret (w1, fo1, x)"
    "(case x of Inl e \<Rightarrow> Ret (w1, fo1, Some e) | Inr _ \<Rightarrow> new_folders (store_Folders B) w1 fo1 ns) = Ret (w', fo', e)"
    by (auto simp: store_Folders_New go_bind_Ret_conv)
  note c = folders_New_confined [OF assms(1) n(1)]
  show ?case
  proof (cases x)
    case (Inl e1)
    with n c show ?thesis by simp
  next
    case (Inr p)
    with n(2) Cons.IH [of w1 fo1] c show ?thesis by (auto intro: elsewhere_trans)
  qed
qed simp

section \<open>The folder of a mailbox\<close>

lemma for_each_keeps:
  assumes k: "\<And>a i s m a' e. fn a i s m = Ret (a', e) \<Longrightarrow> k a' = k a"
  shows "for_each fn a vs fin = Ret (a', e) \<Longrightarrow> k a' = k a"
proof (induction vs arbitrary: a)
  case (Cons v vs)
  obtain i s m where v: "v = (i, s, m)" by (cases v)
  from Cons.prems v obtain a1 e1 where f: "fn a i s m = Ret (a1, e1)"
    "(case e1 of Some e \<Rightarrow> Ret (a1, Some e) | None \<Rightarrow> for_each fn a1 vs fin) = Ret (a', e)"
    by (auto simp: go_bind_Ret_conv)
  with Cons.IH [of a1] k [OF f(1)] show ?case by (cases e1) auto
qed (auto simp: go_bind_Ret_conv)

lemma updateMailboxStats_mbox: "updateMailboxStats L box b = Ret box' \<Longrightarrow> mbox box' = mbox box"
  by (auto simp: updateMailboxStats_def Let_def split: option.splits if_splits)

lemma refresh_each_mbox:
  assumes "refresh_each D a i s m = Ret (a', e)"
  shows "mbox (fst a') = mbox (fst a)"
proof -
  obtain box ids where a: "a = (box, ids)" by (cases a)
  with assms obtain r where d: "decodeBitmessage (mlib D) (mcodec D) m = Ret r"
    by (cases "decodeBitmessage (mlib D) (mcodec D) m") (auto simp: refresh_each_def)
  show ?thesis
  proof (cases r)
    case (Inr q)
    then obtain b o1 where r: "r = Inr (b, o1)" by (cases q) simp
    show ?thesis
    proof (cases "case sub box of None \<Rightarrow> False | Some p \<Rightarrow> \<not> p b")
      case False
      with assms a d r obtain box1 where "updateMailboxStats (mlib D) box b = Ret box1" "fst a' = box1"
        by (auto simp: refresh_each_def go_bind_Ret_conv)
      with a updateMailboxStats_mbox show ?thesis by fastforce
    qed (use assms a d r in \<open>auto simp: refresh_each_def\<close>)
  qed (use assms a d in \<open>auto simp: refresh_each_def\<close>)
qed

lemma refresh_mbox:
  assumes "refresh D w box = Ret (w', box', e)"
  shows "mbox box' = mbox box"
proof -
  obtain v a1 e1 where f: "ForEachMessage (mfold D) w (mbox box) 0 0 2 (refresh_each D)
      (box\<lparr>nextUID := ucast (NextID (mfold D) (mbox box)), numRecent := 0, numUnseen := 0\<rparr>, []) = Ret (v, a1, e1)"
    "mbox box' = mbox (fst a1)"
    using assms by (auto simp: refresh_def Let_def go_bind_Ret_conv split: option.splits)
  then have "mbox (fst a1) = mbox box"
    using for_each_keeps [of "refresh_each D" "\<lambda>a. mbox (fst a)", OF refresh_each_mbox]
    by (fastforce simp: ForEachMessage_def go_bind_Ret_conv split: prod.splits)
  with f(2) show ?thesis by simp
qed

section \<open>Messages\<close>

lemma InsertNewMessage_confined:
  assumes B: "bolt_ok B" and r: "store_InsertNewMessage B C w f msg s = Ret (w', f', x)"
  shows "confined B (f_userID f) w w' \<and> (\<exists>n. f' = f\<lparr>f_nextID := n\<rparr>)"
proof -
  have f': "\<exists>n. f' = f\<lparr>f_nextID := n\<rparr>"
    using r exI [of "\<lambda>n. f = f\<lparr>f_nextID := n\<rparr>" "f_nextID f"]
    by (auto simp: store_InsertNewMessage_def go_bind_Ret_conv split: option.splits prod.splits sum.splits)
  let ?fn = "\<lambda>enc w tx _. if \<not> Bucket B tx [f_userID f] then Ret (w, tx, (), Some ErrNotFound)
              else on_bucket B tx (folders_path (f_userID f)) (on_bucket B tx (folder_path f)
                (on_bucket B tx (data_path f)
                  (case Put B tx (data_path f) folderNextIDKey (PutUint64 (f_nextID f + 1)) of
                     Inl e \<Rightarrow> Ret (w, tx, (), Some e)
                   | Inr tx1 \<Rightarrow>
                       let k = msg_key (f_nextID f) s
                       in if id_taken (Seek B tx1 (folder_path f) (take 8 k)) k
                          then Ret (w, tx1, (), Some ErrDuplicateID)
                          else (case Put B tx1 (folder_path f) k enc of
                                  Inl e \<Rightarrow> Ret (w, tx1, (), Some e)
                                | Inr tx2 \<Rightarrow> Ret (w, tx2, (), None)))))"
  have fn: "elsewhere B (f_userID f) tx tx1" if "?fn enc v tx l = Ret (v1, tx1, l1, None)" for enc v tx l v1 tx1 l1
    using that
    by (auto simp: on_bucket_def data_path_def folder_path_def Let_def split: if_splits sum.splits dest!: elsewhere_Put [OF B])
      (simp add: elsewhere_def)
  show ?thesis
  proof (cases msg)
    case (Some m)
    obtain w1 c where e: "encrypt C (f_masterKey f) w m = (w1, c)" by fastforce
    then have w1: "wdb w1 = wdb w" by (auto simp: encrypt_def rand_Read_def split: option.splits prod.splits sum.splits if_splits)
    show ?thesis
    proof (cases c)
      case (Inr enc)
      with r Some e obtain w2 l err where u: "db_Update B w1 () (?fn enc) = Ret (w2, l, err)" "w' = w2"
        by (auto simp: store_InsertNewMessage_def go_bind_Ret_conv split: option.splits)
      from confined_Update [OF B u(1) fn] u(2) w1 f' show ?thesis by simp
    qed (use r Some e w1 f' in \<open>auto simp: store_InsertNewMessage_def\<close>)
  qed (use r f' in \<open>simp add: store_InsertNewMessage_def\<close>)
qed

lemma refresh_store: "refresh (store_deps L P impl B C) w box = Ret (w', box', e) \<Longrightarrow> w' = w"
  by (auto simp: refresh_def store_deps_def store_Folder_def ForEachMessage_def Let_def go_bind_Ret_conv split: option.splits prod.splits)

lemma store_deps_New: "InsertNewMessage (mfold (store_deps L P impl B C)) = store_InsertNewMessage B C"
  by (simp add: store_deps_def store_Folder_def)

lemma addNew_confined:
  assumes B: "bolt_ok B" and r: "addNew (store_deps L P impl B C) w box m flags = Ret (w', box', m', e)"
  shows "confined B (f_userID (mbox box)) w w' \<and> (\<exists>n. mbox box' = (mbox box)\<lparr>f_nextID := n\<rparr>)"
proof -
  let ?D = "store_deps L P impl B C"
  have id: "\<exists>n. mbox box = (mbox box)\<lparr>f_nextID := n\<rparr>" by (rule exI [of _ "f_nextID (mbox box)"]) simp
  obtain v b d r1 where s: "saveBitmessage ?D v box b = Ret (w', box', r1)" "Imap b = Some d" "UID d = 0" "wdb v = wdb w"
    using r by (auto simp: addNew_def time_Now_def go_bind_Ret_conv Let_def split: option.splits)
  show ?thesis
  proof (cases "serializeBitmessage (mlib ?D) (mcodec ?D) b None")
    case (Ret x)
    show ?thesis
    proof (cases x)
      case (Inr enc)
      with s Ret obtain q where "Payload b = Some q" by (auto simp: saveBitmessage_def split: option.splits)
      with s Ret Inr obtain w1 h1 res where i: "store_InsertNewMessage B C v (mbox box) (Some enc) (Encoding_number q) = Ret (w1, h1, res)"
        "(case res of Inl e \<Rightarrow> Ret (w1, box\<lparr>mbox := h1\<rparr>, b\<lparr>Imap := Some (d\<lparr>UID := 0\<rparr>)\<rparr>, Some e)
          | Inr i \<Rightarrow> go_bind (refresh ?D w1 (box\<lparr>mbox := h1\<rparr>)) (\<lambda>(w2, box2, e). Ret (w2, box2, b\<lparr>Imap := Some (d\<lparr>UID := i\<rparr>)\<rparr>, e))) =
          Ret (w', box', r1)"
        by (auto simp: saveBitmessage_def store_deps_New Let_def go_bind_Ret_conv)
      from i(2) have "w' = w1" "mbox box' = h1"
        by (cases res; auto simp: go_bind_Ret_conv dest: refresh_store refresh_mbox)+
      with InsertNewMessage_confined [OF B i(1)] s(4) show ?thesis by simp
    qed (use s Ret id in \<open>auto simp: saveBitmessage_def\<close>)
  qed (use s in \<open>simp_all add: saveBitmessage_def\<close>)
qed

end
