(* ===== verification/User_Open.thy ===== *)
theory User_Open
  imports User_Demo Confined
begin

text \<open>
  Opening a user: the mailboxes that \<open>NewUser\<close> makes of the folders in the database, and the folders and the welcome
  message that \<open>Initialize\<close> makes for a new user.
\<close>

section \<open>Opening the mailboxes\<close>

text \<open>The folders of a user, as the mailboxes need them: every message in them can be decoded.\<close>

definition fo_readable :: "('db world, store_folder, 'o) deps \<Rightarrow> 'db bolt \<Rightarrow> crypto \<Rightarrow> 'db world \<Rightarrow> 'a folders \<Rightarrow> bool" where
  "fo_readable D B C w fo \<longleftrightarrow>
     (\<forall>n f. n \<in> dom (fo_map fo) \<longrightarrow> is_folder fo n f \<longrightarrow> store_inv B C w f \<longrightarrow> readable D (store_msgs B C w f))"

text \<open>The mailbox of the folder with the name \<open>n\<close>.\<close>

definition opened_box ::
  "mail_lib \<Rightarrow> 'o codec \<Rightarrow> (float64 \<Rightarrow> u32) \<Rightarrow> 'db bolt \<Rightarrow> crypto \<Rightarrow> 'db world \<Rightarrow> 'a folders \<Rightarrow> string \<Rightarrow> (store_folder, 'o) mailbox \<Rightarrow> bool" where
  "opened_box L P impl B C w fo n box \<longleftrightarrow> mailbox_ok L P impl B C w box \<and> b_name box = n \<and> is_folder fo n (mbox box) \<and>
     objects box = None \<and> (drafts box \<longleftrightarrow> n = DraftsFolderName)"

lemma fo_inv_tick [simp]: "fo_inv B C (w\<lparr>tick := k\<rparr>) fo = fo_inv B C w fo"
  by (simp add: fo_inv_def clock_ok_def)

lemma fo_readable_tick [simp]: "fo_readable D B C (w\<lparr>tick := k\<rparr>) fo = fo_readable D B C w fo"
  by (simp add: fo_readable_def)

lemma refresh_world:
  assumes "refresh (store_deps L P impl B C) w box = Ret (w', r)"
  shows "w' = w"
  using assms
  by (auto simp: refresh_def Let_def store_deps_def store_Folder_def ForEachMessage_def go_bind_Ret_conv
      split: prod.splits option.splits)

lemma open_box:
  fixes P :: "'o codec"
  assumes "store_inv B C w h" "flags_ok L" "readable (store_deps L P impl B C) (store_msgs B C w h)" "is_folder fo n h"
  shows "\<exists>box. (if n = DraftsFolderName then newDrafts else newMailbox) (store_deps L P impl B C) w n (Some h) names = Ret (w, Inr box) \<and>
    opened_box L P impl B C w fo n box \<and> mbox box = h"
proof -
  let ?D = "store_deps L P impl B C" and ?M = "store_msgs B C w h"
  let ?b = "box_of n h names (n = DraftsFolderName) :: (store_folder, 'o) mailbox"
  have b: "mbox ?b = h" "sub ?b = None" "b_name ?b = n" "objects ?b = None" "drafts ?b = (n = DraftsFolderName)"
    by (simp_all add: box_of_def)
  note R = mb.refresh_ok [where L = L and P = P and impl = impl, unfolded and_flags_id [OF assms(2)]]
  let ?box = "refreshed ?D ?M (ucast (NextID (store_Folder B C) h)) ?b"
  have r: "refresh ?D w ?b = Ret (w, ?box, None)"
    using R [of B C w ?b] assms b refresh_world [of L P impl B C w ?b] by fastforce
  have "synced ?D ?M ?box" by (rule refreshed_synced [OF b(2)])
  then have "opened_box L P impl B C w fo n ?box \<and> mbox ?box = h"
    using assms b by (simp add: opened_box_def mailbox_ok_def refreshed_def)
  moreover have "(if n = DraftsFolderName then newDrafts else newMailbox) ?D w n (Some h) names = Ret (w, Inr ?box)"
    using r by (cases "n = DraftsFolderName") (simp_all add: newMailbox_def newDrafts_def)
  ultimately show ?thesis by blast
qed

lemma folders_Get_user: "folders_Get B w fo n = Ret (w', fo', r) \<Longrightarrow> fo_user fo' = fo_user fo"
proof (cases "fo_map fo n")
  case (Some q)
  assume g: "folders_Get B w fo n = Ret (w', fo', r)"
  show ?thesis
  proof (cases q)
    case None
    with g Some obtain w1 x where "newFolder B w (u_masterKey (fo_user fo)) True (u_username (fo_user fo)) n = Ret (w1, x)"
      by (auto simp: folders_Get_def go_bind_Ret_conv)
    with g Some None show ?thesis by (cases x) (auto simp: folders_Get_def Let_def)
  qed (use g Some in \<open>simp add: folders_Get_def\<close>)
qed (simp add: folders_Get_def)

lemma fo_readable_cong:
  assumes "fo_user fo' = fo_user fo" "dom (fo_map fo') = dom (fo_map fo)"
  shows "fo_readable D B C w fo' = fo_readable D B C w fo" "is_folder fo' = is_folder fo"
  using assms by (simp_all add: fo_readable_def is_folder_def fun_eq_iff)

lemma open_boxes_ok:
  fixes P :: "'o codec"
  assumes "fo_inv B C w fo" "flags_ok L" "fo_readable (store_deps L P impl B C) B C w fo" "set ns \<subseteq> dom (fo_map fo)"
  shows "\<exists>fo' bs'. open_boxes (store_deps L P impl B C) (store_Folders B) names w fo bs ns = Ret (w, fo', Inr bs') \<and>
    fo_inv B C w fo' \<and> dom (fo_map fo') = dom (fo_map fo) \<and>
    (\<forall>n. n \<notin> set ns \<longrightarrow> bs' n = bs n) \<and> (\<forall>n \<in> set ns. \<exists>box. bs' n = Some box \<and> opened_box L P impl B C w fo n box)"
  using assms(1,3,4)
proof (induction ns arbitrary: fo bs)
  case Nil
  then show ?case by simp
next
  case (Cons n ns)
  let ?D = "store_deps L P impl B C"
  obtain fo1 p f where g: "folders_Get B w fo n = Ret (w, fo1, Inr p)" "fo_inv B C w fo1" "dom (fo_map fo1) = dom (fo_map fo)"
    "fo_heap fo1 p = Some f" "is_folder fo n f" "store_inv B C w f"
    using folders_get [OF Cons.prems(1), of n] Cons.prems(3) by auto
  note u = fo_readable_cong [OF folders_Get_user [OF g(1)] g(3)]
  have rd: "readable ?D (store_msgs B C w f)" using Cons.prems(2,3) g(5,6) by (auto simp: fo_readable_def)
  obtain box where box: "(if n = DraftsFolderName then newDrafts else newMailbox) ?D w n (Some f) names = Ret (w, Inr box)"
    "opened_box L P impl B C w fo n box"
    using open_box [OF g(6) assms(2) rd g(5)] by blast
  obtain fo2 bs2 where r: "open_boxes ?D (store_Folders B) names w fo1 (bs(n \<mapsto> box)) ns = Ret (w, fo2, Inr bs2)"
    "fo_inv B C w fo2" "dom (fo_map fo2) = dom (fo_map fo1)" "\<forall>k. k \<notin> set ns \<longrightarrow> bs2 k = (bs(n \<mapsto> box)) k"
    "\<forall>k \<in> set ns. \<exists>b. bs2 k = Some b \<and> opened_box L P impl B C w fo1 k b"
    using Cons.IH [OF g(2), of "bs(n \<mapsto> box)"] Cons.prems(2,3) unfolding u(1) g(3) by (simp del: fun_upd_apply) blast
  have o: "opened_box L P impl B C w fo1 = opened_box L P impl B C w fo" by (simp add: opened_box_def u(2) fun_eq_iff)
  have "\<exists>b. bs2 k = Some b \<and> opened_box L P impl B C w fo k b" if "k \<in> set (n # ns)" for k
    using that r(4,5) box(2) unfolding o by (cases "k \<in> set ns") auto
  moreover have "open_boxes ?D (store_Folders B) names w fo bs (n # ns) = Ret (w, fo2, Inr bs2)"
    using g(1,4) box(1) r(1) by (auto simp: store_Folders_def split: if_splits)
  ultimately show ?case using r(2,3,4) g(3) by auto
qed

lemma NewUser_mailboxes:
  fixes P :: "'o codec"
  assumes "ubox E = store_deps L P impl B C" "fo_inv B C w fo" "flags_ok L" "fo_readable (store_deps L P impl B C) B C w fo"
    and "finite (dom (fo_map fo))"
  shows "\<exists>w' fo' u. NewUser E (store_Folders B) w fo name ks ex p srv = Ret (w', fo', Inr u) \<and> wdb w' = wdb w \<and> fo_inv B C w' fo' \<and>
    mu_username u = name \<and> mu_keys u = ks \<and> server u = srv \<and> expiration u = None \<and> pm u = None \<and>
    dom (boxes u) = dom (fo_map fo) \<and>
    (\<forall>n box. boxes u n = Some box \<longrightarrow> opened_box L P impl B C w' fo n box)"
proof -
  let ?D = "store_deps L P impl B C" and ?w = "w\<lparr>tick := Suc (tick w)\<rparr>"
  let ?ns = "name_order w (tick w) (dom (fo_map fo))"
  have ns: "set ?ns = dom (fo_map fo)" using assms(2,5) by (simp add: fo_inv_def world_ok_def env_ok_def)
  obtain fo' bs where r: "open_boxes ?D (store_Folders B) (km_Names (ukeys E) ks) ?w fo Map.empty ?ns = Ret (?w, fo', Inr bs)"
    "fo_inv B C ?w fo'" "\<forall>n. n \<notin> set ?ns \<longrightarrow> bs n = None"
    "\<forall>n \<in> set ?ns. \<exists>box. bs n = Some box \<and> opened_box L P impl B C ?w fo n box"
    using open_boxes_ok [of B C ?w fo L P impl ?ns "km_Names (ukeys E) ks" Map.empty] assms(2-4) ns by auto
  have "NewUser E (store_Folders B) w fo name ks ex p srv = Ret (?w, fo', Inr \<lparr>mu_username = name, boxes = bs, acks = Map.empty,
      expiration = None, mu_keys = ks, pm = None, server = srv\<rparr>)"
    using r(1) assms(1) by (simp add: NewUser_def store_Folders_def folders_Names_def range_names_def)
  moreover have "dom bs = dom (fo_map fo)" using r(3,4) ns by (auto simp: domIff)
  moreover have "\<forall>n box. bs n = Some box \<longrightarrow> opened_box L P impl B C ?w fo n box"
    using r(3,4) by (metis option.distinct(1) option.inject)
  ultimately show ?thesis using r(2) by auto
qed

text \<open>
  C27.  Opening a user whose stored messages can all be decoded gives exactly one mailbox for every folder in the
  database, under its name, whose cached uids and counters are those of the folder; the database does not change.  The
  expiration function and the proof-of-work manager that \<open>NewUser\<close> is given are not kept.
\<close>

theorem NewUser_opens:
  fixes P :: "'o codec"
  assumes "ubox E = store_deps L P impl B C" "fo_inv B C w fo" "flags_ok L" "fo_readable (store_deps L P impl B C) B C w fo"
    and "finite (dom (fo_map fo))"
  shows "\<exists>w' fo' u. NewUser E (store_Folders B) w fo name ks ex p srv = Ret (w', fo', Inr u) \<and> wdb w' = wdb w \<and> fo_inv B C w' fo' \<and>
    mu_username u = name \<and> mu_keys u = ks \<and> server u = srv \<and> expiration u = None \<and> pm u = None \<and>
    dom (boxes u) = dom (fo_map fo) \<and>
    (\<forall>n box. boxes u n = Some box \<longrightarrow> opened_box L P impl B C w' fo n box)"
  using assms by (rule NewUser_mailboxes)

section \<open>A new user\<close>

definition later_folders :: "string list" where
  "later_folders = [OutboxFolderName, SentFolderName, LimboFolderName, TrashFolderName, CommandsFolderName, DraftsFolderName]"

lemmas folder_names = InboxFolderName_def OutboxFolderName_def SentFolderName_def LimboFolderName_def TrashFolderName_def
  CommandsFolderName_def DraftsFolderName_def

lemma later_folders_ok: "distinct (InboxFolderName # later_folders)" "n \<in> set (InboxFolderName # later_folders) \<Longrightarrow> fo_name_ok n"
  by (auto simp: later_folders_def folder_names fo_name_ok_def MaxKeySize_def)

text \<open>The folders that are made are empty and those that were there do not change.\<close>

lemma new_folders_ok:
  assumes "fo_inv B C w fo" "\<And>n. n \<in> set ns \<Longrightarrow> fo_name_ok n" "set ns \<inter> dom (fo_map fo) = {}" "distinct ns"
  shows "\<exists>w' fo'. new_folders (store_Folders B) w fo ns = Ret (w', fo', None) \<and> fo_inv B C w' fo' \<and>
    dom (fo_map fo') = set ns \<union> dom (fo_map fo) \<and> (\<forall>k. k \<notin> set ns \<longrightarrow> fo_map fo' k = fo_map fo k) \<and>
    clock w' = clock w \<and> fo_user fo' = fo_user fo \<and> fo_fresh fo \<le> fo_fresh fo' \<and>
    (\<forall>q. q < fo_fresh fo \<longrightarrow> fo_heap fo' q = fo_heap fo q) \<and>
    (\<forall>n \<in> set ns. \<exists>f. is_folder fo n f \<and> store_inv B C w' f \<and> store_msgs B C w' f = Map.empty) \<and>
    (\<forall>k g. k \<notin> set ns \<longrightarrow> is_folder fo k g \<longrightarrow> store_inv B C w g \<longrightarrow> store_inv B C w' g \<and> store_msgs B C w' g = store_msgs B C w g)"
  using assms
proof (induction ns arbitrary: w fo)
  case Nil
  then show ?case by simp
next
  case (Cons n ns)
  have nn: "fo_name_ok n" "n \<notin> dom (fo_map fo)" using Cons.prems(2,3) by auto
  obtain w1 fo1 p f where n: "folders_New B w fo n = Ret (w1, fo1, Inr p)" "fo_inv B C w1 fo1"
    "dom (fo_map fo1) = insert n (dom (fo_map fo))" "store_inv B C w1 f" "store_msgs B C w1 f = Map.empty" "is_folder fo n f"
    "clock w1 = clock w" "fo_user fo1 = fo_user fo" "fo_map fo1 = (fo_map fo)(n \<mapsto> Some p)"
    "\<forall>q. q < fo_fresh fo \<longrightarrow> fo_heap fo1 q = fo_heap fo q" "fo_fresh fo < fo_fresh fo1"
    "\<forall>k g. k \<noteq> n \<longrightarrow> is_folder fo k g \<longrightarrow> store_inv B C w g \<longrightarrow> store_inv B C w1 g \<and> store_msgs B C w1 g = store_msgs B C w g"
    using folders_new [OF Cons.prems(1) nn] by blast
  have i: "is_folder fo1 = is_folder fo" using n(8) by (simp add: is_folder_def fun_eq_iff)
  have "set ns \<inter> dom (fo_map fo1) = {}" using Cons.prems(3,4) n(3) by auto
  then obtain w' fo' where r: "new_folders (store_Folders B) w1 fo1 ns = Ret (w', fo', None)" "fo_inv B C w' fo'"
    "dom (fo_map fo') = set ns \<union> dom (fo_map fo1)" "\<forall>k. k \<notin> set ns \<longrightarrow> fo_map fo' k = fo_map fo1 k"
    "clock w' = clock w1" "fo_user fo' = fo_user fo1" "fo_fresh fo1 \<le> fo_fresh fo'"
    "\<forall>q. q < fo_fresh fo1 \<longrightarrow> fo_heap fo' q = fo_heap fo1 q"
    "\<forall>k \<in> set ns. \<exists>f. is_folder fo k f \<and> store_inv B C w' f \<and> store_msgs B C w' f = Map.empty"
    "\<forall>k g. k \<notin> set ns \<longrightarrow> is_folder fo k g \<longrightarrow> store_inv B C w1 g \<longrightarrow> store_inv B C w' g \<and> store_msgs B C w' g = store_msgs B C w1 g"
    using Cons.IH [OF n(2)] Cons.prems(2,4) unfolding i by auto
  have "new_folders (store_Folders B) w fo (n # ns) = Ret (w', fo', None)"
    using n(1) r(1) by (simp add: store_Folders_def)
  moreover have "\<exists>f. is_folder fo k f \<and> store_inv B C w' f \<and> store_msgs B C w' f = Map.empty" if "k \<in> set (n # ns)" for k
    using that r(9,10) n(4-6) Cons.prems(4) by (cases "k \<in> set ns") auto
  moreover have "store_inv B C w' g \<and> store_msgs B C w' g = store_msgs B C w g"
    if "k \<notin> set (n # ns)" "is_folder fo k g" "store_inv B C w g" for k g
    using that r(10) n(12) by auto
  moreover have "\<forall>k. k \<notin> set (n # ns) \<longrightarrow> fo_map fo' k = fo_map fo k" using r(4) n(9) by auto
  moreover have "\<forall>q. q < fo_fresh fo \<longrightarrow> fo_heap fo' q = fo_heap fo q" using r(8) n(10,11) by auto
  moreover have "dom (fo_map fo') = set (n # ns) \<union> dom (fo_map fo)" using r(3) n(3) by auto
  ultimately show ?case using r(2,5-7) n(7,8,11) by (intro exI [of _ w'] exI [of _ fo']) auto
qed

text \<open>The welcome message as it is stored, at the time \<open>t\<close>.\<close>

definition welcome_stored :: "mail_lib \<Rightarrow> gotime \<Rightarrow> string \<Rightarrow> Bmail" where
  "welcome_stored L t ks = (welcome_bmail ks)\<lparr>State := Some new_state, Imap := Some \<lparr>UID = 0, SequenceNumber = 1, Flags = FlagRecent L,
     TimeReceived = t, Mailbox = Some InboxFolderName\<rparr>\<rparr>"

lemma welcome_prepared:
  "b_name box = InboxFolderName \<Longrightarrow> uids box = [] \<Longrightarrow>
    prepared w box (welcome_bmail ks) (FlagRecent L) = welcome_stored L (clock w (tick w)) ks"
  by (simp add: prepared_def welcome_stored_def welcome_bmail_def Mailbox.messages_def)

lemma Initialize_made:
  fixes P :: "'o codec"
  assumes L: "flags_ok L" and fo: "fo_inv B C w fo" "fo_map fo = Map.empty"
  obtains w1 fo1 p f box w3 fo3 where
    "folders_New B w fo InboxFolderName = Ret (w1, fo1, Inr p)" "fo_heap fo1 p = Some f"
    "newMailbox (store_deps L P impl B C) w1 InboxFolderName (Some f) names = Ret (w1, Inr box)"
    "mbox box = f" "b_name box = InboxFolderName" "uids box = []" "sub box = None" "is_folder fo InboxFolderName f" "f_nextID f = 1"
    "new_folders (store_Folders B) w1 fo1 later_folders = Ret (w3, fo3, None)" "fo_inv B C w3 fo3"
    "dom (fo_map fo3) = insert InboxFolderName (set later_folders)" "fo_map fo3 InboxFolderName = Some (Some p)"
    "clock w3 = clock w" "store_inv B C w3 f" "store_msgs B C w3 f = Map.empty"
    "\<forall>n \<in> set later_folders. \<exists>f. is_folder fo n f \<and> store_inv B C w3 f \<and> store_msgs B C w3 f = Map.empty"
proof -
  let ?D = "store_deps L P impl B C"
  have nI: "fo_name_ok InboxFolderName" "InboxFolderName \<notin> dom (fo_map fo)" using later_folders_ok(2) fo(2) by auto
  obtain w1 fo1 p f where n: "folders_New B w fo InboxFolderName = Ret (w1, fo1, Inr p)" "fo_inv B C w1 fo1"
    "fo_heap fo1 p = Some f" "f_nextID f = 1" "store_inv B C w1 f" "store_msgs B C w1 f = Map.empty" "is_folder fo InboxFolderName f"
    "clock w1 = clock w" "fo_user fo1 = fo_user fo" "fo_map fo1 = [InboxFolderName \<mapsto> Some p]" "p < fo_fresh fo1"
    using folders_new [OF fo(1) nI] unfolding fo(2) by blast
  have i: "is_folder fo1 = is_folder fo" using n(9) by (simp add: is_folder_def fun_eq_iff)
  have "readable ?D (store_msgs B C w1 f)" by (simp add: n(6) readable_def)
  then obtain box where box: "newMailbox ?D w1 InboxFolderName (Some f) names = Ret (w1, Inr box)" "mbox box = f"
      "b_name box = InboxFolderName" "mailbox_ok L P impl B C w1 box"
    using open_box [OF n(5) L _ n(7), of P impl names] by (auto simp: opened_box_def folder_names)
  note ok = mailbox_okD [OF box(4), unfolded box(2)]
  have u: "uids box = []" using synced_uids [OF ok(4)] by (simp add: n(6) ids_of_def)
  have lok: "\<And>n. n \<in> set later_folders \<Longrightarrow> fo_name_ok n" "set later_folders \<inter> dom (fo_map fo1) = {}" "distinct later_folders"
    using later_folders_ok n(10) by auto
  obtain w3 fo3 where l: "new_folders (store_Folders B) w1 fo1 later_folders = Ret (w3, fo3, None)" "fo_inv B C w3 fo3"
    "dom (fo_map fo3) = set later_folders \<union> dom (fo_map fo1)" "\<forall>k. k \<notin> set later_folders \<longrightarrow> fo_map fo3 k = fo_map fo1 k"
    "clock w3 = clock w1"
    "\<forall>n \<in> set later_folders. \<exists>f. is_folder fo n f \<and> store_inv B C w3 f \<and> store_msgs B C w3 f = Map.empty"
    "\<forall>k g. k \<notin> set later_folders \<longrightarrow> is_folder fo k g \<longrightarrow> store_inv B C w1 g \<longrightarrow>
      store_inv B C w3 g \<and> store_msgs B C w3 g = store_msgs B C w1 g"
    using new_folders_ok [OF n(2) lok] unfolding i by blast
  have f3: "store_inv B C w3 f" "store_msgs B C w3 f = Map.empty"
    using l(7) n(5-7) later_folders_ok(1) by (metis distinct.simps(2))+
  have m: "dom (fo_map fo3) = insert InboxFolderName (set later_folders)" "fo_map fo3 InboxFolderName = Some (Some p)" "clock w3 = clock w"
    using l(3-5) n(8,10) later_folders_ok(1) by auto
  show thesis by (rule that [OF n(1,3) box(1-3) u ok(3) n(7,4) l(1,2) m f3 l(6)])
qed

lemma Initialize_run:
  fixes P :: "'o codec"
  assumes E: "ubox E = store_deps L P impl B C" "flags_ok L" and fo: "fo_inv B C w fo" "fo_map fo = Map.empty"
    and k: "gen_keys (ukeys E) (DefaultStream (unet E)) (BehaviorAck (unet E)) k (unat genkeys) = Ret k'"
    and tags: "km_Names (ukeys E) k = tags" "finite (dom tags)"
    and st: "\<forall>as i. distinct as \<longrightarrow> set as = dom tags \<longrightarrow>
      (\<exists>enc. storable store_fits (store_deps L P impl B C) (welcome_stored L (clock w i) (key_list tags as)) enc)"
  shows "\<exists>w' fo' p f enc b as. Initialize E (store_Folders B) w fo k genkeys = Ret (w', fo', k', None) \<and>
    confined B (u_bucketID (fo_user fo)) w w' \<and> is_folder fo ''Inbox'' f \<and>
    dom (fo_map fo') = {''Inbox'', ''Outbox'', ''Sent'', ''Limbo'', ''Trash'', ''Commands'', ''Drafts''} \<and>
    fo_map fo' ''Inbox'' = Some (Some p) \<and> fo_heap fo' p = Some f \<and>
    store_inv B C w' f \<and> store_msgs B C w' f = [1 \<mapsto> (2, enc)] \<and>
    decodeBitmessage L P enc = Ret (Inr (b, None)) \<and> From b = ''welcome@bm.agent'' \<and>
    Payload b = Some (Encoding2 ''Welcome to bmagent!'' (welcomeMsg (key_list tags as))) \<and> distinct as \<and> set as = dom tags \<and>
    (\<forall>n \<in> {''Outbox'', ''Sent'', ''Limbo'', ''Trash'', ''Commands'', ''Drafts''}.
       \<exists>g. is_folder fo n g \<and> store_inv B C w' g \<and> store_msgs B C w' g = Map.empty)"
proof -
  let ?D = "store_deps L P impl B C" and ?names = "km_Names (ukeys E) k"
  have ml: "mlib ?D = L" by (simp add: store_deps_def)
  have fl: "and_flags L = L" by (rule and_flags_id [OF E(2)])
  obtain w1 fo1 p f box w3 fo3 where n: "folders_New B w fo InboxFolderName = Ret (w1, fo1, Inr p)" "fo_heap fo1 p = Some f"
    and box: "newMailbox ?D w1 InboxFolderName (Some f) ?names = Ret (w1, Inr box)" "mbox box = f" "b_name box = InboxFolderName"
      "uids box = []" "sub box = None"
    and f: "is_folder fo InboxFolderName f" "f_nextID f = 1"
    and l: "new_folders (store_Folders B) w1 fo1 later_folders = Ret (w3, fo3, None)" "fo_inv B C w3 fo3"
      "dom (fo_map fo3) = insert InboxFolderName (set later_folders)" "fo_map fo3 InboxFolderName = Some (Some p)"
      "clock w3 = clock w"
      "\<forall>n \<in> set later_folders. \<exists>f. is_folder fo n f \<and> store_inv B C w3 f \<and> store_msgs B C w3 f = Map.empty"
    and f3: "store_inv B C w3 f" "store_msgs B C w3 f = Map.empty"
    by (rule Initialize_made [OF E(2) fo, where P = P and impl = impl and names = ?names]) blast
  let ?w = "w3\<lparr>tick := Suc (tick w3)\<rparr>"
  define as where "as = name_order w3 (tick w3) (dom tags)"
  have as: "set as = dom tags" "distinct as"
    using l(2) tags(2) by (simp_all add: as_def fo_inv_def world_ok_def env_ok_def)
  let ?m = "welcome_stored L (clock w (Suc (tick w3))) (key_list tags as)"
  obtain enc where enc: "storable store_fits ?D ?m enc" using st as by blast
  have p: "prepared ?w box (welcome_bmail (key_list tags as)) (FlagRecent L) = ?m"
    by (simp add: welcome_prepared [OF box(3,4)] l(5))
  have nx: "NextID (store_Folder B C) f = 1" by (simp add: store_Folder_def store_NextID_def f(2))
  note A = mb.addNew_ok [where L = L and P = P and impl = impl, unfolded fl]
  obtain w5 box5 b5 where a: "addNew ?D ?w box (welcome_bmail (key_list tags as)) (FlagRecent L) = Ret (w5, box5, b5, None)"
    "store_inv B C w5 (mbox box5)" "store_msgs B C w5 (mbox box5) = [1 \<mapsto> (2, enc)]"
    "\<forall>g. store_apart f g \<longrightarrow> store_inv B C ?w g \<longrightarrow> store_inv B C w5 g \<and> store_msgs B C w5 g = store_msgs B C ?w g"
    using A [of B C ?w box "welcome_bmail (key_list tags as)" "FlagRecent L" enc] box(5) enc
    by (simp add: box(2) f3 p nx readable_def) blast
  have "Initialize E (store_Folders B) w fo k genkeys = Ret (w5, fo3\<lparr>fo_heap := (fo_heap fo3)(p \<mapsto> mbox box5)\<rparr>, k', None)"
    using n box(1) l(1) k a(1) tags(1)
    by (simp add: Initialize_def store_Folders_def E(1) ml range_names_def as_def AddNew_def later_folders_def)
  moreover have "dom (fo_map fo3) = {''Inbox'', ''Outbox'', ''Sent'', ''Limbo'', ''Trash'', ''Commands'', ''Drafts''}"
    using l(3) by (auto simp: later_folders_def folder_names)
  moreover have "fo_map fo3 ''Inbox'' = Some (Some p)"
    using l(4) by (simp add: InboxFolderName_def)
  moreover have "\<exists>g. is_folder fo n g \<and> store_inv B C w5 g \<and> store_msgs B C w5 g = Map.empty" if m: "n \<in> set later_folders" for n
  proof -
    obtain g where g: "is_folder fo n g" "store_inv B C w3 g" "store_msgs B C w3 g = Map.empty" using l(6) m by blast
    have "store_apart f g" using m later_folders_ok(1) by (intro is_folder_apart [OF f(1) g(1)]) auto
    with a(4) g show ?thesis by auto
  qed
  then have "\<forall>n \<in> {''Outbox'', ''Sent'', ''Limbo'', ''Trash'', ''Commands'', ''Drafts''}.
       \<exists>g. is_folder fo n g \<and> store_inv B C w5 g \<and> store_msgs B C w5 g = Map.empty"
    by (simp add: later_folders_def folder_names)
  moreover have "decodeBitmessage L P enc = Ret (Inr (stored ?m, None))"
    using enc by (intro decode_serialized) (simp_all add: storable_def store_deps_def)
  moreover have "From (stored ?m) = ''welcome@bm.agent''"
      "Payload (stored ?m) = Some (Encoding2 ''Welcome to bmagent!'' (welcomeMsg (key_list tags as)))"
    by (simp_all add: stored_def welcome_stored_def welcome_bmail_def)
  moreover have "confined B (u_bucketID (fo_user fo)) w w5" "is_folder fo ''Inbox'' (mbox box5)"
  proof -
    have B: "bolt_ok B" and u: "userPrefix @ u_username (fo_user fo) = u_bucketID (fo_user fo)"
      using fo(1) by (simp_all add: fo_inv_def world_ok_def)
    note n1 = folders_New_confined [OF B n(1)]
    with new_folders_confined [OF B l(1)] u have "confined B (u_bucketID (fo_user fo)) w ?w" by (auto intro: elsewhere_trans)
    moreover have "f_userID (mbox box) = u_bucketID (fo_user fo)" using box(2) f(1) by (simp add: is_folder_def)
    ultimately show "confined B (u_bucketID (fo_user fo)) w w5"
      using addNew_confined [OF B a(1)] by (auto intro: elsewhere_trans)
    show "is_folder fo ''Inbox'' (mbox box5)"
      using addNew_confined [OF B a(1)] box(2) f(1) by (auto simp: is_folder_def InboxFolderName_def)
  qed
  ultimately show ?thesis using a(2,3) as
    by (intro exI [of _ w5] exI [of _ "fo3\<lparr>fo_heap := (fo_heap fo3)(p \<mapsto> mbox box5)\<rparr>"] exI [of _ p] exI [of _ "mbox box5"]
        exI [of _ enc] exI [of _ "stored ?m"] exI [of _ as]) simp
qed

text \<open>
  C28.  \<open>Initialize\<close> makes the seven folders of a new user, all of them empty except the inbox, which holds one message: the
  welcome.  The addresses that the welcome lists are those of the key manager before the call: the keys that \<open>Initialize\<close>
  generates itself are not among them.
\<close>

theorem Initialize_folders:
  fixes P :: "'o codec"
  assumes E: "ubox E = store_deps L P impl B C" "flags_ok L" and fo: "fo_inv B C w fo" "fo_map fo = Map.empty"
    and k: "gen_keys (ukeys E) (DefaultStream (unet E)) (BehaviorAck (unet E)) k (unat genkeys) = Ret k'"
    and tags: "km_Names (ukeys E) k = tags" "finite (dom tags)"
    and st: "\<And>as i. distinct as \<Longrightarrow> set as = dom tags \<Longrightarrow>
      \<exists>enc. storable store_fits (store_deps L P impl B C) (welcome_stored L (clock w i) (key_list tags as)) enc"
  shows "\<exists>w' fo' p f enc b as. Initialize E (store_Folders B) w fo k genkeys = Ret (w', fo', k', None) \<and>
    dom (fo_map fo') = {''Inbox'', ''Outbox'', ''Sent'', ''Limbo'', ''Trash'', ''Commands'', ''Drafts''} \<and>
    fo_map fo' ''Inbox'' = Some (Some p) \<and> fo_heap fo' p = Some f \<and>
    store_inv B C w' f \<and> store_msgs B C w' f = [1 \<mapsto> (2, enc)] \<and>
    decodeBitmessage L P enc = Ret (Inr (b, None)) \<and> From b = ''welcome@bm.agent'' \<and>
    Payload b = Some (Encoding2 ''Welcome to bmagent!'' (welcomeMsg (key_list tags as))) \<and> distinct as \<and> set as = dom tags \<and>
    (\<forall>n \<in> {''Outbox'', ''Sent'', ''Limbo'', ''Trash'', ''Commands'', ''Drafts''}.
       \<exists>g. is_folder fo n g \<and> store_inv B C w' g \<and> store_msgs B C w' g = Map.empty)"
proof -
  have "\<forall>as i. distinct as \<longrightarrow> set as = dom tags \<longrightarrow>
      (\<exists>enc. storable store_fits (store_deps L P impl B C) (welcome_stored L (clock w i) (key_list tags as)) enc)"
    using st by blast
  from Initialize_run [OF E fo k tags this] show ?thesis by (elim ex_forward conjE) (intro conjI; assumption)
qed

section \<open>Witnesses\<close>

theorem NewUser_opens_witness:
  "\<exists>w' fo' u box. NewUser bob_udeps (store_Folders ref_bolt) bob_world bob_folders ''bob'' bob_keys (Some (\<lambda>_. 0)) (None :: unit option) [] = Ret (w', fo', Inr u) \<and>
    dom (boxes u) = {''Limbo'', ''Outbox'', ''Sent''} \<and> boxes u ''Outbox'' = Some box \<and> b_name box = ''Outbox'' \<and>
    mailbox_ok ref_mail bob_codec (\<lambda>_. 0) ref_bolt ref_crypto w' box \<and> expiration u = None"
proof -
  have f: "finite (dom (fo_map bob_folders))" "dom (fo_map bob_folders) = {''Limbo'', ''Outbox'', ''Sent''}" by (auto simp: bob_folders_def)
  have r: "fo_readable bob_deps ref_bolt ref_crypto bob_world bob_folders" by (simp add: fo_readable_def bob_readable)
  obtain w' fo' u where u: "NewUser bob_udeps (store_Folders ref_bolt) bob_world bob_folders ''bob'' bob_keys (Some (\<lambda>_. 0)) (None :: unit option) [] = Ret (w', fo', Inr u)"
    "dom (boxes u) = dom (fo_map bob_folders)" "expiration u = None"
    "\<forall>n box. boxes u n = Some box \<longrightarrow> opened_box ref_mail bob_codec (\<lambda>_. 0) ref_bolt ref_crypto w' bob_folders n box"
    using NewUser_opens [OF bob_udeps_simps(1) bob_fo_inv ref_flags_ok r f(1), of "''bob''" bob_keys "Some (\<lambda>_. 0)" "None :: unit option" "[]"] by blast
  have "''Outbox'' \<in> dom (boxes u)" by (simp only: u(2) f(2)) simp
  then obtain box where b: "boxes u ''Outbox'' = Some box" unfolding domIff by (cases "boxes u ''Outbox''") simp_all
  then have "opened_box ref_mail bob_codec (\<lambda>_. 0) ref_bolt ref_crypto w' bob_folders ''Outbox'' box" using u(4) by blast
  then have "b_name box = ''Outbox''" "mailbox_ok ref_mail bob_codec (\<lambda>_. 0) ref_bolt ref_crypto w' box" by (simp_all add: opened_box_def)
  with u(1,2,3) f(2) b show ?thesis by (intro exI [of _ w'] exI [of _ fo'] exI [of _ u] exI [of _ box]) simp
qed

text \<open>A codec that writes the welcome message of a user with one address.\<close>

definition welcome_pb :: pb_Message where
  "welcome_pb = \<lparr>pb_From = ''welcome@bm.agent'', pb_To = ''@bm.addr'', pb_OfChannel = False, pb_Expiration = PutUint64 0, pb_Ack = None,
     pb_ImapData = Some \<lparr>pb_TimeReceived = PutUint64 0, pb_Flags = 32\<rparr>,
     pb_Encoding = Some \<lparr>pb_Format = 2, pb_Subject = Some ''Welcome to bmagent!'',
       pb_Body = Some (welcomeMsg (key_list [''BM-2cT'' \<mapsto> ''me''] [''BM-2cT'']))\<rparr>, pb_Object = None,
     pb_State = Some \<lparr>pb_PubkeyRequested = False, pb_SendTries = 0, pb_LastSend = PutUint64 0, pb_AckExpected = False,
       pb_AckReceived = False, pb_Received = False\<rparr>\<rparr>"

definition eve_udeps where
  "eve_udeps = bob_udeps\<lparr>ubox := store_deps ref_mail (table_codec [welcome_pb]) (\<lambda>_. 0) ref_bolt ref_crypto\<rparr>"

lemma welcomeMsg_nonempty: "welcomeMsg ks \<noteq> []"
  by (simp add: welcomeMsg_def)

lemma welcome_storable:
  "storable store_fits (store_deps ref_mail (table_codec [welcome_pb]) (\<lambda>_. 0) ref_bolt ref_crypto)
    (welcome_stored ref_mail (clock (ref_world eve_db) i) (key_list [''BM-2cT'' \<mapsto> ''me''] [''BM-2cT''])) (be 4 0)"
proof -
  let ?m = "welcome_stored ref_mail (clock (ref_world eve_db) i) (key_list [''BM-2cT'' \<mapsto> ''me''] [''BM-2cT''])"
  have c: "clock (ref_world eve_db) i = \<lparr>t_sec = 0, t_nsec = 0, t_zone = None\<rparr>" by (simp add: ref_world_def ref_env_def)
  have "times_ok ref_mail ?m"
    by (simp add: c times_ok_def welcome_stored_def welcome_bmail_def dated_ref zero_time_def new_state_def)
  moreover have "serializeBitmessage ref_mail (table_codec [welcome_pb]) ?m None = Ret (Inr (be 4 0))"
    by (simp add: c welcome_stored_def welcome_bmail_def zero_time_def new_state_def serializeBitmessage_def table_codec_def welcome_pb_def
        position_def ref_mail_def Let_def)
  moreover have "codec_ok (table_codec [welcome_pb])" by (rule codec_ok_table) simp
  moreover have "has_body ?m" using welcomeMsg_nonempty by (simp add: has_body_def welcome_stored_def welcome_bmail_def)
  ultimately show ?thesis
    using demo_fits [of "be 4 0"] by (simp add: storable_def store_deps_def welcome_stored_def welcome_bmail_def)
qed

lemma bob_new_key:
  "\<exists>k'. gen_keys (idmgr_Keys ref_identity) (DefaultStream ref_net) (BehaviorAck ref_net) bob_keys 1 = Ret k' \<and> mgr_Size k' = 2"
proof -
  have d: "derive_loop ref_identity ''xprv'' 0 1 0 = Some (''xprv'' @ fmt_d 0, 1)"
    by (subst derive_loop.simps) (simp add: ref_identity_def)
  show ?thesis
    by (simp add: idmgr_Keys_def NewUnnamed_def mgr_New_def bob_keys_def d ref_net_def address_String_def pid_Address_def
        mgr_Size_def ids_map_def Let_def) (simp add: ref_identity_def)
qed

theorem Initialize_folders_witness:
  "\<exists>w' fo' k' f p. Initialize eve_udeps (store_Folders ref_bolt) (ref_world eve_db) eve_folders bob_keys 1 = Ret (w', fo', k', None) \<and>
    fo_map fo' ''Inbox'' = Some (Some p) \<and> fo_heap fo' p = Some f \<and> dom (store_msgs ref_bolt ref_crypto w' f) = {1} \<and> mgr_Size k' = 2"
proof -
  let ?D = "store_deps ref_mail (table_codec [welcome_pb]) (\<lambda>_. 0) ref_bolt ref_crypto"
  let ?tags = "[''BM-2cT'' \<mapsto> ''me'']"
  have E: "ubox eve_udeps = ?D" by (simp add: eve_udeps_def)
  obtain k' where k: "gen_keys (ukeys eve_udeps) (DefaultStream (unet eve_udeps)) (BehaviorAck (unet eve_udeps)) bob_keys (unat (1 :: u32)) = Ret k'"
      "mgr_Size k' = 2"
    using bob_new_key by (auto simp: eve_udeps_def)
  have t: "km_Names (ukeys eve_udeps) bob_keys = ?tags"
    by (simp add: eve_udeps_def idmgr_Keys_def Names_def bob_keys_def ids_map_def demo_id_def fun_eq_iff)
  have "as = [''BM-2cT'']" if "distinct as" "set as = dom ?tags" for as
    using that by (cases as) (auto simp: subset_singleton_iff)
  then have st: "\<exists>enc. storable store_fits ?D (welcome_stored ref_mail (clock (ref_world eve_db) i) (key_list ?tags as)) enc"
    if "distinct as" "set as = dom ?tags" for as i
    using welcome_storable that by metis
  have m: "fo_map eve_folders = Map.empty" by (simp add: eve_folders_def)
  have d: "finite (dom ?tags)" by simp
  obtain w' fo' p f enc where r: "Initialize eve_udeps (store_Folders ref_bolt) (ref_world eve_db) eve_folders bob_keys 1 = Ret (w', fo', k', None)"
    "fo_map fo' ''Inbox'' = Some (Some p)" "fo_heap fo' p = Some f" "store_msgs ref_bolt ref_crypto w' f = [1 \<mapsto> (2, enc)]"
    using Initialize_folders [OF E ref_flags_ok eve_fo_inv m k(1) t d st] by metis
  have "dom (store_msgs ref_bolt ref_crypto w' f) = {1}" by (simp add: r(4))
  with r(1-3) k(2) show ?thesis by metis
qed

end
