(* ===== verification/User_Sending.thy ===== *)
theory User_Sending
  imports User_Open
begin

text \<open>
  What happens to a message on its way out: it waits in the outbox for the key of its recipient, leaves the outbox when its
  proof of work is done, and leaves limbo when it is acknowledged.
\<close>

section \<open>Calls that leave the folders alone\<close>

definition same_folders :: "'db bolt \<Rightarrow> crypto \<Rightarrow> 'db world \<Rightarrow> 'db world \<Rightarrow> bool" where
  "same_folders B C w w1 \<longleftrightarrow> clock w1 = clock w \<and> (\<forall>g. store_inv B C w g \<longrightarrow> store_inv B C w1 g \<and> store_msgs B C w1 g = store_msgs B C w g)"

lemma same_folders_mailbox: "same_folders B C w w1 \<Longrightarrow> mailbox_ok L P impl B C w box \<Longrightarrow> mailbox_ok L P impl B C w1 box"
  by (simp add: same_folders_def mailbox_ok_def)

lemma same_folders_tick: "same_folders B C w w1 \<Longrightarrow> same_folders B C w (w1\<lparr>tick := k\<rparr>)"
  by (simp add: same_folders_def)

definition quiet_send :: "'db bolt \<Rightarrow> crypto \<Rightarrow> ('db world, 's, 'q) ServerOps \<Rightarrow> bool" where
  "quiet_send B C S \<longleftrightarrow> (\<forall>w s b. \<exists>w1 s1. so_Send S w s b = Ret (w1, s1) \<and> same_folders B C w w1)"

text \<open>Saving a message again under its uid.\<close>

lemma save_outbox_ok:
  assumes E: "ubox E = store_deps L P impl B C"
    and ob: "boxes u OutboxFolderName = Some ob" "mailbox_ok L P impl B C w ob"
    and m: "Imap m = Some d" "UID d \<in> set (uids ob)" "storable store_fits (store_deps L P impl B C) m enc"
  obtains w1 ob1 where "save_outbox E w u m = Ret (w1, u\<lparr>boxes := (boxes u)(OutboxFolderName \<mapsto> ob1)\<rparr>, m, None)"
    "mailbox_ok L P impl B C w1 ob1" "uids ob1 = uids ob" "clock w1 = clock w"
    "store_msgs B C w1 (mbox ob1) = (store_msgs B C w (mbox ob))(UID d \<mapsto> (2, enc))"
    "\<And>g. store_apart (mbox ob) g \<Longrightarrow> store_inv B C w g \<Longrightarrow> store_inv B C w1 g \<and> store_msgs B C w1 g = store_msgs B C w g \<and> store_apart (mbox ob1) g"
proof -
  let ?D = "store_deps L P impl B C" and ?M = "store_msgs B C w (mbox ob)"
  note O = mailbox_okD [OF ob(2)]
  note L = mb.saveBitmessage_replace [where L = L and P = P and impl = impl, unfolded O(1)]
  have i: "UID d \<in> ids_of ?M 2" using m(2) synced_uids [OF O(4)] by simp
  then have "UID d \<in> dom ?M" by (auto simp: ids_of_def)
  then obtain w1 ob1 where s: "saveBitmessage ?D w ob m = Ret (w1, ob1, m, None)" "store_inv B C w1 (mbox ob1)"
    "store_msgs B C w1 (mbox ob1) = ?M(UID d \<mapsto> (2, enc))" "synced ?D (store_msgs B C w1 (mbox ob1)) ob1"
    "readable ?D (store_msgs B C w1 (mbox ob1))"
    "\<forall>g. store_apart (mbox ob) g \<longrightarrow> store_inv B C w g \<longrightarrow> store_inv B C w1 g \<and> store_msgs B C w1 g = store_msgs B C w g \<and> store_apart (mbox ob1) g"
    using L [OF O(2,3,5) m(3,1)] by blast
  show thesis
  proof (rule that)
    show "save_outbox E w u m = Ret (w1, u\<lparr>boxes := (boxes u)(OutboxFolderName \<mapsto> ob1)\<rparr>, m, None)"
      using ob(1) s(1) by (simp add: save_outbox_def on_box_def E)
    show "mailbox_ok L P impl B C w1 ob1" using ob(2) s by (simp add: mailbox_ok_def)
    have "insert (UID d) (ids_of ?M 2) = ids_of ?M 2" using i by auto
    then show "uids ob1 = uids ob" using synced_uids [OF s(4)] synced_uids [OF O(4)] by (simp add: s(3) ids_of_upd)
    show "clock w1 = clock w"
      using ms.saveBitmessage_keeps [where L = L and P = P and impl = impl, unfolded O(1), of w B C ob m] s(1) by (simp add: keeps_def)
  qed (use s in auto)
qed

section \<open>Leaving the outbox\<close>

definition next_box :: "MessageState \<Rightarrow> string" where
  "next_box st = (if AckExpected st then LimboFolderName else SentFolderName)"

lemma next_box_outbox: "OutboxFolderName \<noteq> next_box st"
  by (simp add: next_box_def folder_names)

lemma send_done_moves:
  assumes E: "ubox E = store_deps L P impl B C" "quiet_send B C (userver E)"
    and b: "boxes u OutboxFolderName = Some ob" "boxes u (next_box st) = Some tb" "store_apart (mbox ob) (mbox tb)"
    and ok: "mailbox_ok L P impl B C w ob" "mailbox_ok L P impl B C w tb"
    and sm: "seq_small (uids ob)" "seq_small (remove1 (UID d) (uids ob))" "seq_small (uids tb @ [i])"
    and i: "NextID (store_Folder B C) (mbox tb) = i" "i \<noteq> - 1"
    and m: "Imap m = Some d" "UID d \<in> set (uids ob)" "State m = Some st" "storable store_fits (store_deps L P impl B C) m enc"
    and st: "storable_at store_fits (store_deps L P impl B C) (clock w) tb ((stored m)\<lparr>Imap := None\<rparr>) (FlagSeen L)"
  shows "\<exists>w1 w2 s w' ob' tb' b2. so_Send (userver E) w1 (server u) ob1 = Ret (w2, s) \<and>
    send_done E w u m ob1 = Ret (w', u\<lparr>server := s, boxes := (boxes u)(OutboxFolderName \<mapsto> ob', next_box st \<mapsto> tb')\<rparr>, None) \<and>
    mailbox_ok L P impl B C w' ob' \<and> mailbox_ok L P impl B C w' tb' \<and>
    uids ob' = remove1 (UID d) (uids ob) \<and> uids tb' = uids tb @ [i] \<and>
    BitmessageByUID (store_deps L P impl B C) w' ob' (UID d) = Ret (ob', None) \<and>
    BitmessageByUID (store_deps L P impl B C) w' tb' i = Ret (tb', Some b2) \<and>
    From b2 = From m \<and> To b2 = To m \<and> Payload b2 = Payload m \<and> State b2 = Some (st\<lparr>LastSend := (LastSend st)\<lparr>t_nsec := 0\<rparr>\<rparr>)"
proof -
  let ?D = "store_deps L P impl B C" and ?u = "UID d"
  obtain w1 o1 where s: "save_outbox E w u m = Ret (w1, u\<lparr>boxes := (boxes u)(OutboxFolderName \<mapsto> o1)\<rparr>, m, None)"
    "mailbox_ok L P impl B C w1 o1" "uids o1 = uids ob" "clock w1 = clock w"
    "store_msgs B C w1 (mbox o1) = (store_msgs B C w (mbox ob))(?u \<mapsto> (2, enc))"
    and fr: "\<And>g. store_apart (mbox ob) g \<Longrightarrow> store_inv B C w g \<Longrightarrow> store_inv B C w1 g \<and> store_msgs B C w1 g = store_msgs B C w g \<and> store_apart (mbox o1) g"
    by (rule save_outbox_ok [OF E(1) b(1) ok(1) m(1,2,4)]) blast
  obtain w2 s2 where q: "so_Send (userver E) w1 (server u) ob1 = Ret (w2, s2)" "same_folders B C w1 w2"
    using E(2) unfolding quiet_send_def by blast
  let ?w = "w2\<lparr>tick := Suc (tick w2)\<rparr>" and ?v = "u\<lparr>boxes := (boxes u)(OutboxFolderName \<mapsto> o1), server := s2\<rparr>"
  let ?m = "m\<lparr>State := Some (st\<lparr>SendTries := SendTries st + 1, LastSend := clock w2 (tick w2)\<rparr>)\<rparr>"
  have w: "same_folders B C w1 ?w" by (rule same_folders_tick [OF q(2)])
  note T = mailbox_okD [OF ok(2)] and O = mailbox_okD [OF same_folders_mailbox [OF w s(2)]]
  have ap: "store_apart (mbox o1) (mbox tb)" and t1: "mailbox_ok L P impl B C w1 tb"
    using fr [OF b(3) T(2)] ok(2) by (auto simp: mailbox_ok_def)
  have ot: "mailbox_ok L P impl B C ?w tb" by (rule same_folders_mailbox [OF w t1])
  have ms: "store_msgs B C ?w (mbox o1) ?u = Some (2, enc)" and c: "clock ?w = clock w"
    using w s(4,5) mailbox_okD(2) [OF s(2)] by (simp_all add: same_folders_def)
  obtain d2 where "shown ?D (b_name o1) (store_msgs B C ?w (mbox o1)) ?u = Some ((stored m)\<lparr>Imap := Some d2\<rparr>)"
    using shown_stored [OF O(1) m(4), of "store_msgs B C ?w (mbox o1)" ?u "b_name o1"] ms by blast
  then have ft: "BitmessageByUID ?D ?w o1 ?u = Ret (o1, Some ((stored m)\<lparr>Imap := Some d2\<rparr>))"
    using mb.bmsgByUID_ok [where L = L and P = P and impl = impl, unfolded O(1), OF O(2,4,5)] s(3) sm(1)
    by (simp add: BitmessageByUID_def)
  have vb: "boxes ?v OutboxFolderName = Some o1" "boxes ?v (next_box st) = Some tb" using b(2) next_box_outbox [of st] by auto
  have st': "storable_at store_fits ?D (clock ?w) tb (((stored m)\<lparr>Imap := Some d2\<rparr>)\<lparr>Imap := None\<rparr>) (FlagSeen L)" using st c by simp
  have mI: "Imap ?m = Some d" "?u \<in> set (uids o1)" using m(1,2) s(3) by simp_all
  obtain w' ob' tb' b2 where mv: "Move E ?w ?v ?m OutboxFolderName (next_box st) =
      Ret (w', ?v\<lparr>boxes := (boxes ?v)(OutboxFolderName \<mapsto> ob', next_box st \<mapsto> tb')\<rparr>, None)"
    "mailbox_ok L P impl B C w' ob'" "mailbox_ok L P impl B C w' tb'" "uids ob' = remove1 ?u (uids o1)" "uids tb' = uids tb @ [i]"
    "BitmessageByUID ?D w' ob' ?u = Ret (ob', None)" "BitmessageByUID ?D w' tb' i = Ret (tb', Some b2)"
    "From b2 = From m" "To b2 = To m" "Payload b2 = Payload m" "State b2 = map_option (\<lambda>s. s\<lparr>LastSend := (LastSend s)\<lparr>t_nsec := 0\<rparr>\<rparr>) (State (stored m))"
    using Move_store [OF E(1) vb next_box_outbox ap same_folders_mailbox [OF w s(2)] ot _ _ sm(3) i mI ft st'] s(3) sm(1,2) m(3)
    by (auto simp: stored_def)
  have "send_done E w u m ob1 = Ret (w', u\<lparr>server := s2, boxes := (boxes u)(OutboxFolderName \<mapsto> ob', next_box st \<mapsto> tb')\<rparr>, None)"
    using s(1) q(1) m(3) mv(1) next_box_outbox [of st]
    by (simp add: send_done_def time_Now_def next_box_def [symmetric] fun_upd_twist Let_def)
  moreover have "State b2 = Some (st\<lparr>LastSend := (LastSend st)\<lparr>t_nsec := 0\<rparr>\<rparr>)"
    using mv(11) m(3) by (simp add: stored_def)
  ultimately show ?thesis using q(1) mv(2-10) unfolding s(3) by blast
qed

section \<open>Acknowledgements\<close>

lemma DeliverAckReply_moves:
  assumes E: "ubox E = store_deps L P impl B C"
    and b: "boxes u LimboFolderName = Some lb" "boxes u SentFolderName = Some sb" "store_apart (mbox lb) (mbox sb)"
    and ok: "mailbox_ok L P impl B C w lb" "mailbox_ok L P impl B C w sb"
    and sm: "seq_small (uids lb)" "seq_small (remove1 k (uids lb))" "seq_small (uids sb @ [i])"
    and i: "NextID (store_Folder B C) (mbox sb) = i" "i \<noteq> - 1"
    and a: "acks u hash = Some k" "BitmessageByUID (store_deps L P impl B C) w lb k = Ret (lb, Some b')" "State b' = Some st" "AckExpected st"
    and st: "storable_at store_fits (store_deps L P impl B C) (clock w) sb (b'\<lparr>Imap := None\<rparr>) (FlagSeen L)"
  shows "\<exists>w' lb' sb' b2. DeliverAckReply E w u hash = Ret (w', u\<lparr>boxes := (boxes u)(LimboFolderName \<mapsto> lb', SentFolderName \<mapsto> sb')\<rparr>, None) \<and>
    mailbox_ok L P impl B C w' lb' \<and> mailbox_ok L P impl B C w' sb' \<and> uids lb' = remove1 k (uids lb) \<and> uids sb' = uids sb @ [i] \<and>
    BitmessageByUID (store_deps L P impl B C) w' lb' k = Ret (lb', None) \<and>
    BitmessageByUID (store_deps L P impl B C) w' sb' i = Ret (sb', Some b2) \<and>
    From b2 = From b' \<and> To b2 = To b' \<and> Payload b2 = Payload b' \<and> State b2 = Some (st\<lparr>LastSend := (LastSend st)\<lparr>t_nsec := 0\<rparr>\<rparr>)"
proof -
  let ?D = "store_deps L P impl B C" and ?v = "u\<lparr>boxes := (boxes u)(LimboFolderName \<mapsto> lb)\<rparr>"
  let ?m = "b'\<lparr>State := Some (st\<lparr>AckReceived := True\<rparr>)\<rparr>"
  note O = mailbox_okD [OF ok(1)]
  note G = mb.bmsgByUID_ok [where L = L and P = P and impl = impl, unfolded O(1), OF O(2,4,5) sm(1), of k]
  have g1: "bmsgByUID ?D w lb k = Ret (lb, Some b')" using a(2) by (simp add: BitmessageByUID_def)
  then have sh: "shown ?D (b_name lb) (store_msgs B C w (mbox lb)) k = Some b'" using G by simp
  then obtain d where d: "Imap ?m = Some d" "UID d = k" by (auto simp: shown_def split: option.splits prod.splits if_splits)
  have k: "k \<in> set (uids lb)"
    using sh synced_uids [OF O(4)] by (auto simp: shown_def ids_of_def split: option.splits prod.splits if_splits)
  have n: "LimboFolderName \<noteq> SentFolderName" by (simp add: folder_names)
  have v: "boxes ?v LimboFolderName = Some lb" "boxes ?v SentFolderName = Some sb" using b(2) n by auto
  obtain w' lb' sb' b2 where mv: "Move E w ?v ?m LimboFolderName SentFolderName =
      Ret (w', ?v\<lparr>boxes := (boxes ?v)(LimboFolderName \<mapsto> lb', SentFolderName \<mapsto> sb')\<rparr>, None)"
    "mailbox_ok L P impl B C w' lb'" "mailbox_ok L P impl B C w' sb'" "uids lb' = remove1 k (uids lb)" "uids sb' = uids sb @ [i]"
    "BitmessageByUID ?D w' lb' k = Ret (lb', None)" "BitmessageByUID ?D w' sb' i = Ret (sb', Some b2)"
    "From b2 = From b'" "To b2 = To b'" "Payload b2 = Payload b'" "State b2 = map_option (\<lambda>s. s\<lparr>LastSend := (LastSend s)\<lparr>t_nsec := 0\<rparr>\<rparr>) (State b')"
    using Move_store [OF E v n b(3) ok sm(1) _ sm(3) i d(1) _ _ st] sm(2) k a(2,3) unfolding d(2) by auto
  have "DeliverAckReply E w u hash = Ret (w', u\<lparr>boxes := (boxes u)(LimboFolderName \<mapsto> lb', SentFolderName \<mapsto> sb')\<rparr>, None)"
    using a b(1) g1 mv(1) E by (simp add: DeliverAckReply_def Let_def)
  with mv(2-11) a(3) show ?thesis by auto
qed

lemma DeliverAckReply_refuses:
  "acks u hash = None \<Longrightarrow> DeliverAckReply E w u hash = Ret (w, u, Some ErrUnrecognizedAck)"
  by (simp add: DeliverAckReply_def)

section \<open>Properties\<close>

text \<open>
  An e-mail to a recipient whose public key is not known yet: the message is put in the outbox under the next uid and
  stays there with the mark that the key has been requested; no other folder changes and no error is reported.
\<close>

theorem smtp_message_waits:
  assumes E: "ubox E = store_deps L P impl B C"
    and ob: "boxes u OutboxFolderName = Some ob" "mailbox_ok L P impl B C w ob" "objects ob = None"
      "NextID (store_Folder B C) (mbox ob) = i" "i \<noteq> - 1" "seq_small (uids ob @ [i])"
    and m: "NewBitmessageFromSMTP L smtp = Ret (Inr m)" "\<not> CommandRegex (To m)" "State m = Some st"
    and k: "ToBm L (ubm E) (From m) = Inr a" "km_Get (ukeys E) (mu_keys u) a = Some k" "Private k = Some q"
    and r: "quiet_request B C (userver E) (server u) (To m) (Inl ErrGetPubKeySent)"
    and st: "storable_at store_fits (store_deps L P impl B C) (clock w) ob m (FlagSeen L)"
      "storable_at store_fits (store_deps L P impl B C) (clock w) ob (m\<lparr>State := Some (st\<lparr>PubkeyRequestOutstanding := True\<rparr>)\<rparr>) (FlagSeen L)"
  shows "\<exists>w' s1 ob' b. DeliverFromSMTP E w u smtp = Ret (w', u\<lparr>server := s1, boxes := (boxes u)(OutboxFolderName \<mapsto> ob')\<rparr>, None) \<and>
    mailbox_ok L P impl B C w' ob' \<and> uids ob' = uids ob @ [i] \<and>
    BitmessageByUID (store_deps L P impl B C) w' ob' i = Ret (ob', Some b) \<and>
    From b = From m \<and> To b = To m \<and> Payload b = Payload m \<and> (\<exists>s. State b = Some s \<and> PubkeyRequestOutstanding s) \<and>
    (\<forall>g. store_apart (mbox ob) g \<longrightarrow> store_inv B C w g \<longrightarrow> store_inv B C w' g \<and> store_msgs B C w' g = store_msgs B C w g)"
  using DeliverFromSMTP_waits [OF assms] by blast

text \<open>
  C24.  When the proof of work of a message is done, the object is handed to the server and the message leaves the outbox: it is
  moved to \<open>Limbo\<close> if an ack is expected and to \<open>Sent\<close> otherwise, where it has the next uid.  Sender, recipient and
  content are unchanged, but so is its state: the count of attempts and the time of sending are not recorded.
\<close>

theorem completed_message_moves:
  assumes E: "ubox E = store_deps L P impl B C" "quiet_send B C (userver E)"
    and b: "boxes u OutboxFolderName = Some ob" "boxes u (next_box st) = Some tb" "store_apart (mbox ob) (mbox tb)"
    and ok: "mailbox_ok L P impl B C w ob" "mailbox_ok L P impl B C w tb"
    and sm: "seq_small (uids ob)" "seq_small (remove1 (UID d) (uids ob))" "seq_small (uids tb @ [i])"
    and i: "NextID (store_Folder B C) (mbox tb) = i" "i \<noteq> - 1"
    and m: "Imap m = Some d" "UID d \<in> set (uids ob)" "State m = Some st" "storable store_fits (store_deps L P impl B C) m enc"
    and st: "storable_at store_fits (store_deps L P impl B C) (clock w) tb ((stored m)\<lparr>Imap := None\<rparr>) (FlagSeen L)"
  shows "\<exists>w1 w2 s w' ob' tb' b2. so_Send (userver E) w1 (server u) ob1 = Ret (w2, s) \<and>
    send_done E w u m ob1 = Ret (w', u\<lparr>server := s, boxes := (boxes u)(OutboxFolderName \<mapsto> ob', next_box st \<mapsto> tb')\<rparr>, None) \<and>
    mailbox_ok L P impl B C w' ob' \<and> mailbox_ok L P impl B C w' tb' \<and>
    uids ob' = remove1 (UID d) (uids ob) \<and> uids tb' = uids tb @ [i] \<and>
    BitmessageByUID (store_deps L P impl B C) w' ob' (UID d) = Ret (ob', None) \<and>
    BitmessageByUID (store_deps L P impl B C) w' tb' i = Ret (tb', Some b2) \<and>
    From b2 = From m \<and> To b2 = To m \<and> Payload b2 = Payload m \<and> State b2 = Some (st\<lparr>LastSend := (LastSend st)\<lparr>t_nsec := 0\<rparr>\<rparr>)"
  using assms by (rule send_done_moves)

text \<open>
  C25.  The reply to an expected ack moves its message from \<open>Limbo\<close> to \<open>Sent\<close>, with the same sender, recipient and content; a
  reply with an unknown hash is refused and changes nothing.  That the ack was received is not recorded: the state of the
  message in \<open>Sent\<close> is the one that was stored in \<open>Limbo\<close>.
\<close>

theorem ack_moves_to_Sent:
  assumes E: "ubox E = store_deps L P impl B C"
    and b: "boxes u LimboFolderName = Some lb" "boxes u SentFolderName = Some sb" "store_apart (mbox lb) (mbox sb)"
    and ok: "mailbox_ok L P impl B C w lb" "mailbox_ok L P impl B C w sb"
    and sm: "seq_small (uids lb)" "seq_small (remove1 k (uids lb))" "seq_small (uids sb @ [i])"
    and i: "NextID (store_Folder B C) (mbox sb) = i" "i \<noteq> - 1"
    and a: "acks u hash = Some k" "BitmessageByUID (store_deps L P impl B C) w lb k = Ret (lb, Some b')" "State b' = Some st" "AckExpected st"
    and st: "storable_at store_fits (store_deps L P impl B C) (clock w) sb (b'\<lparr>Imap := None\<rparr>) (FlagSeen L)"
  shows "(\<forall>h. acks u h = None \<longrightarrow> DeliverAckReply E w u h = Ret (w, u, Some ErrUnrecognizedAck)) \<and>
    (\<exists>w' lb' sb' b2. DeliverAckReply E w u hash = Ret (w', u\<lparr>boxes := (boxes u)(LimboFolderName \<mapsto> lb', SentFolderName \<mapsto> sb')\<rparr>, None) \<and>
      mailbox_ok L P impl B C w' lb' \<and> mailbox_ok L P impl B C w' sb' \<and> uids lb' = remove1 k (uids lb) \<and> uids sb' = uids sb @ [i] \<and>
      BitmessageByUID (store_deps L P impl B C) w' lb' k = Ret (lb', None) \<and>
      BitmessageByUID (store_deps L P impl B C) w' sb' i = Ret (sb', Some b2) \<and>
      From b2 = From b' \<and> To b2 = To b' \<and> Payload b2 = Payload b' \<and> State b2 = Some (st\<lparr>LastSend := (LastSend st)\<lparr>t_nsec := 0\<rparr>\<rparr>))"
proof
  show "\<forall>h. acks u h = None \<longrightarrow> DeliverAckReply E w u h = Ret (w, u, Some ErrUnrecognizedAck)"
    by (simp add: DeliverAckReply_refuses)
qed (rule DeliverAckReply_moves [OF assms])

text \<open>
  C26.  A user made by \<open>NewUser\<close> cannot send: as soon as the public key of the recipient is known, sending a message from one of
  the user's addresses makes the program panic, whatever expiration function and proof-of-work manager \<open>NewUser\<close> was given.
\<close>

theorem NewUser_cannot_send:
  assumes "NewUser E FS w0 f name ks ex p srv = Ret (w1, f1, Inr u)"
    and "boxes u OutboxFolderName = Some box" "getObject box m = None"
    and "ToBm (mlib (ubox E)) (ubm E) (From m) = Inr a" "km_Get (ukeys E) ks a = Some k" "Private k = Some q"
    and "so_GetOrRequestPublicID (userver E) w srv (To m) = Ret (w2, s2, Inr pub)" "To m \<noteq> ''broadcast@bm.agent''"
  shows "process E w u m = Panic"
proof -
  obtain bs where u: "u = \<lparr>mu_username = name, boxes = bs, acks = Map.empty, expiration = None, mu_keys = ks, pm = None, server = srv\<rparr>"
    using NewUser_fields [OF assms(1)] by blast
  have u': "expiration u = None" "mu_keys u = ks" "server u = srv" by (simp_all add: u)
  show ?thesis
    using assms(5,7) by (intro process_panics [OF u'(1) assms(2,3,4) _ assms(6) _ assms(8)]) (simp_all add: u')
qed

section \<open>Witnesses\<close>

lemma quiet_ref_server:
  "quiet_request ref_bolt ref_crypto ref_server s ''BM-2cU@bm.addr'' (Inl ErrGetPubKeySent)" "quiet_send ref_bolt ref_crypto ref_server"
  by (simp_all add: quiet_request_def quiet_send_def ref_server_def same_folders_def)

lemma bob_small: "seq_small []" "seq_small [1]" "seq_small [1, 2]" "seq_small [1, 3, 4]" "seq_small [1, 4]" "seq_small [1, 3, 4, 5]"
  by (simp_all add: seq_small_def)

theorem smtp_message_waits_witness:
  "\<exists>w' u' ob' b s. DeliverFromSMTP bob_udeps bob_world bob bob_smtp = Ret (w', u', None) \<and> boxes u' ''Outbox'' = Some ob' \<and>
    uids ob' = [1, 2] \<and> BitmessageByUID bob_deps w' ob' 2 = Ret (ob', Some b) \<and> To b = ''BM-2cU@bm.addr'' \<and>
    State b = Some s \<and> PubkeyRequestOutstanding s"
proof -
  have c: "\<not> CommandRegex ''BM-2cU@bm.addr''" by (simp add: CommandRegex_def at_domain_def)
  have o: "OutboxFolderName = ''Outbox''" "FlagSeen ref_mail = 1" by (simp_all add: OutboxFolderName_def ref_mail_def)
  show ?thesis
    using smtp_message_waits [of bob_udeps ref_mail bob_codec "\<lambda>_. 0" ref_bolt ref_crypto bob "bob_box ''Outbox'' 2" bob_world 2 bob_smtp
        bob_mail new_state "''BM-2cT''" "demo_id ''BM-2cT'' False ''me''"
        "((''BM-2cT'', ''s'', ''d''), 1, \<lparr>NonceTrialsPerByte = 1000, ExtraBytes = 1000\<rparr>)"]
    by (auto simp: o c bob_boxes_ok bob_next bob_small bob_smtp_mail bob_sender quiet_ref_server bob_mail_storable demo_id_def)
qed

text \<open>The message in the outbox of \<open>bob\<close> as it is after its proof of work.\<close>

definition out_mail :: Bmail where
  "out_mail = limbo_mail\<lparr>Imap := Some \<lparr>UID = 1, SequenceNumber = 1, Flags = 1, TimeReceived = zero_time, Mailbox = Some ''Outbox''\<rparr>\<rparr>"

lemma out_mail_storable: "\<exists>enc. storable store_fits bob_deps out_mail enc"
proof -
  let ?p = "prepared_at zero_time ((bob_box ''Outbox'' 2)\<lparr>uids := []\<rparr>) (limbo_mail\<lparr>Imap := None\<rparr>) 1"
  let ?d = "\<lparr>UID = 0, SequenceNumber = 1, Flags = 1, TimeReceived = zero_time, Mailbox = Some ''Outbox''\<rparr>"
  have d: "Imap ?p = Some ?d" and e: "out_mail = ?p\<lparr>Imap := Some (?d\<lparr>UID := 1\<rparr>)\<rparr>"
    by (simp_all add: prepared_at_def out_mail_def limbo_mail_def Mailbox.messages_def)
  obtain enc where "storable store_fits bob_deps ?p enc"
    using limbo_storable [of "(bob_box ''Outbox'' 2)\<lparr>uids := []\<rparr>"] by (auto simp: storable_at_def zero_time_def)
  from storable_uid [OF this d] show ?thesis unfolding e by blast
qed

theorem completed_message_moves_witness:
  "\<exists>w' u' ob' lb' b. send_done bob_udeps bob_world bob out_mail ''object'' = Ret (w', u', None) \<and> server u' = [''object''] \<and>
    boxes u' ''Outbox'' = Some ob' \<and> uids ob' = [] \<and> boxes u' ''Limbo'' = Some lb' \<and> uids lb' = [1, 3, 4, 5] \<and>
    BitmessageByUID bob_deps w' lb' 5 = Ret (lb', Some b) \<and> To b = ''BM-2cU@bm.addr'' \<and> map_option SendTries (State b) = Some 1"
proof -
  let ?st = "new_state\<lparr>SendTries := 1, AckExpected := True\<rparr>"
  let ?d = "\<lparr>UID = 1, SequenceNumber = 1, Flags = 1, TimeReceived = zero_time, Mailbox = Some ''Outbox''\<rparr>"
  have n: "OutboxFolderName = ''Outbox''" "next_box ?st = ''Limbo''" "FlagSeen ref_mail = 1"
    by (simp_all add: folder_names next_box_def ref_mail_def)
  obtain enc where enc: "storable store_fits bob_deps out_mail enc" using out_mail_storable by blast
  have m: "Imap out_mail = Some ?d" "State out_mail = Some ?st" "To out_mail = ''BM-2cU@bm.addr''"
    by (simp_all add: out_mail_def limbo_mail_def)
  have "(stored out_mail)\<lparr>Imap := None\<rparr> = limbo_mail\<lparr>Imap := None\<rparr>"
    by (simp add: stored_def out_mail_def limbo_mail_def new_state_def zero_time_def nil_if_empty_def)
  then have st: "storable_at store_fits bob_deps (clock bob_world) (bob_box ''Limbo'' 5) ((stored out_mail)\<lparr>Imap := None\<rparr>) (FlagSeen ref_mail)"
    using limbo_storable n(3) by simp
  obtain w1 w2 s w' ob' lb' b where r: "so_Send (userver bob_udeps) w1 (server bob) ''object'' = Ret (w2, s)"
    "send_done bob_udeps bob_world bob out_mail ''object'' = Ret (w', bob\<lparr>server := s, boxes := (boxes bob)(''Outbox'' \<mapsto> ob', ''Limbo'' \<mapsto> lb')\<rparr>, None)"
    "uids ob' = []" "uids lb' = [1, 3, 4, 5]" "BitmessageByUID bob_deps w' lb' 5 = Ret (lb', Some b)" "To b = ''BM-2cU@bm.addr''"
    "State b = Some (?st\<lparr>LastSend := (LastSend ?st)\<lparr>t_nsec := 0\<rparr>\<rparr>)"
    using completed_message_moves [of bob_udeps ref_mail bob_codec "\<lambda>_. 0" ref_bolt ref_crypto bob "bob_box ''Outbox'' 2" ?st "bob_box ''Limbo'' 5"
        bob_world ?d 5 out_mail enc "''object''"] st enc
    by (auto simp: n m quiet_ref_server bob_apart bob_boxes_ok bob_next bob_small)
  have "s = [''object'']" using r(1) by (simp add: ref_server_def)
  with r(2-7) show ?thesis by simp
qed

theorem ack_moves_to_Sent_witness:
  "DeliverAckReply bob_udeps bob_world bob ''x'' = Ret (bob_world, bob, Some ErrUnrecognizedAck) \<and>
   (\<exists>w' u' lb' sb' b. DeliverAckReply bob_udeps bob_world bob ''h'' = Ret (w', u', None) \<and> boxes u' ''Limbo'' = Some lb' \<and> uids lb' = [1, 4] \<and>
      boxes u' ''Sent'' = Some sb' \<and> uids sb' = [1] \<and> BitmessageByUID bob_deps w' sb' 1 = Ret (sb', Some b) \<and>
      map_option AckReceived (State b) = Some False)"
proof -
  let ?st = "new_state\<lparr>SendTries := 1, AckExpected := True\<rparr>"
  have n: "LimboFolderName = ''Limbo''" "SentFolderName = ''Sent''" "FlagSeen ref_mail = 1" by (simp_all add: folder_names ref_mail_def)
  have s: "State limbo_mail = Some ?st" by (simp add: limbo_mail_def)
  have x: "acks bob ''x'' = None" by (simp add: bob_def)
  note A = ack_moves_to_Sent [of bob_udeps ref_mail bob_codec "\<lambda>_. 0" ref_bolt ref_crypto bob "bob_box ''Limbo'' 5" "bob_box ''Sent'' 1" bob_world 3 1
    "''h''" limbo_mail ?st]
  have h: "(\<forall>h. acks bob h = None \<longrightarrow> DeliverAckReply bob_udeps bob_world bob h = Ret (bob_world, bob, Some ErrUnrecognizedAck)) \<and>
    (\<exists>w' lb' sb' b2. DeliverAckReply bob_udeps bob_world bob ''h'' = Ret (w', bob\<lparr>boxes := (boxes bob)(''Limbo'' \<mapsto> lb', ''Sent'' \<mapsto> sb')\<rparr>, None) \<and>
      uids lb' = [1, 4] \<and> uids sb' = [1] \<and> BitmessageByUID bob_deps w' sb' 1 = Ret (sb', Some b2) \<and>
      State b2 = Some (?st\<lparr>LastSend := (LastSend ?st)\<lparr>t_nsec := 0\<rparr>\<rparr>))"
    using A limbo_storable by (auto simp: n s bob_apart bob_boxes_ok bob_next bob_small limbo_fetch)
  then obtain w' lb' sb' b2 where r: "DeliverAckReply bob_udeps bob_world bob ''h'' = Ret (w', bob\<lparr>boxes := (boxes bob)(''Limbo'' \<mapsto> lb', ''Sent'' \<mapsto> sb')\<rparr>, None)"
      "uids lb' = [1, 4]" "uids sb' = [1]" "BitmessageByUID bob_deps w' sb' 1 = Ret (sb', Some b2)"
      "State b2 = Some (?st\<lparr>LastSend := (LastSend ?st)\<lparr>t_nsec := 0\<rparr>\<rparr>)" by blast
  have "DeliverAckReply bob_udeps bob_world bob ''x'' = Ret (bob_world, bob, Some ErrUnrecognizedAck)" using h x by blast
  with r show ?thesis by (simp add: new_state_def)
qed

theorem NewUser_cannot_send_witness:
  "\<exists>w' fo' u. NewUser bob_udeps (store_Folders ref_bolt) bob_world bob_folders ''bob'' bob_keys (Some (\<lambda>_. 0)) (Some (Pow_Queue.New :: nat Pow)) [] = Ret (w', fo', Inr u) \<and>
    process bob_udeps bob_world u (bob_mail\<lparr>To := ''BM-2cV@bm.addr''\<rparr>) = Panic"
proof -
  let ?m = "bob_mail\<lparr>To := ''BM-2cV@bm.addr''\<rparr>" and ?q = "((''BM-2cT'', ''s'', ''d''), 1, \<lparr>NonceTrialsPerByte = 1000, ExtraBytes = 1000\<rparr>) :: ref_id"
  have f: "finite (dom (fo_map bob_folders))" "dom (fo_map bob_folders) = {''Limbo'', ''Outbox'', ''Sent''}" by (auto simp: bob_folders_def)
  have r: "fo_readable bob_deps ref_bolt ref_crypto bob_world bob_folders" by (simp add: fo_readable_def bob_readable)
  obtain w' fo' u where u: "NewUser bob_udeps (store_Folders ref_bolt) bob_world bob_folders ''bob'' bob_keys (Some (\<lambda>_. 0)) (Some (Pow_Queue.New :: nat Pow)) [] = Ret (w', fo', Inr u)"
    "dom (boxes u) = dom (fo_map bob_folders)"
    "\<forall>n box. boxes u n = Some box \<longrightarrow> opened_box ref_mail bob_codec (\<lambda>_. 0) ref_bolt ref_crypto w' bob_folders n box"
    using NewUser_mailboxes [OF bob_udeps_simps(1) bob_fo_inv ref_flags_ok r f(1), of "''bob''" bob_keys "Some (\<lambda>_. 0)" "Some (Pow_Queue.New :: nat Pow)" "[]"] by blast
  have "OutboxFolderName \<in> dom (boxes u)" by (simp only: u(2) f(2)) (simp add: folder_names)
  then obtain box where b: "boxes u OutboxFolderName = Some box" unfolding domIff by (cases "boxes u OutboxFolderName") simp_all
  then have "objects box = None" using u(3) unfolding opened_box_def by blast
  then have g: "getObject box ?m = None" by (rule objects_None_getObject)
  have k: "ToBm (mlib (ubox bob_udeps)) (ubm bob_udeps) (From ?m) = Inr ''BM-2cT''"
    "km_Get (ukeys bob_udeps) bob_keys ''BM-2cT'' = Some (demo_id ''BM-2cT'' False ''me'')"
    "Private (demo_id ''BM-2cT'' False ''me'') = Some ?q"
    using bob_sender by (simp_all add: store_deps_def demo_id_def)
  have s: "so_GetOrRequestPublicID (userver bob_udeps) bob_world [] (To ?m) = Ret (bob_world, [], Inr (PublicID_of ''BM-2cV@bm.addr''))"
    "To ?m \<noteq> ''broadcast@bm.agent''"
    by (simp_all add: ref_server_def)
  from NewUser_cannot_send [OF u(1) b g k s] u(1) show ?thesis by blast
qed

end
