(* ===== verification/Mail_Server_Correct.thy ===== *)
theory Mail_Server_Correct
  imports User_Sending
begin

text \<open>
  Authentication of SMTP clients, and the addresses of a user as the commands \<open>newaddress\<close> and \<open>listaddresses\<close> show them.
\<close>

section \<open>Base64\<close>

text \<open>\<open>base64.StdEncoding.EncodeToString\<close>, which a client uses.\<close>

definition b64_char :: "nat \<Rightarrow> char" where
  "b64_char n = b64_chars ! n"

fun b64_Encode :: "bytes \<Rightarrow> string" where
  "b64_Encode [] = []"
| "b64_Encode [x] = [b64_char (of_char x div 4), b64_char (of_char x mod 4 * 16), CHR ''='', CHR ''='']"
| "b64_Encode [x, y] = [b64_char (of_char x div 4), b64_char (of_char x mod 4 * 16 + of_char y div 16), b64_char (of_char y mod 16 * 4), CHR ''='']"
| "b64_Encode (x # y # z # s) =
     b64_char (of_char x div 4) # b64_char (of_char x mod 4 * 16 + of_char y div 16) #
     b64_char (of_char y mod 16 * 4 + of_char z div 64) # b64_char (of_char z mod 64) # b64_Encode s"

lemma index_of_nth: "distinct xs \<Longrightarrow> i < length xs \<Longrightarrow> index_of (xs ! i) xs = Some i"
proof (induction xs arbitrary: i)
  case (Cons x xs)
  then show ?case by (cases i) (auto simp: nth_eq_iff_index_eq)
qed simp

lemma b64_chars_facts: "length b64_chars = 64" "distinct b64_chars" "CHR ''='' \<notin> set b64_chars" "CHR 0x0A \<notin> set b64_chars" "CHR 0x0D \<notin> set b64_chars"
  by (simp_all add: b64_chars_def)

lemma b64_char_facts:
  assumes "n < 64"
  shows "b64_val (b64_char n) = Some n" "b64_char n \<noteq> CHR ''=''" "b64_char n \<noteq> CHR 0x0A" "b64_char n \<noteq> CHR 0x0D"
proof -
  have "b64_char n \<in> set b64_chars" using assms b64_chars_facts(1) by (simp add: b64_char_def)
  then show "b64_char n \<noteq> CHR ''=''" "b64_char n \<noteq> CHR 0x0A" "b64_char n \<noteq> CHR 0x0D" using b64_chars_facts(3-5) by metis+
  show "b64_val (b64_char n) = Some n"
    using assms index_of_nth [of b64_chars n] b64_chars_facts(1,2) by (simp add: b64_val_def b64_char_def)
qed

lemma b64_bounds:
  fixes x y z :: nat
  assumes "x < 256" "y < 256" "z < 256"
  shows "x div 4 < 64" "x mod 4 * 16 < 64" "x mod 4 * 16 + y div 16 < 64" "y mod 16 * 4 < 64" "y mod 16 * 4 + z div 64 < 64" "z mod 64 < 64"
    "x div 4 * 4 + (x mod 4 * 16 + y div 16) div 16 = x"
    "x div 4 * 4 + x mod 4 = x"
    "(x mod 4 * 16 + y div 16) mod 16 * 16 + (y mod 16 * 4 + z div 64) div 4 = y"
    "(x mod 4 * 16 + y div 16) mod 16 * 16 + y mod 16 = y"
    "(y mod 16 * 4 + z div 64) mod 4 * 64 + z mod 64 = z"
proof -
  have b: "y div 16 < 16" "z div 64 < 4" using assms by simp_all
  show "x div 4 < 64" "x mod 4 * 16 < 64" "x mod 4 * 16 + y div 16 < 64" "y mod 16 * 4 < 64" "y mod 16 * 4 + z div 64 < 64" "z mod 64 < 64"
    using assms by linarith+
  show "x div 4 * 4 + (x mod 4 * 16 + y div 16) div 16 = x" "x div 4 * 4 + x mod 4 = x"
    "(x mod 4 * 16 + y div 16) mod 16 * 16 + (y mod 16 * 4 + z div 64) div 4 = y"
    "(x mod 4 * 16 + y div 16) mod 16 * 16 + y mod 16 = y" "(y mod 16 * 4 + z div 64) mod 4 * 64 + z mod 64 = z"
    using b by simp_all
qed

lemma b64_quanta_Encode: "b64_quanta (b64_Encode bs) = Some bs"
proof (induction bs rule: b64_Encode.induct)
  case (2 x)
  have "(of_char x :: nat) < 256" by simp
  note b = b64_bounds [OF this this this]
  then show ?case by (simp add: b64_char_facts)
next
  case (3 x y)
  have "(of_char x :: nat) < 256" "(of_char y :: nat) < 256" by simp_all
  note b = b64_bounds [OF this this(2)]
  then show ?case by (simp add: b64_char_facts)
next
  case (4 x y z s)
  have "(of_char x :: nat) < 256" "(of_char y :: nat) < 256" "(of_char z :: nat) < 256" by simp_all
  note b = b64_bounds [OF this]
  then show ?case using 4 by (simp add: b64_char_facts)
qed simp

lemma b64_Encode_lines: "c \<in> set (b64_Encode bs) \<Longrightarrow> c \<noteq> CHR 0x0A \<and> c \<noteq> CHR 0x0D"
proof (induction bs rule: b64_Encode.induct)
  case (2 x)
  have "(of_char x :: nat) < 256" by simp
  note b = b64_bounds [OF this this this]
  from 2 b(1-6) show ?case by (auto simp: b64_char_facts)
next
  case (3 x y)
  have "(of_char x :: nat) < 256" "(of_char y :: nat) < 256" by simp_all
  note b = b64_bounds [OF this this(2)]
  from 3 b(1-6) show ?case by (auto simp: b64_char_facts)
next
  case (4 x y z s)
  have "(of_char x :: nat) < 256" "(of_char y :: nat) < 256" "(of_char z :: nat) < 256" by simp_all
  note b = b64_bounds [OF this]
  from 4 b(1-6) show ?case by (auto simp: b64_char_facts)
qed simp

lemma b64_Decode_Encode: "b64_DecodeString (b64_Encode bs) = Some bs"
proof -
  have "filter (\<lambda>c. c \<noteq> CHR 0x0A \<and> c \<noteq> CHR 0x0D) (b64_Encode bs) = b64_Encode bs"
    using b64_Encode_lines by (intro filter_True) blast
  then show ?thesis by (simp add: b64_DecodeString_def b64_quanta_Encode)
qed

section \<open>The response of PLAIN authentication\<close>

text \<open>\<open>split0\<close> cuts at every zero byte: its results have none and are separated by one.\<close>

lemma split0_nonempty: "split0 s \<noteq> []"
  by (induction s) (auto split: list.split)

lemma split0_clean: "x \<in> set (split0 s) \<Longrightarrow> CHR 0x00 \<notin> set x"
proof (induction s arbitrary: x)
  case (Cons c s)
  then show ?case using split0_nonempty [of s] by (auto split: list.splits if_splits)
qed simp

lemma split0_append: "CHR 0x00 \<notin> set x \<Longrightarrow> split0 (x @ CHR 0x00 # s) = x # split0 s"
  by (induction x) auto

lemma split0_none: "CHR 0x00 \<notin> set x \<Longrightarrow> split0 x = [x]"
  by (induction x) auto

lemma split0_concat: "s = concat (map (\<lambda>x. x @ [CHR 0x00]) (butlast (split0 s))) @ last (split0 s)"
proof (induction s)
  case (Cons c s)
  then show ?case using split0_nonempty [of s] by (cases "split0 s") auto
qed simp

lemma split0_three:
  "split0 b = [z, u, p] \<longleftrightarrow> b = z @ CHR 0x00 # u @ CHR 0x00 # p \<and> CHR 0x00 \<notin> set z \<and> CHR 0x00 \<notin> set u \<and> CHR 0x00 \<notin> set p"
proof
  assume s: "split0 b = [z, u, p]"
  then have "CHR 0x00 \<notin> set z" "CHR 0x00 \<notin> set u" "CHR 0x00 \<notin> set p" using split0_clean [of _ b] by auto
  moreover have "b = z @ CHR 0x00 # u @ CHR 0x00 # p" using split0_concat [of b] s by simp
  ultimately show "b = z @ CHR 0x00 # u @ CHR 0x00 # p \<and> CHR 0x00 \<notin> set z \<and> CHR 0x00 \<notin> set u \<and> CHR 0x00 \<notin> set p" by simp
qed (simp add: split0_append split0_none)

text \<open>
  C29.  \<open>validateAuth\<close> accepts a client exactly when the mechanism is PLAIN and the first argument is the base64 form of an
  authorization identity, the configured user name and the configured password, separated by zero bytes; so a name or a
  password that contains a zero byte locks everyone out.  A client that sends the encoded credentials is accepted, and one that
  sends no argument makes the server panic.
\<close>

theorem validateAuth_credentials:
  "((\<exists>r. validateAuth c mechanism args = Ret (r, True)) \<longleftrightarrow> mechanism = ''PLAIN'' \<and>
     (\<exists>arg rest z. args = arg # rest \<and> CHR 0x00 \<notin> set z \<union> set (cfg_Username c) \<union> set (cfg_Password c) \<and>
        b64_DecodeString arg = Some (z @ CHR 0x00 # cfg_Username c @ CHR 0x00 # cfg_Password c))) \<and>
   (CHR 0x00 \<notin> set (cfg_Username c) \<union> set (cfg_Password c) \<longrightarrow>
     validateAuth c ''PLAIN'' [b64_Encode (CHR 0x00 # cfg_Username c @ CHR 0x00 # cfg_Password c)] = Ret (ReplyAuthOk, True)) \<and>
   validateAuth c ''PLAIN'' [] = Panic"
proof (intro conjI impI)
  have three: "length s = 3 \<and> s ! 1 = u \<and> s ! 2 = p \<longleftrightarrow> (\<exists>z. s = [z, u, p])" for s :: "bytes list" and u p
    by (auto simp: length_Suc_conv numeral_3_eq_3 numeral_2_eq_2)
  have "(\<exists>r. validateAuth c mechanism args = Ret (r, True)) \<longleftrightarrow> mechanism = ''PLAIN'' \<and>
      (\<exists>arg rest b. args = arg # rest \<and> b64_DecodeString arg = Some b \<and>
        (length (split0 b) = 3 \<and> split0 b ! 1 = cfg_Username c \<and> split0 b ! 2 = cfg_Password c))"
    by (auto simp: validateAuth_def Let_def split: list.splits option.splits)
  also have "\<dots> \<longleftrightarrow> mechanism = ''PLAIN'' \<and>
     (\<exists>arg rest z. args = arg # rest \<and> CHR 0x00 \<notin> set z \<union> set (cfg_Username c) \<union> set (cfg_Password c) \<and>
        b64_DecodeString arg = Some (z @ CHR 0x00 # cfg_Username c @ CHR 0x00 # cfg_Password c))"
    unfolding three split0_three by auto
  finally show "(\<exists>r. validateAuth c mechanism args = Ret (r, True)) \<longleftrightarrow> mechanism = ''PLAIN'' \<and>
     (\<exists>arg rest z. args = arg # rest \<and> CHR 0x00 \<notin> set z \<union> set (cfg_Username c) \<union> set (cfg_Password c) \<and>
        b64_DecodeString arg = Some (z @ CHR 0x00 # cfg_Username c @ CHR 0x00 # cfg_Password c))" .
  assume "CHR 0x00 \<notin> set (cfg_Username c) \<union> set (cfg_Password c)"
  then have "split0 ([] @ CHR 0x00 # cfg_Username c @ CHR 0x00 # cfg_Password c) = [[], cfg_Username c, cfg_Password c]"
    unfolding split0_three by simp
  then show "validateAuth c ''PLAIN'' [b64_Encode (CHR 0x00 # cfg_Username c @ CHR 0x00 # cfg_Password c)] = Ret (ReplyAuthOk, True)"
    by (simp add: validateAuth_def b64_Decode_Encode numeral_2_eq_2)
qed (simp add: validateAuth_def)

theorem validateAuth_credentials_witness:
  "validateAuth \<lparr>cfg_Username = ''bob'', cfg_Password = ''pw''\<rparr> ''PLAIN'' [b64_Encode (CHR 0x00 # ''bob'' @ CHR 0x00 # ''pw'')] =
     Ret (ReplyAuthOk, True)"
  using validateAuth_credentials [of "\<lparr>cfg_Username = ''bob'', cfg_Password = ''pw''\<rparr>" "''PLAIN''" "[]"] by simp

section \<open>Addresses\<close>

text \<open>What the commands rely on in a key manager.\<close>

locale key_manager =
  fixes K :: "('m, 'p) Keys_Manager" and ok :: "'m \<Rightarrow> bool"
  assumes names_dom: "dom (km_Names K k) = dom (km_Get K k)"
    and get_finite: "ok k \<Longrightarrow> finite (dom (km_Get K k))"
    and get_private: "ok k \<Longrightarrow> km_Get K k a = Some p \<Longrightarrow> Private p \<noteq> None"
    and new_law: "ok k \<Longrightarrow> km_NewUnnamed K k s b = Ret (k', p) \<Longrightarrow> ok k' \<and> Name p = '''' \<and> (\<exists>a. km_Get K k' = (km_Get K k)(a \<mapsto> p))"

definition public_of :: "('o, 'p, 'q, 't) netlib \<Rightarrow> 'p PrivateID \<Rightarrow> 'q PublicID" where
  "public_of N p = \<lparr>ID = PublicID_of (id_Public N (the (Private p))), Label = Name p\<rparr>"

lemma PrivateIDToPublicID_eq: "Private p \<noteq> None \<Longrightarrow> PrivateIDToPublicID N p = Ret (public_of N p)"
  by (auto simp: PrivateIDToPublicID_def public_of_def)

context key_manager
begin

lemma list_ids_all:
  assumes "ok k" "set as \<subseteq> dom (km_Get K k)"
  shows "list_ids N (km_Get K k) as = Ret (map (\<lambda>a. public_of N (the (km_Get K k a))) as)"
  using assms(2)
proof (induction as)
  case (Cons a as)
  then obtain p where p: "km_Get K k a = Some p" by auto
  with Cons show ?case using get_private [OF assms(1) p] by (auto simp: PrivateIDToPublicID_eq)
qed simp

lemma ListAddresses_all:
  assumes "ukeys E = K" "ok (mu_keys u)" "env_ok w"
  shows "\<exists>w' xs. ListAddresses E w u = Ret (w', xs) \<and> set xs = public_of (unet E) ` ran (km_Get K (mu_keys u)) \<and>
    length xs = card (dom (km_Get K (mu_keys u)))"
proof -
  let ?g = "km_Get K (mu_keys u)"
  let ?as = "name_order w (tick w) (dom ?g)"
  have as: "set ?as = dom ?g" "distinct ?as" using assms(3) get_finite [OF assms(2)] by (simp_all add: env_ok_def)
  have r: "ran ?g = (\<lambda>a. the (?g a)) ` dom ?g" by (force simp: ran_def dom_def)
  have "ListAddresses E w u = Ret (w\<lparr>tick := Suc (tick w)\<rparr>, map (\<lambda>a. public_of (unet E) (the (?g a))) ?as)"
    using list_ids_all [OF assms(2), of ?as "unet E"] as(1)
    by (simp add: ListAddresses_def assms(1) names_dom range_names_def)
  moreover have "length ?as = card (dom ?g)" using as by (metis distinct_card)
  ultimately show ?thesis using as(1) by (auto simp: r image_image)
qed

lemma NewAddress_added:
  assumes "ukeys E = K" "ok (mu_keys u)" "user_NewAddress E u tag ack = Ret (u', a)"
  shows "\<exists>k' p x. u' = u\<lparr>mu_keys := k'\<rparr> \<and> ok k' \<and> a = public_of (unet E) p \<and> Label a = '''' \<and> km_Get K k' = (km_Get K (mu_keys u))(x \<mapsto> p)"
proof -
  let ?b = "if ack then BehaviorAck (unet E) else 0"
  obtain k' p where n: "km_NewUnnamed K (mu_keys u) (DefaultStream (unet E)) ?b = Ret (k', p)"
      and r: "go_bind (PrivateIDToPublicID (unet E) p) (\<lambda>a. Ret (u\<lparr>mu_keys := k'\<rparr>, a)) = Ret (u', a)"
    using assms(1,3) by (auto simp: user_NewAddress_def go_bind_Ret_conv split: if_splits)
  obtain x where k: "ok k'" "Name p = ''''" "km_Get K k' = (km_Get K (mu_keys u))(x \<mapsto> p)" using new_law [OF assms(2) n] by blast
  have "Private p \<noteq> None" using get_private [OF k(1), of x p] by (simp add: k(3))
  with r have a: "a = public_of (unet E) p" "u' = u\<lparr>mu_keys := k'\<rparr>" by (simp_all add: PrivateIDToPublicID_eq)
  have "Label a = ''''" by (simp add: a(1) public_of_def k(2))
  with a k show ?thesis by blast
qed

end

definition keys_usable :: "('k, 'p) Manager \<Rightarrow> bool" where
  "keys_usable mgr \<longleftrightarrow> finite (dom (ids_map mgr)) \<and> (\<forall>a p. ids_map mgr a = Some p \<longrightarrow> Private p \<noteq> None)"

interpretation km: key_manager "idmgr_Keys I" keys_usable for I :: "('k, 'a, 'b, 'p) identity"
proof unfold_locales
  fix k :: "('k, 'p) Manager" and s b k' p
  assume k: "keys_usable k" "km_NewUnnamed (idmgr_Keys I) k s b = Ret (k', p)"
  then have n: "mgr_New I k '''' s b = Ret (k', p)" by (simp add: idmgr_Keys_def NewUnnamed_def)
  from mgr_New_ids [OF n] obtain a m where m: "IDs (mdb k) = Some m" "ids_map k' = m(a \<mapsto> p)" "Name p = ''''" by blast
  have "Private p \<noteq> None" using n by (auto simp: mgr_New_def Let_def go_bind_Ret_conv split: option.splits)
  moreover have e: "ids_map k' = (ids_map k)(a \<mapsto> p)" using m(2) ids_map_Some [OF m(1)] by simp
  ultimately have "keys_usable k'" using k(1) by (auto simp: keys_usable_def)
  moreover have "km_Get (idmgr_Keys I) k' = (km_Get (idmgr_Keys I) k)(a \<mapsto> p)" by (simp add: idmgr_Keys_def mgr_Get_def e fun_eq_iff)
  ultimately show "keys_usable k' \<and> Name p = '''' \<and> (\<exists>a. km_Get (idmgr_Keys I) k' = (km_Get (idmgr_Keys I) k)(a \<mapsto> p))"
    using m(3) by blast
qed (auto simp: idmgr_Keys_def Names_def mgr_Get_def keys_usable_def dom_def)

text \<open>
  After \<open>newaddress\<close> the command \<open>listaddresses\<close> shows the new address, without a label whatever label was given, and all
  the addresses the user had before, except one that the new key replaces.
\<close>

theorem NewAddress_listed:
  assumes "ukeys E = idmgr_Keys I" "keys_usable (mu_keys u)" "env_ok w" "user_NewAddress E u tag ack = Ret (u', a)"
  shows "\<exists>w' xs x. ListAddresses E w u' = Ret (w', xs) \<and> a \<in> set xs \<and> Label a = '''' \<and> length xs = mgr_Size (mu_keys u') \<and>
    dom (ids_map (mu_keys u')) = insert x (dom (ids_map (mu_keys u))) \<and>
    (\<forall>y p. y \<noteq> x \<longrightarrow> ids_map (mu_keys u) y = Some p \<longrightarrow> public_of (unet E) p \<in> set xs)"
proof -
  obtain k' p x where n: "u' = u\<lparr>mu_keys := k'\<rparr>" "keys_usable k'" "a = public_of (unet E) p" "Label a = ''''"
      "km_Get (idmgr_Keys I) k' = (km_Get (idmgr_Keys I) (mu_keys u))(x \<mapsto> p)"
    using km.NewAddress_added [OF assms(1,2,4)] by blast
  have g: "ids_map k' = (ids_map (mu_keys u))(x \<mapsto> p)" "km_Get (idmgr_Keys I) k' = ids_map k'"
    using n(5) by (simp_all add: idmgr_Keys_def mgr_Get_def fun_eq_iff)
  have u: "mu_keys u' = k'" using n(1) by simp
  then have "keys_usable (mu_keys u')" using n(2) by simp
  from km.ListAddresses_all [OF assms(1) this assms(3)] obtain w' xs where
    xs: "ListAddresses E w u' = Ret (w', xs)" "set xs = public_of (unet E) ` ran (ids_map k')" "length xs = card (dom (ids_map k'))"
    unfolding u g(2) by blast
  have "p \<in> ran (ids_map k')" unfolding g(1) by (auto simp: ran_def)
  moreover have "q \<in> ran (ids_map k')" if "y \<noteq> x" "ids_map (mu_keys u) y = Some q" for y q
    using that unfolding g(1) by (auto simp: ran_def)
  moreover have "dom (ids_map k') = insert x (dom (ids_map (mu_keys u)))" unfolding g(1) by auto
  ultimately show ?thesis using xs n(3,4) by (auto simp: u mgr_Size_def)
qed

theorem NewAddress_listed_witness:
  "\<exists>u' a w' xs. user_NewAddress bob_udeps bob ''label'' True = Ret (u', a) \<and> ListAddresses bob_udeps bob_world u' = Ret (w', xs) \<and> a \<in> set xs"
proof -
  have k: "keys_usable (mu_keys bob)" by (auto simp: keys_usable_def bob_keys_def ids_map_def demo_id_def split: if_splits)
  have e: "env_ok bob_world" using ref_world_ok [of bob_db] by (simp add: world_ok_def)
  have d: "derive_loop ref_identity ''xprv'' 0 1 0 = Some (''xprv'' @ fmt_d 0, 1)"
    by (subst derive_loop.simps) (simp add: ref_identity_def)
  have "\<exists>u' a. user_NewAddress bob_udeps bob ''label'' True = Ret (u', a)"
    by (simp add: user_NewAddress_def idmgr_Keys_def NewUnnamed_def mgr_New_def bob_keys_def d ref_net_def address_String_def pid_Address_def
        Let_def PrivateIDToPublicID_def) (simp add: ref_identity_def PrivateIDToPublicID_def)
  then obtain u' a where n: "user_NewAddress bob_udeps bob ''label'' True = Ret (u', a)" by blast
  from NewAddress_listed [OF bob_udeps_simps(4) k e n] obtain w' xs where
    "ListAddresses bob_udeps bob_world u' = Ret (w', xs)" "a \<in> set xs" by blast
  with n show ?thesis by (intro exI [of _ u'] exI [of _ a] exI [of _ w'] exI [of _ xs]) simp
qed

end
