(* ===== verification/Configuration_Correct.thy ===== *)
theory Configuration_Correct
  imports Configuration
begin

text \<open>
  What the configuration promises: the addresses it listens on and connects to are well formed, without duplicates and
  restricted to the local machine when TLS is off, and the debug levels are those that were asked for.
\<close>

section \<open>Duplicates\<close>

lemma remove_seen_remdups:
  "set seen = set result \<Longrightarrow>
    remove_seen result seen vs = result @ rev (remdups (rev (filter (\<lambda>v. v \<notin> set result) vs)))"
proof (induction vs arbitrary: result seen)
  case (Cons v vs)
  show ?case
  proof (cases "v \<in> set result")
    case True
    with Cons show ?thesis by simp
  next
    case False
    have f: "filter (\<lambda>x. x \<notin> set (result @ [v])) vs = filter (\<lambda>x. x \<noteq> v) (filter (\<lambda>x. x \<notin> set result) vs)"
      by (rule sym, subst filter_filter) (rule filter_cong [OF refl], auto)
    have r: "remdups (xs @ [v]) = remdups (filter (\<lambda>x. x \<noteq> v) xs) @ [v]" for xs :: "string list"
      by (induction xs) auto
    from Cons.IH [of "v # seen" "result @ [v]"] Cons.prems False show ?thesis
      by (simp add: f [simplified] r rev_filter del: remdups_filter)
  qed
qed simp

lemma removeDuplicateAddresses_remdups: "removeDuplicateAddresses xs = rev (remdups (rev xs))"
  by (simp add: removeDuplicateAddresses_def remove_seen_remdups)

lemma normalizeAddresses_set [simp]:
  "set (normalizeAddresses xs p) = (\<lambda>a. normalizeAddress a p) ` set xs"
  "distinct (normalizeAddresses xs p)"
  by (simp_all add: normalizeAddresses_def removeDuplicateAddresses_remdups)

section \<open>Addresses\<close>

lemma fmt_d_digit: "c \<in> set (fmt_d n) \<Longrightarrow> digit c \<noteq> None"
proof (induction n arbitrary: c rule: fmt_d.induct)
  case (1 n)
  have d: "digit (char_of (48 + n mod 10)) = Some (n mod 10)" by (rule digit_char) simp
  show ?case
  proof (cases "n < 10")
    case True
    with 1(2) d show ?thesis by (simp add: fmt_d.simps [of n])
  next
    case False
    with 1(2) have "c = char_of (48 + n mod 10) \<or> c \<in> set (fmt_d (n div 10))" by (simp add: fmt_d.simps [of n])
    with 1(1) [OF False] d show ?thesis by auto
  qed
qed

lemma fmt_d_port: "CHR '':'' \<notin> set (fmt_d n)" "no_brackets (fmt_d n)"
proof -
  have "digit CHR '':'' = None" "digit CHR ''['' = None" "digit CHR '']'' = None" by (simp_all add: digit_def less_eq_char_def)
  then show "CHR '':'' \<notin> set (fmt_d n)" "no_brackets (fmt_d n)" using fmt_d_digit by fastforce+
qed

lemma last_colon:
  assumes "h @ CHR '':'' # p = h' @ CHR '':'' # p'" "CHR '':'' \<notin> set p" "CHR '':'' \<notin> set p'"
  shows "h = h' \<and> p = p'"
proof -
  have "rev p = rev p'"
    using takeWhile_rev_last [OF assms(2), of h] takeWhile_rev_last [OF assms(3), of h'] assms(1) by metis
  with assms(1) show ?thesis by simp
qed

lemma SplitHostPort_Inr:
  "SplitHostPort s = Inr (h, p) \<longleftrightarrow> CHR '':'' \<notin> set p \<and> no_brackets h \<and> no_brackets p \<and>
    (s = h @ CHR '':'' # p \<and> CHR '':'' \<notin> set h \<or> s = CHR ''['' # h @ CHR '']'' # CHR '':'' # p)"
proof
  assume a: "SplitHostPort s = Inr (h, p)"
  then have c: "CHR '':'' \<in> set s" by (rule contrapos_pp) (simp add: SplitHostPort_def)
  from c obtain x q where s: "s = x @ CHR '':'' # q" and q: "CHR '':'' \<notin> set q" by (rule split_last)
  have port: "rev (takeWhile (\<lambda>c. c \<noteq> CHR '':'') (rev s)) = q" unfolding s using takeWhile_rev_last [OF q, of x] by simp
  have i: "length s - length q - 1 = length x" by (simp add: s)
  have d: "(if hd s = CHR ''['' then
      (if CHR '']'' \<notin> set s then Inl (AddrError s (''missing '' @ [CHR 0x27] @ '']'' @ [CHR 0x27] @ '' in address''))
       else let e = length (takeWhile (\<lambda>c. c \<noteq> CHR '']'') s)
         in if e + 1 = length s then Inl (AddrError s missingPort)
            else if e + 1 = length x then split_checked s 1 (e + 1) (drop 1 (take e s)) q
            else if s ! (e + 1) = CHR '':'' then Inl (AddrError s tooManyColons)
            else Inl (AddrError s missingPort))
     else if CHR '':'' \<in> set (take (length x) s) then Inl (AddrError s tooManyColons)
     else split_checked s 0 0 (take (length x) s) q) = Inr (h, p)"
    using a c by (simp only: SplitHostPort_def Let_def port i) simp
  show "CHR '':'' \<notin> set p \<and> no_brackets h \<and> no_brackets p \<and>
    (s = h @ CHR '':'' # p \<and> CHR '':'' \<notin> set h \<or> s = CHR ''['' # h @ CHR '']'' # CHR '':'' # p)"
  proof (cases "hd s = CHR ''[''")
    case False
    with d s q show ?thesis by (auto simp: split_checked_def split: if_splits)
  next
    case True
    with d have m: "CHR '']'' \<in> set s" by (auto split: if_splits)
    then obtain y r where y: "s = y @ CHR '']'' # r" "CHR '']'' \<notin> set y" by (metis split_list_first)
    have e: "takeWhile (\<lambda>c. c \<noteq> CHR '']'') s = y" unfolding y(1) by (rule takeWhile_upto [OF y(2)])
    from d True m have l: "Suc (length y) = length x" "split_checked s 1 (length y + 1) (drop 1 (take (length y) s)) q = Inr (h, p)"
      by (auto simp: e Let_def split: if_splits)
    have "take (length x) s = x" "take (Suc (length y)) s = y @ [CHR '']'']" by (simp add: s, simp add: y(1))
    then have x: "x = y @ [CHR '']'']" using l(1) by simp
    have "y \<noteq> []" using True y(1) by auto
    then obtain g where g: "y = CHR ''['' # g" using True y(1) by (cases y) auto
    from l(2) show ?thesis using q y(2) by (auto simp: s x g split_checked_def split: if_splits)
  qed
qed (auto simp: SplitHostPort_plain SplitHostPort_bracketed)

lemma SplitHostPort_joined:
  assumes q: "CHR '':'' \<notin> set q" "no_brackets q"
  shows "SplitHostPort (u @ CHR '':'' # q) = Inr (h, p) \<longleftrightarrow>
    p = q \<and> no_brackets h \<and> (u = h \<and> CHR '':'' \<notin> set h \<or> u = ''['' @ h @ '']'')"
    (is "?l \<longleftrightarrow> ?r")
proof
  assume ?l
  then have s: "CHR '':'' \<notin> set p" "no_brackets h"
    "u @ CHR '':'' # q = h @ CHR '':'' # p \<and> CHR '':'' \<notin> set h \<or> u @ CHR '':'' # q = (''['' @ h @ '']'') @ CHR '':'' # p"
    unfolding SplitHostPort_Inr by simp_all
  from s(3) show ?r
  proof
    assume "u @ CHR '':'' # q = h @ CHR '':'' # p \<and> CHR '':'' \<notin> set h"
    with last_colon [of u q h p] q(1) s(1,2) show ?r by blast
  next
    assume "u @ CHR '':'' # q = (''['' @ h @ '']'') @ CHR '':'' # p"
    from last_colon [OF this q(1) s(1)] s(2) show ?r by blast
  qed
next
  assume ?r
  with q show ?l by (auto simp: SplitHostPort_plain SplitHostPort_bracketed)
qed

text \<open>
  C39. Exactly when the address that \<open>normalizeAddress\<close> returns is split into a host and a port, and which.  An address that has a
  port, host:port or [host]:port, keeps it; a host without brackets that does not have exactly one colon (a name, an IPv4
  address or an IPv6 address) and a host in brackets that has no colon get the default port.  No other address gives one that
  can be split; in particular not an IPv6 address in brackets without a port, to which a second pair of brackets is added.
\<close>

theorem normalizeAddress_splits:
  "SplitHostPort (normalizeAddress addr n) = Inr (h, p) \<longleftrightarrow>
    no_brackets h \<and>
    (no_brackets p \<and> CHR '':'' \<notin> set p \<and> (addr = h @ '':'' @ p \<and> CHR '':'' \<notin> set h \<or> addr = ''['' @ h @ '']:'' @ p) \<or>
     p = fmt_d n \<and> (addr = h \<and> count_list addr CHR '':'' \<noteq> 1 \<or> addr = ''['' @ h @ '']'' \<and> CHR '':'' \<notin> set h))"
proof (cases "SplitHostPort addr")
  case (Inr hp)
  obtain h' p' where hp: "hp = (h', p')" by (cases hp)
  note f = Inr [unfolded hp SplitHostPort_Inr]
  then have c: "CHR '':'' \<in> set addr" by auto
  have "\<not> (no_brackets h \<and> addr = h \<and> count_list addr CHR '':'' \<noteq> 1)" using f by (auto simp: count_notin)
  moreover from c have "\<not> (addr = ''['' @ h @ '']'' \<and> CHR '':'' \<notin> set h)" by auto
  moreover from Inr have "normalizeAddress addr n = addr" by (simp add: normalizeAddress_def)
  ultimately show ?thesis using SplitHostPort_Inr [of addr h p] by auto
next
  case (Inl e)
  have f: "\<not> (no_brackets h \<and> no_brackets p \<and> CHR '':'' \<notin> set p \<and> (addr = h @ '':'' @ p \<and> CHR '':'' \<notin> set h \<or> addr = ''['' @ h @ '']:'' @ p))" for h p
    using Inl SplitHostPort_Inr [of addr h p] by auto
  have one: "count_list addr CHR '':'' \<noteq> 1" if "no_brackets addr"
  proof
    assume c: "count_list addr CHR '':'' = 1"
    then have "CHR '':'' \<in> set addr" by (metis count_list_0_iff zero_neq_one)
    then obtain x q where a: "addr = x @ CHR '':'' # q" "CHR '':'' \<notin> set q" by (rule split_last)
    with c have "CHR '':'' \<notin> set x" by (simp add: count_list_0_iff)
    with a that f [of x q] show False by auto
  qed
  have join: "normalizeAddress addr n = JoinHostPort addr (fmt_d n)" using Inl by (simp add: normalizeAddress_def)
  show ?thesis
  proof (cases "CHR '':'' \<in> set addr")
    case True
    then have "normalizeAddress addr n = (''['' @ addr @ '']'') @ CHR '':'' # fmt_d n" by (simp add: join JoinHostPort_def)
    then have "SplitHostPort (normalizeAddress addr n) = Inr (h, p) \<longleftrightarrow>
        p = fmt_d n \<and> no_brackets h \<and> (''['' @ addr @ '']'' = h \<and> CHR '':'' \<notin> set h \<or> ''['' @ addr @ '']'' = ''['' @ h @ '']'')"
      using SplitHostPort_joined [OF fmt_d_port] by metis
    moreover have "no_brackets h \<Longrightarrow> ''['' @ addr @ '']'' \<noteq> h" "''['' @ addr @ '']'' = ''['' @ h @ '']'' \<longleftrightarrow> addr = h" by auto
    moreover from True have "\<not> (addr = ''['' @ h @ '']'' \<and> CHR '':'' \<notin> set h)" by auto
    ultimately show ?thesis using f [of h p] one by blast
  next
    case False
    then have "normalizeAddress addr n = addr @ CHR '':'' # fmt_d n" by (simp add: join JoinHostPort_def)
    then have "SplitHostPort (normalizeAddress addr n) = Inr (h, p) \<longleftrightarrow>
        p = fmt_d n \<and> no_brackets h \<and> (addr = h \<and> CHR '':'' \<notin> set h \<or> addr = ''['' @ h @ '']'')"
      using SplitHostPort_joined [OF fmt_d_port] by metis
    moreover from False have "count_list addr CHR '':'' \<noteq> 1" "\<not> (addr = ''['' @ h @ '']'' \<and> CHR '':'' \<in> set h)"
      by (simp_all add: count_notin) auto
    ultimately show ?thesis using f [of h p] False by blast
  qed
qed

section \<open>Listeners\<close>

definition local_address :: "string \<Rightarrow> bool" where
  "local_address a \<longleftrightarrow> (case SplitHostPort a of Inl _ \<Rightarrow> False | Inr (h, _) \<Rightarrow> h \<in> set localhostListeners)"

lemma verifyListeners_local: "verifyListeners addrs service fn = None \<longleftrightarrow> (\<forall>a \<in> set addrs. local_address a)"
  by (induction addrs) (auto simp: local_address_def split: sum.splits)

lemma verify_listeners_local:
  "verify_listeners cfg = None \<longleftrightarrow>
    (DisableServerTLS cfg \<longrightarrow>
      (\<forall>a \<in> set (RPCListeners cfg @ IMAPListeners cfg @ SMTPListeners cfg). local_address a))"
proof -
  have "verify_listeners cfg = None \<longleftrightarrow> (DisableServerTLS cfg \<longrightarrow>
      verifyListeners (RPCListeners cfg) ''RPC'' ''Validate'' = None \<and>
      verifyListeners (IMAPListeners cfg) ''IMAP'' ''Validate'' = None \<and>
      verifyListeners (SMTPListeners cfg) ''SMTP'' ''Validate'' = None)"
    by (simp add: verify_listeners_def split: option.split)
  then show ?thesis by (simp add: verifyListeners_local ball_Un)
qed

section \<open>The stages of Validate\<close>

text \<open>The fields that a stage does not touch.\<close>

definition same_flags :: "agent_Config \<Rightarrow> agent_Config \<Rightarrow> bool" where
  "same_flags c d \<longleftrightarrow>
     DisableServerTLS d = DisableServerTLS c \<and> DisableClientTLS d = DisableClientTLS c \<and> Username d = Username c \<and>
     Password d = Password c \<and> ProofOfWork d = ProofOfWork c \<and> PowThreads d = PowThreads c"

lemma validate_dirs_flags: "validate_dirs S fs cfg = (fs1, cfg1, e) \<Longrightarrow> same_flags cfg cfg1"
  by (auto simp: validate_dirs_def Let_def same_flags_def split: if_splits prod.splits option.splits)

lemma validate_pow_flags:
  "validate_pow cfg = (cfg1, None) \<Longrightarrow>
    same_flags cfg cfg1 \<and>
    (powHandler cfg1 = DoSequential \<and> ProofOfWork cfg = ''sequential'' \<or>
     powHandler cfg1 = DoParallel (PowThreads cfg) \<and> 2 \<le> PowThreads cfg \<and> ProofOfWork cfg = ''parallel'')"
  by (auto simp: validate_pow_def same_flags_def split: if_splits)

definition same_pow :: "agent_Config \<Rightarrow> agent_Config \<Rightarrow> bool" where
  "same_pow c d \<longleftrightarrow> powHandler d = powHandler c"

lemma validate_client_local:
  assumes "validate_client S fs cfg = (cfg1, None)"
  shows "same_flags cfg cfg1 \<and> same_pow cfg cfg1 \<and> (\<exists>h p. SplitHostPort (RPCConnect cfg1) = Inr (h, p) \<and>
    (DisableClientTLS cfg \<longrightarrow> h \<in> set localhostListeners))"
proof -
  have f: "same_flags cfg (connect_address cfg) \<and> same_pow cfg (connect_address cfg)"
    by (simp add: connect_address_def Let_def same_flags_def same_pow_def)
  then have t: "DisableClientTLS (connect_address cfg) = DisableClientTLS cfg" by (simp add: same_flags_def)
  obtain h p where hp: "SplitHostPort (RPCConnect (connect_address cfg)) = Inr (h, p)"
    using assms by (auto simp: validate_client_def Let_def split: sum.splits)
  show ?thesis
  proof (cases "DisableClientTLS cfg")
    case True
    with hp t assms have "cfg1 = connect_address cfg \<and> h \<in> set localhostListeners"
      by (simp add: validate_client_def Let_def split: if_splits)
    with hp f show ?thesis by simp
  next
    case False
    with hp t assms have "cfg1 = (connect_address cfg)\<lparr>CAFile := ca_file S fs h (connect_address cfg)\<rparr>"
      by (simp add: validate_client_def Let_def)
    with hp f False show ?thesis by (simp add: same_flags_def same_pow_def)
  qed
qed

lemma default_listeners_flags: "same_flags cfg (default_listeners a cfg) \<and> same_pow cfg (default_listeners a cfg) \<and>
    RPCConnect (default_listeners a cfg) = RPCConnect cfg"
  by (simp add: default_listeners_def Let_def same_flags_def same_pow_def)

lemma normalize_listeners_flags: "same_flags cfg (normalize_listeners cfg) \<and> same_pow cfg (normalize_listeners cfg) \<and>
    RPCConnect (normalize_listeners cfg) = RPCConnect cfg \<and> distinct (RPCListeners (normalize_listeners cfg)) \<and>
    distinct (IMAPListeners (normalize_listeners cfg)) \<and> distinct (SMTPListeners (normalize_listeners cfg))"
  by (simp add: normalize_listeners_def same_flags_def same_pow_def)

text \<open>The listeners that are opened, in the order RPC, IMAP, SMTP.\<close>

abbreviation listeners :: "agent_Config \<Rightarrow> string list" where
  "listeners c \<equiv> RPCListeners c @ IMAPListeners c @ SMTPListeners c"

lemma validate_servers_local:
  assumes "validate_servers S cfg = (cfg1, None)" and "Username cfg \<noteq> []" "Password cfg \<noteq> []"
  shows "same_flags cfg cfg1 \<and> same_pow cfg cfg1 \<and> RPCConnect cfg1 = RPCConnect cfg \<and>
    distinct (RPCListeners cfg1) \<and> distinct (IMAPListeners cfg1) \<and> distinct (SMTPListeners cfg1) \<and>
    (DisableServerTLS cfg \<longrightarrow> (\<forall>a \<in> set (listeners cfg1). local_address a)) \<and>
    BmdUsername cfg1 \<noteq> [] \<and> BmdPassword cfg1 \<noteq> []"
proof -
  from assms(1) obtain addrs where l: "LookupHost S ''localhost'' = Inr addrs"
    by (cases "LookupHost S ''localhost''") (simp_all add: validate_servers_def)
  define c where "c = normalize_listeners (default_listeners addrs cfg)"
  have fl: "same_flags cfg c" "same_pow cfg c" "RPCConnect c = RPCConnect cfg" "distinct (RPCListeners c)"
      "distinct (IMAPListeners c)" "distinct (SMTPListeners c)"
    using default_listeners_flags [of cfg addrs] normalize_listeners_flags [of "default_listeners addrs cfg"]
    by (simp_all add: c_def same_flags_def same_pow_def)
  have v: "verify_listeners c = None"
    using assms(1) by (simp add: validate_servers_def l Let_def flip: c_def split: option.splits)
  with assms fl have "cfg1 = (let c2 = (if BmdUsername c = [] then c\<lparr>BmdUsername := Username c\<rparr> else c)
      in if BmdPassword c2 = [] then c2\<lparr>BmdPassword := Password c2\<rparr> else c2)"
    by (simp add: validate_servers_def l Let_def flip: c_def)
  moreover have "DisableServerTLS cfg \<longrightarrow> (\<forall>a \<in> set (listeners c). local_address a)"
    using v fl(1) by (simp add: verify_listeners_local same_flags_def)
  ultimately show ?thesis using fl assms(2,3) by (simp add: same_flags_def same_pow_def Let_def)
qed

section \<open>Validate\<close>

lemma Validate_stages:
  assumes "Validate S fs L cfg = Running (fs', L', cfg', None)"
  obtains cfg1 L1 cfg2 cfg3 where "validate_dirs S fs cfg = (fs', cfg1, None)"
    "parseAndSetDebugLevels S (setLogLevels S L defaultLogLevel) (DebugLevel cfg1) = (L', None)"
    "validate_pow cfg1 = (cfg2, None)" "Username cfg2 \<noteq> []" "Password cfg2 \<noteq> []"
    "validate_client S fs' cfg2 = (cfg3, None)" "validate_servers S cfg3 = (cfg', None)"
proof -
  obtain fs1 cfg1 e1 where d: "validate_dirs S fs cfg = (fs1, cfg1, e1)" by (cases "validate_dirs S fs cfg")
  with assms have e1: "e1 = None" by (auto simp: Validate_def split: option.splits)
  from assms d e1 have i: "initSeelogLogger S (filepath_Join [LogDir cfg1, defaultLogFilename]) (LogConsole cfg1) = Running ()"
    by (cases "initSeelogLogger S (filepath_Join [LogDir cfg1, defaultLogFilename]) (LogConsole cfg1)")
      (auto simp: Validate_def split: if_splits)
  obtain L1 e2 where p: "parseAndSetDebugLevels S (setLogLevels S L defaultLogLevel) (DebugLevel cfg1) = (L1, e2)"
    by (cases "parseAndSetDebugLevels S (setLogLevels S L defaultLogLevel) (DebugLevel cfg1)")
  with assms d e1 i have e2: "e2 = None" by (auto simp: Validate_def split: if_splits option.splits)
  obtain cfg2 e3 where w: "validate_pow cfg1 = (cfg2, e3)" by (cases "validate_pow cfg1")
  with assms d e1 i p e2 have e3: "e3 = None" by (auto simp: Validate_def split: if_splits option.splits)
  from assms d e1 i p e2 w e3 have u: "Username cfg2 \<noteq> [] \<and> Password cfg2 \<noteq> []"
    by (auto simp: Validate_def split: if_splits)
  obtain cfg3 e4 where c: "validate_client S fs1 cfg2 = (cfg3, e4)" by (cases "validate_client S fs1 cfg2")
  with assms d e1 i p e2 w e3 u have e4: "e4 = None" by (auto simp: Validate_def split: if_splits option.splits)
  from assms d e1 i p e2 w e3 u c e4 have "validate_servers S cfg3 = (cfg', None) \<and> fs1 = fs' \<and> L1 = L'"
    by (auto simp: Validate_def split: if_splits prod.splits)
  with that [of cfg1 cfg2 cfg3] d e1 p e2 w e3 u c e4 show thesis by blast
qed

text \<open>
  C38. What holds of a configuration that \<open>Validate\<close> accepts.  The servers listen on distinct addresses, and with
  \<open>--noservertls\<close> all of them, RPC, IMAP and SMTP, are on the local machine.  The address of bmd has a host and a port,
  and with \<open>--noclienttls\<close> it is on the local machine.  There are credentials for the clients and for bmd, and a
  proof-of-work handler, which runs at least two threads when it is the parallel one.
\<close>

theorem Validate_accepts:
  assumes "Validate S fs L cfg = Running (fs', L', cfg', None)"
  shows "distinct (RPCListeners cfg') \<and> distinct (IMAPListeners cfg') \<and> distinct (SMTPListeners cfg') \<and>
    (DisableServerTLS cfg \<longrightarrow> (\<forall>a \<in> set (listeners cfg'). local_address a)) \<and>
    (\<exists>h p. SplitHostPort (RPCConnect cfg') = Inr (h, p) \<and> (DisableClientTLS cfg \<longrightarrow> h \<in> set localhostListeners)) \<and>
    Username cfg' \<noteq> [] \<and> Password cfg' \<noteq> [] \<and> BmdUsername cfg' \<noteq> [] \<and> BmdPassword cfg' \<noteq> [] \<and>
    (powHandler cfg' = DoSequential \<or> (\<exists>n. powHandler cfg' = DoParallel n \<and> 2 \<le> n))"
proof -
  obtain cfg1 cfg2 cfg3 where d: "validate_dirs S fs cfg = (fs', cfg1, None)" and w: "validate_pow cfg1 = (cfg2, None)"
    and u: "Username cfg2 \<noteq> []" "Password cfg2 \<noteq> []" and c: "validate_client S fs' cfg2 = (cfg3, None)"
    and s: "validate_servers S cfg3 = (cfg', None)"
    by (rule Validate_stages [OF assms])
  note d' = validate_dirs_flags [OF d, unfolded same_flags_def]
    and w' = validate_pow_flags [OF w, unfolded same_flags_def]
    and c' = validate_client_local [OF c, unfolded same_flags_def same_pow_def]
  from c' u have u3: "Username cfg3 \<noteq> []" "Password cfg3 \<noteq> []" by simp_all
  note s' = validate_servers_local [OF s u3, unfolded same_flags_def same_pow_def]
  from w' c' s' have "powHandler cfg' = DoSequential \<or> (\<exists>n. powHandler cfg' = DoParallel n \<and> 2 \<le> n)" by auto
  moreover have "DisableServerTLS cfg3 = DisableServerTLS cfg" "DisableClientTLS cfg2 = DisableClientTLS cfg"
    using d' w' c' by simp_all
  ultimately show ?thesis using s' c' u3 by (metis (no_types, lifting))
qed

text \<open>A machine with an empty disk.\<close>

type_synonym disk = "string \<rightharpoonup> bytes option"

definition ref_sys :: "(disk, string) sys" where
  "ref_sys =
     \<lparr>os_Stat = (\<lambda>fs p. case fs p of None \<Rightarrow> Inl (ErrExt ''file does not exist'') | Some d \<Rightarrow> Inr (d = None)),
      os_IsNotExist = (\<lambda>e. e = ErrExt ''file does not exist''),
      os_MkdirAll = (\<lambda>fs p. (fs(p \<mapsto> None), None)),
      os_ReadFile = (\<lambda>fs p. case fs p of Some (Some b) \<Rightarrow> Inr b | _ \<Rightarrow> Inl (ErrExt ''file does not exist'')),
      os_WriteFile = (\<lambda>fs p b. (fs(p \<mapsto> Some b), None)),
      os_Getenv = (\<lambda>_. []), AppDataDir = (\<lambda>n. ''/home/bob/.'' @ n), NumCPU = 4,
      LookupHost = (\<lambda>_. Inr [''127.0.0.1'', ''::1'']),
      LogLevelFromString = (\<lambda>s. if validLogLevel s then Some s else None), InfoLvl = ''info'',
      LoggerFromConfigAsString = (\<lambda>_. None)\<rparr>"

definition bob_cfg :: agent_Config where
  "bob_cfg = (DefaultConfig ref_sys)\<lparr>Username := ''bob'', Password := ''secret'', EnableRPC := True,
     DisableServerTLS := True, DisableClientTLS := True, DebugLevel := ''SRVR=debug,POW=warn''\<rparr>"

lemma ports: "fmt_d 8446 = ''8446''" "fmt_d 1143 = ''1143''" "fmt_d 1587 = ''1587''" "fmt_d 8442 = ''8442''"
  by (simp_all add: fmt_d.simps char_of_def bit_0)

lemma ref_sys_simps [simp]:
  "os_Stat ref_sys fs p = (case fs p of None \<Rightarrow> Inl (ErrExt ''file does not exist'') | Some d \<Rightarrow> Inr (d = None))"
  "os_IsNotExist ref_sys e \<longleftrightarrow> e = ErrExt ''file does not exist''"
  "os_MkdirAll ref_sys fs p = (fs(p \<mapsto> None), None)"
  "os_ReadFile ref_sys fs p = (case fs p of Some (Some b) \<Rightarrow> Inr b | _ \<Rightarrow> Inl (ErrExt ''file does not exist''))"
  "os_WriteFile ref_sys fs p b = (fs(p \<mapsto> Some b), None)"
  "os_Getenv ref_sys n = []" "AppDataDir ref_sys n = ''/home/bob/.'' @ n" "NumCPU ref_sys = 4"
  "LookupHost ref_sys h = Inr [''127.0.0.1'', ''::1'']"
  "LogLevelFromString ref_sys s = (if validLogLevel s then Some s else None)" "InfoLvl ref_sys = ''info''"
  "LoggerFromConfigAsString ref_sys t = None"
  by (simp_all add: ref_sys_def)

lemma ref_dirs [simp]:
  "defaultDataDir ref_sys = ''/home/bob/.bmagent''" "defaultLogDir ref_sys = ''/home/bob/.bmagent/logs''"
  "cleanAndExpandPath ref_sys ''/home/bob/.bmagent/logs'' = ''/home/bob/.bmagent/logs''"
  by (simp_all add: defaultDataDir_def defaultLogDir_def defaultLogDirname_def cleanAndExpandPath_def os_Expand_plain
    filepath_Clean_def)

lemma bob_dirs: "validate_dirs ref_sys Map.empty bob_cfg = (Map.empty(''/home/bob/.bmagent'' \<mapsto> None), bob_cfg, None)"
  by (simp add: validate_dirs_def bob_cfg_def DefaultConfig_def checkCreateDir_def)

lemma bob_levels:
  "\<exists>L. parseAndSetDebugLevels ref_sys (setLogLevels ref_sys subsystemLoggers defaultLogLevel) ''SRVR=debug,POW=warn'' = (L, None)"
  by (simp add: parseAndSetDebugLevels_def setLogLevels_def setLogLevel_def subsystemLoggers_def useLogger_def
    defaultLogLevel_def validLogLevel_def)

lemma bob_client: "validate_client ref_sys fs (bob_cfg\<lparr>powHandler := h\<rparr>) =
    (bob_cfg\<lparr>RPCConnect := ''127.0.0.1:8442'', powHandler := h\<rparr>, None)"
  by (simp add: validate_client_def connect_address_def Let_def bob_cfg_def DefaultConfig_def normalizeAddress_def
    JoinHostPort_def SplitHostPort_def split_checked_def defaultBmdPort_def ports localhostListeners_def)

lemma bob_servers:
  "listeners (fst (validate_servers ref_sys (bob_cfg\<lparr>RPCConnect := c, powHandler := h\<rparr>))) =
     [''127.0.0.1:8446'', ''[::1]:8446'', ''127.0.0.1:1143'', ''[::1]:1143'', ''127.0.0.1:1587'', ''[::1]:1587'']"
  "snd (validate_servers ref_sys (bob_cfg\<lparr>RPCConnect := c, powHandler := h\<rparr>)) = None"
  by (simp_all add: validate_servers_def default_listeners_def normalize_listeners_def verify_listeners_def on_localhost_def
    Let_def bob_cfg_def DefaultConfig_def normalizeAddresses_def normalizeAddress_def removeDuplicateAddresses_def
    JoinHostPort_def SplitHostPort_def split_checked_def defaultRPCPort_def defaultIMAPPort_def defaultSMTPPort_def
    ports localhostListeners_def)

lemma bob_validated:
  "\<exists>fs L c. Validate ref_sys Map.empty subsystemLoggers bob_cfg = Running (fs, L, c, None) \<and>
    listeners c = [''127.0.0.1:8446'', ''[::1]:8446'', ''127.0.0.1:1143'', ''[::1]:1143'', ''127.0.0.1:1587'', ''[::1]:1587'']"
proof -
  obtain L where "parseAndSetDebugLevels ref_sys (setLogLevels ref_sys subsystemLoggers defaultLogLevel)
      ''SRVR=debug,POW=warn'' = (L, None)" using bob_levels by blast
  moreover have "DebugLevel bob_cfg = ''SRVR=debug,POW=warn''" "Username bob_cfg \<noteq> []" "Password bob_cfg \<noteq> []"
    "validate_pow bob_cfg = (bob_cfg\<lparr>powHandler := DoParallel 4\<rparr>, None)"
    by (simp_all add: bob_cfg_def DefaultConfig_def validate_pow_def)
  ultimately show ?thesis
    using bob_servers [where c = "''127.0.0.1:8442''" and h = "DoParallel 4"]
    by (cases "validate_servers ref_sys (bob_cfg\<lparr>RPCConnect := ''127.0.0.1:8442'', powHandler := DoParallel 4\<rparr>)")
      (simp add: Validate_def bob_dirs initSeelogLogger_def bob_client)
qed

lemma Validate_accepts_witness:
  "\<exists>fs L c. Validate ref_sys Map.empty subsystemLoggers bob_cfg = Running (fs, L, c, None) \<and>
    listeners c = [''127.0.0.1:8446'', ''[::1]:8446'', ''127.0.0.1:1143'', ''[::1]:1143'', ''127.0.0.1:1587'', ''[::1]:1587''] \<and>
    (\<forall>a \<in> set (listeners c). local_address a)"
proof -
  obtain fs L c where v: "Validate ref_sys Map.empty subsystemLoggers bob_cfg = Running (fs, L, c, None)"
    and l: "listeners c = [''127.0.0.1:8446'', ''[::1]:8446'', ''127.0.0.1:1143'', ''[::1]:1143'', ''127.0.0.1:1587'', ''[::1]:1587'']"
    using bob_validated by blast
  have "DisableServerTLS bob_cfg" by (simp add: bob_cfg_def)
  with Validate_accepts [OF v] have "\<forall>a \<in> set (listeners c). local_address a" by blast
  with v l show ?thesis by blast
qed

section \<open>Debug levels\<close>

definition level_of :: "'v loggers \<Rightarrow> string \<Rightarrow> 'v option" where
  "level_of L k = (case map_of L k of Some (Logger _ v) \<Rightarrow> Some v | _ \<Rightarrow> None)"

definition read_level :: "('f, 'v) sys \<Rightarrow> string \<Rightarrow> 'v" where
  "read_level S s = (case LogLevelFromString S s of None \<Rightarrow> InfoLvl S | Some v \<Rightarrow> v)"

lemma map_of_replace:
  "map_of (map (\<lambda>(i, x). if i = k then (i, l) else (i, x)) L) j = (if j = k \<and> k \<in> fst ` set L then Some l else map_of L j)"
proof (induction L)
  case (Cons a L)
  obtain i x where "a = (i, x)" by (cases a)
  with Cons.IH show ?case by (cases "i = k"; cases "j = i") simp_all
qed simp

lemma map_of_useLogger: "map_of (useLogger L k l) j = (if j = k \<and> k \<in> fst ` set L then Some l else map_of L j)"
  by (simp add: useLogger_def map_of_eq_None_iff map_of_replace)

lemma fst_replace: "map fst (map (\<lambda>(i, x). if i = k then (i, l) else (i, x)) L) = map fst L"
  by (induction L) (simp_all split: prod.split)

lemma fst_useLogger [simp]: "map fst (useLogger L k l) = map fst L"
  unfolding useLogger_def by (simp only: fst_replace split: if_split) simp

lemma setLogLevel_keys [simp]: "map fst (setLogLevel S L k s) = map fst L"
  by (simp add: setLogLevel_def Let_def split: option.split)

lemma level_of_setLogLevel:
  "level_of (setLogLevel S L k s) j = (if j = k \<and> k \<in> fst ` set L then Some (read_level S s) else level_of L j)"
proof (cases "map_of L k")
  case None
  then have "k \<notin> fst ` set L" by (simp add: map_of_eq_None_iff)
  with None show ?thesis by (simp add: setLogLevel_def)
next
  case (Some l)
  then have "k \<in> fst ` set L" by (metis map_of_eq_None_iff option.distinct(1))
  with Some show ?thesis
    by (cases l) (simp_all add: setLogLevel_def level_of_def map_of_useLogger read_level_def Let_def)
qed

text \<open>The level that a list of settings gives to a subsystem: that of its last setting.\<close>

definition asked :: "('f, 'v) sys \<Rightarrow> (string \<times> string) list \<Rightarrow> 'v loggers \<Rightarrow> string \<Rightarrow> 'v option" where
  "asked S kvs L k = (case map_of (rev kvs) k of Some s \<Rightarrow> Some (read_level S s) | None \<Rightarrow> level_of L k)"

definition set_all :: "('f, 'v) sys \<Rightarrow> 'v loggers \<Rightarrow> (string \<times> string) list \<Rightarrow> 'v loggers" where
  "set_all S L kvs = foldl (\<lambda>M (k, s). setLogLevel S M k s) L kvs"

lemma set_all_keys: "map fst (set_all S L kvs) = map fst L"
  by (induction kvs arbitrary: L) (auto simp: set_all_def)

lemma set_all_levels: "k \<in> fst ` set L \<Longrightarrow> level_of (set_all S L kvs) k = asked S kvs L k"
proof (induction kvs arbitrary: L)
  case (Cons kv kvs)
  obtain j s where kv: "kv = (j, s)" by (cases kv)
  have "fst ` set (setLogLevel S L j s) = fst ` set L" by (metis list.set_map setLogLevel_keys)
  with Cons have "level_of (set_all S L (kv # kvs)) k = asked S kvs (setLogLevel S L j s) k"
    by (simp add: set_all_def kv)
  with Cons.prems show ?case
    by (auto simp: asked_def kv map_add_def level_of_setLogLevel split: option.split)
qed (simp add: set_all_def asked_def)

text \<open>The settings that a text asks for: one level for every subsystem, or pairs subsystem=level separated by commas.\<close>

definition read_pair :: "string \<Rightarrow> string \<times> string" where
  "read_pair p = (split_on (CHR ''='') p ! 0, split_on (CHR ''='') p ! 1)"

definition settings :: "'v loggers \<Rightarrow> string \<Rightarrow> (string \<times> string) list" where
  "settings L d =
     (if CHR '','' \<notin> set d \<and> CHR ''='' \<notin> set d then map (\<lambda>k. (k, d)) (map fst L)
      else map read_pair (split_on (CHR '','') d))"

lemma set_levels_all:
  "set_levels S L ps = (L', None) \<Longrightarrow>
    L' = set_all S L (map read_pair ps) \<and>
    (\<forall>(k, s) \<in> set (map read_pair ps). k \<in> fst ` set L \<and> validLogLevel s)"
proof (induction ps arbitrary: L)
  case (Cons p ps)
  obtain k s where rp: "read_pair p = (k, s)" by (cases "read_pair p")
  from Cons.prems rp have p: "map_of L k \<noteq> None" "validLogLevel s" "set_levels S (setLogLevel S L k s) ps = (L', None)"
    by (auto simp: read_pair_def Let_def split: if_splits)
  have k: "fst ` set (setLogLevel S L k s) = fst ` set L" by (metis list.set_map setLogLevel_keys)
  from p(1) have "k \<in> fst ` set L" by (simp add: map_of_eq_None_iff)
  with Cons.IH [OF p(3)] p(2) rp k show ?case by (simp add: set_all_def)
qed (simp add: set_all_def)

text \<open>
  The debug levels after \<open>parseAndSetDebugLevels\<close> has accepted a text: every setting names a subsystem and a valid
  level; each subsystem has the level of its last setting and keeps its level when there is none; no subsystem is added
  or removed.
\<close>

theorem debug_levels_set:
  assumes "parseAndSetDebugLevels S L d = (L', None)"
  shows "map fst L' = map fst L \<and>
    (\<forall>(k, s) \<in> set (settings L d). k \<in> fst ` set L \<and> validLogLevel s) \<and>
    (\<forall>k \<in> fst ` set L. level_of L' k = asked S (settings L d) L k)"
proof -
  have "L' = set_all S L (settings L d) \<and> (\<forall>(k, s) \<in> set (settings L d). k \<in> fst ` set L \<and> validLogLevel s)"
  proof (cases "CHR '','' \<notin> set d \<and> CHR ''='' \<notin> set d")
    case True
    have "setLogLevels S L d = set_all S L (map (\<lambda>k. (k, d)) (map fst L))"
      unfolding setLogLevels_def set_all_def foldl_map by simp
    with True assms show ?thesis by (auto simp: parseAndSetDebugLevels_def settings_def split: if_splits)
  next
    case False
    with assms have "set_levels S L (split_on (CHR '','') d) = (L', None)"
      by (simp add: parseAndSetDebugLevels_def)
    moreover from False have "settings L d = map read_pair (split_on (CHR '','') d)" by (simp only: settings_def if_False)
    ultimately show ?thesis using set_levels_all by metis
  qed
  then show ?thesis by (simp add: set_all_keys set_all_levels)
qed

lemma debug_levels_set_witness:
  "\<exists>L. parseAndSetDebugLevels ref_sys (setLogLevels ref_sys subsystemLoggers defaultLogLevel) ''SRVR=debug,POW=warn'' = (L, None) \<and>
    level_of L ''SRVR'' = Some ''debug'' \<and> level_of L ''IMAP'' = Some ''info''"
proof -
  let ?L = "setLogLevels ref_sys subsystemLoggers defaultLogLevel"
  obtain L where L: "parseAndSetDebugLevels ref_sys ?L ''SRVR=debug,POW=warn'' = (L, None)"
    using bob_levels by blast
  have k: "map fst ?L = map fst (subsystemLoggers :: string loggers)" and i: "level_of ?L ''IMAP'' = Some ''info''"
    by (simp_all add: setLogLevels_def setLogLevel_def subsystemLoggers_def useLogger_def defaultLogLevel_def
      validLogLevel_def level_of_def)
  have "fst ` set ?L = fst ` set (subsystemLoggers :: string loggers)" using k by (metis list.set_map)
  then have m: "''SRVR'' \<in> fst ` set ?L" "''IMAP'' \<in> fst ` set ?L" by (simp_all add: subsystemLoggers_def)
  have "settings ?L ''SRVR=debug,POW=warn'' = [(''SRVR'', ''debug''), (''POW'', ''warn'')]"
    by (simp add: settings_def read_pair_def)
  moreover have "\<forall>k \<in> fst ` set ?L. level_of L k = asked ref_sys (settings ?L ''SRVR=debug,POW=warn'') ?L k"
    using debug_levels_set [OF L] by blast
  ultimately have "level_of L ''SRVR'' = asked ref_sys [(''SRVR'', ''debug''), (''POW'', ''warn'')] ?L ''SRVR''"
    "level_of L ''IMAP'' = asked ref_sys [(''SRVR'', ''debug''), (''POW'', ''warn'')] ?L ''IMAP''"
    using m by metis+
  with i have "level_of L ''SRVR'' = Some ''debug''" "level_of L ''IMAP'' = Some ''info''"
    by (simp_all add: asked_def read_level_def validLogLevel_def)
  with L show ?thesis by blast
qed

end
