(* ===== verification/Server_Correct.thy ===== *)
theory Server_Correct
  imports Server Mail_Server_Correct Configuration_Correct
begin

text \<open>
  What the server promises: the counters it keeps, what becomes of the objects it receives, what its users get from it
  when they send, and what it saves.
\<close>

section \<open>Ranges\<close>

lemma ucast_u64_u32 [simp]: "ucast (ucast (i :: u32) :: u64) = i"
  by (simp add: ucast_down_ucast_id is_down)

lemma range_u32_one:
  assumes "env_ok w"
  shows "range_u32 w {i} = (w\<lparr>tick := Suc (tick w)\<rparr>, [i])"
proof -
  have "set (key_order w (tick w) {ucast i}) = {ucast i}" "distinct (key_order w (tick w) {ucast i})"
    using env_ok_order [OF assms, of "{ucast i}" "tick w"] by simp_all
  then have "key_order w (tick w) {ucast i} = [ucast i]"
    by (rule distinct_one)
  then show ?thesis by (simp add: range_u32_def range_keys_def)
qed

lemma range_names_one:
  assumes "env_ok w"
  shows "range_names w {n} = (w\<lparr>tick := Suc (tick w)\<rparr>, [n])"
proof -
  have "set (name_order w (tick w) {n}) = {n}" "distinct (name_order w (tick w) {n})"
    using env_ok_names [OF assms, of "{n}" "tick w"] by simp_all
  then have "name_order w (tick w) {n} = [n]"
    by (rule distinct_one)
  then show ?thesis by (simp add: range_names_def)
qed

section \<open>Counters\<close>

text \<open>The counters and the databases that a server holds.\<close>

definition same_counters :: "('k, 'a, 'o, 'p, 'q, 't, 'n) server \<Rightarrow> ('k, 'a, 'o, 'p, 'q, 't, 'n) server \<Rightarrow> bool" where
  "same_counters s t \<longleftrightarrow> msgCounter t = msgCounter s \<and> broadcastCounter t = broadcastCounter s \<and>
     getpubkeyCounter t = getpubkeyCounter s"

lemma same_counters_refl [simp]: "same_counters s s"
  by (simp add: same_counters_def)

lemma same_counters_trans: "same_counters s t \<Longrightarrow> same_counters t u \<Longrightarrow> same_counters s u"
  by (simp add: same_counters_def)

lemma on_imap_counters: "on_imap s i f = Ret (w1, s1, r) \<Longrightarrow> same_counters s s1"
  by (auto simp: on_imap_def take_back_def same_counters_def go_bind_Ret_conv split: option.splits)

lemma send_ack_counters: "same_counters s (send_ack D s a c)"
  by (simp add: send_ack_def server_Send_def same_counters_def split: option.split prod.split sum.split)

lemma ack_users_counters: "ack_users D w s h is = Ret (w1, s1) \<Longrightarrow> same_counters s s1"
proof (induction "is" arbitrary: w s)
  case (Cons i "is")
  then obtain w2 s2 e where o: "on_imap s i (\<lambda>u. DeliverAckReply (udeps_of D) w u h) = Ret (w2, s2, e)"
    "if e \<noteq> Some ErrUnrecognizedAck then (w1, s1) = (w2, s2) else ack_users D w2 s2 h is = Ret (w1, s1)"
    by (auto simp: go_bind_Ret_conv split: if_splits)
  show ?case
  proof (cases "e = Some ErrUnrecognizedAck")
    case True
    with o(2) have "ack_users D w2 s2 h is = Ret (w1, s1)" by simp
    from Cons.IH [OF this] on_imap_counters [OF o(1)] show ?thesis by (rule same_counters_trans [rotated])
  next
    case False
    with o on_imap_counters [OF o(1)] show ?thesis by simp
  qed
qed simp

lemma newMessage_counters:
  assumes "newMessage D w s n ob = Ret (w1, s1)"
  shows "same_counters (s\<lparr>msgCounter := n\<rparr>) s1"
proof (cases "Message_Decode (sobj D) ob")
  case (Inl e)
  with assms show ?thesis by (simp add: newMessage_def)
next
  case (Inr msg)
  let ?s = "s\<lparr>msgCounter := n\<rparr>"
  consider (ack) "length ob = AckLength (sobj D)"
    | (small) "length ob \<noteq> AckLength (sobj D)" "length (Message_Encrypted (sobj D) msg) \<le> minEncrypted"
    | (big) "length ob \<noteq> AckLength (sobj D)" "\<not> length (Message_Encrypted (sobj D) msg) \<le> minEncrypted"
    by blast
  then show ?thesis
  proof cases
    case ack
    with assms Inr show ?thesis
      by (auto simp: newMessage_def Let_def split: prod.splits dest: ack_users_counters)
  next
    case small
    with assms Inr show ?thesis by (simp add: newMessage_def Let_def)
  next
    case big
    then obtain w2 r where "(case r of
                 None \<Rightarrow> Ret (w2, ?s)
               | Some (i, m, address, ofChan) \<Rightarrow>
                   (case MsgRead m address ofChan of
                      Inl _ \<Rightarrow> Ret (w2, ?s)
                    | Inr bmsg \<Rightarrow>
                        go_bind (on_imap ?s i (\<lambda>u. DeliverFromBMNet (udeps_of D) w2 u bmsg)) (\<lambda>(w3, s3, e). case e of
                          Some _ \<Rightarrow> Ret (w3, s3)
                        | None \<Rightarrow> Ret (w3, send_ack D s3 (message_ack m) ofChan)))) = Ret (w1, s1)"
      using assms Inr by (auto simp: newMessage_def Let_def go_bind_Ret_conv split: prod.splits)
    then show ?thesis
      by (auto simp: go_bind_Ret_conv MsgRead_def split: option.splits
        dest!: on_imap_counters intro: same_counters_trans [OF _ send_ack_counters])
  qed
qed

text \<open>After a stream of messages the counter of messages is that of the last one, and the other counters are as before.\<close>

lemma messages_counted:
  assumes "processObjects R c ObjectType_MESSAGE n (\<lambda>(w, s). newMessage D w s) (w, s) rs = Ret (w', s')"
    and "grpc_GetObjects R (conn c) ObjectType_MESSAGE n = None"
  shows "same_counters (s\<lparr>msgCounter := (if delivered rs = [] then msgCounter s else fst (last (delivered rs)))\<rparr>) s'"
proof -
  have "run_each (\<lambda>(w, s). newMessage D w s) (w, s) xs = Ret (w', s') \<Longrightarrow>
      same_counters (s\<lparr>msgCounter := (if xs = [] then msgCounter s else fst (last xs))\<rparr>) s'" for xs
  proof (induction xs arbitrary: w s)
    case (Cons x xs)
    obtain k b where x: "x = (k, b)" by (cases x)
    with Cons.prems obtain w1 s1 where n: "newMessage D w s k b = Ret (w1, s1)"
      and r: "run_each (\<lambda>(w, s). newMessage D w s) (w1, s1) xs = Ret (w', s')"
      by (auto simp: go_bind_Ret_conv)
    from Cons.IH [OF r] newMessage_counters [OF n] x show ?case by (auto simp: same_counters_def split: if_splits)
  qed simp
  with assms show ?thesis by (simp add: processObjects_def receive_loop_delivered)
qed

section \<open>Messages\<close>

lemma each_id_decrypts:
  assumes a: "ks a = Some pid" "Private pid = Some p" "TryDecryptAndVerifyMessage (sobj D) msg p = Inr m"
      "address_String (sident D) pid = Ret addr"
    and others: "\<And>b q. b \<noteq> a \<Longrightarrow> ks b = Some q \<Longrightarrow>
      \<exists>p' e. Private q = Some p' \<and> TryDecryptAndVerifyMessage (sobj D) msg p' = Inl e"
    and "a \<in> set as" "set as \<subseteq> dom ks"
  shows "each_id ks (try_key D msg) None as = Ret (Some (m, addr, IsChan pid), Some ErrSuccessCode)"
  using assms(6,7)
proof (induction as)
  case (Cons b as)
  show ?case
  proof (cases "b = a")
    case True
    with a show ?thesis by (simp add: try_key_def)
  next
    case False
    from Cons.prems obtain q where q: "ks b = Some q" by auto
    from others [OF False q] obtain p' e where "Private q = Some p'" "TryDecryptAndVerifyMessage (sobj D) msg p' = Inl e" by blast
    with Cons False q show ?thesis by (simp add: try_key_def)
  qed
qed simp

lemma decrypt_one:
  assumes w: "env_ok w" and f: "finite (dom (ids_map k))"
    and a: "ids_map k a = Some pid" "Private pid = Some p" "TryDecryptAndVerifyMessage (sobj D) msg p = Inr m"
      "address_String (sident D) pid = Ret addr"
    and others: "\<And>b q. b \<noteq> a \<Longrightarrow> ids_map k b = Some q \<Longrightarrow>
      \<exists>p' e. Private q = Some p' \<and> TryDecryptAndVerifyMessage (sobj D) msg p' = Inl e"
    and u: "us i = Some mu" "Keys mu = k"
  shows "decrypt_users D w us msg [i] = Ret (w\<lparr>tick := Suc (tick w)\<rparr>, Some (i, m, addr, IsChan pid))"
proof -
  have "set (name_order w (tick w) (dom (ids_map k))) = dom (ids_map k)" using env_ok_names [OF w f] by blast
  with a(1) have "a \<in> set (name_order w (tick w) (dom (ids_map k)))" "set (name_order w (tick w) (dom (ids_map k))) \<subseteq> dom (ids_map k)"
    by auto
  from each_id_decrypts [OF a others this] u show ?thesis
    by (simp add: mgr_ForEach_def range_names_def)
qed

lemma mailbox_ok_tick [simp]: "mailbox_ok L P impl B C (w\<lparr>tick := k\<rparr>) box = mailbox_ok L P impl B C w box"
  by (simp add: mailbox_ok_def)

text \<open>The state of the client after a received message: an ack is sent when there is a valid one and the receiver is no channel.\<close>

definition acked ::
  "('db, 'k, 'b, 'c, 'o, 'a, 'p, 'q, 't, 'n, 'y, 'e, 'f, 'v) sdeps \<Rightarrow> 'n Client \<Rightarrow> bytes option \<Rightarrow> bool \<Rightarrow> 'n Client" where
  "acked D c ack ofChan =
     (case ack of
        None \<Rightarrow> c
      | Some a \<Rightarrow>
          if \<not> ofChan \<and> MessageHeaderSize (sobj D) \<le> length a \<and>
            MsgObject_Decode (sobj D) (drop (MessageHeaderSize (sobj D)) a) = None
          then fst (SendObject (sbmd D) c a) else c)"

lemma send_ack_acked: "send_ack D s a ch = s\<lparr>bmd := acked D (bmd s) a ch\<rparr>"
  by (auto simp: send_ack_def acked_def server_Send_def split: option.split prod.split sum.split)

lemma on_imap_bmnet:
  assumes "imapUser s i = Some u" "boxes u InboxFolderName = Some box"
    and "AddNew (sbox D) w box bm (FlagRecent (mlib (sbox D))) = Ret (w1, box1, b1, e)"
  shows "on_imap s i (\<lambda>u. DeliverFromBMNet (udeps_of D) w u bm) =
    Ret (w1, take_back s i ((attach s i u)\<lparr>boxes := (boxes u)(InboxFolderName \<mapsto> box1)\<rparr>), e)"
  using assms by (simp add: on_imap_def DeliverFromBMNet_def on_box_def attach_def udeps_of_def Let_def)

text \<open>The identity at the address \<open>a\<close>, and no other, decrypts an object.\<close>

definition opens ::
  "('db, 'k, 'b, 'c, 'o, 'a, 'p, 'q, 't, 'n, 'y, 'e, 'f, 'v) sdeps \<Rightarrow> ('k, 'p) Manager \<Rightarrow> 'e \<Rightarrow> string \<Rightarrow> 'p PrivateID \<Rightarrow> cipher_message \<Rightarrow> bool" where
  "opens D k msg a pid m \<longleftrightarrow> finite (dom (ids_map k)) \<and> ids_map k a = Some pid \<and>
     (\<exists>p. Private pid = Some p \<and> TryDecryptAndVerifyMessage (sobj D) msg p = Inr m) \<and>
     (\<forall>b q. b \<noteq> a \<longrightarrow> ids_map k b = Some q \<longrightarrow>
       (\<exists>p e. Private q = Some p \<and> TryDecryptAndVerifyMessage (sobj D) msg p = Inl e))"

text \<open>
  The message \<open>m\<close> in the object \<open>ob\<close>: it is not an ack, the identity at \<open>addr\<close>, and no other, decrypts it, and it gives the
  stored message \<open>bm\<close>.
\<close>

definition holds_message ::
  "('db, 'k, 'b, 'c, 'o, 'a, 'p, 'q, 't, 'n, 'y, 'e, 'f, 'v) sdeps \<Rightarrow> ('k, 'p) Manager \<Rightarrow> bytes \<Rightarrow> cipher_message \<Rightarrow> string \<Rightarrow> bool \<Rightarrow> Bmail \<Rightarrow> bool" where
  "holds_message D k ob m addr ofChan bm \<longleftrightarrow> length ob \<noteq> AckLength (sobj D) \<and> MsgRead m addr ofChan = Inr bm \<and>
     (\<exists>msg a pid. Message_Decode (sobj D) ob = Inr msg \<and> minEncrypted < length (Message_Encrypted (sobj D) msg) \<and>
        opens D k msg a pid m \<and> address_String (sident D) pid = Ret addr \<and> IsChan pid = ofChan)"

text \<open>The inbox of the only user, at a given clock, whose next uid is \<open>i\<close>.\<close>

definition inbox_ready where
  "inbox_ready L P impl B C c mu w s box i \<longleftrightarrow> users s = [1 \<mapsto> mu] \<and> clock w = c \<and> mailbox_ok L P impl B C w box \<and>
     NextID (store_Folder B C) (mbox box) = i \<and> (\<exists>u. imapUser s 1 = Some u \<and> boxes u InboxFolderName = Some box)"

lemma inbox_ready_env: "inbox_ready L P impl B C c mu w s box i \<Longrightarrow> env_ok w"
  by (simp add: inbox_ready_def mailbox_ok_def store_inv_def world_ok_def)

lemma message_stored:
  assumes D: "sbox D = store_deps L P impl B C" and r: "inbox_ready L P impl B C c mu w s box i" and i: "i \<noteq> - 1"
    and m: "holds_message D (Keys mu) ob m addr ch bm" "storable_at store_fits (store_deps L P impl B C) c box bm (FlagRecent L)"
  obtains w' s' box' b enc where "newMessage D w s n ob = Ret (w', s')" "inbox_ready L P impl B C c mu w' s' box' (i + 1)"
    "uids box' = uids box @ [i]" "store_msgs B C w' (mbox box') = (store_msgs B C w (mbox box))(i \<mapsto> (2, enc))"
    "storable store_fits (store_deps L P impl B C) b enc" "From b = BmToEmail (sender_address m)" "To b = BmToEmail addr"
    "Payload b = Some (message_content m)" "bmd s' = acked D (bmd s) (message_ack m) ch"
proof -
  let ?D = "store_deps L P impl B C" and ?s = "s\<lparr>msgCounter := n\<rparr>" and ?w = "w\<lparr>tick := Suc (Suc (tick w))\<rparr>"
  obtain u where s: "users s = [1 \<mapsto> mu]" "clock w = c" "mailbox_ok L P impl B C w box" "NextID (store_Folder B C) (mbox box) = i"
    "imapUser s 1 = Some u" "boxes u InboxFolderName = Some box" using r by (auto simp: inbox_ready_def)
  obtain msg a pid p where k: "Message_Decode (sobj D) ob = Inr msg" "minEncrypted < length (Message_Encrypted (sobj D) msg)"
    "opens D (Keys mu) msg a pid m" "address_String (sident D) pid = Ret addr" "IsChan pid = ch"
    "Private pid = Some p" "TryDecryptAndVerifyMessage (sobj D) msg p = Inr m"
    using m(1) by (auto simp: holds_message_def opens_def)
  have ra: "range_u32 w (dom (users ?s)) = (w\<lparr>tick := Suc (tick w)\<rparr>, [1])"
    using range_u32_one [OF inbox_ready_env [OF r], of 1] s(1) by simp
  have de: "decrypt_users D (w\<lparr>tick := Suc (tick w)\<rparr>) (users ?s) msg [1] = Ret (?w, Some (1, m, addr, ch))"
    using decrypt_one [of "w\<lparr>tick := Suc (tick w)\<rparr>" "Keys mu" a pid p D msg m addr "users ?s" 1 mu] inbox_ready_env [OF r] k s(1)
    by (simp add: opens_def)
  have L: "mlib (sbox D) = L" by (simp add: D store_deps_def)
  obtain enc where enc: "storable store_fits ?D (prepared ?w box bm (FlagRecent L)) enc"
    using m(2) s(2) by (auto simp: storable_at_def prepared_clock)
  obtain w' box' b1 where ad: "AddNew ?D ?w box bm (FlagRecent L) = Ret (w', box', b1, None)" "mailbox_ok L P impl B C w' box'"
    "uids box' = uids box @ [i]" "NextID (store_Folder B C) (mbox box') = i + 1"
    "store_msgs B C w' (mbox box') = (store_msgs B C ?w (mbox box))(i \<mapsto> (2, enc))" "clock w' = clock ?w"
    by (rule AddNew_stores [OF _ s(4) i enc]) (use s(3) in simp)
  let ?u = "(attach ?s 1 u)\<lparr>boxes := (boxes u)(InboxFolderName \<mapsto> box')\<rparr>"
  let ?s' = "send_ack D (take_back ?s 1 ?u) (message_ack m) ch"
  have "on_imap ?s 1 (\<lambda>u. DeliverFromBMNet (udeps_of D) ?w u bm) = Ret (w', take_back ?s 1 ?u, None)"
    by (rule on_imap_bmnet [OF _ s(6)]) (use s(5) ad(1) D L in simp_all)
  then have nm: "newMessage D w s n ob = Ret (w', ?s')"
    using m(1) k ra de by (simp add: newMessage_def holds_message_def Let_def)
  have st: "From (prepared ?w box bm (FlagRecent L)) = BmToEmail (sender_address m)"
    "To (prepared ?w box bm (FlagRecent L)) = BmToEmail addr"
    "Payload (prepared ?w box bm (FlagRecent L)) = Some (message_content m)"
    using m(1) by (auto simp: holds_message_def MsgRead_def prepared_def split: option.split)
  have ready: "inbox_ready L P impl B C c mu w' ?s' box' (i + 1)"
    using ad s(1,2) by (simp add: inbox_ready_def send_ack_acked take_back_def attach_def Let_def)
  have "bmd ?s' = acked D (bmd s) (message_ack m) ch"
    by (simp add: send_ack_acked take_back_def attach_def Let_def)
  with that nm ready ad(3) ad(5) enc st show thesis by simp
qed
text \<open>An object of a stream that can be delivered to the inbox, and the message that is stored for it.\<close>

definition receivable where
  "receivable D L P impl B C c box k ob = (\<lambda>(m, addr, ofChan). \<exists>bm. holds_message D k ob m addr ofChan bm \<and>
     storable_at store_fits (store_deps L P impl B C) c box bm (FlagRecent L))"

lemma receivable_box: "receivable D L P impl B C c box k ob x \<Longrightarrow> receivable D L P impl B C c box' k ob x"
  by (cases x) (auto simp: receivable_def storable_at_box [of _ _ _ box _ _ box'])

definition mail_from_to :: "Bmail \<Rightarrow> cipher_message \<times> string \<times> bool \<Rightarrow> bool" where
  "mail_from_to b = (\<lambda>(m, addr, _). From b = BmToEmail (sender_address m) \<and> To b = BmToEmail addr \<and> Payload b = Some (message_content m))"

abbreviation ack_each where
  "ack_each D \<equiv> foldl (\<lambda>c (m, addr, ofChan). acked D c (message_ack m) ofChan)"

text \<open>The uids that a stream of \<open>n\<close> messages gets.\<close>

definition uids_from :: "u64 \<Rightarrow> nat \<Rightarrow> u64 list" where
  "uids_from i n = map (\<lambda>j. i + of_nat j) [0..<n]"

lemma uids_from_Suc: "uids_from i (Suc n) = i # uids_from (i + 1) n"
  unfolding uids_from_def map_upt_Suc by (simp add: algebra_simps)

lemma messages_stored:
  assumes D: "sbox D = store_deps L P impl B C"
    and "inbox_ready L P impl B C c mu w s box i" "unat i + length xs < 2 ^ 64"
    and "list_all2 (\<lambda>(_, ob). receivable D L P impl B C c box (Keys mu) ob) xs ms"
  shows "\<exists>w' s' box'. run_each (\<lambda>(w, s). newMessage D w s) (w, s) xs = Ret (w', s') \<and>
    inbox_ready L P impl B C c mu w' s' box' (i + of_nat (length xs)) \<and> uids box' = uids box @ uids_from i (length xs) \<and>
    (\<forall>j < length ms. \<exists>b enc. store_msgs B C w' (mbox box') (i + of_nat j) = Some (2, enc) \<and>
      storable store_fits (store_deps L P impl B C) b enc \<and> mail_from_to b (ms ! j)) \<and>
    (\<forall>k < i. store_msgs B C w' (mbox box') k = store_msgs B C w (mbox box) k) \<and>
    bmd s' = ack_each D (bmd s) ms"
  using assms(2-4)
proof (induction xs arbitrary: w s box i ms)
  case Nil
  then show ?case by (intro exI [of _ w] exI [of _ s] exI [of _ box]) (simp add: uids_from_def)
next
  case (Cons x xs)
  obtain n ob where x: "x = (n, ob)" by (cases x)
  from Cons.prems(3) x obtain m addr ch ms' where ms: "ms = (m, addr, ch) # ms'"
    and r: "receivable D L P impl B C c box (Keys mu) ob (m, addr, ch)"
    and rs: "list_all2 (\<lambda>(_, ob). receivable D L P impl B C c box (Keys mu) ob) xs ms'"
    by (cases ms) auto
  from r obtain bm where bm: "holds_message D (Keys mu) ob m addr ch bm"
    "storable_at store_fits (store_deps L P impl B C) c box bm (FlagRecent L)" by (auto simp: receivable_def)
  have ui: "unat (i + 1) = Suc (unat i)" using Cons.prems(2) by (simp add: unat_word_ariths)
  then have i: "i \<noteq> - 1" by auto
  obtain w1 s1 box1 b enc where st: "newMessage D w s n ob = Ret (w1, s1)" "inbox_ready L P impl B C c mu w1 s1 box1 (i + 1)"
    "uids box1 = uids box @ [i]" "store_msgs B C w1 (mbox box1) = (store_msgs B C w (mbox box))(i \<mapsto> (2, enc))"
    "storable store_fits (store_deps L P impl B C) b enc" "From b = BmToEmail (sender_address m)" "To b = BmToEmail addr"
    "Payload b = Some (message_content m)" "bmd s1 = acked D (bmd s) (message_ack m) ch"
    by (rule message_stored [OF D Cons.prems(1) i bm])
  have rs1: "list_all2 (\<lambda>(_, ob). receivable D L P impl B C c box1 (Keys mu) ob) xs ms'"
    using rs by (rule list_all2_mono) (auto intro: receivable_box)
  obtain w' s' box' where re: "run_each (\<lambda>(w, s). newMessage D w s) (w1, s1) xs = Ret (w', s')"
    "inbox_ready L P impl B C c mu w' s' box' (i + 1 + of_nat (length xs))" "uids box' = uids box1 @ uids_from (i + 1) (length xs)"
    "\<forall>j < length ms'. \<exists>b enc. store_msgs B C w' (mbox box') (i + 1 + of_nat j) = Some (2, enc) \<and>
      storable store_fits (store_deps L P impl B C) b enc \<and> mail_from_to b (ms' ! j)"
    "\<forall>k < i + 1. store_msgs B C w' (mbox box') k = store_msgs B C w1 (mbox box1) k"
    "bmd s' = ack_each D (bmd s1) ms'"
    using Cons.IH [OF st(2) _ rs1] Cons.prems(2) ui by auto
  have lt: "i < i + 1" "k < i \<Longrightarrow> k < i + 1" for k using ui by (simp_all add: word_less_nat_alt)
  have "\<exists>b enc. store_msgs B C w' (mbox box') (i + of_nat j) = Some (2, enc) \<and>
      storable store_fits (store_deps L P impl B C) b enc \<and> mail_from_to b (ms ! j)" if "j < length ms" for j
  proof (cases j)
    case 0
    have "store_msgs B C w' (mbox box') i = Some (2, enc)" using re(5) lt(1) st(4) by simp
    with 0 ms st(5-8) show ?thesis by (auto simp: mail_from_to_def)
  next
    case (Suc j')
    with re(4) that ms show ?thesis by (auto simp: algebra_simps)
  qed
  moreover have "\<forall>k < i. store_msgs B C w' (mbox box') k = store_msgs B C w (mbox box) k" using re(5) lt(2) st(4) by auto
  moreover have "run_each (\<lambda>(w, s). newMessage D w s) (w, s) (x # xs) = Ret (w', s')" using x st(1) re(1) by simp
  ultimately show ?case using re(2,3,6) st(3,9) ms
    by (intro exI [of _ w'] exI [of _ s'] exI [of _ box']) (simp add: uids_from_Suc algebra_simps)
qed
text \<open>
  C31. A message that one of the user's identities decrypts is delivered: it is stored in the inbox under the next uid, from
  the sender, to the address that decrypted it, with the content it had.  The counter of messages is that of the object,
  and the ack that the message carries is handed to the node if it is a valid object and the receiver is not a channel.
\<close>

theorem message_received:
  assumes D: "sbox D = store_deps L P impl B C" "env_ok w"
    and msg: "Message_Decode (sobj D) ob = Inr msg" "length ob \<noteq> AckLength (sobj D)"
      "minEncrypted < length (Message_Encrypted (sobj D) msg)"
    and s: "users s = [1 \<mapsto> mu]" "imapUser s 1 = Some u"
    and k: "opens D (Keys mu) msg a pid m" "address_String (sident D) pid = Ret addr" "MsgRead m addr (IsChan pid) = Inr bm"
    and box: "boxes u InboxFolderName = Some box" "mailbox_ok L P impl B C w box"
      "NextID (store_Folder B C) (mbox box) = i" "i \<noteq> - 1" "seq_small (uids box @ [i])"
      "storable_at store_fits (store_deps L P impl B C) (clock w) box bm (FlagRecent L)"
  shows "\<exists>w' s' u' box' b'. newMessage D w s n ob = Ret (w', s') \<and> imapUser s' 1 = Some u' \<and>
    boxes u' InboxFolderName = Some box' \<and> mailbox_ok L P impl B C w' box' \<and> uids box' = uids box @ [i] \<and>
    BitmessageByUID (store_deps L P impl B C) w' box' i = Ret (box', Some b') \<and>
    From b' = BmToEmail (sender_address m) \<and> To b' = BmToEmail addr \<and> Payload b' = Some (message_content m) \<and>
    msgCounter s' = n \<and> bmd s' = acked D (bmd s) (message_ack m) (IsChan pid)"
proof -
  have r: "inbox_ready L P impl B C (clock w) mu w s box i" using s box(1-3) by (simp add: inbox_ready_def)
  have h: "holds_message D (Keys mu) ob m addr (IsChan pid) bm" using msg k by (auto simp: holds_message_def)
  obtain w' s' box' b enc where st: "newMessage D w s n ob = Ret (w', s')" "inbox_ready L P impl B C (clock w) mu w' s' box' (i + 1)"
    "uids box' = uids box @ [i]" "store_msgs B C w' (mbox box') = (store_msgs B C w (mbox box))(i \<mapsto> (2, enc))"
    "storable store_fits (store_deps L P impl B C) b enc" "From b = BmToEmail (sender_address m)" "To b = BmToEmail addr"
    "Payload b = Some (message_content m)" "bmd s' = acked D (bmd s) (message_ack m) (IsChan pid)"
    by (rule message_stored [OF D(1) r box(4) h box(6)])
  obtain u' where u: "mailbox_ok L P impl B C w' box'" "imapUser s' 1 = Some u'" "boxes u' InboxFolderName = Some box'"
    using st(2) by (auto simp: inbox_ready_def)
  obtain d where "BitmessageByUID (store_deps L P impl B C) w' box' i = Ret (box', Some ((stored b)\<lparr>Imap := Some d\<rparr>))"
    by (rule stored_fetched [OF u(1) _ _ st(5), of i]) (use st(3,4) box(5) in simp_all)
  with st(1,3,6-9) u newMessage_counters [OF st(1)] show ?thesis
    by (intro exI [of _ w'] exI [of _ s'] exI [of _ u'] exI [of _ box'] exI [of _ "(stored b)\<lparr>Imap := Some d\<rparr>"])
      (simp add: same_counters_def stored_def)
qed

text \<open>
  C32. The objects of a stream of messages are handled one after the other in the order in which they arrive: when the user's
  identities decrypt them, the \<open>j\<close>-th is in the inbox under the \<open>j\<close>-th uid after those that were there, from its sender, to the
  address that decrypted it and with its content, the messages that were there are unchanged, and the acks are handed to the node
  in the same order.  The counter of messages is then that of the last object, and the other counters are as before; so a restart
  asks the node for the objects after the last one that was handled.
\<close>

theorem stream_received:
  assumes D: "sbox D = store_deps L P impl B C"
    and g: "grpc_GetObjects R (conn cl) ObjectType_MESSAGE n = None"
    and s: "users s = [1 \<mapsto> mu]" "imapUser s 1 = Some u" "boxes u InboxFolderName = Some box" "mailbox_ok L P impl B C w box"
      "NextID (store_Folder B C) (mbox box) = i"
    and len: "unat i + length ms < 2 ^ 64" "seq_small (uids box @ uids_from i (length ms))"
    and ms: "list_all2 (\<lambda>(_, ob). receivable D L P impl B C (clock w) box (Keys mu) ob) (delivered rs) ms"
  shows "\<exists>w' s' u' box'. processObjects R cl ObjectType_MESSAGE n (\<lambda>(w, s). newMessage D w s) (w, s) rs = Ret (w', s') \<and>
    imapUser s' 1 = Some u' \<and> boxes u' InboxFolderName = Some box' \<and> mailbox_ok L P impl B C w' box' \<and>
    uids box' = uids box @ uids_from i (length ms) \<and>
    (\<forall>j < length ms. \<exists>b. BitmessageByUID (store_deps L P impl B C) w' box' (i + of_nat j) = Ret (box', Some b) \<and> mail_from_to b (ms ! j)) \<and>
    (\<forall>k < i. store_msgs B C w' (mbox box') k = store_msgs B C w (mbox box) k) \<and>
    bmd s' = ack_each D (bmd s) ms \<and>
    same_counters (s\<lparr>msgCounter := (if ms = [] then msgCounter s else fst (last (delivered rs)))\<rparr>) s'"
proof -
  let ?D = "store_deps L P impl B C" and ?h = "\<lambda>(w, s). newMessage D w s"
  have l: "length (delivered rs) = length ms" using ms by (rule list_all2_lengthD)
  have r: "inbox_ready L P impl B C (clock w) mu w s box i" using s by (simp add: inbox_ready_def)
  obtain w' s' box' where re: "run_each ?h (w, s) (delivered rs) = Ret (w', s')"
    "inbox_ready L P impl B C (clock w) mu w' s' box' (i + of_nat (length ms))" "uids box' = uids box @ uids_from i (length ms)"
    "\<forall>j < length ms. \<exists>b enc. store_msgs B C w' (mbox box') (i + of_nat j) = Some (2, enc) \<and> storable store_fits ?D b enc \<and> mail_from_to b (ms ! j)"
    "\<forall>k < i. store_msgs B C w' (mbox box') k = store_msgs B C w (mbox box) k" "bmd s' = ack_each D (bmd s) ms"
    using messages_stored [OF D r _ ms] len(1) unfolding l by blast
  obtain u' where u: "mailbox_ok L P impl B C w' box'" "imapUser s' 1 = Some u'" "boxes u' InboxFolderName = Some box'"
    using re(2) by (auto simp: inbox_ready_def)
  have "\<exists>b. BitmessageByUID ?D w' box' (i + of_nat j) = Ret (box', Some b) \<and> mail_from_to b (ms ! j)" if j: "j < length ms" for j
  proof -
    obtain b enc where b: "store_msgs B C w' (mbox box') (i + of_nat j) = Some (2, enc)" "storable store_fits ?D b enc" "mail_from_to b (ms ! j)"
      using re(4) j by blast
    obtain d where "BitmessageByUID ?D w' box' (i + of_nat j) = Ret (box', Some ((stored b)\<lparr>Imap := Some d\<rparr>))"
      by (rule stored_fetched [OF u(1) _ b(1,2)]) (use re(3) len(2) in simp)
    with b(3) show ?thesis by (auto simp: mail_from_to_def stored_def)
  qed
  moreover have p: "processObjects R cl ObjectType_MESSAGE n ?h (w, s) rs = Ret (w', s')"
    using g re(1) by (simp add: processObjects_def receive_loop_delivered)
  moreover have "same_counters (s\<lparr>msgCounter := (if ms = [] then msgCounter s else fst (last (delivered rs)))\<rparr>) s'"
    using messages_counted [OF p g] l by (simp flip: length_0_conv)
  ultimately show ?thesis using u re(3,5,6) by blast
qed
section \<open>A server\<close>

text \<open>
  A server with one user, whose identity is BM-2cU, and an inbox of three messages.  An object is encrypted for the address
  that stands at its beginning; the connection to the node is the list of the objects sent.
\<close>

definition srv_obj :: "(string, ref_id, string, bytes) objlib" where
  "srv_obj =
     \<lparr>Message_Decode = (\<lambda>b. if b = [] then Inl (ErrExt ''EOF'') else Inr b), Message_Encrypted = (\<lambda>e. e),
      TryDecryptAndVerifyMessage = (\<lambda>e ((a, s, d), v, x). if take (length a) e = a
        then Inr \<lparr>sender_address = ''BM-2cT'', object_expiration = \<lparr>t_sec = 7, t_nsec = 9, t_zone = None\<rparr>,
          message_content = Encoding2 ''hi'' ''text'', message_ack = None\<rparr> else Inl (ErrExt ''decryption'')),
      DecodeBroadcast = (\<lambda>b. if b = [] then Inl (ErrExt ''EOF'') else Inr b), Broadcast_Encrypted = (\<lambda>e. e),
      TryDecryptAndVerifyBroadcast = (\<lambda>e a. if take (length a) e = a
        then Inr \<lparr>sender_address = ''BM-'' @ a, object_expiration = zero_time, message_content = Encoding2 ''hi'' ''text'', message_ack = None\<rparr>
        else Inl (ErrExt ''decryption'')),
      GetPubKey_Decode = (\<lambda>b. if b = [] then Inl (ErrExt ''EOF'') else Inr \<lparr>gp_Version = 4, gp_Ripe = [], gp_Tag = b\<rparr>),
      MsgObject_Decode = (\<lambda>b. None), object_Hash = (\<lambda>b. b), AckLength = 5, MessageHeaderSize = 24,
      SimplePubKeyVersion = 2, ExtendedPubKeyVersion = 3, TagGetPubKeyVersion = 4, address_Ripe = (\<lambda>a. a), address_Tag = (\<lambda>a. a),
      GeneratePubKey = (\<lambda>t p e. Inr (''public key of '' @ fmt_d (unat (t_sec t)))), NewGetPubKey = (\<lambda>t a. ''getpubkey'' @ a),
      pow_Default = \<lparr>NonceTrialsPerByte = 1000, ExtraBytes = 1000\<rparr>,
      objectType_num = (\<lambda>t. case t of ObjectTypeGetPubKey \<Rightarrow> 0 | ObjectTypePubKey \<Rightarrow> 1 | ObjectTypeMsg \<Rightarrow> 2 | ObjectTypeBroadcast \<Rightarrow> 3 | ObjectTypeOther \<Rightarrow> 4)\<rparr>"

definition srv_bmd :: "(bytes list, bytes, string, string) bmdlib" where
  "srv_bmd =
     \<lparr>NewClientTLSFromFile = (\<lambda>_. None), Dial = (\<lambda>_. Inr []),
      grpc_GetIdentity = (\<lambda>n a. (n, if a = ''InvalidAddress'' then Inl (InvalidArgument, ErrExt ''invalid address'')
        else Inl (NotFound, ErrExt ''not found''))),
      grpc_SendObject = (\<lambda>n b. (n @ [b], Inr 1)), grpc_GetObjects = (\<lambda>n t k. None), conn_Close = (\<lambda>n. n),
      ParsePubKey = (\<lambda>b. Inr b), NewPublic = (\<lambda>y z v t b d. Inr y), address_Version = (\<lambda>_. 4), address_Stream = (\<lambda>_. 1)\<rparr>"

definition srv_deps where
  "srv_deps =
     \<lparr>sbolt = ref_bolt, scrypto = ref_crypto, sident = ref_identity, sjson = ref_json, sbm = ref_bmutil, sbox = demo_deps,
      snet = ref_net, spub = \<lparr>q_Address = (\<lambda>a :: string. Some a), q_Behavior = (\<lambda>_. 1), q_Pow = (\<lambda>_. None)\<rparr>,
      stext = (\<lambda>_. []), sobj = srv_obj, sbmd = srv_bmd, ssys = ref_sys, net_Listen = (\<lambda>_. None), GRPCServer = (\<lambda>_. None)\<rparr>"

lemma srv_deps_simps [simp]: "sbolt srv_deps = ref_bolt" "scrypto srv_deps = ref_crypto" "sident srv_deps = ref_identity"
  "sjson srv_deps = ref_json" "sbm srv_deps = ref_bmutil" "sbox srv_deps = demo_deps" "snet srv_deps = ref_net"
  "sobj srv_deps = srv_obj" "sbmd srv_deps = srv_bmd" "ssys srv_deps = ref_sys"
  by (simp_all add: srv_deps_def)

definition srv_keys :: "(string, ref_id) Manager" where
  "srv_keys = \<lparr>mdb = \<lparr>Version = 1, MasterKey = Some ''xprv'', NewIDIndex = 1,
     IDs = Some [''BM-2cU'' \<mapsto> demo_id ''BM-2cU'' False ''me'']\<rparr>, importedIDs = [], derivedIDs = [''BM-2cU'']\<rparr>"

definition srv_client :: "bytes list Client" where
  "srv_client = \<lparr>conn = [], cl_started = False, quit_closed = False, handlers = True\<rparr>"

definition srv_imap :: "(string, string, ref_id, string, nat, bytes list) imap_user" where
  "srv_imap =
     \<lparr>mu_username = ''bob'', boxes = [''Inbox'' \<mapsto> demo_box, ''Outbox'' \<mapsto> demo_box], acks = Map.empty, expiration = None,
      mu_keys = srv_keys, pm = None,
      server = \<lparr>pubIDs = Map.empty, ops_Keys = srv_keys, ops_bmd = srv_client, ops_pow = Pow_Queue.New\<rparr>\<rparr>"

definition srv_user :: "(string, ref_id) main_User" where
  "srv_user = \<lparr>Keys = srv_keys, Path = ''keys.dat'', mUsername = ''bob'', Pass = Some ''secret''\<rparr>"

definition srv :: "(string, string, string, ref_id, string, nat, bytes list) server" where
  "srv =
     \<lparr>bmd = srv_client, users = [1 \<mapsto> srv_user],
      sv_store = \<lparr>s_masterKey = None, s_users = [''bob'' \<mapsto> newUser None ''user:bob'' ''bob'' \<lparr>b_username = ''bob'', addrs = [''2cW'', ''2cX'']\<rparr>]\<rparr>,
      sv_pow = Pow_Queue.New, started = 0, shutdown = 0, msgCounter = 1, broadcastCounter = 1, getpubkeyCounter = 1,
      imapUser = [1 \<mapsto> srv_imap], imapListeners = [''127.0.0.1:1143''], smtpListeners = [''127.0.0.1:1587''],
      rpcServer = None, sv_quit = False\<rparr>"

lemma srv_simps [simp]: "users srv = [1 \<mapsto> srv_user]" "imapUser srv = [1 \<mapsto> srv_imap]" "Keys srv_user = srv_keys" "bmd srv = srv_client"
  "boxes srv_imap ''Inbox'' = Some demo_box" "boxes srv_imap ''Outbox'' = Some demo_box" "msgCounter srv = 1"
  by (simp_all add: srv_def srv_imap_def srv_user_def)

definition srv_object :: bytes where
  "srv_object = ''BM-2cU'' @ replicate 134 (CHR ''x'')"

definition srv_message :: cipher_message where
  "srv_message = \<lparr>sender_address = ''BM-2cT'', object_expiration = \<lparr>t_sec = 7, t_nsec = 9, t_zone = None\<rparr>,
     message_content = Encoding2 ''hi'' ''text'', message_ack = None\<rparr>"

lemma srv_ids: "ids_map srv_keys = [''BM-2cU'' \<mapsto> demo_id ''BM-2cU'' False ''me'']"
  by (simp add: srv_keys_def ids_map_def)

lemma srv_opens: "opens srv_deps srv_keys srv_object ''BM-2cU'' (demo_id ''BM-2cU'' False ''me'') srv_message"
  by (auto simp: opens_def srv_ids demo_id_def srv_obj_def srv_object_def srv_message_def split: if_splits)

lemma srv_bmail:
  "MsgRead srv_message ''BM-2cU'' False = Inr (demo_bmail\<lparr>Imap := None, State := None\<rparr>)"
  by (simp add: MsgRead_def srv_message_def demo_bmail_def BmToEmail_def)

lemma srv_storable: "storable_at store_fits demo_deps (clock demo_world) demo_box (demo_bmail\<lparr>Imap := None, State := None\<rparr>) 32"
proof -
  have "storable store_fits demo_deps (prepared_at (clock demo_world i) demo_box (demo_bmail\<lparr>Imap := None, State := None\<rparr>) 32) (be 4 0)" for i
    by (rule recent_storable) (simp add: prepared_at_def recent_bmail_def demo_bmail_def ref_world_def ref_env_def)
  then show ?thesis by (auto simp: storable_at_def)
qed

lemma message_received_witness:
  "\<exists>w' s' u' box' b'. newMessage srv_deps demo_world srv 9 srv_object = Ret (w', s') \<and> imapUser s' 1 = Some u' \<and>
    boxes u' InboxFolderName = Some box' \<and> uids box' = [1, 3, 4, 5] \<and>
    BitmessageByUID demo_deps w' box' 5 = Ret (box', Some b') \<and> From b' = ''BM-2cT@bm.addr'' \<and> To b' = ''BM-2cU@bm.addr'' \<and>
    Payload b' = Some (Encoding2 ''hi'' ''text'') \<and> msgCounter s' = 9"
proof -
  have m: "Message_Decode (sobj srv_deps) srv_object = Inr srv_object" "length srv_object \<noteq> AckLength (sobj srv_deps)"
    "minEncrypted < length (Message_Encrypted (sobj srv_deps) srv_object)"
    by (simp_all add: srv_obj_def srv_object_def minEncrypted_def)
  have a: "address_String (sident srv_deps) (demo_id ''BM-2cU'' False ''me'') = Ret ''BM-2cU''"
    by (simp add: address_String_def pid_Address_def demo_id_def ref_identity_def)
  have r: "MsgRead srv_message ''BM-2cU'' (IsChan (demo_id ''BM-2cU'' False ''me'')) = Inr (demo_bmail\<lparr>Imap := None, State := None\<rparr>)"
    using srv_bmail by (simp add: demo_id_def)
  have e: "env_ok demo_world" using ref_world_ok by (auto simp: world_ok_def)
  have b: "boxes srv_imap InboxFolderName = Some demo_box" by (simp add: InboxFolderName_def)
  have f: "FlagRecent ref_mail = 32" by (simp add: ref_mail_def)
  have u: "users srv = [1 \<mapsto> srv_user]" "imapUser srv 1 = Some srv_imap" by simp_all
  have k: "opens srv_deps (Keys srv_user) srv_object ''BM-2cU'' (demo_id ''BM-2cU'' False ''me'') srv_message" using srv_opens by simp
  from message_received [OF srv_deps_simps(6) e m u k a r b demo_box_ok demo_next [folded demo_box_fields(1)] _ _ srv_storable [folded f], of 9]
  show ?thesis by (auto simp: demo_small srv_message_def BmToEmail_def)
qed

lemma srv_holds:
  "holds_message srv_deps srv_keys srv_object srv_message ''BM-2cU'' False (demo_bmail\<lparr>Imap := None, State := None\<rparr>)"
proof -
  have "Message_Decode (sobj srv_deps) srv_object = Inr srv_object" "length srv_object \<noteq> AckLength (sobj srv_deps)"
    "minEncrypted < length (Message_Encrypted (sobj srv_deps) srv_object)"
    by (simp_all add: srv_obj_def srv_object_def minEncrypted_def)
  moreover have "address_String (sident srv_deps) (demo_id ''BM-2cU'' False ''me'') = Ret ''BM-2cU''"
    "\<not> IsChan (demo_id ''BM-2cU'' False ''me'')"
    by (simp_all add: address_String_def pid_Address_def demo_id_def ref_identity_def)
  ultimately show ?thesis using srv_opens srv_bmail by (auto simp: holds_message_def)
qed

lemma srv_receivable:
  "receivable srv_deps ref_mail (one_codec recent_pb) (\<lambda>_. 0) ref_bolt ref_crypto (clock demo_world) demo_box srv_keys srv_object
    (srv_message, ''BM-2cU'', False)"
  using srv_holds srv_storable by (auto simp: receivable_def ref_mail_def)

lemma stream_received_witness:
  "\<exists>w' s' u' box'. processObjects srv_bmd srv_client ObjectType_MESSAGE 1 (\<lambda>(w, s). newMessage srv_deps w s) (demo_world, srv)
      [RecvObject 8 srv_object, RecvObject 9 srv_object, RecvError (ErrExt ''transport is closing'')] = Ret (w', s') \<and>
    imapUser s' 1 = Some u' \<and> boxes u' InboxFolderName = Some box' \<and> uids box' = [1, 3, 4, 5, 6] \<and>
    (\<exists>b. BitmessageByUID demo_deps w' box' 5 = Ret (box', Some b) \<and> From b = ''BM-2cT@bm.addr'') \<and>
    (\<exists>b. BitmessageByUID demo_deps w' box' 6 = Ret (box', Some b) \<and> To b = ''BM-2cU@bm.addr'') \<and> msgCounter s' = 9"
proof -
  let ?rs = "[RecvObject 8 srv_object, RecvObject 9 srv_object, RecvError (ErrExt ''transport is closing'')]"
  let ?ms = "[(srv_message, ''BM-2cU'', False), (srv_message, ''BM-2cU'', False)]"
  have g: "grpc_GetObjects srv_bmd (conn srv_client) ObjectType_MESSAGE 1 = None" by (simp add: srv_bmd_def)
  have u: "users srv = [1 \<mapsto> srv_user]" "imapUser srv 1 = Some srv_imap" "boxes srv_imap InboxFolderName = Some demo_box"
    by (simp_all add: InboxFolderName_def)
  have l: "unat (5 :: u64) + length ?ms < 2 ^ 64" "seq_small (uids demo_box @ uids_from 5 (length ?ms))"
    by (simp_all add: uids_from_def seq_small_def)
  have r: "list_all2 (\<lambda>(_, ob). receivable srv_deps ref_mail (one_codec recent_pb) (\<lambda>_. 0) ref_bolt ref_crypto (clock demo_world) demo_box
      (Keys srv_user) ob) (delivered ?rs) ?ms"
    using srv_receivable by simp
  obtain w' s' u' box' where p: "processObjects srv_bmd srv_client ObjectType_MESSAGE 1 (\<lambda>(w, s). newMessage srv_deps w s) (demo_world, srv) ?rs = Ret (w', s')"
    "imapUser s' 1 = Some u'" "boxes u' InboxFolderName = Some box'" "uids box' = uids demo_box @ uids_from 5 (length ?ms)"
    "\<forall>j < length ?ms. \<exists>b. BitmessageByUID demo_deps w' box' (5 + of_nat j) = Ret (box', Some b) \<and> mail_from_to b (?ms ! j)"
    "same_counters (srv\<lparr>msgCounter := (if ?ms = [] then msgCounter srv else fst (last (delivered ?rs)))\<rparr>) s'"
    using stream_received [OF srv_deps_simps(6) g u demo_box_ok demo_next [folded demo_box_fields(1)] l r] by blast
  from p(5) [rule_format, of 0] p(5) [rule_format, of 1] p(1-4,6) show ?thesis
    by (auto simp: uids_from_def same_counters_def mail_from_to_def srv_message_def BmToEmail_def)
qed

section \<open>What users get when they send\<close>

text \<open>A message whose recipient is unknown to the cache, at the start of \<open>process\<close>.\<close>

definition ready_to_send where
  "ready_to_send D u m \<longleftrightarrow>
     (\<exists>a pid p ob. ToBm (mlib (sbox D)) (sbm D) (From m) = Inr a \<and> mgr_Get (mu_keys u) a = Some pid \<and> Private pid = Some p \<and>
        boxes u OutboxFolderName = Some ob \<and> getObject ob m = None)"

lemma process_asks:
  assumes "ready_to_send D u m"
  obtains f where "process (udeps_of D) w u m = go_bind (GetOrRequestPublicID D w (server u) (To m)) f"
    "\<And>w1 s1 e. e \<noteq> ErrGetPubKeySent \<Longrightarrow> e \<noteq> ErrAckMissing \<Longrightarrow> f (w1, s1, Inl e) = Ret (w1, u\<lparr>server := s1\<rparr>, m, Some e)"
proof -
  obtain a pid p ob where r: "ToBm (mlib (sbox D)) (sbm D) (From m) = Inr a" "mgr_Get (mu_keys u) a = Some pid"
    "Private pid = Some p" "boxes u OutboxFolderName = Some ob" "getObject ob m = None"
    using assms by (auto simp: ready_to_send_def)
  have "\<exists>f. process (udeps_of D) w u m = go_bind (GetOrRequestPublicID D w (server u) (To m)) f \<and>
    (\<forall>w1 s1 e. e \<noteq> ErrGetPubKeySent \<longrightarrow> e \<noteq> ErrAckMissing \<longrightarrow> f (w1, s1, Inl e) = Ret (w1, u\<lparr>server := s1\<rparr>, m, Some e))"
    using r by (auto simp: process_def generateObject_def udeps_of_def idmgr_Keys_def serverOps_ServerOps_def go_bind_assoc Let_def)
  then show thesis using that by blast
qed

lemma broadcast_address: "ParseAddress L Broadcast = Inr x \<Longrightarrow> ToBm L U Broadcast = Inr ''''"
  by (simp add: ToBm_def)

text \<open>
  A broadcast is never sent: \<open>ToBm\<close> gives the empty address for broadcast@bm.addr, which the server does not
  recognise, so it asks the node for the key of the empty address, and sending fails with the error of decoding it.
\<close>

theorem broadcast_not_sent:
  assumes "ready_to_send D u m" "To m = Broadcast" "ParseAddress (mlib (sbox D)) Broadcast = Inr x" "bmutil_ok (sbm D)"
    and "pubIDs (server u) '''' = None" "mgr_Get (ops_Keys (server u)) '''' = None"
  shows "process (udeps_of D) w u m = Ret (w, u, m, Some (ErrText ''Address decode failed: <nil>''))"
proof -
  obtain e where d: "DecodeAddress (sbm D) '''' = Inl e"
    using assms(4) by (cases "DecodeAddress (sbm D) ''''") (auto simp: bmutil_ok_def)
  have b: "ToBm (mlib (sbox D)) (sbm D) Broadcast = Inr ''''" "'''' \<noteq> Broadcast"
    using broadcast_address [OF assms(3)] by (simp_all add: Broadcast_def)
  have "GetOrRequestPublicID D w (server u) Broadcast = Ret (w, server u, Inl (ErrText ''Address decode failed: <nil>''))"
    using d assms(5,6) b
    by (simp add: GetOrRequestPublicID_def GetPrivateID_def getOrRequestPublicIdentity_def GetIdentity_def)
  with assms(2) show ?thesis
    by (rule_tac process_asks [OF assms(1), of w]) simp
qed

lemma pid_Public_none: "pid_Public p = None"
  using pid_Public_never [of p] by (meson option.exhaust)

text \<open>
  Sending a message to one of the user's own addresses never returns, because \<open>PrivateID.Public\<close> calls itself; the
  program dies with a stack overflow.
\<close>

theorem own_address_never_returns:
  assumes "ready_to_send D u m" "ToBm (mlib (sbox D)) (sbm D) (To m) = Inr a" "a \<noteq> Broadcast"
    and "pubIDs (server u) a = None" "mgr_Get (ops_Keys (server u)) a = Some pid"
  shows "process (udeps_of D) w u m = Block"
proof -
  have "GetOrRequestPublicID D w (server u) (To m) = Block"
    using assms(2-5) pid_Public_none [of pid] by (simp add: GetOrRequestPublicID_def GetPrivateID_def)
  then show ?thesis by (rule_tac process_asks [OF assms(1), of w]) simp
qed

lemma srv_ready: "ready_to_send srv_deps srv_imap (demo_bmail\<lparr>From := ''BM-2cU@bm.addr'', To := t\<rparr>)"
proof -
  have "ToBm ref_mail ref_bmutil ''BM-2cU@bm.addr'' = Inr ''BM-2cU''"
    by (simp add: ToBm_def ref_mail_def ref_bmutil_def emailRegex_def at_domain_def BitmessageRegex_def bm_chars_def
      before_at_def Broadcast_def)
  moreover have "mu_keys srv_imap = srv_keys" by (simp add: srv_imap_def)
  moreover have "objects demo_box = None" by (simp add: demo_box_def box_of_def refreshed_def)
  then have "getObject demo_box m = None" for m by (rule objects_None_getObject)
  moreover have "mlib demo_deps = ref_mail" by (simp add: store_deps_def)
  ultimately show ?thesis
    unfolding ready_to_send_def
    by (intro exI [of _ "''BM-2cU''"] exI [of _ "demo_id ''BM-2cU'' False ''me''"]
        exI [of _ "((''BM-2cU'', ''s'', ''d''), 1, \<lparr>NonceTrialsPerByte = 1000, ExtraBytes = 1000\<rparr>)"] exI [of _ demo_box])
      (simp add: mgr_Get_def srv_ids OutboxFolderName_def demo_id_def)
qed

lemma srv_ops: "pubIDs (server srv_imap) a = None" "ops_Keys (server srv_imap) = srv_keys"
  by (simp_all add: srv_imap_def)

lemma broadcast_not_sent_witness:
  "process (udeps_of srv_deps) demo_world srv_imap (demo_bmail\<lparr>From := ''BM-2cU@bm.addr'', To := Broadcast\<rparr>) =
    Ret (demo_world, srv_imap, demo_bmail\<lparr>From := ''BM-2cU@bm.addr'', To := Broadcast\<rparr>, Some (ErrText ''Address decode failed: <nil>''))"
proof (rule broadcast_not_sent [OF srv_ready, where x = Broadcast])
  show "ParseAddress (mlib (sbox srv_deps)) Broadcast = Inr Broadcast"
    by (simp add: store_deps_def ref_mail_def Broadcast_def)
qed (simp_all add: bmutil_ok_ref srv_ops mgr_Get_def srv_ids)

lemma own_address_never_returns_witness:
  "process (udeps_of srv_deps) demo_world srv_imap (demo_bmail\<lparr>From := ''BM-2cU@bm.addr'', To := ''BM-2cU@bm.addr''\<rparr>) = Block"
proof (rule own_address_never_returns [OF srv_ready, where a = "''BM-2cU''"])
  show "ToBm (mlib (sbox srv_deps)) (sbm srv_deps) (To (demo_bmail\<lparr>From := ''BM-2cU@bm.addr'', To := ''BM-2cU@bm.addr''\<rparr>)) = Inr ''BM-2cU''"
    by (simp add: store_deps_def ToBm_def ref_mail_def ref_bmutil_def emailRegex_def at_domain_def BitmessageRegex_def bm_chars_def
      before_at_def Broadcast_def)
  show "mgr_Get (ops_Keys (server srv_imap)) ''BM-2cU'' = Some (demo_id ''BM-2cU'' False ''me'')"
    by (simp add: srv_ops mgr_Get_def srv_ids)
qed (simp_all add: srv_ops Broadcast_def)

end
