(* ===== verification/Server_Objects.thy ===== *)
theory Server_Objects
  imports Server_Correct
begin

text \<open>
  What the server does with broadcasts and with requests for public keys, those it receives and those it sends.
\<close>

section \<open>Broadcasts\<close>

text \<open>
  A broadcast that is not from the first address a user subscribes to makes the server panic: after the failed decryption
  \<open>BroadcastRead\<close> is called with a nil broadcast.
\<close>

theorem broadcast_panics:
  assumes "env_ok w" "DecodeBroadcast (sobj D) ob = Inr msg" "minEncrypted < length (Broadcast_Encrypted (sobj D) msg)"
    and "s_users (sv_store s) = [n \<mapsto> u]" "addrs (u_broadcast u) = a # as"
    and "TryDecryptAndVerifyBroadcast (sobj D) msg a = Inl e"
  shows "newBroadcast D w s counter ob = Panic"
proof -
  have "range_names w (dom (s_users (sv_store s))) = (w\<lparr>tick := Suc (tick w)\<rparr>, [n])"
    using range_names_one [OF assms(1), of n] assms(4) by simp
  then show ?thesis using assms by (simp add: newBroadcast_def try_broadcast_def)
qed

lemma broadcast_panics_witness: "newBroadcast srv_deps demo_world srv 5 (''2cX'' @ replicate 140 (CHR ''x'')) = Panic"
proof -
  have e: "env_ok demo_world" using ref_world_ok by (auto simp: world_ok_def)
  show ?thesis
    by (rule broadcast_panics [OF e, where n = "''bob''" and a = "''2cW''" and as = "[''2cX'']"])
      (auto simp: srv_obj_def minEncrypted_def srv_def newUser_def)
qed

section \<open>Requests for public keys\<close>

lemma each_id_matches:
  assumes "ks a = Some pid" "match_key D g None pid = Ret (Some pid, Some e)"
    and "\<And>b q. b \<noteq> a \<Longrightarrow> ks b = Some q \<Longrightarrow> match_key D g None q = Ret (None, None)"
    and "a \<in> set as" "set as \<subseteq> dom ks"
  shows "each_id ks (match_key D g) None as = Ret (Some pid, Some e)"
  using assms(4,5)
proof (induction as)
  case (Cons b as)
  show ?case
  proof (cases "b = a")
    case False
    from Cons.prems obtain q where "ks b = Some q" by auto
    with assms(3) [OF False this] Cons False show ?thesis by simp
  qed (use assms in simp)
qed simp

lemma each_id_no_match:
  assumes "\<And>b q. ks b = Some q \<Longrightarrow> match_key D g None q = Ret (None, None)"
  shows "each_id ks (match_key D g) None as = Ret (None, None)"
  by (induction as) (auto simp: assms split: option.split)

text \<open>The request \<open>g\<close> asks for the key of an identity: for its ripe hash or for its tag, depending on the version.\<close>

definition asks_for ::
  "('db, 'k, 'b, 'c, 'o, 'a, 'p, 'q, 't, 'n, 'y, 'e, 'f, 'v) sdeps \<Rightarrow> getpubkey \<Rightarrow> string \<Rightarrow> bool" where
  "asks_for D g addr \<longleftrightarrow>
     (if gp_Version g = SimplePubKeyVersion (sobj D) \<or> gp_Version g = ExtendedPubKeyVersion (sobj D) then address_Ripe (sobj D) addr = gp_Ripe g
      else gp_Version g = TagGetPubKeyVersion (sobj D) \<and> address_Tag (sobj D) addr = gp_Tag g)"

definition answers ::
  "('db, 'k, 'b, 'c, 'o, 'a, 'p, 'q, 't, 'n, 'y, 'e, 'f, 'v) sdeps \<Rightarrow> getpubkey \<Rightarrow> 'p PrivateID \<Rightarrow> bool" where
  "answers D g pid \<longleftrightarrow> \<not> PrivateID.Disabled pid \<and> \<not> IsChan pid \<and> (\<exists>a. address_String (sident D) pid = Ret a \<and> asks_for D g a)"

lemma match_key_answers:
  assumes "address_String (sident D) pid = Ret a"
  shows "match_key D g None pid =
    (if answers D g pid then Ret (Some pid, Some (ErrText ''We have a match.'')) else Ret (None, None))"
proof -
  have "\<exists>x. pid_Address (sident D) pid = Ret x"
    using assms by (cases "pid_Address (sident D) pid") (simp_all add: address_String_def)
  with assms show ?thesis by (auto simp: match_key_def answers_def asks_for_def Let_def)
qed

lemma Run_rep:
  assumes "pow_rep q xs"
  obtains q' b where "Run q t ob f = Ret (q', b)" "pow_rep q' (xs @ [\<lparr>target = t, object = ob, donePowFunc = f\<rparr>])"
  using enqueue_rep [OF assms, of "\<lparr>target = t, object = ob, donePowFunc = f\<rparr>"] by (auto simp: Run_def)

text \<open>The orders that wait in the queue of the server are \<open>xs\<close>, and no other field of it matters.\<close>

abbreviation queued :: "('k, 'a, 'o, 'p, 'q, 't, 'n) server \<Rightarrow> ('t, server_task) powOrder list \<Rightarrow> bool" where
  "queued s xs \<equiv> pow_rep (sv_pow s) xs"

text \<open>The order for the answer \<open>pk\<close> that is made at the time \<open>now\<close>.\<close>

definition pubkey_order where
  "pubkey_order D pk now =
     (let b = drop 8 (EncodeObject (mcodec (sbox D)) pk)
      in \<lparr>target = CalculateTarget (snet D) (of_nat (length b)) (float_Seconds (snet D) (time_Sub (object_Expiration (snet D) pk) now))
            (pow_Default (sobj D)), object = b, donePowFunc = SendPubkey\<rparr>)"

lemma matched_answer:
  assumes D: "GetPubKey_Decode (sobj D) ob = Inr g"
    and m: "range_u32 w (dom (users (s\<lparr>getpubkeyCounter := n\<rparr>))) = (w1, is)"
      "match_users D w1 (users (s\<lparr>getpubkeyCounter := n\<rparr>)) g is = Ret (w\<lparr>tick := k\<rparr>, Some pid)" "Private pid = Some p"
    and s: "queued s xs"
    and enc: "\<And>t pk. GeneratePubKey (sobj D) t p defaultPubkeyExpiry = Inr pk \<Longrightarrow> 8 \<le> length (EncodeObject (mcodec (sbox D)) pk)"
  shows "\<exists>w' q'. newGetpubkey D w s n ob = Ret (w', s\<lparr>getpubkeyCounter := n, sv_pow := q'\<rparr>) \<and>
    pow_rep q' (xs @ (case GeneratePubKey (sobj D) (clock w k) p defaultPubkeyExpiry of
         Inl _ \<Rightarrow> []
       | Inr pk \<Rightarrow> [pubkey_order D pk (clock w (Suc k))]))"
proof (cases "GeneratePubKey (sobj D) (clock w k) p defaultPubkeyExpiry")
  case (Inl e)
  then have "newGetpubkey D w s n ob = Ret (w\<lparr>tick := Suc k\<rparr>, s\<lparr>getpubkeyCounter := n, sv_pow := sv_pow s\<rparr>)"
    using D m by (simp add: newGetpubkey_def time_Now_def)
  with s Inl show ?thesis by (intro exI [of _ "w\<lparr>tick := Suc k\<rparr>"] exI [of _ "sv_pow s"]) simp
next
  case (Inr pk)
  let ?o = "pubkey_order D pk (clock w (Suc k))"
  obtain q' b where q: "Run (sv_pow s) (target ?o) (object ?o) SendPubkey = Ret (q', b)" "pow_rep q' (xs @ [?o])"
    by (rule Run_rep [OF s, of "target ?o" "object ?o" SendPubkey]) (auto simp: pubkey_order_def Let_def)
  have "newGetpubkey D w s n ob = Ret (w\<lparr>tick := Suc (Suc k)\<rparr>, s\<lparr>getpubkeyCounter := n, sv_pow := q'\<rparr>)"
    using D m Inr q(1) enc [OF Inr] by (simp add: newGetpubkey_def time_Now_def pubkey_order_def Let_def)
  with q(2) Inr show ?thesis by auto
qed

text \<open>
  C33. A request for a public key.  When it asks for the key of an identity that is neither disabled nor a channel, the public
  key is generated at the current time and, if that does not fail, exactly one order, for this key without its nonce and with
  the target of its expiration, is added to the proof-of-work queue; when it asks for none, nothing changes but the counter.
\<close>

theorem getpubkey_answered:
  assumes D: "env_ok w" "GetPubKey_Decode (sobj D) ob = Inr g"
    and s: "users s = [1 \<mapsto> mu]" "finite (dom (ids_map (Keys mu)))" "queued s xs"
    and ids: "\<And>b q. ids_map (Keys mu) b = Some q \<Longrightarrow> \<exists>a. address_String (sident D) q = Ret a"
    and one: "\<And>b q. b \<noteq> a \<Longrightarrow> ids_map (Keys mu) b = Some q \<Longrightarrow> \<not> answers D g q"
    and a: "ids_map (Keys mu) a = Some pid" "Private pid = Some p"
    and enc: "\<And>t pk. GeneratePubKey (sobj D) t p defaultPubkeyExpiry = Inr pk \<Longrightarrow> 8 \<le> length (EncodeObject (mcodec (sbox D)) pk)"
  shows "\<exists>w' q'. newGetpubkey D w s n ob = Ret (w', s\<lparr>getpubkeyCounter := n, sv_pow := q'\<rparr>) \<and>
    pow_rep q' (xs @ (if answers D g pid then
      (case GeneratePubKey (sobj D) (clock w (tick w + 2)) p defaultPubkeyExpiry of
         Inl _ \<Rightarrow> []
       | Inr pk \<Rightarrow> [pubkey_order D pk (clock w (tick w + 3))]) else []))"
proof -
  let ?w = "w\<lparr>tick := Suc (tick w)\<rparr>" and ?s = "s\<lparr>getpubkeyCounter := n\<rparr>" and ?ks = "ids_map (Keys mu)"
  let ?as = "name_order ?w (tick ?w) (dom ?ks)"
  have r: "range_u32 w (dom (users ?s)) = (?w, [1])" using range_u32_one [OF D(1), of 1] s(1) by simp
  have as: "a \<in> set ?as" "set ?as \<subseteq> dom ?ks" using env_ok_names [of ?w "dom ?ks" "tick ?w"] D(1) s(2) a(1) by auto
  have mk: "match_key D g None q = (if answers D g q then Ret (Some q, Some (ErrText ''We have a match.'')) else Ret (None, None))"
    if "?ks b = Some q" for b q using ids [OF that] match_key_answers by blast
  show ?thesis
  proof (cases "answers D g pid")
    case True
    have o: "match_key D g None q = Ret (None, None)" if "b \<noteq> a" "?ks b = Some q" for b q using mk [OF that(2)] one [OF that] by simp
    have "each_id ?ks (match_key D g) None ?as = Ret (Some pid, Some (ErrText ''We have a match.''))"
      by (rule each_id_matches [OF a(1) _ _ as]) (use mk [OF a(1)] True o in auto)
    then have m: "match_users D ?w (users ?s) g [1] = Ret (w\<lparr>tick := tick w + 2\<rparr>, Some pid)"
      using s(1) by (simp add: mgr_ForEach_def range_names_def)
    have "Suc (tick w + 2) = tick w + 3" by simp
    with matched_answer [OF D(2) r m a(2) s(3)] enc True show ?thesis by (simp only: if_True)
  next
    case False
    have "match_key D g None q = Ret (None, None)" if "?ks b = Some q" for b q
      using mk [OF that] one [of b q] that a(1) False by (cases "b = a") auto
    then have "each_id ?ks (match_key D g) None ?as = Ret (None, None)" by (rule each_id_no_match)
    then have "match_users D ?w (users ?s) g [1] = Ret (?w\<lparr>tick := Suc (tick ?w)\<rparr>, None)"
      using s(1) by (simp add: mgr_ForEach_def range_names_def)
    then have "newGetpubkey D w s n ob = Ret (?w\<lparr>tick := Suc (tick ?w)\<rparr>, s\<lparr>getpubkeyCounter := n, sv_pow := sv_pow s\<rparr>)"
      using D(2) r by (simp add: newGetpubkey_def)
    with s(3) False show ?thesis
      by (intro exI [of _ "?w\<lparr>tick := Suc (tick ?w)\<rparr>"] exI [of _ "sv_pow s"]) simp
  qed
qed

lemma srv_queued: "queued srv []"
  by (auto simp: srv_def pow_rep_def Pow_Queue.New_def intro!: exI [of _ "[]"])

lemma getpubkey_answered_witness:
  "\<exists>w' q'. newGetpubkey srv_deps demo_world srv 4 ''BM-2cU'' = Ret (w', srv\<lparr>getpubkeyCounter := 4, sv_pow := q'\<rparr>) \<and>
    pow_rep q' [pubkey_order srv_deps (''public key of '' @ fmt_d (unat (t_sec (clock demo_world (tick demo_world + 2)))))
      (clock demo_world (tick demo_world + 3))]"
proof -
  let ?id = "demo_id ''BM-2cU'' False ''me''" and ?g = "\<lparr>gp_Version = 4, gp_Ripe = [], gp_Tag = ''BM-2cU''\<rparr>"
  have e: "env_ok demo_world" using ref_world_ok by (auto simp: world_ok_def)
  have ad: "address_String ref_identity ?id = Ret ''BM-2cU''"
    by (simp add: address_String_def pid_Address_def demo_id_def ref_identity_def)
  have an: "answers srv_deps ?g ?id" using ad by (simp add: answers_def asks_for_def srv_obj_def) (simp add: demo_id_def)
  have g: "GetPubKey_Decode (sobj srv_deps) ''BM-2cU'' = Inr ?g" by (simp add: srv_obj_def)
  have k: "GeneratePubKey (sobj srv_deps) t p x = Inr (''public key of '' @ fmt_d (unat (t_sec t)))" for t p x by (simp add: srv_obj_def)
  have l: "8 \<le> length (EncodeObject (mcodec (sbox srv_deps)) pk)" if "GeneratePubKey (sobj srv_deps) t p x = Inr pk" for t p x pk
    using that unfolding k by (auto simp: store_deps_def one_codec_def table_codec_def)
  have h: "\<exists>a. address_String (sident srv_deps) q = Ret a" if "ids_map (Keys srv_user) b = Some q" for b q
    using that ad by (auto simp: srv_ids split: if_splits)
  have o: "\<not> answers srv_deps ?g q" if "b \<noteq> ''BM-2cU''" "ids_map (Keys srv_user) b = Some q" for b q
    using that by (simp add: srv_ids)
  have i: "finite (dom (ids_map (Keys srv_user)))" "ids_map (Keys srv_user) ''BM-2cU'' = Some ?id"
    "Private ?id = Some ((''BM-2cU'', ''s'', ''d''), 1, \<lparr>NonceTrialsPerByte = 1000, ExtraBytes = 1000\<rparr>)"
    by (simp_all add: srv_ids demo_id_def)
  from getpubkey_answered [OF e g srv_simps(1) i(1) srv_queued h o i(2,3) l, where n = 4] an
  show ?thesis by (simp only: if_True append_Nil k sum.case)
qed

section \<open>Requesting a key\<close>

lemma request_queued:
  assumes a: "ToBm (mlib (sbox D)) (sbm D) addr = Inr a" "a \<noteq> Broadcast" "pubIDs s a = None" "GetPrivateID s a = None"
    and x: "DecodeAddress (sbm D) a = Inr x"
    and n: "grpc_GetIdentity (sbmd D) (conn (ops_bmd s)) a = (n1, Inl (NotFound, err))"
    and q: "pow_rep (ops_pow s) xs" "\<And>t. 8 \<le> length (EncodeObject (mcodec (sbox D)) (NewGetPubKey (sobj D) t x))"
  shows "\<exists>w' s' ord t. GetOrRequestPublicID D w s addr = Ret (w', s', Inl ErrGetPubKeySent) \<and> pubIDs s' = pubIDs s \<and>
    pow_rep (ops_pow s') (xs @ [ord]) \<and> object ord = drop 8 (EncodeObject (mcodec (sbox D)) (NewGetPubKey (sobj D) t x)) \<and>
    donePowFunc ord = RequestPubkey a"
proof -
  let ?t = "time_Add (clock w (tick w)) defaultGetpubkeyExpiry"
  let ?m = "NewGetPubKey (sobj D) ?t x" and ?s = "s\<lparr>ops_bmd := (ops_bmd s)\<lparr>conn := n1\<rparr>\<rparr>"
  let ?b = "drop 8 (EncodeObject (mcodec (sbox D)) ?m)"
  define t where "t = CalculateTarget (snet D) (of_nat (length ?b))
    (float_Seconds (snet D) (time_Sub (object_Expiration (snet D) ?m) (clock w (Suc (tick w))))) (pow_Default (sobj D))"
  let ?ord = "\<lparr>target = t, object = ?b, donePowFunc = RequestPubkey a\<rparr>"
  obtain q' c where r: "Run (ops_pow s) t ?b (RequestPubkey a) = Ret (q', c)" "pow_rep q' (xs @ [?ord])"
    by (rule Run_rep [OF q(1)]) blast
  have "getOrRequestPublicIdentity D w s a = Ret (w\<lparr>tick := Suc (Suc (tick w))\<rparr>, ?s\<lparr>ops_pow := q'\<rparr>, Inr None)"
    using x n q(2) [of ?t] r(1) unfolding t_def
    by (simp add: getOrRequestPublicIdentity_def GetIdentity_def time_Now_def Let_def)
  then have g: "GetOrRequestPublicID D w s addr = Ret (w\<lparr>tick := Suc (Suc (tick w))\<rparr>, ?s\<lparr>ops_pow := q'\<rparr>, Inl ErrGetPubKeySent)"
    using a by (simp add: GetOrRequestPublicID_def)
  show ?thesis
    by (rule exI [of _ "w\<lparr>tick := Suc (Suc (tick w))\<rparr>"], rule exI [of _ "?s\<lparr>ops_pow := q'\<rparr>"], rule exI [of _ ?ord], rule exI [of _ ?t])
      (use g r(2) in simp)
qed

lemma request_recorded:
  assumes "pk_inv (sbolt D) w R" "MarshalBinary (clock w (tick w)) = Inr b" "donePowFunc ord = RequestPubkey a" "a \<noteq> []" "length a \<le> MaxKeySize"
  shows "\<exists>w'. server_done D w sv ord nonce = Ret (w', fst (server_Send D sv (nonce @ object ord))) \<and>
    pk_inv (sbolt D) w' (R(a \<mapsto> (pk_next R a, clock w (tick w))))"
proof -
  obtain w' where "pk_New (sbolt D) w a = Ret (w', Inr (pk_next R a))" "pk_inv (sbolt D) w' (R(a \<mapsto> (pk_next R a, clock w (tick w))))"
    using pk_new [OF assms(1,4,5,2)] by blast
  with assms(3) show ?thesis by (cases "server_Send D sv (nonce @ object ord)") (simp add: server_done_def)
qed

text \<open>
  C34.  Asking for the key of an address that neither the cache nor the key manager nor the node knows queues one order for a
  request and returns \<open>ErrGetPubKeySent\<close>.  When the proof of work of this order is done, the request is handed to the node
  with its nonce in front, and recorded with the time and one more than the count of the requests made before.
\<close>

theorem pubkey_requested:
  assumes a: "ToBm (mlib (sbox D)) (sbm D) addr = Inr a" "a \<noteq> Broadcast" "pubIDs s a = None" "GetPrivateID s a = None"
    and x: "DecodeAddress (sbm D) a = Inr x" "a \<noteq> []" "length a \<le> MaxKeySize"
    and n: "grpc_GetIdentity (sbmd D) (conn (ops_bmd s)) a = (n1, Inl (NotFound, err))"
    and q: "pow_rep (ops_pow s) xs" "\<And>t. 8 \<le> length (EncodeObject (mcodec (sbox D)) (NewGetPubKey (sobj D) t x))"
  shows "\<exists>w' s' ord t. GetOrRequestPublicID D w s addr = Ret (w', s', Inl ErrGetPubKeySent) \<and> pubIDs s' = pubIDs s \<and>
    pow_rep (ops_pow s') (xs @ [ord]) \<and> object ord = drop 8 (EncodeObject (mcodec (sbox D)) (NewGetPubKey (sobj D) t x)) \<and>
    (\<forall>w2 sv R nonce b. pk_inv (sbolt D) w2 R \<longrightarrow> MarshalBinary (clock w2 (tick w2)) = Inr b \<longrightarrow>
      (\<exists>w3. server_done D w2 sv ord nonce = Ret (w3, fst (server_Send D sv (nonce @ object ord))) \<and>
        pk_inv (sbolt D) w3 (R(a \<mapsto> (pk_next R a, clock w2 (tick w2))))))"
  using request_queued [OF a x(1) n q, of w] request_recorded [where D = D and a = a, OF _ _ _ x(2,3)] by blast

lemma pubkey_requested_witness:
  "\<exists>w' s' ord t. GetOrRequestPublicID srv_deps demo_world (server srv_imap) ''BM-2cT@bm.addr'' = Ret (w', s', Inl ErrGetPubKeySent) \<and>
    pow_rep (ops_pow s') [ord] \<and> object ord = drop 8 (EncodeObject (mcodec demo_deps) (NewGetPubKey srv_obj t ''2cT''))"
proof -
  have t: "ToBm (mlib (sbox srv_deps)) (sbm srv_deps) ''BM-2cT@bm.addr'' = Inr ''BM-2cT''"
    by (simp add: store_deps_def ToBm_def ref_mail_def ref_bmutil_def emailRegex_def at_domain_def BitmessageRegex_def bm_chars_def
      before_at_def Broadcast_def)
  have g: "GetPrivateID (server srv_imap) ''BM-2cT'' = None" by (simp add: GetPrivateID_def srv_ops mgr_Get_def srv_ids)
  have d: "DecodeAddress (sbm srv_deps) ''BM-2cT'' = Inr ''2cT''" by (simp add: ref_bmutil_def)
  have n: "grpc_GetIdentity (sbmd srv_deps) (conn (ops_bmd (server srv_imap))) ''BM-2cT'' = ([], Inl (NotFound, ErrExt ''not found''))"
    by (simp add: srv_bmd_def srv_imap_def srv_client_def)
  have q: "pow_rep (ops_pow (server srv_imap)) []" using srv_queued by (simp add: srv_imap_def srv_def)
  have l: "8 \<le> length (EncodeObject (mcodec (sbox srv_deps)) (NewGetPubKey (sobj srv_deps) t ''2cT''))" for t
    by (simp add: store_deps_def one_codec_def table_codec_def srv_obj_def)
  have m: "''BM-2cT'' \<noteq> Broadcast" "''BM-2cT'' \<noteq> []" "length ''BM-2cT'' \<le> MaxKeySize" by (simp_all add: Broadcast_def MaxKeySize_def)
  from pubkey_requested [OF t m(1) srv_ops(1) g d m(2,3) n q l, where w = demo_world] show ?thesis
    unfolding append_Nil srv_deps_simps by blast
qed

end
