(* ===== verification/Server_Saving.thy ===== *)
theory Server_Saving
  imports Server_Objects
begin

text \<open>
  What the server saves and how it stops.
\<close>

section \<open>Saving and loading\<close>

text \<open>In the file system \<open>fs\<close> the file \<open>p\<close> can be written, and what was written is read back.\<close>

definition file_writable :: "('f, 'v) sys \<Rightarrow> 'f \<Rightarrow> string \<Rightarrow> bool" where
  "file_writable S fs p \<longleftrightarrow> (\<forall>b. \<exists>fs'. os_WriteFile S fs p b = (fs', None) \<and> os_ReadFile S fs' p = Inr b)"

text \<open>The types of the three counters are numbered differently.\<close>

definition types_ok :: "('o, 'p, 'a, 'e) objlib \<Rightarrow> bool" where
  "types_ok ol \<longleftrightarrow> inj_on (objectType_num ol) {ObjectTypeMsg, ObjectTypeBroadcast, ObjectTypeGetPubKey}"

lemma SetCounters_load:
  assumes w: "world_ok (sbolt D) C w" "obs (sbolt D) (content (wdb w)) counters_path = Some mc" "counters_ok mc"
    and t: "types_ok (sobj D)"
  obtains w1 w2 w3 where
    "SetCounter (sbolt D) w (objectType_num (sobj D) ObjectTypeMsg) m = Ret (w1, None)"
    "SetCounter (sbolt D) w1 (objectType_num (sobj D) ObjectTypeBroadcast) b = Ret (w2, None)"
    "SetCounter (sbolt D) w2 (objectType_num (sobj D) ObjectTypeGetPubKey) g = Ret (w3, None)"
    "world_ok (sbolt D) C w3"
    "\<And>s. load_counters D w3 s = Ret (s\<lparr>msgCounter := m, broadcastCounter := b, getpubkeyCounter := g\<rparr>)"
proof -
  let ?B = "sbolt D" and ?n = "objectType_num (sobj D)"
  obtain c1 where c1: "SetCounter ?B w (?n ObjectTypeMsg) m = Ret (w\<lparr>wdb := (wdb w)\<lparr>content := c1\<rparr>\<rparr>, None)"
      "world_ok ?B C (w\<lparr>wdb := (wdb w)\<lparr>content := c1\<rparr>\<rparr>)"
      "obs ?B c1 counters_path = Some (mc(PutUint32 (?n ObjectTypeMsg) \<mapsto> Some (PutUint64 m)))"
      "counters_ok (mc(PutUint32 (?n ObjectTypeMsg) \<mapsto> Some (PutUint64 m)))"
    using SetCounter_step [OF w] by blast
  let ?w1 = "w\<lparr>wdb := (wdb w)\<lparr>content := c1\<rparr>\<rparr>"
  have o1: "obs ?B (content (wdb ?w1)) counters_path = Some (mc(PutUint32 (?n ObjectTypeMsg) \<mapsto> Some (PutUint64 m)))"
    using c1(3) by simp
  obtain c2 where c2: "SetCounter ?B ?w1 (?n ObjectTypeBroadcast) b = Ret (?w1\<lparr>wdb := (wdb ?w1)\<lparr>content := c2\<rparr>\<rparr>, None)"
      "world_ok ?B C (?w1\<lparr>wdb := (wdb ?w1)\<lparr>content := c2\<rparr>\<rparr>)"
      "obs ?B c2 counters_path = Some (mc(PutUint32 (?n ObjectTypeMsg) \<mapsto> Some (PutUint64 m),
        PutUint32 (?n ObjectTypeBroadcast) \<mapsto> Some (PutUint64 b)))"
      "counters_ok (mc(PutUint32 (?n ObjectTypeMsg) \<mapsto> Some (PutUint64 m), PutUint32 (?n ObjectTypeBroadcast) \<mapsto> Some (PutUint64 b)))"
    using SetCounter_step [OF c1(2) o1 c1(4)] by blast
  let ?w2 = "?w1\<lparr>wdb := (wdb ?w1)\<lparr>content := c2\<rparr>\<rparr>"
  have o2: "obs ?B (content (wdb ?w2)) counters_path = Some (mc(PutUint32 (?n ObjectTypeMsg) \<mapsto> Some (PutUint64 m),
        PutUint32 (?n ObjectTypeBroadcast) \<mapsto> Some (PutUint64 b)))" using c2(3) by simp
  let ?mc = "mc(PutUint32 (?n ObjectTypeMsg) \<mapsto> Some (PutUint64 m), PutUint32 (?n ObjectTypeBroadcast) \<mapsto> Some (PutUint64 b),
    PutUint32 (?n ObjectTypeGetPubKey) \<mapsto> Some (PutUint64 g))"
  obtain c3 where c3: "SetCounter ?B ?w2 (?n ObjectTypeGetPubKey) g = Ret (?w2\<lparr>wdb := (wdb ?w2)\<lparr>content := c3\<rparr>\<rparr>, None)"
      "world_ok ?B C (?w2\<lparr>wdb := (wdb ?w2)\<lparr>content := c3\<rparr>\<rparr>)" "obs ?B c3 counters_path = Some ?mc" "counters_ok ?mc"
    using SetCounter_step [OF c2(2) o2 c2(4)] by blast
  let ?w3 = "?w2\<lparr>wdb := (wdb ?w2)\<lparr>content := c3\<rparr>\<rparr>"
  have o3: "obs ?B (content (wdb ?w3)) counters_path = Some ?mc" using c3(3) by simp
  have "?n ObjectTypeMsg \<noteq> ?n ObjectTypeBroadcast" "?n ObjectTypeMsg \<noteq> ?n ObjectTypeGetPubKey"
      "?n ObjectTypeBroadcast \<noteq> ?n ObjectTypeGetPubKey"
    using t by (auto simp: types_ok_def inj_on_def)
  then have "load_counters D ?w3 s = Ret (s\<lparr>msgCounter := m, broadcastCounter := b, getpubkeyCounter := g\<rparr>)" for s
    unfolding load_counters_def load_counter_def GetCounter_step [OF c3(2) o3 c3(4)]
    by (simp add: PutUint32_inject unbe_PutUint64)
  then show thesis using that c1(1) c2(1) c3(1,2) by blast
qed

lemma saveData_reopens:
  fixes D :: "('db, 'k, 'b, 'c, 'o, 'a, 'p, 'q, 't, 'n, 'y, 'e, 'f, 'v) sdeps"
    and s :: "('k, 'a, 'o, 'p, 'q, 't, 'n) server"
  assumes w: "world_ok (sbolt D) (scrypto D) w" "obs (sbolt D) (content (wdb w)) counters_path = Some mc" "counters_ok mc"
    and D: "types_ok (sobj D)" "file_writable (ssys D) fs (Path mu)" "json_ok (sjson D)"
    and u: "users s = [1 \<mapsto> mu]" "Pass mu = Some p" "mgr_ok (Keys mu)" "mgr_saved (sident D) (Keys mu)"
  shows "\<exists>w' fs' enc w'' mgr'. saveData D w fs s = Ret (w', fs') \<and>
    (\<forall>t :: ('k, 'a, 'o, 'p, 'q, 't, 'n) server. \<exists>t'. load_counters D w' t = Ret t' \<and> same_counters s t') \<and>
    os_ReadFile (ssys D) fs' (Path mu) = Inr enc \<and>
    FromEncrypted (sident D) (sjson D) (scrypto D) w' enc p = Ret (w'', Inr mgr') \<and> mdb mgr' = mdb (Keys mu)"
proof -
  let ?w = "w\<lparr>tick := Suc (tick w)\<rparr>"
  have e: "crypto_ok (scrypto D)" "env_ok w" "rnd_live w" using w(1) by (simp_all add: world_ok_def)
  obtain w1 enc where x: "ExportEncrypted (sident D) (sjson D) (scrypto D) ?w (Keys mu) p = Ret (w1, Inr enc)"
      "\<forall>v :: 'db world. env_ok v \<longrightarrow> (\<exists>v' m'. FromEncrypted (sident D) (sjson D) (scrypto D) v enc p = Ret (v', Inr m') \<and> mdb m' = mdb (Keys mu) \<and> mgr_ok m')"
    using keyfile_saved [of "scrypto D" ?w "sjson D" "Keys mu" "sident D" p] e D(3) u(3,4) by auto
  obtain k where "w1 = ?w\<lparr>tick := k\<rparr>" using ExportEncrypted_tick [OF x(1)] by blast
  then have w1: "w1 = w\<lparr>tick := k\<rparr>" by simp
  obtain fs' where f: "os_WriteFile (ssys D) fs (Path mu) enc = (fs', None)" "os_ReadFile (ssys D) fs' (Path mu) = Inr enc"
    using D(2) unfolding file_writable_def by blast
  have "range_u32 w (dom (users s)) = (?w, [1])" using range_u32_one [OF e(2), of 1] u(1) by simp
  moreover have "save_users D ?w fs (users s) [1] = Ret (w1, fs')"
    using u(1,2) x(1) f(1) by (simp add: SaveKeyfile_def saveKeyfile_def)
  moreover obtain w2 w3 w4 where c: "SetCounter (sbolt D) w1 (objectType_num (sobj D) ObjectTypeMsg) (msgCounter s) = Ret (w2, None)"
    "SetCounter (sbolt D) w2 (objectType_num (sobj D) ObjectTypeBroadcast) (broadcastCounter s) = Ret (w3, None)"
    "SetCounter (sbolt D) w3 (objectType_num (sobj D) ObjectTypeGetPubKey) (getpubkeyCounter s) = Ret (w4, None)"
    "world_ok (sbolt D) (scrypto D) w4"
    "\<And>t :: ('k, 'a, 'o, 'p, 'q, 't, 'n) server. load_counters D w4 t =
      Ret (t\<lparr>msgCounter := msgCounter s, broadcastCounter := broadcastCounter s, getpubkeyCounter := getpubkeyCounter s\<rparr>)"
    by (rule SetCounters_load [of D "scrypto D" w1 mc]) (use w w1 D(1) in auto)
  ultimately have sv: "saveData D w fs s = Ret (w4, fs')" by (simp add: saveData_def)
  have "env_ok w4" using c(4) by (simp add: world_ok_def)
  with x(2) obtain w'' m' where "FromEncrypted (sident D) (sjson D) (scrypto D) w4 enc p = Ret (w'', Inr m')" "mdb m' = mdb (Keys mu)"
    by blast
  moreover have "\<forall>t :: ('k, 'a, 'o, 'p, 'q, 't, 'n) server. \<exists>t'. load_counters D w4 t = Ret t' \<and> same_counters s t'"
    by (simp add: c(5) same_counters_def)
  ultimately show ?thesis using sv f(2) by blast
qed

text \<open>
  C35. What the server saves is what it finds when it is started again: after \<open>saveData\<close> the counters that are loaded from the
  store are those of the server, and the key file, opened with the user's passphrase, holds the same master key and the
  same identities.
\<close>

theorem saved_data_reopens:
  fixes D :: "('db, 'k, 'b, 'c, 'o, 'a, 'p, 'q, 't, 'n, 'y, 'e, 'f, 'v) sdeps"
    and s :: "('k, 'a, 'o, 'p, 'q, 't, 'n) server"
  assumes w: "world_ok (sbolt D) (scrypto D) w" "obs (sbolt D) (content (wdb w)) counters_path = Some mc" "counters_ok mc"
    and D: "types_ok (sobj D)" "file_writable (ssys D) fs (Path mu)" "json_ok (sjson D)"
    and u: "users s = [1 \<mapsto> mu]" "Pass mu = Some p" "mgr_ok (Keys mu)" "mgr_saved (sident D) (Keys mu)"
  shows "\<exists>w' fs' enc w'' mgr'. saveData D w fs s = Ret (w', fs') \<and>
    (\<forall>t :: ('k, 'a, 'o, 'p, 'q, 't, 'n) server. \<exists>t'. load_counters D w' t = Ret t' \<and> same_counters s t') \<and>
    os_ReadFile (ssys D) fs' (Path mu) = Inr enc \<and>
    FromEncrypted (sident D) (sjson D) (scrypto D) w' enc p = Ret (w'', Inr mgr') \<and> mdb mgr' = mdb (Keys mu)"
  by (rule saveData_reopens [OF assms])

lemma file_writable_ref: "file_writable ref_sys fs p"
  by (simp add: file_writable_def)

lemma types_ok_srv: "types_ok srv_obj"
  by (simp add: types_ok_def srv_obj_def)

lemma mgr_srv: "mgr_ok srv_keys" "mgr_saved ref_identity srv_keys"
  by (auto simp: mgr_ok_def mgr_saved_def srv_keys_def ids_map_def latestFileVersion_def demo_id_def ref_identity_def saved_ok_def
      ascii_def split: if_splits)

lemma srv_data:
  "world_ok (sbolt srv_deps) (scrypto srv_deps) (ref_world counter_demo_db)"
  "obs (sbolt srv_deps) (content (wdb (ref_world counter_demo_db))) counters_path = Some Map.empty" "counters_ok Map.empty"
  "types_ok (sobj srv_deps)" "file_writable (ssys srv_deps) fs p" "json_ok (sjson srv_deps)"
  using ref_world_ok types_ok_srv file_writable_ref json_ok_ref
  by (simp_all add: obs_ref ref_Bucket_def counter_demo_db_def ref_world_def miscBucket_def countersBucket_def upt_rec counters_ok_def)

lemma srv_login: "Pass srv_user = Some ''secret''" "mgr_ok (Keys srv_user)" "mgr_saved (sident srv_deps) (Keys srv_user)"
  "Path srv_user = ''keys.dat''"
  using mgr_srv by (simp_all add: srv_user_def)

lemma saved_data_reopens_witness:
  "\<exists>w' fs' enc w'' mgr'. saveData srv_deps (ref_world counter_demo_db) Map.empty (srv\<lparr>msgCounter := 9\<rparr>) = Ret (w', fs') \<and>
    (\<exists>t. load_counters srv_deps w' srv = Ret t \<and> msgCounter t = 9) \<and> fs' ''keys.dat'' = Some (Some enc) \<and>
    FromEncrypted ref_identity ref_json ref_crypto w' enc ''secret'' = Ret (w'', Inr mgr') \<and> mdb mgr' = mdb srv_keys"
proof -
  have u: "users (srv\<lparr>msgCounter := 9\<rparr>) = [1 \<mapsto> srv_user]" by simp
  from saved_data_reopens [OF srv_data u srv_login(1-3), of Map.empty] obtain w' fs' enc w'' mgr' where
    r: "saveData srv_deps (ref_world counter_demo_db) Map.empty (srv\<lparr>msgCounter := 9\<rparr>) = Ret (w', fs')"
      "\<forall>t. \<exists>t'. load_counters srv_deps w' t = Ret t' \<and> same_counters (srv\<lparr>msgCounter := 9\<rparr>) t'"
      "os_ReadFile ref_sys fs' ''keys.dat'' = Inr enc" "FromEncrypted ref_identity ref_json ref_crypto w' enc ''secret'' = Ret (w'', Inr mgr')"
      "mdb mgr' = mdb srv_keys"
    unfolding srv_login(4) srv_deps_simps srv_simps by blast
  obtain t where t: "load_counters srv_deps w' srv = Ret t" "same_counters (srv\<lparr>msgCounter := 9\<rparr>) t" using r(2) by blast
  have "msgCounter t = 9" using t(2) by (simp add: same_counters_def)
  moreover have "fs' ''keys.dat'' = Some (Some enc)" using r(3) by (simp split: option.splits)
  ultimately show ?thesis using r t(1) by blast
qed

section \<open>Stopping\<close>

lemma server_Stop_first:
  assumes "shutdown s = 0" "\<not> sv_quit s" "\<not> quit_closed (bmd s)"
    and "saveData D w fs (s\<lparr>shutdown := 1\<rparr>) = Ret (w1, fs1)"
  shows "server_Stop D w fs s = Ret (w1, fs1, s\<lparr>shutdown := 1, smtpListeners := [], imapListeners := [], imapUser := Map.empty,
      bmd := (bmd s)\<lparr>quit_closed := True, conn := conn_Close (sbmd D) (conn (bmd s)), handlers := False\<rparr>,
      rpcServer := map_option (\<lambda>_. False) (rpcServer s), sv_quit := True\<rparr>)"
  using assms by (simp add: server_Stop_def client_Stop_def Let_def)

text \<open>
  C37. Stopping works once: the first call of \<open>Stop\<close> saves the data, closes the listeners, stops the client of the node and
  closes the channel \<open>quit\<close>; every further call, up to 2^32 of them, does nothing but count, so no channel is closed twice.
\<close>

theorem Stop_once:
  assumes "shutdown s = 0" "\<not> sv_quit s" "\<not> quit_closed (bmd s)"
    and "saveData D w fs (s\<lparr>shutdown := 1\<rparr>) = Ret (w1, fs1)"
  shows "\<exists>s1. server_Stop D w fs s = Ret (w1, fs1, s1) \<and> sv_quit s1 \<and> quit_closed (bmd s1) \<and> imapListeners s1 = [] \<and> smtpListeners s1 = [] \<and>
    (\<forall>n w2 fs2. n \<noteq> 0 \<longrightarrow> n \<noteq> - 1 \<longrightarrow>
      server_Stop D w2 fs2 (s1\<lparr>shutdown := n\<rparr>) = Ret (w2, fs2, s1\<lparr>shutdown := n + 1\<rparr>))"
proof -
  have "n + 1 \<noteq> (1 :: u32)" if "n \<noteq> 0" for n using that by simp
  then show ?thesis unfolding server_Stop_first [OF assms] by (auto simp: server_Stop_def Let_def)
qed

lemma Stop_once_witness:
  "\<exists>w1 fs1 s1. server_Stop srv_deps (ref_world counter_demo_db) Map.empty srv = Ret (w1, fs1, s1) \<and> sv_quit s1 \<and>
    server_Stop srv_deps w1 fs1 s1 = Ret (w1, fs1, s1\<lparr>shutdown := 2\<rparr>)"
proof -
  have u: "users (srv\<lparr>shutdown := 1\<rparr>) = [1 \<mapsto> srv_user]" by simp
  from saveData_reopens [OF srv_data u srv_login(1-3), of Map.empty] obtain w1 fs1 where
    sv: "saveData srv_deps (ref_world counter_demo_db) Map.empty (srv\<lparr>shutdown := 1\<rparr>) = Ret (w1, fs1)" by blast
  have c: "shutdown srv = 0" "\<not> sv_quit srv" "\<not> quit_closed (bmd srv)" by (simp_all add: srv_def srv_client_def)
  obtain s1 where s1: "server_Stop srv_deps (ref_world counter_demo_db) Map.empty srv = Ret (w1, fs1, s1)" "sv_quit s1"
    "server_Stop srv_deps w1 fs1 (s1\<lparr>shutdown := 1\<rparr>) = Ret (w1, fs1, s1\<lparr>shutdown := 1 + 1\<rparr>)"
    using Stop_once [OF c sv] by fastforce
  have "s1\<lparr>shutdown := 1\<rparr> = s1" using s1(1) server_Stop_first [OF c sv] by auto
  with s1 show ?thesis by (metis one_add_one)
qed

text \<open>A message that can be decrypted and is still handled after \<open>Stop\<close> finds no user.\<close>

lemma late_message_panics:
  assumes "env_ok w" "Message_Decode (sobj D) ob = Inr msg" "length ob \<noteq> AckLength (sobj D)"
      "minEncrypted < length (Message_Encrypted (sobj D) msg)"
    and "users s = [1 \<mapsto> mu]" "imapUser s = Map.empty" "opens D (Keys mu) msg a pid m" "address_String (sident D) pid = Ret addr"
  shows "newMessage D w s n ob = Panic"
proof -
  let ?s = "s\<lparr>msgCounter := n\<rparr>"
  obtain p where p: "Private pid = Some p" "TryDecryptAndVerifyMessage (sobj D) msg p = Inr m" using assms(7) by (auto simp: opens_def)
  have r: "range_u32 w (dom (users ?s)) = (w\<lparr>tick := Suc (tick w)\<rparr>, [1])" using range_u32_one [OF assms(1), of 1] assms(5) by simp
  have "decrypt_users D (w\<lparr>tick := Suc (tick w)\<rparr>) (users ?s) msg [1] = Ret (w\<lparr>tick := Suc (Suc (tick w))\<rparr>, Some (1, m, addr, IsChan pid))"
    using decrypt_one [of "w\<lparr>tick := Suc (tick w)\<rparr>" "Keys mu" a pid p D msg m addr "users ?s" 1 mu] assms p by (simp add: opens_def)
  with assms r show ?thesis by (simp add: newMessage_def MsgRead_def on_imap_def Let_def)
qed

end
