(* ===== verification/Server_Contract.thy ===== *)
theory Server_Contract
  imports Server_Saving
begin

text \<open>
  The contract between the users (\<open>src/user\<close>) and the server that answers their requests (\<open>src/serverops.go\<close>): what a user
  relies on, that the server of the agent keeps it, and what follows for an e-mail sent to an unknown address.
\<close>

section \<open>The contract between users and the server\<close>

text \<open>
  What a user relies on: sending returns, and neither sending nor asking for a key touches the folders or the clock.
\<close>

locale server_contract =
  fixes S :: "('db world, 's, 'q) ServerOps"
    and B :: "'db bolt"
    and C :: crypto
  assumes send: "\<exists>w1 s1. so_Send S w s b = Ret (w1, s1) \<and> same_folders B C w w1"
    and request: "so_GetOrRequestPublicID S w s a = Ret (w1, s1, r) \<Longrightarrow> same_folders B C w w1"
begin

lemma contract_send: "quiet_send B C S"
  using send by (simp add: quiet_send_def)

lemma contract_request:
  assumes "\<And>w. \<exists>w1 s1. so_GetOrRequestPublicID S w s a = Ret (w1, s1, r)"
  shows "quiet_request B C S s a r"
proof -
  have "\<exists>w1 s1. so_GetOrRequestPublicID S w s a = Ret (w1, s1, r) \<and> clock w1 = clock w \<and>
      (\<forall>g. store_inv B C w g \<longrightarrow> store_inv B C w1 g \<and> store_msgs B C w1 g = store_msgs B C w g)" for w
  proof -
    obtain w1 s1 where o: "so_GetOrRequestPublicID S w s a = Ret (w1, s1, r)" using assms by blast
    with request [OF o] show ?thesis by (auto simp: same_folders_def)
  qed
  then show ?thesis by (simp add: quiet_request_def)
qed

end

lemma tick_self [simp, intro!]: "\<exists>k. w = (w :: 'x env_scheme)\<lparr>tick := k\<rparr>"
  by (rule exI [of _ "tick w"]) simp

lemma getOrRequestPublicIdentity_tick:
  "getOrRequestPublicIdentity D w s a = Ret (w1, s1, r) \<Longrightarrow> \<exists>k. w1 = w\<lparr>tick := k\<rparr>"
  by (auto simp: getOrRequestPublicIdentity_def time_Now_def Let_def go_bind_Ret_conv split: prod.splits sum.splits if_splits)

lemma GetOrRequestPublicID_tick:
  assumes "GetOrRequestPublicID D w s e = Ret (w1, s1, r)"
  shows "\<exists>k. w1 = w\<lparr>tick := k\<rparr>"
proof (cases "ToBm (mlib (sbox D)) (sbm D) e")
  case (Inl x)
  with assms show ?thesis by (auto simp: GetOrRequestPublicID_def)
next
  case (Inr a)
  show ?thesis
  proof (cases "a = Broadcast \<or> pubIDs s a \<noteq> None \<or> GetPrivateID s a \<noteq> None")
    case True
    with assms Inr show ?thesis
      by (cases "pubIDs s a"; cases "GetPrivateID s a") (auto simp: GetOrRequestPublicID_def pid_Public_none split: if_splits)
  next
    case False
    with assms Inr obtain w2 s2 r2 where g: "getOrRequestPublicIdentity D w s a = Ret (w2, s2, r2)"
      by (cases "getOrRequestPublicIdentity D w s a") (auto simp: GetOrRequestPublicID_def)
    have "w1 = w2"
    proof (cases r2)
      case (Inr q)
      with assms \<open>ToBm _ _ e = Inr a\<close> False g show ?thesis by (cases q) (simp_all add: GetOrRequestPublicID_def)
    qed (use assms Inr False g in \<open>simp add: GetOrRequestPublicID_def\<close>)
    with getOrRequestPublicIdentity_tick [OF g] show ?thesis by simp
  qed
qed

lemma same_folders_tick_self: "same_folders B C w (w\<lparr>tick := k\<rparr>)"
  by (simp add: same_folders_def)

interpretation so: server_contract "serverOps_ServerOps D" B C for D B C
proof
  show "\<exists>w1 s1. so_Send (serverOps_ServerOps D) w s b = Ret (w1, s1) \<and> same_folders B C w w1" for w s b
    by (simp add: serverOps_ServerOps_def ops_Send_def same_folders_def split: prod.split)
  show "same_folders B C w w1" if "so_GetOrRequestPublicID (serverOps_ServerOps D) w s a = Ret (w1, s1, r)" for w s a w1 s1 r
    using that GetOrRequestPublicID_tick [of D w s a w1 s1 r] same_folders_tick_self
    by (auto simp: serverOps_ServerOps_def)
qed

section \<open>Properties\<close>

text \<open>
  C30.  An e-mail that an SMTP client sends to an address nobody knows, through the user and the server together: the message is
  kept in the outbox under the next uid with the mark that a key was requested, and the queue of the proof of work gets one
  order for the request of this key at its end.  No other folder changes and the client is told that the message was accepted.
\<close>

theorem smtp_to_unknown_requests:
  fixes w :: "'db world"
  assumes D: "sbox D = store_deps L P impl (sbolt D) (scrypto D)"
    and ob: "boxes u OutboxFolderName = Some ob" "mailbox_ok L P impl (sbolt D) (scrypto D) w ob" "objects ob = None"
      "NextID (store_Folder (sbolt D) (scrypto D)) (mbox ob) = i" "i \<noteq> - 1" "seq_small (uids ob @ [i])"
    and m: "NewBitmessageFromSMTP L smtp = Ret (Inr m)" "\<not> CommandRegex (To m)" "State m = Some st"
    and k: "ToBm L (sbm D) (From m) = Inr f" "mgr_Get (mu_keys u) f = Some k" "Private k = Some p"
    and a: "ToBm L (sbm D) (To m) = Inr a" "a \<noteq> Broadcast" "pubIDs (server u) a = None" "GetPrivateID (server u) a = None"
    and x: "DecodeAddress (sbm D) a = Inr x" "grpc_GetIdentity (sbmd D) (conn (ops_bmd (server u))) a = (n1, Inl (NotFound, err))"
    and q: "pow_rep (ops_pow (server u)) xs" "\<And>t. 8 \<le> length (EncodeObject P (NewGetPubKey (sobj D) t x))"
    and st: "storable_at store_fits (sbox D) (clock w) ob m (FlagSeen L)"
      "storable_at store_fits (sbox D) (clock w) ob (m\<lparr>State := Some (st\<lparr>PubkeyRequestOutstanding := True\<rparr>)\<rparr>) (FlagSeen L)"
  shows "\<exists>w' s1 ob' b ord t. DeliverFromSMTP (udeps_of D) w u smtp =
      Ret (w', u\<lparr>server := s1, boxes := (boxes u)(OutboxFolderName \<mapsto> ob')\<rparr>, None) \<and>
    mailbox_ok L P impl (sbolt D) (scrypto D) w' ob' \<and> uids ob' = uids ob @ [i] \<and>
    BitmessageByUID (sbox D) w' ob' i = Ret (ob', Some b) \<and> From b = From m \<and> To b = To m \<and> Payload b = Payload m \<and>
    (\<exists>s. State b = Some s \<and> PubkeyRequestOutstanding s) \<and>
    pow_rep (ops_pow s1) (xs @ [ord]) \<and> donePowFunc ord = RequestPubkey a \<and>
    object ord = drop 8 (EncodeObject P (NewGetPubKey (sobj D) t x)) \<and>
    (\<forall>g. store_apart (mbox ob) g \<longrightarrow> store_inv (sbolt D) (scrypto D) w g \<longrightarrow>
      store_inv (sbolt D) (scrypto D) w' g \<and> store_msgs (sbolt D) (scrypto D) w' g = store_msgs (sbolt D) (scrypto D) w g)"
proof -
  have L: "mlib (sbox D) = L" "mcodec (sbox D) = P" using D by (simp_all add: store_deps_def)
  note R = request_queued [of D "To m" a "server u", unfolded L, OF a x q]
  have S: "userver (udeps_of D) = serverOps_ServerOps D" "ubox (udeps_of D) = store_deps L P impl (sbolt D) (scrypto D)"
    "ubm (udeps_of D) = sbm D" "km_Get (ukeys (udeps_of D)) = mgr_Get"
    using D by (simp_all add: udeps_of_def idmgr_Keys_def)
  have so: "so_GetOrRequestPublicID (serverOps_ServerOps D) = GetOrRequestPublicID D" by (simp add: serverOps_ServerOps_def)
  have r: "quiet_request (sbolt D) (scrypto D) (serverOps_ServerOps D) (server u) (To m) (Inl ErrGetPubKeySent)"
    by (rule so.contract_request) (unfold so, use R in blast)
  obtain w' s1 ob' b and w1 w2 :: "'db world" where d: "DeliverFromSMTP (udeps_of D) w u smtp =
      Ret (w', u\<lparr>server := s1, boxes := (boxes u)(OutboxFolderName \<mapsto> ob')\<rparr>, None)"
    "mailbox_ok L P impl (sbolt D) (scrypto D) w' ob'" "uids ob' = uids ob @ [i]"
    "BitmessageByUID (sbox D) w' ob' i = Ret (ob', Some b)" "From b = From m" "To b = To m" "Payload b = Payload m"
    "\<exists>s. State b = Some s \<and> PubkeyRequestOutstanding s" "so_GetOrRequestPublicID (serverOps_ServerOps D) w1 (server u) (To m) = Ret (w2, s1, Inl ErrGetPubKeySent)"
    "\<forall>g. store_apart (mbox ob) g \<longrightarrow> store_inv (sbolt D) (scrypto D) w g \<longrightarrow>
      store_inv (sbolt D) (scrypto D) w' g \<and> store_msgs (sbolt D) (scrypto D) w' g = store_msgs (sbolt D) (scrypto D) w g"
    using DeliverFromSMTP_waits [of "udeps_of D" L P impl "sbolt D" "scrypto D", unfolded S, folded D, OF refl ob m k r st] by blast
  from R [of w1] d(9) [unfolded so] obtain ord t where o: "pow_rep (ops_pow s1) (xs @ [ord])" "donePowFunc ord = RequestPubkey a"
    "object ord = drop 8 (EncodeObject P (NewGetPubKey (sobj D) t x))" by auto
  from d o show ?thesis by blast
qed

section \<open>Witness\<close>

lemma pow_rep_New: "pow_rep Pow_Queue.New []"
  by (simp add: pow_rep_def Pow_Queue.New_def exI [of _ "[]"])

definition bob_sdeps where
  "bob_sdeps = srv_deps\<lparr>sbox := bob_deps\<rparr>"

definition bob_served :: "(string, string, ref_id, string, nat, bytes list) imap_user" where
  "bob_served =
     \<lparr>mu_username = ''bob'', boxes = [''Outbox'' \<mapsto> bob_box ''Outbox'' 2], acks = Map.empty, expiration = None, mu_keys = bob_keys, pm = None,
      server = \<lparr>pubIDs = Map.empty, ops_Keys = bob_keys, ops_bmd = srv_client, ops_pow = Pow_Queue.New\<rparr>\<rparr>"

lemma bob_sdeps_simps: "sbox bob_sdeps = bob_deps" "sbolt bob_sdeps = ref_bolt" "scrypto bob_sdeps = ref_crypto" "sbm bob_sdeps = ref_bmutil"
  "sbmd bob_sdeps = srv_bmd" "sobj bob_sdeps = srv_obj"
  by (simp_all add: bob_sdeps_def)

theorem smtp_to_unknown_requests_witness:
  "\<exists>w' u' ob' b ord. DeliverFromSMTP (udeps_of bob_sdeps) bob_world bob_served bob_smtp = Ret (w', u', None) \<and>
    boxes u' ''Outbox'' = Some ob' \<and> uids ob' = [1, 2] \<and> BitmessageByUID bob_deps w' ob' 2 = Ret (ob', Some b) \<and>
    To b = ''BM-2cU@bm.addr'' \<and> pow_rep (ops_pow (server u')) [ord] \<and> donePowFunc ord = RequestPubkey ''BM-2cU''"
proof -
  let ?ob = "bob_box ''Outbox'' 2"
  have o: "OutboxFolderName = ''Outbox''" "FlagSeen ref_mail = 1" by (simp_all add: OutboxFolderName_def ref_mail_def)
  have m: "\<not> CommandRegex ''BM-2cU@bm.addr''" "State bob_mail = Some new_state" "From bob_mail = ''BM-2cT@bm.addr''" "To bob_mail = ''BM-2cU@bm.addr''"
    by (simp_all add: CommandRegex_def at_domain_def bob_smtp_mail)
  have t: "ToBm ref_mail ref_bmutil ''BM-2cU@bm.addr'' = Inr ''BM-2cU''" "''BM-2cU'' \<noteq> Broadcast"
    by (simp_all add: ToBm_def ref_mail_def ref_bmutil_def emailRegex_def at_domain_def BitmessageRegex_def bm_chars_def before_at_def Broadcast_def)
  have s: "boxes bob_served ''Outbox'' = Some ?ob" "pubIDs (server bob_served) a = None" "mu_keys bob_served = bob_keys"
    "pow_rep (ops_pow (server bob_served)) []" "GetPrivateID (server bob_served) ''BM-2cU'' = None" for a
    by (simp_all add: bob_served_def GetPrivateID_def mgr_Get_def bob_keys_def ids_map_def pow_rep_New)
  have x: "DecodeAddress ref_bmutil ''BM-2cU'' = Inr ''2cU''"
    "grpc_GetIdentity srv_bmd (conn (ops_bmd (server bob_served))) ''BM-2cU'' = ([], Inl (NotFound, ErrExt ''not found''))"
    by (simp_all add: ref_bmutil_def srv_bmd_def bob_served_def srv_client_def)
  have l: "8 \<le> length (EncodeObject bob_codec (NewGetPubKey srv_obj t ''2cU''))" for t
    by (simp add: bob_codec_def Let_def table_codec_def srv_obj_def)
  have k: "mgr_Get bob_keys ''BM-2cT'' = Some (demo_id ''BM-2cT'' False ''me'')" using bob_sender(2) by (simp add: idmgr_Keys_def)
  show ?thesis
    using smtp_to_unknown_requests [of bob_sdeps ref_mail bob_codec "\<lambda>_. 0" bob_served ?ob bob_world 2 bob_smtp bob_mail new_state "''BM-2cT''"
        "demo_id ''BM-2cT'' False ''me''" "((''BM-2cT'', ''s'', ''d''), 1, \<lparr>NonceTrialsPerByte = 1000, ExtraBytes = 1000\<rparr>)"
        "''BM-2cU''" "''2cU''" "[]" "ErrExt ''not found''" "[]"] l
    by (auto simp: bob_sdeps_simps o m t s x bob_boxes_ok bob_next bob_small bob_smtp_mail bob_sender(1) k bob_mail_storable) (auto simp: demo_id_def)
qed

end
