(* ===== verification/Signal.thy ===== *)
theory Signal
  imports Golib
begin

text \<open>
  The handler of interrupts, src/signal.go, and the version of the program, src/version.go.  The goroutine of
  \<open>mainInterruptHandler\<close> takes one event after another from its two channels; it is a step relation on the handlers it
  holds.  A handler is known by a name and returns when it is called; \<open>ran\<close> is the list of the calls that were made, in
  order.  A handler that did not return, or that added a handler itself, would stop the goroutine at that call; the program
  adds \<open>server.Stop\<close> only.
\<close>

section \<open>Interrupts\<close>

datatype 'h event = Interrupt | AddHandler 'h

record 'h interrupts =
  interruptCallbacks :: "'h list"
  isShutdown :: bool
  ran :: "'h list"
  signalled :: nat

text \<open>The loop of \<open>mainInterruptHandler\<close> over its callbacks: the \<open>i\<close>-th call is that of the \<open>i\<close>-th callback from the end.\<close>

definition run_callbacks :: "'h list \<Rightarrow> 'h list" where
  "run_callbacks cbs = map (\<lambda>i. cbs ! (length cbs - 1 - i)) [0 ..< length cbs]"

inductive interrupt_step :: "'h interrupts \<Rightarrow> 'h event \<Rightarrow> 'h interrupts \<Rightarrow> bool" where
  again: "isShutdown s \<Longrightarrow> interrupt_step s Interrupt s"
| first: "\<not> isShutdown s \<Longrightarrow>
    interrupt_step s Interrupt
      (s\<lparr>isShutdown := True, ran := ran s @ run_callbacks (interruptCallbacks s), signalled := Suc (signalled s)\<rparr>)"
| late: "isShutdown s \<Longrightarrow>
    interrupt_step s (AddHandler h) (s\<lparr>ran := ran s @ [h], interruptCallbacks := interruptCallbacks s @ [h]\<rparr>)"
| add: "\<not> isShutdown s \<Longrightarrow>
    interrupt_step s (AddHandler h) (s\<lparr>interruptCallbacks := interruptCallbacks s @ [h]\<rparr>)"

inductive_cases interrupt_step_Interrupt: "interrupt_step s Interrupt t"
inductive_cases interrupt_step_AddHandler: "interrupt_step s (AddHandler h) t"

text \<open>\<open>mainInterruptHandler\<close>: the states that are reached by a sequence of events.\<close>

inductive mainInterruptHandler :: "'h event list \<Rightarrow> 'h interrupts \<Rightarrow> bool" where
  start: "mainInterruptHandler [] \<lparr>interruptCallbacks = [], isShutdown = False, ran = [], signalled = 0\<rparr>"
| event: "mainInterruptHandler es s \<Longrightarrow> interrupt_step s e t \<Longrightarrow> mainInterruptHandler (es @ [e]) t"

text \<open>\<open>addInterruptHandler\<close> starts the goroutine at the first call, then sends it the handler.\<close>

definition addInterruptHandler :: "'h event list option \<Rightarrow> 'h \<Rightarrow> 'h event list option" where
  "addInterruptHandler chan1 h = Some ((case chan1 of None \<Rightarrow> [] | Some es \<Rightarrow> es) @ [AddHandler h])"

lemma run_callbacks_rev: "run_callbacks cbs = rev cbs"
  by (rule nth_equalityI) (simp_all add: run_callbacks_def rev_nth)

fun added :: "'h event list \<Rightarrow> 'h list" where
  "added [] = []"
| "added (AddHandler h # es) = h # added es"
| "added (Interrupt # es) = added es"

lemma added_append [simp]: "added (es @ fs) = added es @ added fs"
  by (induction es rule: added.induct) simp_all

abbreviation before_interrupt :: "'h event list \<Rightarrow> 'h event list" where
  "before_interrupt es \<equiv> takeWhile (\<lambda>e. e \<noteq> Interrupt) es"

abbreviation after_interrupt :: "'h event list \<Rightarrow> 'h event list" where
  "after_interrupt es \<equiv> dropWhile (\<lambda>e. e \<noteq> Interrupt) es"

lemma takeWhile_not_found: "x \<notin> set es \<Longrightarrow>
    takeWhile (\<lambda>e. e \<noteq> x) (es @ [x]) = es \<and> dropWhile (\<lambda>e. e \<noteq> x) (es @ [x]) = [x]"
  by (induction es) auto

lemma takeWhile_found: "x \<in> set es \<Longrightarrow> \<not> P x \<Longrightarrow>
    takeWhile P (es @ fs) = takeWhile P es \<and> dropWhile P (es @ fs) = dropWhile P es @ fs"
  by (induction es) auto

text \<open>The state after the events \<open>es\<close>, as a function of them.\<close>

definition interrupts_of :: "'h event list \<Rightarrow> 'h interrupts" where
  "interrupts_of es =
     \<lparr>interruptCallbacks = added es, isShutdown = (Interrupt \<in> set es),
      ran = (if Interrupt \<in> set es then rev (added (before_interrupt es)) @ added (after_interrupt es) else []),
      signalled = (if Interrupt \<in> set es then 1 else 0)\<rparr>"

lemma interrupt_step_of:
  "interrupt_step (interrupts_of es) e t \<longleftrightarrow> t = interrupts_of (es @ [e])"
proof (cases "Interrupt \<in> set es")
  case True
  then have tw: "before_interrupt (es @ [e]) = before_interrupt es" "after_interrupt (es @ [e]) = after_interrupt es @ [e]"
    using takeWhile_found [of Interrupt es "\<lambda>e. e \<noteq> Interrupt"] by simp_all
  show ?thesis
  proof (cases e)
    case Interrupt
    with True tw have "interrupts_of (es @ [e]) = interrupts_of es" by (simp add: interrupts_of_def)
    with Interrupt True show ?thesis
      by (auto intro: again elim!: interrupt_step_Interrupt simp: interrupts_of_def)
  next
    case (AddHandler h)
    let ?t = "(interrupts_of es)\<lparr>ran := ran (interrupts_of es) @ [h], interruptCallbacks := interruptCallbacks (interrupts_of es) @ [h]\<rparr>"
    from AddHandler True tw have t: "interrupts_of (es @ [AddHandler h]) = ?t" by (simp add: interrupts_of_def)
    from True have s: "isShutdown (interrupts_of es)" by (simp add: interrupts_of_def)
    show ?thesis unfolding AddHandler t
      using late [OF s, of h] s by (auto elim: interrupt_step_AddHandler)
  qed
next
  case False
  then have tw: "before_interrupt es = es" "after_interrupt es = []"
    by (auto simp: takeWhile_eq_all_conv dropWhile_eq_Nil_conv)
  from False have s: "\<not> isShutdown (interrupts_of es)" by (simp add: interrupts_of_def)
  show ?thesis
  proof (cases e)
    case Interrupt
    have "before_interrupt (es @ [Interrupt]) = es" "after_interrupt (es @ [Interrupt]) = [Interrupt]"
      using takeWhile_not_found [OF False] by simp_all
    then have t: "interrupts_of (es @ [Interrupt]) = (interrupts_of es)\<lparr>isShutdown := True,
        ran := ran (interrupts_of es) @ run_callbacks (interruptCallbacks (interrupts_of es)),
        signalled := Suc (signalled (interrupts_of es))\<rparr>"
      using False Interrupt by (simp add: interrupts_of_def run_callbacks_rev)
    show ?thesis unfolding Interrupt t
      using first [OF s] s by (auto elim: interrupt_step_Interrupt)
  next
    case (AddHandler h)
    with False have t: "interrupts_of (es @ [AddHandler h]) =
        (interrupts_of es)\<lparr>interruptCallbacks := interruptCallbacks (interrupts_of es) @ [h]\<rparr>"
      by (simp add: interrupts_of_def)
    show ?thesis unfolding AddHandler t
      using add [OF s, of h] s by (auto elim: interrupt_step_AddHandler)
  qed
qed

text \<open>
  C40. The goroutine of interrupts is deterministic and never stuck: after the events \<open>es\<close> it is in the one state
  \<open>interrupts_of es\<close>.  No handler is called before the first interrupt; the first interrupt calls those added so far, the
  last one first; a handler added later is called when it is added; further interrupts call nothing; and the main
  goroutine is signalled once.
\<close>

theorem interrupts_exact: "mainInterruptHandler es s \<longleftrightarrow> s = interrupts_of es"
proof
  show "mainInterruptHandler es s \<Longrightarrow> s = interrupts_of es"
  proof (induction rule: mainInterruptHandler.induct)
    case start
    then show ?case by (simp add: interrupts_of_def)
  next
    case (event es s e t)
    then show ?case by (simp add: interrupt_step_of)
  qed
  have "mainInterruptHandler es (interrupts_of es)"
  proof (induction es rule: rev_induct)
    case Nil
    then show ?case using start by (simp add: interrupts_of_def)
  next
    case (snoc e es)
    then show ?case by (rule event) (simp add: interrupt_step_of)
  qed
  then show "s = interrupts_of es \<Longrightarrow> mainInterruptHandler es s" by simp
qed

section \<open>The version\<close>

definition semanticAlphabet :: string where
  "semanticAlphabet = ''0123456789ABCDEFGHIJKLMNOPQRSTUVWXYZabcdefghijklmnopqrstuvwxyz-''"

text \<open>The alphabet is ASCII, so a rune of several bytes is dropped with all of its bytes.\<close>

definition normalizeVerString :: "string \<Rightarrow> string" where
  "normalizeVerString str = filter (\<lambda>r. r \<in> set semanticAlphabet) str"

definition version :: "string \<Rightarrow> string" where
  "version appBuild =
     (let v = fmt_d 0 @ ''.'' @ fmt_d 0 @ ''.'' @ fmt_d 1;
          preRelease = normalizeVerString ''alpha'';
          v1 = (if preRelease \<noteq> [] then v @ ''-'' @ preRelease else v);
          build = normalizeVerString appBuild
      in if build \<noteq> [] then v1 @ ''+'' @ build else v1)"

lemma version_text:
  "version b = ''0.0.1-alpha'' @ (if normalizeVerString b = [] then [] else ''+'' @ normalizeVerString b)"
proof -
  have "fmt_d 0 = ''0''" "fmt_d 1 = ''1''" by (simp_all add: fmt_d.simps char_of_def bit_0)
  moreover have "normalizeVerString ''alpha'' = ''alpha''"
    by (simp add: normalizeVerString_def semanticAlphabet_def)
  ultimately show ?thesis by (simp add: version_def)
qed

end
