(* ===== verification/Dbsetup.thy ===== *)
theory Dbsetup
  imports Server Signal
begin

text \<open>
  How the program starts: the creation and the opening of the key file and the data store with the prompts on the console,
  src/dbsetup.go; the reading of the configuration, \<open>loadConfig\<close> and \<open>LoadConfig\<close> of src/config.go; and \<open>bmagentMain\<close>,
  src/bmagent.go.

  The console is the list of the lines that are typed, each of them read by one call of \<open>ReadString\<close> or \<open>ReadPassword\<close>,
  with the errors of the terminal in between; after the last one the end of the file is reported.  What is printed is left
  out.  The database of the world is the file at \<open>storePath\<close>.  The libraries for seeds, for option parsing and for ini
  files are parameters.
\<close>

section \<open>Strings\<close>

text \<open>The white space of package \<open>unicode\<close> in UTF-8.\<close>

definition unicode_spaces :: "string list" where
  "unicode_spaces =
     [[CHR 0x20], [CHR 0x0A], [CHR 0x0D], [CHR 0x09], [CHR 0x0B], [CHR 0x0C], [CHR 0xC2, CHR 0x85], [CHR 0xC2, CHR 0xA0],
      [CHR 0xE1, CHR 0x9A, CHR 0x80], [CHR 0xE2, CHR 0x80, CHR 0x80], [CHR 0xE2, CHR 0x80, CHR 0x81],
      [CHR 0xE2, CHR 0x80, CHR 0x82], [CHR 0xE2, CHR 0x80, CHR 0x83], [CHR 0xE2, CHR 0x80, CHR 0x84],
      [CHR 0xE2, CHR 0x80, CHR 0x85], [CHR 0xE2, CHR 0x80, CHR 0x86], [CHR 0xE2, CHR 0x80, CHR 0x87],
      [CHR 0xE2, CHR 0x80, CHR 0x88], [CHR 0xE2, CHR 0x80, CHR 0x89], [CHR 0xE2, CHR 0x80, CHR 0x8A],
      [CHR 0xE2, CHR 0x80, CHR 0xA8], [CHR 0xE2, CHR 0x80, CHR 0xA9], [CHR 0xE2, CHR 0x80, CHR 0xAF],
      [CHR 0xE2, CHR 0x81, CHR 0x9F], [CHR 0xE3, CHR 0x80, CHR 0x80]]"

lemma find_prefix_shorter:
  assumes "find (\<lambda>p. p \<noteq> [] \<and> take (length p) s = p) sps = Some p"
  shows "length (drop (length p) s) < length s"
proof -
  have "p \<noteq> []" "take (length p) s = p" using assms by (auto simp: find_Some_iff)
  then have "s \<noteq> []" by (cases s) auto
  with \<open>p \<noteq> []\<close> show ?thesis by simp
qed

function trim_front :: "string list \<Rightarrow> string \<Rightarrow> string" where
  "trim_front sps s =
     (case find (\<lambda>p. p \<noteq> [] \<and> take (length p) s = p) sps of None \<Rightarrow> s | Some p \<Rightarrow> trim_front sps (drop (length p) s))"
  by auto
termination
  by (relation "measure (length \<circ> snd)") (simp_all add: find_prefix_shorter del: length_drop)

declare trim_front.simps [simp del]

definition TrimSpace :: "string \<Rightarrow> string" where
  "TrimSpace s = rev (trim_front (map rev unicode_spaces) (rev (trim_front unicode_spaces s)))"

definition trim_quotes :: "string \<Rightarrow> string" where
  "trim_quotes s = rev (dropWhile (\<lambda>c. c = CHR 0x22) (rev (dropWhile (\<lambda>c. c = CHR 0x22) s)))"

definition hex_digit :: "char \<Rightarrow> nat option" where
  "hex_digit c =
     (let n = of_char c in
      if 48 \<le> n \<and> n \<le> 57 then Some (n - 48)
      else if 97 \<le> n \<and> n \<le> 102 then Some (n - 87)
      else if 65 \<le> n \<and> n \<le> 70 then Some (n - 55) else None)"

fun hex_bytes :: "string \<Rightarrow> bytes option" where
  "hex_bytes [] = Some []"
| "hex_bytes [c] = None"
| "hex_bytes (c # d # s) =
     (case (hex_digit c, hex_digit d, hex_bytes s) of (Some a, Some b, Some r) \<Rightarrow> Some (char_of (16 * a + b) # r) | _ \<Rightarrow> None)"

definition hex_DecodeString :: "string \<Rightarrow> error + bytes" where
  "hex_DecodeString s = (case hex_bytes s of None \<Rightarrow> Inl (ErrExt ''encoding/hex'') | Some b \<Rightarrow> Inr b)"

section \<open>Parameters\<close>

text \<open>
  \<open>bolt_Open\<close> opens a database file, and creates it; the functions and constants of hdkeychain; the parser of go-ini; and
  the parser of go-flags, whose state is \<open>'g\<close> and which writes the options it reads to the configuration.
\<close>

datatype flags_Options = HelpFlag | FlagsDefault

record ('db, 'f, 'g) setuplib =
  bolt_Open :: "'f \<Rightarrow> string \<Rightarrow> 'f \<times> error option"
  GenerateSeed :: "'db world \<Rightarrow> nat \<Rightarrow> 'db world \<times> (error + bytes)"
  RecommendedSeedLen :: nat
  MinSeedBytes :: nat
  MaxSeedBytes :: nat
  ini_Load :: "bytes \<Rightarrow> error + (string \<rightharpoonup> (string \<rightharpoonup> string))"
  newConfigParser :: "agent_Config \<Rightarrow> string \<Rightarrow> flags_Options \<Rightarrow> 'g"
  ParseArgs :: "'g \<Rightarrow> agent_Config \<Rightarrow> string list \<Rightarrow> 'g \<times> agent_Config \<times> (error + string list)"
  ParseFile :: "'f \<Rightarrow> 'g \<Rightarrow> agent_Config \<Rightarrow> string \<Rightarrow> 'g \<times> agent_Config \<times> error option"
  is_PathError :: "error \<Rightarrow> bool"

section \<open>Prompts\<close>

type_synonym console = "(error + string) list"

definition EOF :: error where "EOF = ErrExt ''EOF''"

fun promptConsoleList :: "string list \<Rightarrow> string \<Rightarrow> console \<Rightarrow> console \<times> (error + string)" where
  "promptConsoleList validResponses defaultEntry [] = ([], Inl EOF)"
| "promptConsoleList validResponses defaultEntry (Inl e # con) = (con, Inl e)"
| "promptConsoleList validResponses defaultEntry (Inr l # con) =
     (let reply0 = TrimSpace (ToLower l); reply = (if reply0 = [] then defaultEntry else reply0)
      in if reply \<in> set validResponses then (con, Inr reply) else promptConsoleList validResponses defaultEntry con)"

definition promptConsoleListBool :: "string \<Rightarrow> console \<Rightarrow> console \<times> (error + bool)" where
  "promptConsoleListBool defaultEntry con =
     (case promptConsoleList [''n'', ''no'', ''y'', ''yes''] defaultEntry con of
        (con1, Inl e) \<Rightarrow> (con1, Inl e)
      | (con1, Inr response) \<Rightarrow> (con1, Inr (response = ''yes'' \<or> response = ''y'')))"

text \<open>An empty passphrase is returned as nil.\<close>

fun promptConsolePass :: "bool \<Rightarrow> console \<Rightarrow> console \<times> (error + bytes option)" where
  "promptConsolePass confirm [] = ([], Inl EOF)"
| "promptConsolePass confirm (Inl e # con) = (con, Inl e)"
| "promptConsolePass confirm (Inr l # con) =
     (let pass = TrimSpace l
      in if pass = [] then (con, Inr None)
         else if \<not> confirm then (con, Inr (Some pass))
         else (case con of
             [] \<Rightarrow> ([], Inl EOF)
           | Inl e # con1 \<Rightarrow> (con1, Inl e)
           | Inr l1 # con1 \<Rightarrow> if pass \<noteq> TrimSpace l1 then promptConsolePass confirm con1 else (con1, Inr (Some pass))))"

lemma promptConsolePass_reads: "promptConsolePass confirm con = (con1, Inr r) \<Longrightarrow> length con1 < length con"
proof (induction confirm con rule: promptConsolePass.induct)
  case (3 confirm l con)
  then show ?case
    by (auto simp: Let_def less_SucI split: if_splits list.splits sum.splits)
qed simp_all

text \<open>The loops that ask until the passphrase is not nil.\<close>

function prompt_until :: "bool \<Rightarrow> console \<Rightarrow> console \<times> (error + bytes)" where
  "prompt_until confirm con =
     (case promptConsolePass confirm con of
        (con1, Inl e) \<Rightarrow> (con1, Inl e)
      | (con1, Inr None) \<Rightarrow> prompt_until confirm con1
      | (con1, Inr (Some pass)) \<Rightarrow> (con1, Inr pass))"
  by auto
termination
  by (relation "measure (length \<circ> snd)") (auto dest!: sym [THEN promptConsolePass_reads])

declare prompt_until.simps [simp del]

definition promptKeyfilePassPhrase :: "console \<Rightarrow> console \<times> (error + bytes)" where
  "promptKeyfilePassPhrase con = prompt_until False con"

definition promptStorePassPhrase :: "console \<Rightarrow> console \<times> (error + bytes)" where
  "promptStorePassPhrase con = prompt_until False con"

definition username_match :: "string \<Rightarrow> bool" where
  "username_match s \<longleftrightarrow> s \<noteq> [] \<and>
     (let letter = (\<lambda>c. let n = of_char c :: nat in 65 \<le> n \<and> n \<le> 90 \<or> 97 \<le> n \<and> n \<le> 122)
      in letter (hd s) \<and> (\<forall>c \<in> set (tl s). letter c \<or> (48 \<le> (of_char c :: nat) \<and> (of_char c :: nat) \<le> 57)))"

fun promptUsername :: "console \<Rightarrow> console \<times> (error + string)" where
  "promptUsername [] = ([], Inl EOF)"
| "promptUsername (Inl e # con) = (con, Inl e)"
| "promptUsername (Inr l # con) =
     (if username_match (TrimSpace l) then (con, Inr (TrimSpace l)) else promptUsername con)"

text \<open>The loop that waits for the confirmation that the seed was stored.\<close>

fun confirm_seed :: "console \<Rightarrow> console \<times> error option" where
  "confirm_seed [] = ([], Some EOF)"
| "confirm_seed (Inl e # con) = (con, Some e)"
| "confirm_seed (Inr l # con) = (if trim_quotes (TrimSpace l) = ''OK'' then (con, None) else confirm_seed con)"

fun enter_seed :: "nat \<Rightarrow> nat \<Rightarrow> console \<Rightarrow> console \<times> (error + bytes)" where
  "enter_seed mn mx [] = ([], Inl EOF)"
| "enter_seed mn mx (Inl e # con) = (con, Inl e)"
| "enter_seed mn mx (Inr l # con) =
     (case hex_DecodeString (TrimSpace (ToLower l)) of
        Inl _ \<Rightarrow> enter_seed mn mx con
      | Inr seed \<Rightarrow> if length seed < mn \<or> mx < length seed then enter_seed mn mx con else (con, Inr seed))"

definition promptConsoleSeed ::
  "('db, 'f, 'g) setuplib \<Rightarrow> 'db world \<Rightarrow> console \<Rightarrow> 'db world \<times> console \<times> (error + bytes)" where
  "promptConsoleSeed P w con =
     (case promptConsoleListBool ''no'' con of
        (con1, Inl e) \<Rightarrow> (w, con1, Inl e)
      | (con1, Inr False) \<Rightarrow>
          (case GenerateSeed P w (RecommendedSeedLen P) of
             (w1, Inl e) \<Rightarrow> (w1, con1, Inl e)
           | (w1, Inr seed) \<Rightarrow>
               (case confirm_seed con1 of (con2, Some e) \<Rightarrow> (w1, con2, Inl e) | (con2, None) \<Rightarrow> (w1, con2, Inr seed)))
      | (con1, Inr True) \<Rightarrow> (case enter_seed (MinSeedBytes P) (MaxSeedBytes P) con1 of (con2, r) \<Rightarrow> (w, con2, r)))"

section \<open>Creating the databases\<close>

definition store_Open ::
  "('db, 'f, 'g) setuplib \<Rightarrow> 'db world \<Rightarrow> 'f \<Rightarrow> string \<Rightarrow> 'db world \<times> 'f \<times> (error + Loader)" where
  "store_Open P w fs file =
     (case bolt_Open P fs file of
        (fs1, Some e) \<Rightarrow> (w, fs1, Inl e)
      | (fs1, None) \<Rightarrow> (w\<lparr>wdb := (wdb w)\<lparr>rwtx := False, opened := True\<rparr>\<rparr>, fs1, Inr \<lparr>l_db = True\<rparr>))"

text \<open>The part of \<open>createDatabases\<close> that makes the data store; \<open>Initialize\<close> adds keys to the key manager.\<close>

definition create_store ::
  "('db, 'k, 'b, 'c, 'o, 'a, 'p, 'q, 't, 'n, 'y, 'e, 'f, 'v) sdeps \<Rightarrow> ('db, 'f, 'g) setuplib \<Rightarrow> 'db world \<Rightarrow> 'f \<Rightarrow> string \<Rightarrow> string \<Rightarrow>
    bytes \<Rightarrow> ('k, 'p) Manager \<Rightarrow> u32 \<Rightarrow> ('db world \<times> 'f \<times> ('k, 'p) Manager \<times> error option) go" where
  "create_store D P w fs path username storePass kmgr genKeys =
     (case store_Open P w fs path of
        (w1, fs1, Inl e) \<Rightarrow> Ret (w1, fs1, kmgr, Some (ErrText (''Failed to create data store: '' @ error_text e)))
      | (w1, fs1, Inr load) \<Rightarrow>
          go_bind (Construct (sbolt D) (scrypto D) (sbm D) w1 load (Some storePass)) (\<lambda>(w2, load1, r). case r of
            Inl e \<Rightarrow> Ret (w2, fs1, kmgr, Some (ErrText (''Failed to create data store: '' @ error_text e)))
          | Inr s \<Rightarrow>
          go_bind (store_NewUser (sbolt D) (sbm D) w2 s username) (\<lambda>(w3, s1, r). case r of
            Inl e \<Rightarrow> Ret (w3, fs1, kmgr, Some e)
          | Inr u \<Rightarrow>
          go_bind (user_Folders (sbolt D) w3 u) (\<lambda>(w4, r). case r of
            Inl e \<Rightarrow> Ret (w4, fs1, kmgr, Some e)
          | Inr f \<Rightarrow>
          go_bind (Initialize (udeps_of D) (store_Folders (sbolt D)) w4 f kmgr genKeys) (\<lambda>(w5, f1, kmgr1, err). case err of
            Some e \<Rightarrow> Ret (w5, fs1, kmgr1, Some e)
          | None \<Rightarrow>
          go_bind (loader_Close (sbolt D) w5 load1) (\<lambda>(w6, load2, err). Ret (w6, fs1, kmgr1, err)))))))"

definition createDatabases ::
  "('db, 'k, 'b, 'c, 'o, 'a, 'p, 'q, 't, 'n, 'y, 'e, 'f, 'v) sdeps \<Rightarrow> ('db, 'f, 'g) setuplib \<Rightarrow> 'db world \<Rightarrow> 'f \<Rightarrow> console \<Rightarrow>
    agent_Config \<Rightarrow> ('db world \<times> 'f \<times> console \<times> agent_Config \<times> error option) go" where
  "createDatabases D P w fs con cfg0 =
     (case (if Username cfg0 \<noteq> [] then (con, Inr (Username cfg0)) else promptUsername con) of
        (con1, Inl e) \<Rightarrow> Ret (w, fs, con1, cfg0, Some e)
      | (con1, Inr username) \<Rightarrow>
     (let cfg = cfg0\<lparr>Username := username\<rparr> in
     (case (if Seed cfg \<noteq> [] then (w, con1, hex_DecodeString (Seed cfg)) else promptConsoleSeed P w con1) of
        (w1, con2, Inl e) \<Rightarrow> Ret (w1, fs, con2, cfg, Some e)
      | (w1, con2, Inr seed) \<Rightarrow>
     (case (if NoPass cfg then (con2, Inr []) else prompt_until True con2) of
        (con3, Inl e) \<Rightarrow> Ret (w1, fs, con3, cfg, Some e)
      | (con3, Inr storePass) \<Rightarrow>
     (case idmgr_New (sident D) seed of
        Inl e \<Rightarrow> Ret (w1, fs, con3, cfg, Some e)
      | Inr kmgr \<Rightarrow>
     go_bind (create_store D P w1 fs (storePath cfg) username storePass kmgr (scast (GenKeys cfg))) (\<lambda>(w2, fs1, kmgr1, err). case err of
        Some e \<Rightarrow> Ret (w2, fs1, con3, cfg, Some e)
      | None \<Rightarrow>
     (case (if NoPass cfg then (con3, Inr []) else prompt_until True con3) of
        (con4, Inl e) \<Rightarrow> Ret (w2, fs1, con4, cfg, Some e)
      | (con4, Inr keyfilePass1) \<Rightarrow>
          go_bind (saveKeyfile D w2 fs1 kmgr1 (keyfilePath cfg) (Some keyfilePass1)) (\<lambda>(w3, fs2). Ret (w3, fs2, con4, cfg, None)))))))))"

section \<open>Opening the databases\<close>

text \<open>With \<open>NoPass\<close> the key manager is not nil after \<open>FromPlaintext\<close> has succeeded, and the second branch is not taken.\<close>

definition open_keyfile ::
  "('db, 'k, 'b, 'c, 'o, 'a, 'p, 'q, 't, 'n, 'y, 'e, 'f, 'v) sdeps \<Rightarrow> 'db world \<Rightarrow> console \<Rightarrow> agent_Config \<Rightarrow> bytes \<Rightarrow>
    ('db world \<times> console \<times> agent_Config \<times> (error + ('k, 'p) Manager)) go" where
  "open_keyfile D w con cfg keyFile =
     (if NoPass cfg then go_bind (FromPlaintext (sident D) (sjson D) w keyFile) (\<lambda>(w1, r). Ret (w1, con, cfg, r))
      else (case promptKeyfilePassPhrase con of
          (con1, Inl e) \<Rightarrow> Ret (w, con1, cfg, Inl e)
        | (con1, Inr pass) \<Rightarrow>
            go_bind (FromEncrypted (sident D) (sjson D) (scrypto D) w keyFile pass) (\<lambda>(w1, r). case r of
              Inl e \<Rightarrow> Ret (w1, con1, cfg, Inl (ErrText (''Failed to create key manager: '' @ error_text e)))
            | Inr kmgr \<Rightarrow> Ret (w1, con1, cfg\<lparr>keyfilePass := Some pass\<rparr>, Inr kmgr))))"

text \<open>
  The store is nil (\<open>None\<close>) when \<open>Construct(nil)\<close> fails, since its error is not looked at; \<open>IsEncrypted\<close> is called only with
  \<open>NoPass\<close>.
\<close>

definition open_store ::
  "('db, 'k, 'b, 'c, 'o, 'a, 'p, 'q, 't, 'n, 'y, 'e, 'f, 'v) sdeps \<Rightarrow> ('db, 'f, 'g) setuplib \<Rightarrow> 'db world \<Rightarrow> 'f \<Rightarrow> console \<Rightarrow>
    agent_Config \<Rightarrow> ('db world \<times> 'f \<times> console \<times> (error + 'a Store option)) go" where
  "open_store D P w fs con cfg =
     (case store_Open P w fs (storePath cfg) of
        (w1, fs1, Inl e) \<Rightarrow> Ret (w1, fs1, con, Inl e)
      | (w1, fs1, Inr load) \<Rightarrow>
          go_bind (if NoPass cfg then IsEncrypted (sbolt D) w1 load else Ret (w1, load, True)) (\<lambda>(w2, load1, enc).
            if \<not> enc
            then go_bind (Construct (sbolt D) (scrypto D) (sbm D) w2 load1 None) (\<lambda>(w3, load2, r).
              Ret (w3, fs1, con, Inr (case r of Inl _ \<Rightarrow> None | Inr s \<Rightarrow> Some s)))
            else (case promptStorePassPhrase con of
                (con1, Inl e) \<Rightarrow> Ret (w2, fs1, con1, Inl e)
              | (con1, Inr storePass) \<Rightarrow>
                  go_bind (Construct (sbolt D) (scrypto D) (sbm D) w2 load1 (Some storePass)) (\<lambda>(w3, load2, r). case r of
                    Inl e \<Rightarrow> Ret (w3, fs1, con1, Inl (ErrText (''Failed to open data store: '' @ error_text e)))
                  | Inr s \<Rightarrow> Ret (w3, fs1, con1, Inr (Some s))))))"

definition openDatabases ::
  "('db, 'k, 'b, 'c, 'o, 'a, 'p, 'q, 't, 'n, 'y, 'e, 'f, 'v) sdeps \<Rightarrow> ('db, 'f, 'g) setuplib \<Rightarrow> 'db world \<Rightarrow> 'f \<Rightarrow> console \<Rightarrow>
    agent_Config \<Rightarrow> ('db world \<times> 'f \<times> console \<times> agent_Config \<times> (error + ('k, 'p) Manager \<times> 'a Store option)) go" where
  "openDatabases D P w fs con cfg =
     (case os_ReadFile (ssys D) fs (keyfilePath cfg) of
        Inl e \<Rightarrow> Ret (w, fs, con, cfg, Inl e)
      | Inr keyFile \<Rightarrow>
          go_bind (open_keyfile D w con cfg keyFile) (\<lambda>(w1, con1, cfg1, r). case r of
            Inl e \<Rightarrow> Ret (w1, fs, con1, cfg1, Inl e)
          | Inr kmgr \<Rightarrow>
              go_bind (open_store D P w1 fs con1 cfg1) (\<lambda>(w2, fs1, con2, r). case r of
                Inl e \<Rightarrow> Ret (w2, fs1, con2, cfg1, Inl e)
              | Inr dstore \<Rightarrow> Ret (w2, fs1, con2, cfg1, Inr (kmgr, dstore)))))"

definition importKeyfile ::
  "('db, 'k, 'b, 'c, 'o, 'a, 'p, 'q, 't, 'n, 'y, 'e, 'f, 'v) sdeps \<Rightarrow> ('db, 'f, 'g) setuplib \<Rightarrow> 'db world \<Rightarrow> 'f \<Rightarrow> ('k, 'p) Manager \<Rightarrow>
    string \<Rightarrow> ('db world \<times> ('k, 'p) Manager \<times> error option) go" where
  "importKeyfile D P w fs kmgr file =
     (case os_ReadFile (ssys D) fs file of
        Inl e \<Rightarrow> Ret (w, kmgr, Some e)
      | Inr b \<Rightarrow>
          go_bind (ImportKeys (sident D) (sjson D) (ini_Load P) w kmgr b) (\<lambda>(w1, kmgr1, ks).
            Ret (w1, kmgr1, if ks = None then Some (ErrText ''Could not read file.'') else None)))"

section \<open>Loading the configuration\<close>

text \<open>How the loading ends: \<open>os.Exit\<close> with a status, an error, or the configuration and the remaining arguments.\<close>

datatype 'r load_result = Exits nat | Fails error | Loads 'r

text \<open>\<open>Validate\<close> exits after it has made the data directory.\<close>

definition LoadConfig ::
  "('f, 'v) sys \<Rightarrow> ('db, 'f, 'g) setuplib \<Rightarrow> 'f \<Rightarrow> 'v loggers \<Rightarrow> string \<Rightarrow> agent_Config \<Rightarrow> string list \<Rightarrow>
    'f \<times> 'v loggers \<times> agent_Config \<times> string list load_result" where
  "LoadConfig S P fs L appName cfg args =
     (case ParseArgs P (newConfigParser P cfg appName HelpFlag) cfg args of
        (_, preCfg, Inl e) \<Rightarrow> (fs, L, cfg, Fails e)
      | (_, preCfg, Inr _) \<Rightarrow>
          if ShowVersion preCfg then (fs, L, cfg, Exits 0)
          else
            let parser = newConfigParser P cfg appName FlagsDefault;
                configFilename = filepath_Join [DataDir preCfg, ConfigFile preCfg]
            in (case (if ConfigFile preCfg \<noteq> defaultConfigFilename \<or> fileExists S fs configFilename
                      then ParseFile P fs parser cfg configFilename else (parser, cfg, None)) of
                  (parser1, cfg1, e) \<Rightarrow>
                    (case (case e of None \<Rightarrow> None | Some e \<Rightarrow> if is_PathError P e then None else Some e) of
                       Some e \<Rightarrow> (fs, L, cfg1, Fails e)
                     | None \<Rightarrow>
                         (case ParseArgs P parser1 cfg1 args of
                            (_, cfg2, Inl e) \<Rightarrow> (fs, L, cfg2, Fails e)
                          | (_, cfg2, Inr remainingArgs) \<Rightarrow>
                              (case Validate S fs L cfg2 of
                                 Exit n \<Rightarrow> (fst (validate_dirs S fs cfg2), L, cfg2, Exits n)
                               | Running (fs1, L1, cfg3, Some e) \<Rightarrow> (fs1, L1, cfg3, Fails e)
                               | Running (fs1, L1, cfg3, None) \<Rightarrow> (fs1, L1, cfg3, Loads remainingArgs))))))"

text \<open>The imports of a key file of PyBitmessage: \<open>loadConfig\<close> after the files were found.\<close>

definition import_keys ::
  "('db, 'k, 'b, 'c, 'o, 'a, 'p, 'q, 't, 'n, 'y, 'e, 'f, 'v) sdeps \<Rightarrow> ('db, 'f, 'g) setuplib \<Rightarrow> 'db world \<Rightarrow> 'f \<Rightarrow> console \<Rightarrow>
    agent_Config \<Rightarrow> ('db world \<times> 'f \<times> console \<times> agent_Config \<times> nat load_result) go" where
  "import_keys D P w fs con cfg0 =
     (let cfg = cfg0\<lparr>ImportKeyFile := cleanAndExpandPath (ssys D) (ImportKeyFile cfg0)\<rparr> in
      go_bind (openDatabases D P w fs con cfg) (\<lambda>(w1, fs1, con1, cfg1, r). case r of
        Inl e \<Rightarrow> Ret (w1, fs1, con1, cfg1, Fails e)
      | Inr (keymgr, st) \<Rightarrow>
      go_bind (importKeyfile D P w1 fs1 keymgr (ImportKeyFile cfg1)) (\<lambda>(w2, keymgr1, err). case err of
        Some e \<Rightarrow> Ret (w2, fs1, con1, cfg1, Fails e)
      | None \<Rightarrow>
      go_bind (SaveKeyfile D w2 fs1 \<lparr>Keys = keymgr1, Path = keyfilePath cfg1, mUsername = Username cfg1, Pass = keyfilePass cfg1\<rparr>)
        (\<lambda>(w3, fs2).
      go_bind (case st of None \<Rightarrow> Panic | Some _ \<Rightarrow> store_Close (sbolt D) w3) (\<lambda>(w4, _).
        Ret (w4, fs2, con1, cfg1, Exits 0))))))"

definition loadConfig ::
  "('db, 'k, 'b, 'c, 'o, 'a, 'p, 'q, 't, 'n, 'y, 'e, 'f, 'v) sdeps \<Rightarrow> ('db, 'f, 'g) setuplib \<Rightarrow> 'db world \<Rightarrow> 'f \<Rightarrow> console \<Rightarrow> 'v loggers \<Rightarrow>
    string list \<Rightarrow> ('db world \<times> 'f \<times> console \<times> 'v loggers \<times> agent_Config \<times> string list load_result) go" where
  "loadConfig D P w fs con L osArgs =
     (case osArgs of [] \<Rightarrow> Panic | arg0 # args \<Rightarrow>
      let base = filepath_Base arg0; appName = TrimSuffix base (filepath_Ext base) in
      case LoadConfig (ssys D) P fs L appName (DefaultConfig (ssys D)) args of
        (fs1, L1, cfg0, Exits n) \<Rightarrow> Ret (w, fs1, con, L1, cfg0, Exits n)
      | (fs1, L1, cfg0, Fails e) \<Rightarrow> Ret (w, fs1, con, L1, cfg0, Fails e)
      | (fs1, L1, cfg0, Loads remaining) \<Rightarrow>
          let cfg = cfg0\<lparr>keyfilePath := filepath_Join [DataDir cfg0, keyfileName], storePath := filepath_Join [DataDir cfg0, storeDbName]\<rparr>
          in if CreateFlag cfg then
               if fileExists (ssys D) fs1 (keyfilePath cfg) then Ret (w, fs1, con, L1, cfg, Fails (ErrText ''The key file already exists.''))
               else if fileExists (ssys D) fs1 (storePath cfg) then Ret (w, fs1, con, L1, cfg, Fails (ErrText ''The data store already exists.''))
               else go_bind (createDatabases D P w fs1 con (if sint (GenKeys cfg) \<le> 0 then cfg\<lparr>GenKeys := 1\<rparr> else cfg))
                 (\<lambda>(w1, fs2, con1, cfg1, err).
                    Ret (w1, fs2, con1, L1, cfg1, case err of Some e \<Rightarrow> Fails e | None \<Rightarrow> Exits 0))
             else if \<not> fileExists (ssys D) fs1 (keyfilePath cfg) \<or> \<not> fileExists (ssys D) fs1 (storePath cfg) then
               Ret (w, fs1, con, L1, cfg, Fails (ErrText (''The key file and/or data store do not exist. '' @
                 ''Run with the --create option to'' @ [CHR 0x0A] @ ''initialize and create them.'')))
             else if ImportKeyFile cfg \<noteq> [] then
               go_bind (import_keys D P w fs1 con cfg) (\<lambda>(w1, fs2, con1, cfg1, r).
                 Ret (w1, fs2, con1, L1, cfg1, case r of Fails e \<Rightarrow> Fails e | Exits n \<Rightarrow> Exits n | Loads n \<Rightarrow> Exits n))
             else Ret (w, fs1, con, L1, cfg, Loads remaining))"

section \<open>Main\<close>

text \<open>
  Main up to the point where it waits for the end: it has ended with a status (\<open>Ended\<close>), or the server was started, with its
  goroutines, and the handler of interrupts was told to stop it (\<open>Serving\<close>).  The deferred \<open>store.Close()\<close> dereferences the
  store, and so does \<open>newServer\<close>, so that a nil store panics.  The profile server is left out.
\<close>

datatype 's main_result = Ended nat | Serving 's "goroutine list" "string event list option"

definition client_config :: "agent_Config \<Rightarrow> ClientConfig" where
  "client_config cfg =
     \<lparr>DisableTLS = DisableClientTLS cfg, cc_CAFile = CAFile cfg, ConnectTo = RPCConnect cfg, cc_Username = BmdUsername cfg,
      cc_Password = BmdPassword cfg, Timeout = 500 * 10 ^ 6\<rparr>"

definition bmagentMain ::
  "('db, 'k, 'b, 'c, 'o, 'a, 'p, 'q, 't, 'n, 'y, 'e, 'f, 'v) sdeps \<Rightarrow> ('db, 'f, 'g) setuplib \<Rightarrow> 'db world \<Rightarrow> 'f \<Rightarrow> console \<Rightarrow> 'v loggers \<Rightarrow>
    string list \<Rightarrow> ('db world \<times> 'f \<times> ('k, 'a, 'o, 'p, 'q, 't, 'n) server main_result) go" where
  "bmagentMain D P w fs con L osArgs =
     go_bind (loadConfig D P w fs con L osArgs) (\<lambda>(w1, fs1, con1, L1, cfg0, r). case r of
       Exits n \<Rightarrow> Ret (w1, fs1, Ended n)
     | Fails e \<Rightarrow> Ret (w1, fs1, Ended 1)
     | Loads _ \<Rightarrow>
     go_bind (openDatabases D P w1 fs1 con1 cfg0) (\<lambda>(w2, fs2, con2, cfg, r). case r of
       Inl e \<Rightarrow> Ret (w2, fs2, Ended 1)
     | Inr (keys, None) \<Rightarrow> Panic
     | Inr (keys, Some st) \<Rightarrow>
     go_bind (newServer D cfg w2 (client_config cfg)
         \<lparr>Keys = keys, Path = keyfilePath cfg, mUsername = Username cfg, Pass = keyfilePass cfg\<rparr> st) (\<lambda>(w3, r). case r of
       Inl e \<Rightarrow> go_bind (store_Close (sbolt D) w3) (\<lambda>(w4, _). Ret (w4, fs2, Ended 1))
     | Inr s \<Rightarrow> (case server_Start s of (s1, gs) \<Rightarrow>
         Ret (w3, fs2, Serving s1 gs (addInterruptHandler None ''server.Stop''))))))"

text \<open>The end of main once the shutdown is signalled: the store is closed.\<close>

definition main_shutdown :: "'db bolt \<Rightarrow> 'db world \<Rightarrow> ('db world \<times> nat) go" where
  "main_shutdown B w = go_bind (store_Close B w) (\<lambda>(w1, _). Ret (w1, 0))"

end
