(* ===== verification/Dbsetup_Correct.thy ===== *)
theory Dbsetup_Correct
  imports Dbsetup Server_Saving
begin

text \<open>
  That the program starts with the files it has made: the prompts for the passphrases, the data store and the key file that
  \<open>createDatabases\<close> leaves behind, and what \<open>openDatabases\<close> finds in them.
\<close>

section \<open>Creating the data store\<close>

text \<open>The world when the database file is open.\<close>

abbreviation reopen :: "'db world \<Rightarrow> 'db world" where
  "reopen w \<equiv> w\<lparr>wdb := (wdb w)\<lparr>rwtx := False, opened := True\<rparr>\<rparr>"

text \<open>The database of one user: the passphrase \<open>pass\<close> opens it, and the inbox of the user holds one message.\<close>

definition one_user :: "'db bolt \<Rightarrow> crypto \<Rightarrow> 'db world \<Rightarrow> string \<Rightarrow> bytes \<Rightarrow> bytes \<Rightarrow> store_folder \<Rightarrow> bytes \<Rightarrow> bool" where
  "one_user B C w n pass key f enc \<longleftrightarrow> world_ok B C w \<and> db_layout B (content (wdb w)) \<and> locked B C (content (wdb w)) (Some pass) key \<and>
     obs B (content (wdb w)) [usersBucket] = Some [n \<mapsto> Some (PutUint64 1)] \<and> obs B (content (wdb w)) (bc_path n) = Some Map.empty \<and>
     f_userID f = userPrefix @ n \<and> f_name f = ''Inbox'' \<and> f_masterKey f = Some key \<and>
     store_inv B C w f \<and> store_msgs B C w f = [1 \<mapsto> (2, enc)]"

text \<open>The record decodes to the welcome message of a key manager without addresses.\<close>

definition welcome_record :: "mail_lib \<Rightarrow> 'o codec \<Rightarrow> bytes \<Rightarrow> bool" where
  "welcome_record L P enc \<longleftrightarrow> (\<exists>b. decodeBitmessage L P enc = Ret (Inr (b, None)) \<and> From b = ''welcome@bm.agent'' \<and>
     Payload b = Some (Encoding2 ''Welcome to bmagent!'' (welcomeMsg '''')))"

definition system_name :: "string \<Rightarrow> bool" where
  "system_name n \<longleftrightarrow> n \<in> {miscBucket, usersBucket, pkRequestsBucket}"

lemma made_layout:
  assumes "made B db" "db_layout B db"
  obtains m where "obs B db [miscBucket] = Some m" "m usersLatestIDKey = Some (Some (PutUint64 0))" "m countersBucket = Some None"
    "\<forall>k. m k = Some None \<longrightarrow> k = countersBucket"
  using assms by (auto simp: made_def db_layout_def)

lemma prefixed_neq: "userPrefix @ n \<noteq> n" "n \<noteq> userPrefix @ n" "userPrefix @ n \<noteq> pkRequestsBucket"
  by (simp_all add: userPrefix_def pkRequestsBucket_def)

lemma NewUser_made:
  fixes U :: "'a bmutil"
  assumes w: "world_ok B C w" "clock_ok w" "made B (content (wdb w))" "db_layout B (content (wdb w))"
      "locked B C (content (wdb w)) pass key"
    and n: "n \<noteq> []" "length (userPrefix @ n) \<le> MaxKeySize" "\<not> system_name n"
    and s: "s_masterKey s = Some key" "s_users s = Map.empty"
  shows "\<exists>w1 s1 u w2 fo. store_NewUser B U w s n = Ret (w1, s1, Inr u) \<and> user_Folders B w1 u = Ret (w2, Inr fo) \<and>
    fo_inv B C w2 fo \<and> fo_map fo = Map.empty \<and> u_bucketID (fo_user fo) = userPrefix @ n \<and> u_masterKey (fo_user fo) = Some key \<and>
    clock w2 = clock w \<and> db_layout B (content (wdb w2)) \<and> locked B C (content (wdb w2)) pass key \<and>
    obs B (content (wdb w2)) [usersBucket] = Some [n \<mapsto> Some (PutUint64 1)] \<and> obs B (content (wdb w2)) (bc_path n) = Some Map.empty"
proof -
  let ?m0 = "[miscBucket \<mapsto> None, usersBucket \<mapsto> None, pkRequestsBucket \<mapsto> None]"
  have o: "obs B (content (wdb w)) [] = Some ?m0" "obs B (content (wdb w)) [usersBucket] = Some Map.empty" using w(3) by (simp_all add: made_def)
  obtain m where m: "obs B (content (wdb w)) [miscBucket] = Some m" "m usersLatestIDKey = Some (Some (PutUint64 0))"
    "m countersBucket = Some None" "\<forall>k. m k = Some None \<longrightarrow> k = countersBucket"
    by (rule made_layout [OF w(3,4)])
  have nn: "n \<noteq> miscBucket" "n \<noteq> usersBucket" "n \<noteq> pkRequestsBucket" "length n \<le> MaxKeySize"
    using n(2,3) by (auto simp: system_name_def)
  have "?m0 n = None" using nn by simp
  from newBroadcastsStore_new [OF w(1) o(1) this n(1) nn(4), of U] obtain tx where
    b: "newBroadcastsStore B U w n = Ret (w\<lparr>wdb := (wdb w)\<lparr>content := tx\<rparr>\<rparr>, Inr \<lparr>b_username = n, addrs = []\<rparr>)"
      "obs B tx = (obs B (content (wdb w)))([] \<mapsto> ?m0(n \<mapsto> None), [n] \<mapsto> [broadcastAddressesBucket \<mapsto> None], bc_path n \<mapsto> Map.empty)"
    by blast
  let ?w1 = "w\<lparr>wdb := (wdb w)\<lparr>content := tx\<rparr>\<rparr>" and ?u = "newUser (Some key) (userPrefix @ n) n \<lparr>b_username = n, addrs = []\<rparr> :: 'a User"
  have w1: "world_ok B C ?w1" "clock_ok ?w1" using w(1,2) world_ok_update by (auto simp: clock_ok_def)
  have o1: "obs B tx [] = Some (?m0(n \<mapsto> None))" "obs B tx [usersBucket] = Some Map.empty" "obs B tx [miscBucket] = Some m"
    "obs B tx (bc_path n) = Some Map.empty"
    using b(2) o(2) m(1) nn by (simp_all add: bc_path_def)
  have lay: "db_layout B (content (wdb ?w1))" using o1 m nn by (auto simp: db_layout_def)
  have u0: "(?m0(n \<mapsto> None)) (userPrefix @ n) = None" using prefixed_neq user_bucket_neq by simp
  obtain w2 fo where f: "user_Folders B ?w1 ?u = Ret (w2, Inr fo)" "fo_map fo = Map.empty" "fo_inv B C w2 fo"
    "obs B (content (wdb w2)) [usersBucket] = Some [n \<mapsto> Some (PutUint64 1)]"
    "obs B (content (wdb w2)) [miscBucket] = Some (m(usersLatestIDKey \<mapsto> Some (PutUint64 1)))"
    "obs B (content (wdb w2)) [] = Some (?m0(n \<mapsto> None, userPrefix @ n \<mapsto> None))" "clock w2 = clock w" "fo_user fo = ?u"
    "\<forall>q. q \<noteq> [] \<longrightarrow> hd q \<noteq> userPrefix @ n \<longrightarrow> q \<noteq> [usersBucket] \<longrightarrow> q \<noteq> [miscBucket] \<longrightarrow> obs B (content (wdb w2)) q = obs B tx q"
    using user_Folders_new [OF w1 lay, of "?m0(n \<mapsto> None)" n Map.empty m 0 "Some key" "\<lparr>b_username = n, addrs = []\<rparr>"] o1 u0 m(2) n(1,2) by auto
  have "store_NewUser B U w s n = Ret (?w1, s\<lparr>s_users := [n \<mapsto> ?u]\<rparr>, Inr ?u)"
    using b(1) s by (simp add: store_NewUser_def addUser_def Let_def)
  moreover have "db_layout B (content (wdb w2))"
    using f(5,6) m(3,4) nn prefixed_neq user_bucket_neq by (auto simp: db_layout_def)
  moreover have "locked B C (content (wdb w2)) pass key"
    using w(5) f(5) m(1) by (auto simp: locked_def split: option.splits)
  moreover have "obs B (content (wdb w2)) (bc_path n) = Some Map.empty"
    using f(9) o1(4) prefixed_neq by (simp add: bc_path_def)
  moreover have "u_bucketID (fo_user fo) = userPrefix @ n" "u_masterKey (fo_user fo) = Some key" by (simp_all add: f(8) newUser_def)
  ultimately show ?thesis
    by (intro exI [of _ ?w1] exI [of _ "s\<lparr>s_users := [n \<mapsto> ?u]\<rparr>"] exI [of _ ?u] exI [of _ w2] exI [of _ fo]) (use f(1-4,7) in simp)
qed

lemma elsewhere_obs: "elsewhere B u db db' \<Longrightarrow> q = [] \<or> hd q \<noteq> u \<Longrightarrow> obs B db' q = obs B db q"
  unfolding elsewhere_def by (drule spec [of _ q]) blast

lemma elsewhere_layout:
  assumes "elsewhere B (userPrefix @ n) db db'" "db_layout B db"
  shows "db_layout B db'"
  using assms elsewhere_obs [OF assms(1), of "[]"] elsewhere_obs [OF assms(1), of "[miscBucket]"] user_bucket_neq
  by (simp add: db_layout_def)

lemma elsewhere_locked:
  assumes "elsewhere B (userPrefix @ n) db db'" "locked B C db pass key"
  shows "locked B C db' pass key"
  using assms elsewhere_obs [OF assms(1), of "[miscBucket]"] user_bucket_neq by (simp add: locked_def)

text \<open>The folder invariant does not depend on the flags of the database.\<close>

lemma store_inv_content:
  assumes "store_inv B C w f" "world_ok B C v" "\<And>q. q \<noteq> [] \<Longrightarrow> q \<noteq> [pkRequestsBucket] \<Longrightarrow> obs B (content (wdb v)) q = obs B (content (wdb w)) q"
  shows "store_inv B C v f \<and> store_msgs B C v f = store_msgs B C w f"
proof -
  have "content_rep B C (content (wdb w)) f (store_msgs B C w f)" using assms(1) by (simp add: store_inv_def)
  then have "content_rep B C (content (wdb v)) f (store_msgs B C w f)"
    using assms(3) by (simp add: content_rep_def folder_path_def data_path_def)
  from store_invI [OF assms(2) this] show ?thesis by simp
qed

lemma create_store_made:
  fixes D :: "('db, 'k, 'b, 'c, 'o, 'a, 'p, 'q, 't, 'n, 'y, 'e, 'f, 'v) sdeps"
  assumes D: "sbox D = store_deps L Pc impl (sbolt D) (scrypto D)" "flags_ok L" "\<And>c. CloseFile (sbolt D) c = None"
    and w: "world_ok (sbolt D) (scrypto D) (reopen w)" "clock_ok w" "obs (sbolt D) (content (wdb w)) [] = Some Map.empty"
    and n: "n \<noteq> []" "length (userPrefix @ n) \<le> MaxKeySize" "\<not> system_name n"
    and k: "gen_keys (idmgr_Keys (sident D)) (DefaultStream (snet D)) (BehaviorAck (snet D)) kmgr (unat g) = Ret k'" "ids_map kmgr = Map.empty"
    and st: "\<And>i. \<exists>enc. storable store_fits (sbox D) (welcome_stored L (clock w i) '''') enc"
    and fs: "bolt_Open P fs path = (fs1, None)"
  shows "\<exists>w' key f enc. create_store D P w fs path n pass kmgr g = Ret (w', fs1, k', None) \<and>
    one_user (sbolt D) (scrypto D) (reopen w') n pass key f enc \<and> welcome_record L Pc enc"
proof -
  let ?B = "sbolt D" and ?C = "scrypto D"
  obtain w1 s key where c: "Construct ?B ?C (sbm D) (reopen w) \<lparr>l_db = True\<rparr> (Some pass) = Ret (w1, \<lparr>l_db = True\<rparr>, Inr s)"
    "s_masterKey s = Some key" "s_users s = Map.empty" "world_ok ?B ?C w1" "db_layout ?B (content (wdb w1))"
    "locked ?B ?C (content (wdb w1)) (Some pass) key" "made ?B (content (wdb w1))" "clock w1 = clock w"
    using Construct_new [OF w(1), of "\<lparr>l_db = True\<rparr>" "sbm D" "Some pass"] w(3) by auto
  have ck: "clock_ok w1" using w(2) c(8) by (simp add: clock_ok_def)
  obtain w2 s2 u w3 fo where u: "store_NewUser ?B (sbm D) w1 s n = Ret (w2, s2, Inr u)" "user_Folders ?B w2 u = Ret (w3, Inr fo)"
    "fo_inv ?B ?C w3 fo" "fo_map fo = Map.empty" "u_bucketID (fo_user fo) = userPrefix @ n" "u_masterKey (fo_user fo) = Some key"
    "clock w3 = clock w1" "db_layout ?B (content (wdb w3))" "locked ?B ?C (content (wdb w3)) (Some pass) key"
    "obs ?B (content (wdb w3)) [usersBucket] = Some [n \<mapsto> Some (PutUint64 1)]" "obs ?B (content (wdb w3)) (bc_path n) = Some Map.empty"
    using NewUser_made [OF c(4) ck c(7,5,6) n c(2,3), of "sbm D"] by blast
  let ?E = "udeps_of D"
  have E: "ubox ?E = store_deps L Pc impl ?B ?C" using D(1) by (simp add: udeps_of_def)
  have g: "gen_keys (ukeys ?E) (DefaultStream (unet ?E)) (BehaviorAck (unet ?E)) kmgr (unat g) = Ret k'"
    using k(1) by (simp add: udeps_of_def)
  have t: "km_Names (ukeys ?E) kmgr = Map.empty" "finite (dom (Map.empty :: string \<rightharpoonup> string))"
    using k(2) by (simp_all add: udeps_of_def idmgr_Keys_def Names_def fun_eq_iff)
  have wel: "\<forall>as i. distinct as \<longrightarrow> set as = dom (Map.empty :: string \<rightharpoonup> string) \<longrightarrow>
      (\<exists>enc. storable store_fits (store_deps L Pc impl ?B ?C) (welcome_stored L (clock w3 i) (key_list Map.empty as)) enc)"
    using st by (simp add: key_list_def u(7) c(8) D(1) [symmetric])
  obtain w4 fo4 f enc b as where i: "Initialize ?E (store_Folders ?B) w3 fo kmgr g = Ret (w4, fo4, k', None)"
    "confined ?B (userPrefix @ n) w3 w4" "is_folder fo ''Inbox'' f" "store_inv ?B ?C w4 f" "store_msgs ?B ?C w4 f = [1 \<mapsto> (2, enc)]"
    "decodeBitmessage L Pc enc = Ret (Inr (b, None))" "From b = ''welcome@bm.agent''"
    "Payload b = Some (Encoding2 ''Welcome to bmagent!'' (welcomeMsg (key_list Map.empty as)))" "set as = dom (Map.empty :: string \<rightharpoonup> string)"
    using Initialize_run [OF E D(2) u(3,4) g t wel, unfolded u(5)] by (elim exE conjE) (rule that)
  have w4: "world_ok ?B ?C w4" using i(4) by (simp add: store_inv_def)
  let ?w' = "w4\<lparr>wdb := (wdb w4)\<lparr>opened := False\<rparr>\<rparr>"
  have "create_store D P w fs path n pass kmgr g = Ret (?w', fs1, k', None)"
    using fs c(1) u(1,2) i(1) w4 D(3) by (simp add: create_store_def store_Open_def loader_Close_def db_Close_def world_ok_def)
  moreover have "reopen ?w' = w4" using w4 by (simp add: world_ok_def)
  moreover have "one_user ?B ?C w4 n pass key f enc"
    using w4 i(3-5) u(5,6,8-11) elsewhere_layout [OF i(2)] elsewhere_locked [OF i(2)] elsewhere_obs [OF i(2)]
      user_bucket_neq prefixed_neq
    by (simp add: one_user_def is_folder_def bc_path_def)
  moreover have "welcome_record L Pc enc" using i(6-9) by (simp add: welcome_record_def key_list_def)
  ultimately show ?thesis by (intro exI [of _ ?w'] exI [of _ key] exI [of _ f] exI [of _ enc]) simp
qed

section \<open>Prompts and files\<close>

lemma prompt_confirmed: "TrimSpace l \<noteq> [] \<Longrightarrow> prompt_until True (Inr l # Inr l # con) = (con, Inr (TrimSpace l))"
  by (subst prompt_until.simps) (simp add: Let_def)

lemma prompt_once: "TrimSpace l \<noteq> [] \<Longrightarrow> prompt_until False (Inr l # con) = (con, Inr (TrimSpace l))"
  by (subst prompt_until.simps) (simp add: Let_def)

lemma FromPlaintext_tick:
  assumes "FromPlaintext I J w b = Ret (w', r)"
  shows "\<exists>k. w' = w\<lparr>tick := k\<rparr>"
proof (cases "openDb I J b")
  case (Inl e)
  with assms have "w' = w\<lparr>tick := tick w\<rparr>" by (simp add: FromPlaintext_def)
  then show ?thesis by blast
next
  case (Inr db)
  let ?ord = "name_order w (tick w) (dom (raw_map (raw_IDs db)))"
  obtain x where "sort_ids (raw_map (raw_IDs db)) ?ord [] [] = Ret x"
    using assms Inr by (cases "sort_ids (raw_map (raw_IDs db)) ?ord [] []") (simp_all add: FromPlaintext_def range_names_def)
  with assms Inr have "w' = w\<lparr>tick := Suc (tick w)\<rparr>"
    by (simp add: FromPlaintext_def range_names_def split: prod.splits option.splits)
  then show ?thesis by blast
qed

lemma FromEncrypted_tick:
  assumes "FromEncrypted I J C w enc pass = Ret (w', r)"
  shows "\<exists>k. w' = w\<lparr>tick := k\<rparr>"
proof -
  have "\<exists>k. w = w\<lparr>tick := k\<rparr>" by (rule exI [of _ "tick w"]) simp
  with assms show ?thesis by (auto simp: FromEncrypted_def Let_def split: if_splits option.splits dest: FromPlaintext_tick)
qed

text \<open>A key file that was saved in one world opens in every later one.\<close>

lemma saveKeyfile_opens:
  fixes w :: "'db world"
  assumes "crypto_ok (scrypto D)" "env_ok w" "rnd_live w" "json_ok (sjson D)" "file_writable (ssys D) fs path" "mgr_ok k" "mgr_saved (sident D) k"
  shows "\<exists>t fs' enc t' mgr'. saveKeyfile D w fs k path (Some p) = Ret (w\<lparr>tick := t\<rparr>, fs') \<and> os_ReadFile (ssys D) fs' path = Inr enc \<and>
    FromEncrypted (sident D) (sjson D) (scrypto D) (w\<lparr>tick := t\<rparr>) enc p = Ret (w\<lparr>tick := t'\<rparr>, Inr mgr') \<and> mdb mgr' = mdb k"
proof -
  obtain w1 enc where x: "ExportEncrypted (sident D) (sjson D) (scrypto D) w k p = Ret (w1, Inr enc)" "env_ok w1"
      "\<forall>v :: 'db world. env_ok v \<longrightarrow> (\<exists>v' m'. FromEncrypted (sident D) (sjson D) (scrypto D) v enc p = Ret (v', Inr m') \<and> mdb m' = mdb k \<and> mgr_ok m')"
    using keyfile_saved [of "scrypto D" w "sjson D" k "sident D" p] assms by auto
  obtain t where t: "w1 = w\<lparr>tick := t\<rparr>" using ExportEncrypted_tick [OF x(1)] by blast
  obtain fs' where f: "os_WriteFile (ssys D) fs path enc = (fs', None)" "os_ReadFile (ssys D) fs' path = Inr enc"
    using assms(5) unfolding file_writable_def by blast
  obtain w' m' where m: "FromEncrypted (sident D) (sjson D) (scrypto D) w1 enc p = Ret (w', Inr m')" "mdb m' = mdb k"
    using x(2,3) by blast
  obtain t' where "w' = w1\<lparr>tick := t'\<rparr>" using FromEncrypted_tick [OF m(1)] by blast
  then have t': "w' = w\<lparr>tick := t'\<rparr>" using t by simp
  have "saveKeyfile D w fs k path (Some p) = Ret (w1, fs')" using x(1) f(1) by (simp add: saveKeyfile_def)
  with f(2) m t t' show ?thesis
    by (intro exI [of _ t] exI [of _ fs'] exI [of _ enc] exI [of _ t'] exI [of _ m']) simp
qed

section \<open>From creation to the first start\<close>

text \<open>Opening the databases of one user, when the key file opens with the passphrase that is typed first.\<close>

lemma open_made:
  fixes D :: "('db, 'k, 'b, 'c, 'o, 'a, 'p, 'q, 't, 'n, 'y, 'e, 'f, 'v) sdeps"
  assumes s: "os_ReadFile (ssys D) fs (keyfilePath cfg) = Inr kf"
      "FromEncrypted (sident D) (sjson D) (scrypto D) (w\<lparr>tick := t\<rparr>) kf (TrimSpace lk) = Ret (w\<lparr>tick := t'\<rparr>, Inr mgr')"
    and one: "one_user (sbolt D) (scrypto D) (reopen w) n (TrimSpace ls) key f enc"
    and cfg: "\<not> NoPass cfg" "\<not> system_name n" and pass: "TrimSpace ls \<noteq> []" "TrimSpace lk \<noteq> []"
    and fs: "\<And>fs. snd (bolt_Open P fs (storePath cfg)) = None"
  shows "\<exists>w'' fs' st. openDatabases D P (w\<lparr>tick := t\<rparr>) fs (Inr lk # Inr ls # con) cfg =
      Ret (w'', fs', con, cfg\<lparr>keyfilePass := Some (TrimSpace lk)\<rparr>, Inr (mgr', Some st)) \<and>
    s_users st = [n \<mapsto> newUser (s_masterKey st) (userPrefix @ n) n \<lparr>b_username = n, addrs = []\<rparr>] \<and> s_masterKey st = Some key \<and>
    store_inv (sbolt D) (scrypto D) w'' f \<and> store_msgs (sbolt D) (scrypto D) w'' f = [1 \<mapsto> (2, enc)]"
proof -
  let ?B = "sbolt D" and ?C = "scrypto D" and ?sp = "TrimSpace ls"
  have r: "world_ok ?B ?C (reopen w)" "db_layout ?B (content (wdb w))" "locked ?B ?C (content (wdb w)) (Some ?sp) key"
      "obs ?B (content (wdb w)) [usersBucket] = Some [n \<mapsto> Some (PutUint64 1)]" "obs ?B (content (wdb w)) (bc_path n) = Some Map.empty"
      "store_inv ?B ?C (reopen w) f" "store_msgs ?B ?C (reopen w) f = [1 \<mapsto> (2, enc)]"
    using one by (simp_all add: one_user_def)
  obtain fs3 where o3: "bolt_Open P fs (storePath cfg) = (fs3, None)" using fs [of fs] by (cases "bolt_Open P fs (storePath cfg)") simp
  let ?v = "reopen (w\<lparr>tick := t'\<rparr>)"
  have v: "world_ok ?B ?C ?v" "wdb ?v = wdb (reopen w)" using r(1) by (simp_all add: world_ok_def env_ok_def rnd_live_def)
  have pk: "n \<noteq> pkRequestsBucket" using cfg(2) by (auto simp: system_name_def)
  obtain tx and st :: "'a Store" where x: "Construct ?B ?C (sbm D) ?v \<lparr>l_db = True\<rparr> (Some ?sp) = Ret (?v\<lparr>wdb := (wdb ?v)\<lparr>content := tx\<rparr>\<rparr>, \<lparr>l_db = True\<rparr>, Inr st)"
      "st = \<lparr>s_masterKey = Some key, s_users = [n \<mapsto> newUser (Some key) (userPrefix @ n) n \<lparr>b_username = n, addrs = []\<rparr>]\<rparr>"
      "\<forall>p. p \<noteq> [] \<longrightarrow> p \<noteq> [pkRequestsBucket] \<longrightarrow> obs ?B tx p = obs ?B (content (wdb ?v)) p"
    using Construct_one_user [OF v(1), of "\<lparr>l_db = True\<rparr>" "Some ?sp" key n "Some (PutUint64 1)" "sbm D"] r(2-5) pk v(2) by auto
  let ?w'' = "?v\<lparr>wdb := (wdb ?v)\<lparr>content := tx\<rparr>\<rparr>"
  have op: "openDatabases D P (w\<lparr>tick := t\<rparr>) fs (Inr lk # Inr ls # con) cfg =
      Ret (?w'', fs3, con, cfg\<lparr>keyfilePass := Some (TrimSpace lk)\<rparr>, Inr (mgr', Some st))"
    using s cfg(1) o3 x(1) prompt_once pass
    by (simp add: openDatabases_def open_keyfile_def open_store_def store_Open_def promptKeyfilePassPhrase_def promptStorePassPhrase_def)
  have "world_ok ?B ?C ?w''" using v(1) by (simp add: world_ok_def env_ok_def rnd_live_def)
  then have "store_inv ?B ?C ?w'' f \<and> store_msgs ?B ?C ?w'' f = store_msgs ?B ?C (reopen w) f"
    by (rule store_inv_content [OF r(6)]) (use x(3) v(2) in simp)
  with op x(2) r(7) show ?thesis by (intro exI [of _ ?w''] exI [of _ fs3] exI [of _ st]) simp
qed

text \<open>
  C36. The files that \<open>--create\<close> makes are those that the program opens at its next start: the passphrase for the data store is
  asked first when they are created, and second when they are opened, and with the same two passphrases the key manager
  that is loaded has the master key and the identities that were generated, the data store has the one user that was named,
  and the inbox of that user holds one record, under the id 1, which decodes to the welcome message.  That message lists no
  address, since it is written before the first keys are generated.
\<close>

theorem created_databases_open:
  fixes D :: "('db, 'k, 'b, 'c, 'o, 'a, 'p, 'q, 't, 'n, 'y, 'e, 'f, 'v) sdeps"
  assumes D: "sbox D = store_deps L Pc impl (sbolt D) (scrypto D)" "flags_ok L" "\<And>c. CloseFile (sbolt D) c = None"
      "json_ok (sjson D)" "file_writable (ssys D) (fst (bolt_Open P fs (storePath cfg))) (keyfilePath cfg)"
    and w: "world_ok (sbolt D) (scrypto D) (reopen w)" "clock_ok w" "obs (sbolt D) (content (wdb w)) [] = Some Map.empty"
    and n: "Username cfg \<noteq> []" "length (userPrefix @ Username cfg) \<le> MaxKeySize" "\<not> system_name (Username cfg)"
    and cfg: "\<not> NoPass cfg" "Seed cfg \<noteq> []" "hex_DecodeString (Seed cfg) = Inr seed"
    and k: "idmgr_New (sident D) seed = Inr kmgr"
      "gen_keys (idmgr_Keys (sident D)) (DefaultStream (snet D)) (BehaviorAck (snet D)) kmgr (unat (scast (GenKeys cfg) :: u32)) = Ret k'"
      "mgr_ok k'" "mgr_saved (sident D) k'"
    and st: "\<And>i. \<exists>enc. storable store_fits (sbox D) (welcome_stored L (clock w i) '''') enc"
    and fs: "\<And>fs. snd (bolt_Open P fs (storePath cfg)) = None"
    and pass: "TrimSpace ls \<noteq> []" "TrimSpace lk \<noteq> []"
  shows "\<exists>w' fs' w'' fs'' mgr' st f enc b.
    createDatabases D P w fs (Inr ls # Inr ls # Inr lk # Inr lk # con) cfg = Ret (w', fs', con, cfg, None) \<and>
    openDatabases D P w' fs' (Inr lk # Inr ls # con') cfg =
      Ret (w'', fs'', con', cfg\<lparr>keyfilePass := Some (TrimSpace lk)\<rparr>, Inr (mgr', Some st)) \<and>
    mdb mgr' = mdb k' \<and>
    s_users st = [Username cfg \<mapsto> newUser (s_masterKey st) (userPrefix @ Username cfg) (Username cfg) \<lparr>b_username = Username cfg, addrs = []\<rparr>] \<and>
    f_userID f = userPrefix @ Username cfg \<and> f_name f = ''Inbox'' \<and> f_masterKey f = s_masterKey st \<and>
    store_inv (sbolt D) (scrypto D) w'' f \<and> store_msgs (sbolt D) (scrypto D) w'' f = [1 \<mapsto> (2, enc)] \<and>
    decodeBitmessage L Pc enc = Ret (Inr (b, None)) \<and> From b = ''welcome@bm.agent'' \<and>
    Payload b = Some (Encoding2 ''Welcome to bmagent!'' (welcomeMsg ''''))"
proof -
  let ?B = "sbolt D" and ?C = "scrypto D" and ?n = "Username cfg" and ?sp = "TrimSpace ls" and ?kp = "TrimSpace lk"
  obtain fs1 where o: "bolt_Open P fs (storePath cfg) = (fs1, None)" using fs [of fs] by (cases "bolt_Open P fs (storePath cfg)") simp
  have "ids_map kmgr = Map.empty" using k(1) by (auto simp: idmgr_New_def ids_map_def newDb_def split: sum.splits elim!: sum_bind.elims)
  from create_store_made [OF D(1-3) w n k(2) this st o, of ?sp] obtain w1 key f enc where
    c: "create_store D P w fs (storePath cfg) ?n ?sp kmgr (scast (GenKeys cfg)) = Ret (w1, fs1, k', None)"
      "one_user ?B ?C (reopen w1) ?n ?sp key f enc" "welcome_record L Pc enc"
    by blast
  obtain b where b: "decodeBitmessage L Pc enc = Ret (Inr (b, None))" "From b = ''welcome@bm.agent''"
      "Payload b = Some (Encoding2 ''Welcome to bmagent!'' (welcomeMsg ''''))" using c(3) by (auto simp: welcome_record_def)
  have r1: "world_ok ?B ?C (reopen w1)" "f_userID f = userPrefix @ ?n" "f_name f = ''Inbox''" "f_masterKey f = Some key"
    using c(2) by (simp_all add: one_user_def)
  have e: "crypto_ok ?C" "env_ok w1" "rnd_live w1" using r1(1) by (simp_all add: world_ok_def env_ok_def rnd_live_def)
  have fw: "file_writable (ssys D) fs1 (keyfilePath cfg)" using D(5) o by simp
  obtain t fs2 kf t' mgr' where s: "saveKeyfile D w1 fs1 k' (keyfilePath cfg) (Some ?kp) = Ret (w1\<lparr>tick := t\<rparr>, fs2)"
      "os_ReadFile (ssys D) fs2 (keyfilePath cfg) = Inr kf"
      "FromEncrypted (sident D) (sjson D) ?C (w1\<lparr>tick := t\<rparr>) kf ?kp = Ret (w1\<lparr>tick := t'\<rparr>, Inr mgr')" "mdb mgr' = mdb k'"
    using saveKeyfile_opens [OF e D(4) fw k(3,4)] by blast
  have "cfg\<lparr>Username := ?n\<rparr> = cfg" by simp
  then have cr: "createDatabases D P w fs (Inr ls # Inr ls # Inr lk # Inr lk # con) cfg = Ret (w1\<lparr>tick := t\<rparr>, fs2, con, cfg, None)"
    using n(1) cfg k(1) c(1) s(1) prompt_confirmed pass by (simp add: createDatabases_def Let_def)
  from open_made [OF s(2,3) c(2) cfg(1) n(3) pass fs, of con'] obtain w'' fs3 st where
    "openDatabases D P (w1\<lparr>tick := t\<rparr>) fs2 (Inr lk # Inr ls # con') cfg = Ret (w'', fs3, con', cfg\<lparr>keyfilePass := Some ?kp\<rparr>, Inr (mgr', Some st))"
    "s_users st = [?n \<mapsto> newUser (s_masterKey st) (userPrefix @ ?n) ?n \<lparr>b_username = ?n, addrs = []\<rparr>]" "s_masterKey st = Some key"
    "store_inv ?B ?C w'' f" "store_msgs ?B ?C w'' f = [1 \<mapsto> (2, enc)]"
    by blast
  with cr s(4) r1(2-4) b show ?thesis
    by (intro exI [of _ "w1\<lparr>tick := t\<rparr>"] exI [of _ fs2] exI [of _ w''] exI [of _ fs3] exI [of _ mgr'] exI [of _ st] exI [of _ f] exI [of _ enc] exI [of _ b]) simp
qed

section \<open>A first start\<close>

text \<open>An empty database file, the user bob with a seed of 16 zero bytes, and one key.\<close>

definition new_pb :: pb_Message where
  "new_pb = welcome_pb\<lparr>pb_Encoding := Some \<lparr>pb_Format = 2, pb_Subject = Some ''Welcome to bmagent!'', pb_Body = Some (welcomeMsg '''')\<rparr>\<rparr>"

definition new_deps where
  "new_deps = srv_deps\<lparr>sbox := store_deps ref_mail (table_codec [new_pb]) (\<lambda>_. 0) ref_bolt ref_crypto\<rparr>"

definition new_setup :: "(refdb, disk, unit) setuplib" where
  "new_setup =
     \<lparr>bolt_Open = (\<lambda>fs p. (fs(p \<mapsto> Some []), None)), GenerateSeed = (\<lambda>w n. (w, Inr (replicate n (CHR 0x00)))),
      RecommendedSeedLen = 32, MinSeedBytes = 16, MaxSeedBytes = 64, ini_Load = (\<lambda>_. Inl (ErrExt ''ini'')),
      newConfigParser = (\<lambda>_ _ _. ()), ParseArgs = (\<lambda>g c as. (g, c, Inr as)), ParseFile = (\<lambda>_ g c _. (g, c, None)),
      is_PathError = (\<lambda>_. False)\<rparr>"

definition new_cfg :: agent_Config where
  "new_cfg = bob_cfg\<lparr>Seed := ''00000000000000000000000000000000'', NoPass := False, GenKeys := 1,
     storePath := ''store.db'', keyfilePath := ''keys.dat''\<rparr>"

definition new_keys :: "(string, ref_id) Manager" where
  "new_keys = \<lparr>mdb = newDb ''xprv'' latestFileVersion, importedIDs = [], derivedIDs = []\<rparr>"

definition new_key :: "ref_id PrivateID" where
  "new_key = \<lparr>Private = Some ((''BM-xprv0'', ''sxprv0'', ''dxprv0''), 1, \<lparr>NonceTrialsPerByte = 1000, ExtraBytes = 1000\<rparr>),
     IsChan = False, Disabled = False, Imported = False, Name = ''''\<rparr>"

definition made_keys :: "(string, ref_id) Manager" where
  "made_keys = \<lparr>mdb = \<lparr>Version = latestFileVersion, MasterKey = Some ''xprv'', NewIDIndex = 1, IDs = Some [''BM-xprv0'' \<mapsto> new_key]\<rparr>,
     importedIDs = [], derivedIDs = [''BM-xprv0'']\<rparr>"

lemma new_seed: "hex_DecodeString (Seed new_cfg) = Inr (replicate 16 (CHR 0x00))"
  by (simp add: new_cfg_def hex_DecodeString_def hex_digit_def numeral_eq_Suc char_of_def)

lemma new_manager: "idmgr_New ref_identity (replicate 16 (CHR 0x00)) = Inr new_keys"
  by (simp add: idmgr_New_def new_keys_def ref_identity_def)

lemma made_keys:
  "gen_keys (idmgr_Keys ref_identity) (DefaultStream ref_net) (BehaviorAck ref_net) new_keys 1 = Ret made_keys"
proof -
  have d: "derive_loop ref_identity ''xprv'' 0 1 0 = Some (''xprv'' @ fmt_d 0, 1)"
    by (subst derive_loop.simps) (simp add: ref_identity_def)
  have z: "fmt_d 0 = ''0''" by (simp add: fmt_d.simps char_of_def bit_0)
  show ?thesis
    by (simp add: idmgr_Keys_def NewUnnamed_def mgr_New_def new_keys_def newDb_def d z ref_net_def address_String_def pid_Address_def
        made_keys_def new_key_def Let_def) (simp add: ref_identity_def fun_eq_iff)
qed

lemma made_keys_ok: "mgr_ok made_keys" "mgr_saved ref_identity made_keys"
  by (auto simp: mgr_ok_def mgr_saved_def made_keys_def ids_map_def latestFileVersion_def new_key_def ref_identity_def saved_ok_def
      ascii_def split: if_splits)

lemma new_storable:
  "storable store_fits (sbox new_deps) (welcome_stored ref_mail (clock (ref_world ref_empty) i) '''') (be 4 0)"
proof -
  let ?m = "welcome_stored ref_mail (clock (ref_world ref_empty) i) ''''"
  have c: "clock (ref_world ref_empty) i = \<lparr>t_sec = 0, t_nsec = 0, t_zone = None\<rparr>" by (simp add: ref_world_def ref_env_def)
  have "times_ok ref_mail ?m"
    by (simp add: c times_ok_def welcome_stored_def welcome_bmail_def dated_ref zero_time_def new_state_def)
  moreover have "serializeBitmessage ref_mail (table_codec [new_pb]) ?m None = Ret (Inr (be 4 0))"
    by (simp add: c welcome_stored_def welcome_bmail_def zero_time_def new_state_def serializeBitmessage_def table_codec_def new_pb_def
        welcome_pb_def position_def ref_mail_def Let_def)
  moreover have "codec_ok (table_codec [new_pb])" by (rule codec_ok_table) simp
  moreover have "has_body ?m" using welcomeMsg_nonempty by (simp add: has_body_def welcome_stored_def welcome_bmail_def)
  ultimately show ?thesis
    using demo_fits [of "be 4 0"] by (simp add: new_deps_def storable_def store_deps_def welcome_stored_def welcome_bmail_def)
qed

lemma trimmed: "TrimSpace (''secret'' @ [CHR 0x0A]) = ''secret''" "TrimSpace (''hidden'' @ [CHR 0x0A]) = ''hidden''"
  by (simp_all add: TrimSpace_def trim_front.simps unicode_spaces_def)

lemma new_deps_simps [simp]: "sbolt new_deps = ref_bolt" "scrypto new_deps = ref_crypto" "sident new_deps = ref_identity"
  "sjson new_deps = ref_json" "snet new_deps = ref_net" "ssys new_deps = ref_sys"
  by (simp_all add: new_deps_def)

lemma new_world: "world_ok ref_bolt ref_crypto (reopen (ref_world ref_empty))" "clock_ok (ref_world ref_empty)"
  using ref_world_ok [of ref_empty] pk_demo_clock by (simp_all add: world_ok_def env_ok_def rnd_live_def clock_ok_def)

theorem created_databases_open_witness:
  "\<exists>w' fs' w'' fs'' mgr' st f enc b.
    createDatabases new_deps new_setup (ref_world ref_empty) Map.empty
      (map Inr [''secret'' @ [CHR 0x0A], ''secret'' @ [CHR 0x0A], ''hidden'' @ [CHR 0x0A], ''hidden'' @ [CHR 0x0A]]) new_cfg =
      Ret (w', fs', [], new_cfg, None) \<and>
    openDatabases new_deps new_setup w' fs' (map Inr [''hidden'' @ [CHR 0x0A], ''secret'' @ [CHR 0x0A]]) new_cfg =
      Ret (w'', fs'', [], new_cfg\<lparr>keyfilePass := Some ''hidden''\<rparr>, Inr (mgr', Some st)) \<and>
    mdb mgr' = mdb made_keys \<and> dom (s_users st) = {''bob''} \<and> f_userID f = ''user:bob'' \<and> f_name f = ''Inbox'' \<and>
    store_msgs ref_bolt ref_crypto w'' f = [1 \<mapsto> (2, enc)] \<and> decodeBitmessage ref_mail (table_codec [new_pb]) enc = Ret (Inr (b, None)) \<and>
    Payload b = Some (Encoding2 ''Welcome to bmagent!'' (welcomeMsg ''''))"
proof -
  let ?s = "''secret'' @ [CHR 0x0A]" and ?k = "''hidden'' @ [CHR 0x0A]"
  have b: "sbox new_deps = store_deps ref_mail (table_codec [new_pb]) (\<lambda>_. 0) (sbolt new_deps) (scrypto new_deps)"
    by (simp add: new_deps_def)
  have cl: "CloseFile (sbolt new_deps) c = None" for c by (simp add: ref_bolt_def)
  have u: "Username new_cfg = ''bob''" "\<not> NoPass new_cfg" "Seed new_cfg \<noteq> []" "unat (scast (GenKeys new_cfg) :: u32) = 1"
    by (simp_all add: new_cfg_def bob_cfg_def)
  have n: "Username new_cfg \<noteq> []" "length (userPrefix @ Username new_cfg) \<le> MaxKeySize" "\<not> system_name (Username new_cfg)"
    by (simp_all add: u(1) userPrefix_def MaxKeySize_def system_name_def miscBucket_def usersBucket_def pkRequestsBucket_def)
  have w: "world_ok (sbolt new_deps) (scrypto new_deps) (reopen (ref_world ref_empty))"
    "obs (sbolt new_deps) (content (wdb (ref_world ref_empty))) [] = Some Map.empty"
    "json_ok (sjson new_deps)"
    using new_world(1) ref_empty_obs json_ok_ref by simp_all
  have fw: "file_writable (ssys new_deps) g p" for g p using file_writable_ref by simp
  have k: "idmgr_New (sident new_deps) (replicate 16 (CHR 0x00)) = Inr new_keys"
    "gen_keys (idmgr_Keys (sident new_deps)) (DefaultStream (snet new_deps)) (BehaviorAck (snet new_deps)) new_keys (unat (scast (GenKeys new_cfg) :: u32)) = Ret made_keys"
    "mgr_ok made_keys" "mgr_saved (sident new_deps) made_keys"
    unfolding u(4) using new_manager made_keys made_keys_ok by simp_all
  have st: "\<exists>enc. storable store_fits (sbox new_deps) (welcome_stored ref_mail (clock (ref_world ref_empty) i) '''') enc" for i
    using new_storable by blast
  have fs: "snd (bolt_Open new_setup fs (storePath new_cfg)) = None" for fs by (simp add: new_setup_def)
  have p: "TrimSpace ?s \<noteq> []" "TrimSpace ?k \<noteq> []" by (simp_all only: trimmed) simp_all
  obtain w' fs' w'' fs'' mgr' and s :: "string Store" and f enc b where
    r: "createDatabases new_deps new_setup (ref_world ref_empty) Map.empty (Inr ?s # Inr ?s # Inr ?k # Inr ?k # []) new_cfg = Ret (w', fs', [], new_cfg, None)"
      "openDatabases new_deps new_setup w' fs' (Inr ?k # Inr ?s # []) new_cfg = Ret (w'', fs'', [], new_cfg\<lparr>keyfilePass := Some (TrimSpace ?k)\<rparr>, Inr (mgr', Some s))"
      "mdb mgr' = mdb made_keys" "s_users s = [''bob'' \<mapsto> newUser (s_masterKey s) (userPrefix @ ''bob'') ''bob'' \<lparr>b_username = ''bob'', addrs = []\<rparr>]"
      "f_userID f = userPrefix @ ''bob''" "f_name f = ''Inbox''" "store_msgs (sbolt new_deps) (scrypto new_deps) w'' f = [1 \<mapsto> (2, enc)]"
      "decodeBitmessage ref_mail (table_codec [new_pb]) enc = Ret (Inr (b, None))"
      "Payload b = Some (Encoding2 ''Welcome to bmagent!'' (welcomeMsg ''''))"
    using created_databases_open [OF b ref_flags_ok cl w(3) fw w(1) new_world(2) w(2) n u(2,3) new_seed k st fs p, of Map.empty "[]" "[]", unfolded u(1)]
    by (elim exE conjE) (rule that)
  have "dom (s_users s) = {''bob''}" "f_userID f = ''user:bob''" using r(4,5) by (simp_all add: userPrefix_def)
  moreover note r(1,2) [unfolded trimmed] r(3,6) r(7) [unfolded new_deps_simps] r(8,9)
  ultimately show ?thesis unfolding list.map by (intro exI conjI)
qed

end
