(* ===== verification/Spec2Isabelle.thy ===== *)
theory Spec2Isabelle
  imports Server_Contract Dbsetup_Correct
begin

text \<open>
  A verification development for bmagent, an agent between e-mail clients and the Bitmessage network.  The source is Go,
  under \<^verbatim>\<open>src/\<close>.

  \<^bold>\<open>The program.\<close>  A user's e-mail client talks SMTP and IMAP to the agent (\<^verbatim>\<open>src/user\<close>).  A received e-mail is turned
  into a Bitmessage (\<^verbatim>\<open>src/user/email\<close>) and kept in a mailbox, which caches uids and counters over a folder of encrypted
  records in a BoltDB database (\<^verbatim>\<open>src/store\<close>).  To send it, the user asks the server (\<^verbatim>\<open>src/server.go\<close>,
  \<^verbatim>\<open>src/serverops.go\<close>) for the recipient's public key; the object that is made of it passes through a queue for its proof
  of work (\<^verbatim>\<open>src/powmgr\<close>) and goes to the node bmd (\<^verbatim>\<open>src/bmrpc\<close>).  Objects that arrive from bmd are tried with the private
  identities of the key manager (\<^verbatim>\<open>src/idmgr\<close>), and delivered or answered.  Commands come by e-mail, or by RPC from a client
  program (\<^verbatim>\<open>src/cmd\<close>).  The rest of package main reads the configuration, creates and opens the files, and handles
  interrupts.

  \<^bold>\<open>How Go is modelled.\<close>  A call has an outcome of type \<open>go\<close>: it returns (\<open>Ret\<close>), panics (\<open>Panic\<close>) or waits forever on a lock
  that its own goroutine holds (\<open>Block\<close>).  Errors are values of the type \<open>error\<close>, results with an error are sums.  Structs are
  records, pointers that are shared are addresses of a heap (\<open>fo_heap\<close> for the folders of a user, the nodes of the queue),
  nil is \<open>None\<close>.  Unsigned integers are words (\<open>u16\<close>, \<open>u32\<close>, \<open>u64\<close>) where they are stored, compared or wrap; \<open>float64\<close> is the
  rounding of rational numbers.  The clock, the source of random bytes and the order in which a range over a map takes the
  keys are functions of a counter in the environment (\<open>env\<close>) which every use advances; the database belongs to the \<open>world\<close>.

  \<^bold>\<open>Theories.\<close>
  \<^item> \<open>Prelude\<close>: outcomes, errors, words, byte strings, big-endian numbers, and the lemmas on lists and maps that are shared.
    \<open>Golib\<close>, \<open>Net_Path\<close>, \<open>Float64\<close>: what is used of the Go standard library: \<open>time.Time\<close>, \<open>strconv\<close>, ranges over maps, \<open>net\<close>,
    \<open>path/filepath\<close>, floating point.
  \<^item> \<open>Bolt\<close>, \<open>Crypt\<close>, \<open>Bmutil\<close>, \<open>World\<close>: the parameters for BoltDB, secretbox and PBKDF2, and the addresses of bmutil, with their
    documented laws, and \<open>db.Update\<close> and \<open>db.View\<close> as transactions that are rolled back on an error.  \<open>Ref_Bolt\<close> and \<open>Ref_Json\<close>
    are executable instances for the witnesses.
  \<^item> \<open>Folder_Spec\<close>, \<open>Mem_Folder\<close>: \<^verbatim>\<open>src/store/data/folder.go\<close>, the interface of folders with its contract, and the folders
    in memory.  \<open>Store_Folder\<close>, \<open>Store_Folders\<close>: \<^verbatim>\<open>src/store/folder.go\<close> and \<^verbatim>\<open>src/store/user.go\<close>.  \<open>PK_Requests\<close>,
    \<open>Broadcasts\<close>, \<open>Store_DB\<close>: \<^verbatim>\<open>src/store/pkrequests.go\<close>, \<^verbatim>\<open>broadcasts.go\<close>, \<^verbatim>\<open>db.go\<close>.  \<open>Confined\<close>: what the operations on a
    user's folders leave alone.
  \<^item> \<open>Content_Type\<close>, \<open>Email\<close>: \<^verbatim>\<open>src/user/email\<close>.  \<open>Bmail_Codec\<close>: \<^verbatim>\<open>src/user/bmail.go\<close>.  \<open>Sequence\<close>, \<open>Mailbox\<close>,
    \<open>Mailbox_Correct\<close>: \<^verbatim>\<open>src/user/mailbox.go\<close>.  \<open>User\<close>, \<open>User_Correct\<close>, \<open>User_Open\<close>, \<open>User_Sending\<close>: \<^verbatim>\<open>src/user/user.go\<close>,
    \<^verbatim>\<open>process.go\<close>, \<^verbatim>\<open>serverops.go\<close>, \<^verbatim>\<open>command.go\<close>, \<^verbatim>\<open>defaults.go\<close>; \<open>User_Demo\<close> is a user for the witnesses.  \<open>Mail_Server\<close>,
    \<open>Mail_Server_Correct\<close>: \<^verbatim>\<open>imap.go\<close> and \<^verbatim>\<open>smtp.go\<close>.
  \<^item> \<open>Keys\<close>, \<open>Idmgr\<close>, \<open>Idmgr_Correct\<close>: \<^verbatim>\<open>src/idmgr\<close>.  \<open>Pow_Queue\<close>: \<^verbatim>\<open>src/powmgr/pow.go\<close>.  \<open>Cmd\<close>, \<open>Cmd_Correct\<close>: \<^verbatim>\<open>src/cmd\<close>.
    \<open>Bmrpc\<close>: \<^verbatim>\<open>src/bmrpc/client.go\<close>.
  \<^item> \<open>Configuration\<close>, \<open>Configuration_Correct\<close>: \<^verbatim>\<open>src/config.go\<close> and \<^verbatim>\<open>src/log.go\<close>.  \<open>Signal\<close>: \<^verbatim>\<open>src/signal.go\<close> and
    \<^verbatim>\<open>src/version.go\<close>.  \<open>Server\<close>, \<open>Server_Correct\<close>, \<open>Server_Objects\<close>, \<open>Server_Saving\<close>, \<open>Server_Contract\<close>: \<^verbatim>\<open>src/server.go\<close>,
    \<^verbatim>\<open>src/serverops.go\<close>, \<^verbatim>\<open>src/user.go\<close>.  \<open>Dbsetup\<close>, \<open>Dbsetup_Correct\<close>: \<^verbatim>\<open>src/dbsetup.go\<close>, \<^verbatim>\<open>src/bmagent.go\<close> and the loading
    of the configuration.

  Definitions have the names of the Go functions, with a prefix where a name occurs in several packages (\<open>store_\<close>, \<open>mem_\<close>,
  \<open>folders_\<close>, \<open>mgr_\<close>, \<open>pk_\<close>, \<open>broadcast_\<close>, \<open>server_\<close>, \<open>client_\<close>).  The body of a closure or of a loop is a definition of its own
  in lower case.

  \<^bold>\<open>Interfaces.\<close>  The locale \<open>folder\<close> states what an implementation of \<open>data.Folder\<close> promises; \<open>ordered_folder\<close> adds that the
  messages are visited in the order of their ids, and \<open>last_folder\<close> that the highest ids are exact.  \<open>memFolder\<close> is a
  \<open>last_folder\<close> but not ordered, the folder in the database is an \<open>ordered_folder\<close> whose highest ids per suffix are not
  exact.  Mailboxes are verified in \<open>mail_client\<close> over any \<open>ordered_folder\<close>, and sending in its extension \<open>mail_store\<close>; both
  are interpreted on the database.  \<open>folder_set\<close> is the contract of a set of folders, kept by \<open>memFolders\<close> and by the folders
  of a user; \<open>fifo\<close> that of the queue; \<open>key_manager\<close> what users rely on of the key manager; \<open>server_contract\<close> what users
  rely on of the server.

  \<^bold>\<open>What is shown.\<close>
  \<^item> Storage: what is inserted is read back, deletion and iteration are exact, other folders and users are not touched, and a
    message that does not fit or an id that is not allowed changes nothing; a database opens with its passphrase,
    also after the passphrase is changed, and with none whose key does not open the box of the master key; the counters and requests are kept.
  \<^item> Mailboxes: the cached uids and counters agree with the folder under every operation.  The interpolation search for a
    sequence number terminates and is right as long as the number of uids times their spread is below \<open>2\<^sup>5\<^sup>3\<close>, which keeps the
    computation in \<open>float64\<close> exact enough; far above it the loop does not end (\<open>GetSequenceNumber_diverges\<close>).
  \<^item> Messages: the round trips of the stored form and of e-mails, with what they lose; which e-mails are accepted.
  \<^item> Keys: the invariant of the key manager under every sequence of calls, with what each call of \<open>New\<close> that replaces an identity
    takes from it; key files are read back; which imported keys are added.
  \<^item> Queue: the linked list refines a list under every sequence of calls, and no order is worked on twice under any interleaving of callers and worker.
  \<^item> Commands: which command lines are accepted; the client over RPC does what local execution does, up to a parameter that
    is not sent.
  \<^item> Users and server: what becomes of a message from the time it is handed over by SMTP until it is acknowledged, of a stream of
    messages from the network, and of requests for keys in both directions; counting, saving and stopping.
  \<^item> Start: an accepted configuration is safe, which addresses are made well formed; the files that are created are those that open
    at the next start; interrupts.

  Behaviour that the source does not intend is stated as it is: the sending user that \<open>NewUser\<close> makes panics, the queue drops
  every second order (\<open>work_drops_every_other\<close>), \<open>PrivateID.Public\<close> calls itself, \<open>Rename\<close> of a folder waits for its own lock,
  a received broadcast panics, and others.

  \<^bold>\<open>Loops.\<close>  Loops that may run forever are partial functions into \<open>option\<close>, where \<open>None\<close> means that the loop does not end:
  \<open>seq_loop\<close>, \<open>derive_loop\<close>, \<open>work_loop\<close> and \<open>pid_Public\<close>; that they return is proved where it holds.  Every other loop is a total
  function; there is no fuel.  Goroutines that wait for events are functions or step relations of the list of events
  (the interrupt handlers they call return), and
  the console is the list of the lines typed, after which it reports the end of the file.

  \<^bold>\<open>Parameters.\<close>  What is not in the repository is a record of functions: \<open>bolt\<close> (BoltDB; \<open>bolt_ok\<close>: its documented operations,
  \<open>bolt_live\<close>: writes within the limits succeed), \<open>crypto\<close> (\<open>crypto_ok\<close>: a sealed box opens with its key), \<open>identity\<close>
  (bmutil and hdkeychain; \<open>canonical_ini\<close>: the addresses of a key file
  are those that bmutil prints), \<open>jsonlib\<close> (\<open>json_ok\<close>: printed values parse), \<open>codec\<close> (protocol buffers and wire objects;
  \<open>codec_ok\<close>), \<open>mail_lib\<close> (net/mail, dates, IMAP flags; \<open>flags_ok\<close>), \<open>bmutil\<close> (\<open>bmutil_ok\<close>), \<open>netlib\<close>, \<open>objlib\<close> (object formats;
  \<open>types_ok\<close>: object types have different numbers), \<open>bmdlib\<close> (gRPC), \<open>sys\<close> (files, resolver; \<open>file_writable\<close>: a given
  file can be written and is read back) and \<open>setuplib\<close> (option and ini parsers, seeds).  Witnesses instantiate them.

  \<^bold>\<open>Not modelled.\<close>  Mutexes other than where they block, since the calls on a structure are sequential in the model (the queue
  and the interrupts are interleaved explicitly); wait groups and the closing of channels beyond a flag; listening for SMTP, IMAP
  and RPC connections, TLS certificates and the profile server, which are input and output; log output with the package
  variables that hold the loggers; the code that protoc generates in \<^verbatim>\<open>src/cmd/rpc/rpc.pb.go\<close>, of which only the message
  types are used; console output; tests and build files.
\<close>

end
